(* ===== verification/Float32.thy ===== *)
theory Float32
  imports Prelude
begin

text \<open>
  Rust's \<^verbatim>\<open>f32\<close> (IEEE 754 binary32, rounding to nearest, ties to even), exactly.  A finite
  value is an integer number of units of \<open>2 ^ -149\<close>, the smallest positive value, so sums,
  differences and comparisons are integer arithmetic followed by one rounding to 24
  significant bits.  The two zeros are one value: no code modelled here tells them apart.
  A \<^verbatim>\<open>u64\<close> cast through \<^verbatim>\<open>f64\<close> is first rounded to 53 bits, as the cast does.
\<close>

section \<open>Rounding\<close>

datatype f32 = NaN | Inf bool \<comment> \<open>\<open>True\<close>: negative infinity\<close> | Fin int

definition rhe :: "nat \<Rightarrow> nat \<Rightarrow> nat" where
  "rhe p d = (let q = p div d; r = p mod d
     in if 2 * r < d \<or> (2 * r = d \<and> even q) then q else Suc q)"

fun bits_of :: "nat \<Rightarrow> nat" where
  "bits_of n = (if n = 0 then 0 else Suc (bits_of (n div 2)))"

declare bits_of.simps [simp del]

definition rnd_to :: "nat \<Rightarrow> nat \<Rightarrow> nat" where
  "rnd_to prec n = (let e = bits_of n - prec in rhe n (2 ^ e) * 2 ^ e)"

definition rnd_frac :: "nat \<Rightarrow> nat \<Rightarrow> nat" where
  "rnd_frac p q = (let e = bits_of (p div q) - 24 in rhe p (q * 2 ^ e) * 2 ^ e)"

definition f32_unit :: int where
  "f32_unit = 2 ^ 149"

definition f32_pack :: "bool \<Rightarrow> nat \<Rightarrow> f32" where
  "f32_pack neg m =
     (if 2 ^ 277 \<le> m then Inf neg else Fin (if neg then - int m else int m))"

definition f32_round :: "int \<Rightarrow> f32" where
  "f32_round n = f32_pack (n < 0) (rnd_to 24 (nat \<bar>n\<bar>))"

text \<open>The value \<open>p / q\<close>, correctly rounded: a decimal literal of the source.\<close>

definition f32_lit :: "nat \<Rightarrow> nat \<Rightarrow> f32" where
  "f32_lit p q = f32_pack False (rnd_frac (p * 2 ^ 149) q)"

definition f32_of_nat :: "nat \<Rightarrow> f32" where
  "f32_of_nat n = f32_round (int n * f32_unit)"

section \<open>Arithmetic and comparison\<close>

fun f32_neg :: "f32 \<Rightarrow> f32" where
  "f32_neg NaN = NaN"
| "f32_neg (Inf s) = Inf (\<not> s)"
| "f32_neg (Fin n) = Fin (- n)"

fun f32_add :: "f32 \<Rightarrow> f32 \<Rightarrow> f32" where
  "f32_add NaN y = NaN"
| "f32_add x NaN = NaN"
| "f32_add (Inf s) (Inf t) = (if s = t then Inf s else NaN)"
| "f32_add (Inf s) (Fin b) = Inf s"
| "f32_add (Fin a) (Inf t) = Inf t"
| "f32_add (Fin a) (Fin b) = f32_round (a + b)"

definition f32_sub :: "f32 \<Rightarrow> f32 \<Rightarrow> f32" where
  "f32_sub x y = f32_add x (f32_neg y)"

fun f32_le :: "f32 \<Rightarrow> f32 \<Rightarrow> bool" where
  "f32_le NaN y = False"
| "f32_le x NaN = False"
| "f32_le (Inf s) (Inf t) = (s \<or> \<not> t)"
| "f32_le (Inf s) (Fin b) = s"
| "f32_le (Fin a) (Inf t) = (\<not> t)"
| "f32_le (Fin a) (Fin b) = (a \<le> b)"

text \<open>\<open>==\<close> on \<^verbatim>\<open>f32\<close>: a NaN equals nothing.\<close>

definition f32_eq :: "f32 \<Rightarrow> f32 \<Rightarrow> bool" where
  "f32_eq x y = (x \<noteq> NaN \<and> x = y)"

definition f32_lt :: "f32 \<Rightarrow> f32 \<Rightarrow> bool" where
  "f32_lt x y = (f32_le x y \<and> x \<noteq> y)"

text \<open>\<open>f32::min\<close> and \<open>f32::max\<close> ignore a NaN.\<close>

definition f32_min :: "f32 \<Rightarrow> f32 \<Rightarrow> f32" where
  "f32_min x y = (if x = NaN then y else if y = NaN then x else if f32_le x y then x else y)"

definition f32_max :: "f32 \<Rightarrow> f32 \<Rightarrow> f32" where
  "f32_max x y = (if x = NaN then y else if y = NaN then x else if f32_le x y then y else x)"

definition f32_abs :: "f32 \<Rightarrow> f32" where
  "f32_abs x = (case x of NaN \<Rightarrow> NaN | Inf s \<Rightarrow> Inf False | Fin n \<Rightarrow> Fin \<bar>n\<bar>)"

abbreviation f32_zero :: f32 where
  "f32_zero \<equiv> Fin 0"

text \<open>\<open>iter().sum()\<close>: left to right from zero.\<close>

definition f32_sum :: "f32 list \<Rightarrow> f32" where
  "f32_sum = foldl f32_add f32_zero"

text \<open>\<open>(n as f64 / 2^k) as f32\<close> for an unsigned 64-bit \<open>n\<close>.\<close>

definition u64_scaled_f32 :: "nat \<Rightarrow> nat \<Rightarrow> f32" where
  "u64_scaled_f32 n k = f32_round (int (rnd_to 53 n) * 2 ^ (149 - k))"

section \<open>Decimal rendering\<close>

text \<open>\<open>{:.p}\<close>: the exact value rounded half to even at \<open>p\<close> decimals, then padded.\<close>

definition pad_zeros :: "nat \<Rightarrow> string \<Rightarrow> string" where
  "pad_zeros w s = replicate (w - length s) CHR ''0'' @ s"

definition show_f32_prec :: "nat \<Rightarrow> f32 \<Rightarrow> string" where
  "show_f32_prec p x = (case x of
       NaN \<Rightarrow> ''NaN''
     | Inf neg \<Rightarrow> (if neg then ''-inf'' else ''inf'')
     | Fin n \<Rightarrow>
         let m = rhe (nat \<bar>n\<bar> * 10 ^ p) (2 ^ 149)
         in (if n < 0 then ''-'' else []) @ show_nat (m div 10 ^ p) @
            (if p = 0 then [] else CHR ''.'' # pad_zeros p (show_nat (m mod 10 ^ p))))"

text \<open>\<open>parse::<f32>()\<close>: an optional sign, then \<open>inf\<close>, \<open>infinity\<close> or \<open>nan\<close> in any case, or
  decimal digits with an optional point and exponent; at least one digit before or after
  the point.\<close>

definition take_digits :: "string \<Rightarrow> string \<times> string" where
  "take_digits s = (takeWhile (\<lambda>c. digit_val c \<noteq> None) s, dropWhile (\<lambda>c. digit_val c \<noteq> None) s)"

definition to_lower :: "char \<Rightarrow> char" where
  "to_lower c = (let n = (of_char c :: nat) in if 65 \<le> n \<and> n \<le> 90 then char_of (n + 32) else c)"

definition digits_nat :: "string \<Rightarrow> nat" where
  "digits_nat ds = (case digits_val 0 ds of None \<Rightarrow> 0 | Some n \<Rightarrow> n)"

definition parse_exponent :: "string \<Rightarrow> int option" where
  "parse_exponent s = (case s of
       [] \<Rightarrow> Some 0
     | c # cs \<Rightarrow>
         if c = CHR ''e'' \<or> c = CHR ''E'' then
           let (neg, ds) = (case cs of
                 d # ds \<Rightarrow> if d = CHR ''-'' then (True, ds) else if d = CHR ''+'' then (False, ds)
                           else (False, cs)
               | [] \<Rightarrow> (False, cs))
           in if ds = [] \<or> digits_val 0 ds = None then None
              else Some (if neg then - int (digits_nat ds) else int (digits_nat ds))
         else None)"

definition parse_f32_mag :: "string \<Rightarrow> bool \<Rightarrow> f32 option" where
  "parse_f32_mag s neg =
     (let l = map to_lower s in
      if l = ''inf'' \<or> l = ''infinity'' then Some (Inf neg)
      else if l = ''nan'' then Some NaN
      else
        let (ip, r1) = take_digits s;
            (fp, r2) = (case r1 of
                c # cs \<Rightarrow> if c = CHR ''.'' then take_digits cs else ([], r1)
              | [] \<Rightarrow> ([], r1))
        in if ip = [] \<and> fp = [] then None
           else case parse_exponent r2 of
               None \<Rightarrow> None
             | Some e \<Rightarrow>
                 let k = e - int (length fp);
                     p = digits_nat (ip @ fp) * 10 ^ nat k * 2 ^ 149;
                     q = 10 ^ nat (- k)
                 in Some (f32_pack neg (rnd_frac p q)))"

definition parse_f32 :: "string \<Rightarrow> f32 option" where
  "parse_f32 s = (case s of
       [] \<Rightarrow> None
     | c # cs \<Rightarrow> if c = CHR ''-'' then parse_f32_mag cs True
                 else if c = CHR ''+'' then parse_f32_mag cs False
                 else parse_f32_mag s False)"

section \<open>Rounding is monotone\<close>

lemma rhe_multiple: "0 < d \<Longrightarrow> rhe (k * d) d = k"
  by (simp add: rhe_def)

lemma rhe_bounds: "p div d \<le> rhe p d" "rhe p d \<le> Suc (p div d)"
  by (auto simp: rhe_def Let_def)

lemma rhe_mono:
  assumes "0 < d" "p \<le> p'"
  shows "rhe p d \<le> rhe p' d"
proof (cases "p div d = p' div d")
  case True
  have "p mod d \<le> p' mod d"
    using True assms by (metis diff_le_mono minus_mult_div_eq_mod)
  with True show ?thesis by (auto simp: rhe_def Let_def)
next
  case False
  with assms have "Suc (p div d) \<le> p' div d" by (simp add: div_le_mono le_neq_implies_less Suc_leI)
  with rhe_bounds [of p d] rhe_bounds [of p' d] show ?thesis by linarith
qed

lemma bits_of_upper: "n < 2 ^ bits_of n"
proof (induction n rule: bits_of.induct)
  case (1 n)
  then show ?case by (subst bits_of.simps) auto
qed

lemma bits_of_lower: "0 < n \<Longrightarrow> 2 ^ (bits_of n - 1) \<le> n"
proof (induction n rule: bits_of.induct)
  case (1 n)
  show ?case
  proof (cases "n = 1")
    case True
    then show ?thesis by (simp add: bits_of.simps)
  next
    case False
    with 1 have IH: "2 ^ (bits_of (n div 2) - 1) \<le> n div 2" and pos: "0 < n div 2" by auto
    from pos have "0 < bits_of (n div 2)" by (subst bits_of.simps) simp
    then have "(2::nat) ^ bits_of (n div 2) = 2 * 2 ^ (bits_of (n div 2) - 1)"
      by (simp add: power_eq_if)
    with IH have "2 ^ bits_of (n div 2) \<le> n" by linarith
    with 1(2) show ?thesis by (subst bits_of.simps) simp
  qed
qed

lemma bits_of_mono:
  assumes "n \<le> m"
  shows "bits_of n \<le> bits_of m"
proof (rule ccontr)
  assume "\<not> ?thesis"
  then have less: "bits_of m < bits_of n" by simp
  then have "0 < n" by (cases "n = 0") (auto simp: bits_of.simps)
  then have "2 ^ (bits_of n - 1) \<le> n" by (rule bits_of_lower)
  moreover have "(2::nat) ^ bits_of m \<le> 2 ^ (bits_of n - 1)"
    using less by (intro power_increasing) auto
  ultimately show False using bits_of_upper [of m] assms by linarith
qed

lemma rnd_to_le_pow: "0 < prec \<Longrightarrow> rnd_to prec n \<le> 2 ^ bits_of n"
proof -
  let ?e = "bits_of n - prec"
  have "rhe n (2 ^ ?e) \<le> rhe (2 ^ (bits_of n - ?e) * 2 ^ ?e) (2 ^ ?e)"
    using bits_of_upper [of n] by (intro rhe_mono) (simp_all flip: power_add)
  then have "rhe n (2 ^ ?e) * 2 ^ ?e \<le> 2 ^ (bits_of n - ?e) * 2 ^ ?e"
    by (simp add: rhe_multiple del: power_add)
  then show ?thesis by (simp add: rnd_to_def Let_def flip: power_add)
qed

lemma rnd_to_ge_pow:
  assumes "0 < prec" "0 < n"
  shows "2 ^ (bits_of n - 1) \<le> rnd_to prec n"
proof -
  let ?e = "bits_of n - prec"
  have split: "2 ^ (bits_of n - 1 - ?e) * 2 ^ ?e = (2::nat) ^ (bits_of n - 1)"
    using assms by (simp flip: power_add)
  have "rhe (2 ^ (bits_of n - 1 - ?e) * 2 ^ ?e) (2 ^ ?e) \<le> rhe n (2 ^ ?e)"
    unfolding split using bits_of_lower [OF assms(2)] by (intro rhe_mono) simp_all
  then have "2 ^ (bits_of n - 1 - ?e) * 2 ^ ?e \<le> rhe n (2 ^ ?e) * 2 ^ ?e"
    by (simp add: rhe_multiple del: power_add)
  then show ?thesis unfolding split by (simp add: rnd_to_def Let_def)
qed

lemma rnd_to_mono:
  assumes "0 < prec" "n \<le> m"
  shows "rnd_to prec n \<le> rnd_to prec m"
proof (cases "bits_of n = bits_of m")
  case True
  then show ?thesis using assms rhe_mono [of _ n m] by (simp add: rnd_to_def Let_def)
next
  case False
  with assms bits_of_mono have less: "bits_of n \<le> bits_of m - 1" by fastforce
  have "0 < m" using False assms by (cases "m = 0") auto
  have "rnd_to prec n \<le> 2 ^ bits_of n" using assms by (simp add: rnd_to_le_pow)
  also have "(2::nat) ^ bits_of n \<le> 2 ^ (bits_of m - 1)" using less by (simp add: power_increasing)
  also have "\<dots> \<le> rnd_to prec m" using assms \<open>0 < m\<close> by (intro rnd_to_ge_pow)
  finally show ?thesis .
qed

lemma f32_round_mono:
  assumes "n \<le> m"
  shows "f32_le (f32_round n) (f32_round m)"
proof (cases "n < 0")
  case True
  show ?thesis
  proof (cases "m < 0")
    case mneg: True
    with assms have "nat \<bar>m\<bar> \<le> nat \<bar>n\<bar>" by simp
    then have "rnd_to 24 (nat \<bar>m\<bar>) \<le> rnd_to 24 (nat \<bar>n\<bar>)" by (simp add: rnd_to_mono)
    with True mneg show ?thesis by (auto simp: f32_round_def f32_pack_def)
  next
    case False
    with True show ?thesis by (auto simp: f32_round_def f32_pack_def)
  qed
next
  case False
  with assms have "nat \<bar>n\<bar> \<le> nat \<bar>m\<bar>" by simp
  then have "rnd_to 24 (nat \<bar>n\<bar>) \<le> rnd_to 24 (nat \<bar>m\<bar>)" by (simp add: rnd_to_mono)
  with False assms show ?thesis by (auto simp: f32_round_def f32_pack_def)
qed

lemma f32_round_not_NaN [simp]: "f32_round n \<noteq> NaN"
  by (simp add: f32_round_def f32_pack_def)

lemma f32_round_le_PInf [simp]: "f32_le (f32_round n) (Inf False)"
  by (simp add: f32_round_def f32_pack_def)

lemma f32_NInf_le_round [simp]: "f32_le (Inf True) (f32_round n)"
  by (simp add: f32_round_def f32_pack_def)

lemma f32_le_trans: "f32_le x y \<Longrightarrow> f32_le y z \<Longrightarrow> f32_le x z"
  by (cases x; cases y; cases z) auto

lemma f32_le_refl: "x \<noteq> NaN \<Longrightarrow> f32_le x x"
  by (cases x) auto

lemma f32_le_total: "x \<noteq> NaN \<Longrightarrow> y \<noteq> NaN \<Longrightarrow> f32_le x y \<or> f32_le y x"
  by (cases x; cases y) auto

lemma f32_add_mono: "f32_le x y \<Longrightarrow> f32_le (f32_add x (Fin c)) (f32_add y (Fin c))"
  by (cases x; cases y) (auto intro: f32_round_mono)

lemma f32_sub_mono: "f32_le x y \<Longrightarrow> f32_le (f32_sub x (Fin c)) (f32_sub y (Fin c))"
  by (simp add: f32_sub_def f32_add_mono)

lemma rnd_to_upper: "rnd_to prec n \<le> n + 2 ^ (bits_of n - prec)"
proof -
  let ?d = "2 ^ (bits_of n - prec) :: nat"
  have "rhe n ?d * ?d \<le> Suc (n div ?d) * ?d" using rhe_bounds(2) by (rule mult_le_mono1)
  also have "\<dots> \<le> n + ?d" by (simp add: add.commute)
  finally show ?thesis by (simp add: rnd_to_def Let_def)
qed

text \<open>A value with at most \<open>prec\<close> significant bits is not changed by rounding.\<close>

lemma bits_of_le: "n < 2 ^ k \<Longrightarrow> bits_of n \<le> k"
proof (rule ccontr)
  assume n: "n < 2 ^ k" and "\<not> bits_of n \<le> k"
  then have k: "k \<le> bits_of n - 1" by simp
  have "n \<noteq> 0"
  proof
    assume "n = 0"
    then have "bits_of n = 0" by (simp add: bits_of.simps)
    with \<open>\<not> bits_of n \<le> k\<close> show False by simp
  qed
  then have "0 < n" by simp
  then have "2 ^ (bits_of n - 1) \<le> n" by (rule bits_of_lower)
  moreover have "(2::nat) ^ k \<le> 2 ^ (bits_of n - 1)" using k by (simp add: power_increasing)
  ultimately show False using n by linarith
qed

lemma rnd_to_exact:
  assumes "k < 2 ^ prec"
  shows "rnd_to prec (k * 2 ^ j) = k * 2 ^ j"
proof -
  let ?n = "k * 2 ^ j" and ?e = "bits_of (k * 2 ^ j) - prec"
  have "?n < 2 ^ (prec + j)" using assms by (simp add: power_add)
  then have "bits_of ?n \<le> prec + j" by (rule bits_of_le)
  then have pow: "2 ^ (j - ?e) * 2 ^ ?e = (2::nat) ^ j" by (simp flip: power_add)
  have "rhe ?n (2 ^ ?e) = rhe ((k * 2 ^ (j - ?e)) * 2 ^ ?e) (2 ^ ?e)"
    unfolding mult.assoc pow by (rule refl)
  also have "\<dots> = k * 2 ^ (j - ?e)" by (rule rhe_multiple) simp
  finally have "rhe ?n (2 ^ ?e) * 2 ^ ?e = ?n" by (simp add: mult.assoc pow)
  then show ?thesis unfolding rnd_to_def Let_def .
qed

lemma rnd_frac_exact:
  assumes "k < 2 ^ 24" "0 < q"
  shows "rnd_frac (k * 2 ^ j * q) q = k * 2 ^ j"
proof -
  let ?n = "k * 2 ^ j" and ?e = "bits_of (k * 2 ^ j) - 24"
  have "?n < 2 ^ (24 + j)" using assms by (simp add: power_add)
  then have "bits_of ?n \<le> 24 + j" by (rule bits_of_le)
  then have pow: "2 ^ (j - ?e) * 2 ^ ?e = (2::nat) ^ j" by (simp flip: power_add)
  have "?n * q = (k * 2 ^ (j - ?e)) * (q * 2 ^ ?e)"
    by (metis mult.assoc mult.commute pow)
  then have "rhe (?n * q) (q * 2 ^ ?e) = k * 2 ^ (j - ?e)"
    using assms(2) by (metis rhe_multiple mult_pos_pos zero_less_numeral zero_less_power)
  moreover have "(?n * q) div q = ?n" using assms(2) by simp
  ultimately show ?thesis unfolding rnd_frac_def Let_def by (simp add: mult.assoc pow)
qed

lemma f32_round_exact:
  assumes "\<bar>k\<bar> < 2 ^ 24" "j \<le> 250"
  shows "f32_round (k * 2 ^ j) = Fin (k * 2 ^ j)"
proof -
  let ?m = "nat \<bar>k\<bar>"
  have mag: "nat \<bar>k * 2 ^ j\<bar> = ?m * 2 ^ j" by (simp add: abs_mult nat_mult_distrib nat_power_eq)
  have m: "?m < 2 ^ 24" using assms(1) by simp
  then have rnd: "rnd_to 24 (?m * 2 ^ j) = ?m * 2 ^ j" by (rule rnd_to_exact)
  have "?m * 2 ^ j < 2 ^ 277"
  proof -
    have "?m * 2 ^ j < 2 ^ 24 * 2 ^ j" using m by simp
    also have "\<dots> \<le> (2::nat) ^ (24 + 250)" unfolding power_add [symmetric] using assms(2)
      by (intro power_increasing) auto
    also have "\<dots> < 2 ^ 277" by (rule power_strict_increasing) auto
    finally show ?thesis .
  qed
  then have fits: "\<not> 2 ^ 277 \<le> ?m * 2 ^ j" by (simp only: not_le)
  have sg: "(k * 2 ^ j < 0) = (k < 0)" by (simp add: mult_less_0_iff)
  have v: "(if k < 0 then - int (?m * 2 ^ j) else int (?m * 2 ^ j)) = k * 2 ^ j" by simp
  show ?thesis unfolding f32_round_def f32_pack_def mag rnd sg if_not_P [OF fits] v by (rule refl)
qed

end
