(* ===== verification/Types.thy ===== *)
theory Types
  imports Float32
begin

text \<open>
  \<^verbatim>\<open>src/src/types.rs\<close>: the data the worker shares with the studio.  Structs are records with
  the source's fields (prefixed, because HOL fields are global), enums are datatypes with the
  source's variants.  \<open>json\<close> is the tree a \<^verbatim>\<open>serde_json::Value\<close> holds.
\<close>

datatype json =
    JNull | JBool bool | JNum string | JStr string | JArr "json list" | JObj "(string \<times> json) list"

section \<open>Task kinds\<close>

datatype task_kind =
  Image | Llm | AudioStt | AudioTts | Video | Mesh | Vision | WakeWord | ModelConvert

definition task_kind_all :: "task_kind list" where
  "task_kind_all =
     [Image, Llm, AudioStt, AudioTts, Video, Mesh, Vision, WakeWord, ModelConvert]"

definition task_kind_studio :: "task_kind list" where
  "task_kind_studio = [Image, Llm, AudioStt, AudioTts, Video, Mesh, ModelConvert]"

fun task_kind_str :: "task_kind \<Rightarrow> string" where
  "task_kind_str Image = ''image''"
| "task_kind_str Llm = ''llm''"
| "task_kind_str AudioStt = ''audio_stt''"
| "task_kind_str AudioTts = ''audio_tts''"
| "task_kind_str Video = ''video''"
| "task_kind_str Mesh = ''mesh''"
| "task_kind_str Vision = ''vision''"
| "task_kind_str WakeWord = ''wake_word''"
| "task_kind_str ModelConvert = ''model_convert''"

section \<open>Task parameters\<close>

record image_params =
  im_prompt :: string
  im_negative_prompt :: "string option"
  im_init_image_url :: "string option"
  im_mask_url :: "string option"
  im_ref_image_url :: "string option"
  im_denoise :: "f32 option"
  im_cfg_scale :: "f32 option"
  im_sampling_method :: "string option"
  im_width :: u32
  im_height :: u32
  im_steps :: u32
  im_seed :: "u64 option"
  im_ext :: string

record chat_message =
  msg_role :: string
  msg_content :: string

record llm_params =
  lm_messages :: "chat_message list"
  lm_system :: "string option"
  lm_max_tokens :: u32
  lm_temperature :: f32
  lm_top_p :: "f32 option"
  lm_stop :: "string list option"
  lm_json_schema :: "json option"
  lm_reasoning :: "string option"
  lm_chat_template_kwargs :: "(string \<times> json) list option"
  lm_images :: "string list"

record audio_stt_params =
  stt_input_url :: string
  stt_language :: "string option"
  stt_translate :: "bool option"
  stt_prompt :: "string option"
  stt_vad :: "bool option"
  stt_timestamps :: "string option"

record audio_tts_params =
  tts_text :: string
  tts_voice :: string
  tts_speed :: "f32 option"
  tts_language :: "string option"
  tts_ext :: string

record video_params =
  vid_prompt :: string
  vid_negative_prompt :: "string option"
  vid_init_image_url :: "string option"
  vid_seconds :: f32
  vid_fps :: "u32 option"
  vid_width :: u32
  vid_height :: u32
  vid_ext :: string

record mesh_params =
  mesh_image_url :: string
  mesh_seed :: "u64 option"
  mesh_ext :: string

record gate_set_params =
  gs_dataset :: string
  gs_drawings_per_word :: u32
  gs_seed :: u64

record model_convert_params =
  cv_source :: string
  cv_file :: string
  cv_labels :: string
  cv_converter :: string
  cv_opset :: u32
  cv_gate_set :: gate_set_params
  cv_recipe :: string
  cv_polarities :: "string list"
  cv_reference_count :: u32

datatype task =
    TImage image_params
  | TLlm llm_params
  | TAudioStt audio_stt_params
  | TAudioTts audio_tts_params
  | TVideo video_params
  | TMesh mesh_params
  | TModelConvert model_convert_params

fun kind_of_task :: "task \<Rightarrow> task_kind" where
  "kind_of_task (TImage p) = Image"
| "kind_of_task (TLlm p) = Llm"
| "kind_of_task (TAudioStt p) = AudioStt"
| "kind_of_task (TAudioTts p) = AudioTts"
| "kind_of_task (TVideo p) = Video"
| "kind_of_task (TMesh p) = Mesh"
| "kind_of_task (TModelConvert p) = ModelConvert"

section \<open>Task results\<close>

type_synonym bytes = "8 word list"

datatype task_result =
    RImage bytes string
  | RLlm json
  | RAudioStt json
  | RAudioTts bytes string
  | RVideo bytes string
  | RMesh bytes string
  | RModelConvert bytes string json

fun kind_of_result :: "task_result \<Rightarrow> task_kind" where
  "kind_of_result (RImage b e) = Image"
| "kind_of_result (RLlm j) = Llm"
| "kind_of_result (RAudioStt j) = AudioStt"
| "kind_of_result (RAudioTts b e) = AudioTts"
| "kind_of_result (RVideo b e) = Video"
| "kind_of_result (RMesh b e) = Mesh"
| "kind_of_result (RModelConvert b e r) = ModelConvert"

section \<open>Model sources\<close>

datatype model_file_role =
  DiffusionModel | TextEncoder | TextEncoderVision | Vae | Lora | Model | Labels

datatype model_engine =
  SdCpp | LlamaCpp | Onnx | Parakeet | OnnxVision | Torch | Convert | Synthetic

definition model_engine_all :: "model_engine list" where
  "model_engine_all =
     [SdCpp, LlamaCpp, Onnx, Parakeet, OnnxVision, Torch, Convert, Synthetic]"

fun backend :: "model_engine \<Rightarrow> string" where
  "backend SdCpp = ''sdcpp''"
| "backend LlamaCpp = ''llama''"
| "backend Onnx = ''onnx''"
| "backend Parakeet = ''parakeet''"
| "backend OnnxVision = ''onnx-vision''"
| "backend Torch = ''torch''"
| "backend Convert = ''convert''"
| "backend Synthetic = ''synthetic''"

record model_file =
  mf_role :: model_file_role
  mf_url :: string
  mf_filename :: string
  mf_approx_bytes :: "u64 option"
  mf_sha256 :: "string option"

datatype vision_task = Detect | Classify

definition vision_task_str :: "vision_task \<Rightarrow> string" where
  "vision_task_str t = (case t of Detect \<Rightarrow> ''detect'' | Classify \<Rightarrow> ''classify'')"

record vision_defaults =
  vd_task :: vision_task
  vd_labels :: "string list"
  vd_animal_labels :: "string list option"
  vd_mean :: "f32 list option"
  vd_std :: "f32 list option"
  vd_probabilities :: "bool option"
  vd_min_confidence :: "f32 option"
  vd_iou :: "f32 option"
  vd_top_k :: "nat option"
  vd_channels_last :: "bool option"
  vd_crop_margin :: "f32 option"

record model_cli_defaults =
  cd_cfg_scale :: f32
  cd_steps :: u32
  cd_width :: u32
  cd_height :: u32
  cd_sampling_method :: "string option"
  cd_flow_shift :: "f32 option"
  cd_zero_cond_t :: "bool option"
  cd_offload_to_cpu :: "bool option"
  cd_context_size :: "u32 option"
  cd_chat_template_kwargs :: "(string \<times> json) list option"
  cd_mmap :: "bool option"
  cd_max_vram_gib :: "f32 option"
  cd_lora_weight :: "f32 option"
  cd_vision :: "vision_defaults option"
  cd_pipeline :: "string option"
  cd_resolution :: "u32 option"
  cd_low_vram :: "bool option"
  cd_decimation_target :: "u32 option"
  cd_texture_size :: "u32 option"

text \<open>\<open>#[derive(Default)]\<close>.\<close>

definition cli_defaults_default :: model_cli_defaults where
  "cli_defaults_default =
     \<lparr>cd_cfg_scale = f32_zero, cd_steps = 0, cd_width = 0, cd_height = 0,
      cd_sampling_method = None, cd_flow_shift = None, cd_zero_cond_t = None,
      cd_offload_to_cpu = None, cd_context_size = None, cd_chat_template_kwargs = None,
      cd_mmap = None, cd_max_vram_gib = None, cd_lora_weight = None, cd_vision = None,
      cd_pipeline = None, cd_resolution = None, cd_low_vram = None,
      cd_decimation_target = None, cd_texture_size = None\<rparr>"

record model_source =
  ms_engine :: model_engine
  ms_files :: "model_file list"
  ms_cli_defaults :: model_cli_defaults

section \<open>Capabilities, registration, jobs and logs\<close>

datatype user_presence = Idle | Active

record worker_capabilities =
  wc_machine_name :: string
  wc_username :: string
  wc_agent_version :: string
  wc_engine :: string
  wc_vram_total_gb :: f32
  wc_vram_threshold_gb :: f32
  wc_auto_enabled :: bool
  wc_auto_start :: bool
  wc_auto_update :: bool
  wc_start_minimised :: bool
  wc_only_when_idle :: bool
  wc_user_presence :: "user_presence option"
  wc_supported_models :: "string list"
  wc_task_kinds :: "task_kind list"
  wc_supported_models_per_kind :: "(task_kind \<times> string list) list"
  wc_model_engines :: "model_engine list"

record auto_register_request =
  ar_install_id :: string
  ar_registration_secret_hash :: string
  ar_capabilities :: worker_capabilities
  ar_user_agent :: string

record auto_register_response =
  arr_request_id :: string
  arr_status :: string

datatype register_status =
    StatusPending
  | StatusApproved string string \<comment> \<open>worker id, auth token\<close>
  | StatusRejected string

record job_claim =
  jc_job_id :: string
  jc_game_id :: string
  jc_asset_name :: string
  jc_model :: string
  jc_vram_gb_estimate :: f32
  jc_task :: task
  jc_model_source :: model_source

record log_entry =
  le_ts :: string
  le_level :: string
  le_category :: string
  le_message :: string
  le_job_id :: "string option"

section \<open>Facts\<close>

lemma task_kind_all_complete: "k \<in> set task_kind_all"
  by (cases k) (simp_all add: task_kind_all_def)

lemma task_kind_str_inj: "task_kind_str j = task_kind_str k \<Longrightarrow> j = k"
  by (cases j; cases k) simp_all

lemma model_engine_all_complete: "e \<in> set model_engine_all"
  by (cases e) (simp_all add: model_engine_all_def)

lemma backend_inj: "backend d = backend e \<Longrightarrow> d = e"
  by (cases d; cases e) simp_all

lemma kind_of_task_studio: "kind_of_task t \<in> set task_kind_studio"
  by (cases t) (simp_all add: task_kind_studio_def)

lemma kind_of_result_studio: "kind_of_result r \<in> set task_kind_studio"
  by (cases r) (simp_all add: task_kind_studio_def)

end
