(* ===== verification/Presence.thy ===== *)
theory Presence
  imports Types
begin

text \<open>
  \<^verbatim>\<open>src/src/presence.rs\<close>: whether the person is using this computer, from samples of the input
  idle time (durations are naturals, in nanoseconds), and the operator's only-when-idle guard.
  The X11, D-Bus and \<^verbatim>\<open>ioreg\<close> readings are arguments.  What a sample logs is a value.
\<close>

section \<open>Classification\<close>

definition secs :: "nat \<Rightarrow> nat" where
  "secs n = n * 1000000000"

definition IDLE_AFTER :: nat where
  "IDLE_AFTER = secs 120"

definition SAMPLE_INTERVAL :: nat where
  "SAMPLE_INTERVAL = secs 5"

definition user_presence_str :: "user_presence \<Rightarrow> string" where
  "user_presence_str p = (case p of Idle \<Rightarrow> ''idle'' | Active \<Rightarrow> ''active'')"

definition classify :: "nat \<Rightarrow> user_presence" where
  "classify idle = (if IDLE_AFTER \<le> idle then Idle else Active)"

definition holds_back :: "bool \<Rightarrow> user_presence option \<Rightarrow> bool" where
  "holds_back idle_only presence = (idle_only \<and> presence \<noteq> Some Idle)"

section \<open>Probing\<close>

datatype probe_error = ProbeUnsupported | ProbeFailed string string

definition show_probe_error :: "probe_error \<Rightarrow> string" where
  "show_probe_error e = (case e of
       ProbeUnsupported \<Rightarrow> ''no idle-time source on this platform''
     | ProbeFailed source_name detail \<Rightarrow> source_name @ '': '' @ detail)"

text \<open>\<open>str::split_once\<close>.\<close>

fun split_once :: "string \<Rightarrow> string \<Rightarrow> (string \<times> string) option" where
  "split_once p [] = (if p = [] then Some ([], []) else None)"
| "split_once p (c # cs) =
     (if starts_with (c # cs) p then Some ([], drop (length p) (c # cs))
      else map_option (\<lambda>(a, b). (c # a, b)) (split_once p cs))"

definition parse_ioreg_idle :: "string \<Rightarrow> nat option" where
  "parse_ioreg_idle out = find_map (\<lambda>line.
     (case split_once (''\"HIDIdleTime\" = '') line of
        None \<Rightarrow> None
      | Some (_, v) \<Rightarrow> parse_uint 64 (trim v))) (str_lines out)"

text \<open>Linux: the D-Bus idle monitors, GNOME's first; a reading is milliseconds or an error's
  text.\<close>

definition dbus_idle ::
  "(string, unit) result \<Rightarrow> (string, u64) result \<Rightarrow> (string, u32) result \<Rightarrow> (probe_error, nat) result" where
  "dbus_idle connected mutter screensaver = (case connected of
       Inl e \<Rightarrow> Inl (ProbeFailed ''d-bus'' e)
     | Inr _ \<Rightarrow> (case mutter of
         Inr ms \<Rightarrow> Inr (unat ms * 1000000)
       | Inl mutter_error \<Rightarrow> (case screensaver of
           Inr ms \<Rightarrow> Inr (unat ms * 1000000)
         | Inl e \<Rightarrow> Inl (ProbeFailed ''d-bus'' (''mutter idle monitor: '' @ mutter_error @
             ''; freedesktop screensaver: '' @ e)))))"

text \<open>\<open>x11\<close>: the blocking task's reading, or \<open>Inl\<close> the join error.\<close>

definition linux_idle_time ::
  "string option \<Rightarrow> bool \<Rightarrow> (string, (probe_error, nat) result) result \<Rightarrow> (probe_error, nat) result \<Rightarrow>
   (probe_error, nat) result" where
  "linux_idle_time session_type display x11 dbus =
     (let wayland = (session_type = Some ''wayland'') in
      if display \<and> \<not> wayland
      then (case x11 of
          Inl e \<Rightarrow> Inl (ProbeFailed ''x11'' e)
        | Inr (Inr idle) \<Rightarrow> Inr idle
        | Inr (Inl x11_error) \<Rightarrow> (case dbus of
            Inr idle \<Rightarrow> Inr idle
          | Inl dbus_error \<Rightarrow> Inl (ProbeFailed ''x11, d-bus''
              (show_probe_error x11_error @ ''; '' @ show_probe_error dbus_error))))
      else dbus)"

text \<open>macOS: \<^verbatim>\<open>ioreg\<close> could not start, failed with a status, or printed.\<close>

definition macos_idle_time ::
  "(string, (string, string) result) result \<Rightarrow> (probe_error, nat) result" where
  "macos_idle_time run = (case run of
       Inl e \<Rightarrow> Inl (ProbeFailed ''ioreg'' e)
     | Inr (Inl status) \<Rightarrow> Inl (ProbeFailed ''ioreg'' status)
     | Inr (Inr out) \<Rightarrow> (case parse_ioreg_idle out of
         Some idle \<Rightarrow> Inr idle
       | None \<Rightarrow> Inl (ProbeFailed ''ioreg'' ''no HIDIdleTime in its output'')))"

section \<open>The monitor\<close>

record tracker =
  tr_last_error :: "probe_error option"

definition tracker_default :: tracker where
  "tracker_default = \<lparr>tr_last_error = None\<rparr>"

datatype presence_log =
    PresenceReadable probe_error
  | PresenceChanged user_presence
  | PresenceUnknown probe_error "user_presence option"

definition tracker_record ::
  "(probe_error, nat) result \<Rightarrow> tracker \<times> user_presence option \<Rightarrow>
   (tracker \<times> user_presence option) \<times> presence_log list" where
  "tracker_record sample w = (case w of (t, slot) \<Rightarrow> (case sample of
       Inr idle \<Rightarrow>
         (let recovered = (case tr_last_error t of Some e \<Rightarrow> [PresenceReadable e] | None \<Rightarrow> []);
              now = classify idle
          in ((t\<lparr>tr_last_error := None\<rparr>, Some now),
              recovered @ (if slot \<noteq> Some now then [PresenceChanged now] else [])))
     | Inl e \<Rightarrow>
         (if tr_last_error t \<noteq> Some e
          then ((t\<lparr>tr_last_error := Some e\<rparr>, None), [PresenceUnknown e slot])
          else ((t, None), []))))"

text \<open>\<open>spawn_monitor\<close>: one sample per interval until the stop flag is set.\<close>

fun spawn_monitor ::
  "(bool \<times> (probe_error, nat) result) list \<Rightarrow> tracker \<times> user_presence option \<Rightarrow>
   (tracker \<times> user_presence option) \<times> presence_log list" where
  "spawn_monitor [] w = (w, [])"
| "spawn_monitor ((stop, sample) # ticks) w =
     (if stop then (w, [])
      else let (w', l) = tracker_record sample w; (w'', ls) = spawn_monitor ticks w' in (w'', l @ ls))"

definition presence_of :: "(probe_error, nat) result \<Rightarrow> user_presence option" where
  "presence_of sample = (case sample of Inr idle \<Rightarrow> Some (classify idle) | Inl _ \<Rightarrow> None)"

text \<open>What the tracker knows after a sample: the presence it means and the error it carries.\<close>

definition knows :: "(probe_error, nat) result \<Rightarrow> tracker \<times> user_presence option \<Rightarrow> bool" where
  "knows sample w = (snd w = presence_of sample \<and>
     tr_last_error (fst w) = (case sample of Inr _ \<Rightarrow> None | Inl e \<Rightarrow> Some e))"

lemma record_knows: "knows sample (fst (tracker_record sample w))"
  by (cases w; cases sample)
    (auto simp: knows_def tracker_record_def presence_of_def Let_def split: option.splits)

lemma record_known_silent:
  "knows sample w \<Longrightarrow> presence_of sample' = presence_of sample \<Longrightarrow>
   (\<forall>e e'. sample = Inl e \<longrightarrow> sample' = Inl e' \<longrightarrow> e' = e) \<Longrightarrow> snd (tracker_record sample' w) = []"
  by (cases w; cases sample; cases sample')
    (auto simp: knows_def tracker_record_def presence_of_def Let_def split: option.splits)

lemma monitor_append:
  "\<forall>t \<in> set ts. \<not> fst t \<Longrightarrow>
   spawn_monitor (ts @ us) w =
     (let (w', l) = spawn_monitor ts w; (w'', ls) = spawn_monitor us w' in (w'', l @ ls))"
  by (induction ts arbitrary: w) (auto simp: Let_def split: prod.splits)

text \<open>After any run of samples the presence is what the latest one means, whatever came
  before: idle exactly from two minutes without input, and unknown when the probe failed, in
  which case an only-when-idle worker holds offers back; a further sample that changes nothing
  logs nothing.\<close>

theorem presence_is_the_latest_sample:
  assumes "\<forall>t \<in> set ticks. \<not> fst t"
    and w'_def: "w' = fst (spawn_monitor (ticks @ [(False, sample)]) w)"
  shows "snd w' = presence_of sample \<and>
         (holds_back True (snd w') \<longleftrightarrow> (\<forall>idle. sample = Inr idle \<longrightarrow> idle < secs 120)) \<and>
         \<not> holds_back False (snd w') \<and>
         tracker_record sample w' = (w', [])"
proof -
  have k: "knows sample w'"
    using assms(1) record_knows [of sample "fst (spawn_monitor ticks w)"]
    by (cases "spawn_monitor ticks w"; cases "tracker_record sample (fst (spawn_monitor ticks w))")
      (auto simp: w'_def monitor_append Let_def)
  then have s: "snd w' = presence_of sample" by (simp add: knows_def)
  have "fst (tracker_record sample w') = w'"
    using k by (cases w'; cases sample)
      (auto simp: knows_def tracker_record_def presence_of_def Let_def split: option.splits)
  moreover have "snd (tracker_record sample w') = []"
    using k by (rule record_known_silent) auto
  ultimately have "tracker_record sample w' = (w', [])" by (simp add: prod_eq_iff)
  moreover have "holds_back True (snd w') \<longleftrightarrow> (\<forall>idle. sample = Inr idle \<longrightarrow> idle < secs 120)"
    by (cases sample) (auto simp: s holds_back_def presence_of_def classify_def IDLE_AFTER_def)
  ultimately show ?thesis using s by (simp add: holds_back_def)
qed

theorem presence_is_the_latest_sample_witness:
  "snd (fst (spawn_monitor ([(False, Inl ProbeUnsupported)] @ [(False, Inr (secs 119))]) (tracker_default, None)))
     = Some Active"
  using presence_is_the_latest_sample [of "[(False, Inl ProbeUnsupported)]" _ "Inr (secs 119)" "(tracker_default, None)", OF _ refl]
  by (simp add: presence_of_def classify_def IDLE_AFTER_def secs_def)

end
