(* ===== verification/MemoryCeiling.thy ===== *)
theory MemoryCeiling
  imports Types
begin

text \<open>
  \<^verbatim>\<open>src/src/memory_ceiling.rs\<close>: the memory limit of the worker's systemd scope, the argument
  vectors that apply it, and the cgroup files that say whether it holds.  Running
  \<^verbatim>\<open>systemd-run\<close> and reading files are arguments: the exit status and a function from a
  path to its text.
\<close>

section \<open>The ceiling\<close>

definition DEFAULT_MEMORY_MAX_GB :: u32 where "DEFAULT_MEMORY_MAX_GB = 32"
definition MIN_MEMORY_MAX_GB :: u32 where "MIN_MEMORY_MAX_GB = 4"
definition MAX_MEMORY_MAX_GB :: u32 where "MAX_MEMORY_MAX_GB = 1024"

definition SCOPE_NAME :: string where "SCOPE_NAME = ''studio-worker''"
definition SCOPE_UNIT :: string where "SCOPE_UNIT = ''studio-worker.scope''"

record memory_ceiling =
  mc_max_gb :: u32

record out_of_range =
  oor_got :: u32

definition ceiling_default :: memory_ceiling where
  "ceiling_default = \<lparr>mc_max_gb = DEFAULT_MEMORY_MAX_GB\<rparr>"

definition ceiling_new :: "u32 \<Rightarrow> (out_of_range, memory_ceiling) result" where
  "ceiling_new gb =
     (if MIN_MEMORY_MAX_GB \<le> gb \<and> gb \<le> MAX_MEMORY_MAX_GB then Inr \<lparr>mc_max_gb = gb\<rparr>
      else Inl \<lparr>oor_got = gb\<rparr>)"

definition ceiling_or_default :: "u32 \<Rightarrow> memory_ceiling" where
  "ceiling_or_default gb = (case ceiling_new gb of Inr c \<Rightarrow> c | Inl e \<Rightarrow> ceiling_default)"

definition memory_max :: "memory_ceiling \<Rightarrow> string" where
  "memory_max c = show_nat (unat (mc_max_gb c)) @ ''G''"

text \<open>\<open>(f64::from(max) * 1024.0 * 0.9).floor()\<close>: \<open>0.9\<close> is the binary64 value
  \<open>8106479329266893 / 2 ^ 53\<close>, and the product is rounded to 53 bits before the floor.\<close>

definition memory_high_mib :: "nat \<Rightarrow> nat" where
  "memory_high_mib gb = rnd_to 53 (gb * 1024 * 8106479329266893) div 2 ^ 53"

definition memory_high :: "memory_ceiling \<Rightarrow> string" where
  "memory_high c = show_nat (memory_high_mib (unat (mc_max_gb c))) @ ''M''"

definition properties :: "memory_ceiling \<Rightarrow> string \<times> string" where
  "properties c = (''MemoryHigh='' @ memory_high c, ''MemoryMax='' @ memory_max c)"

definition launcher :: "memory_ceiling \<Rightarrow> string list" where
  "launcher c = (let (high, mx) = properties c in
     [''systemd-run'', ''--user'', ''--scope'', ''--unit='' @ SCOPE_NAME, ''--collect'',
      ''--quiet'', ''-p'', high, ''-p'', mx])"

definition tray_argv :: "memory_ceiling option \<Rightarrow> string \<Rightarrow> string list \<Rightarrow> string list" where
  "tray_argv ceiling exe args =
     (case ceiling of None \<Rightarrow> [] | Some c \<Rightarrow> launcher c) @ [exe] @ args"

section \<open>cgroup files\<close>

datatype limit = Unlimited | Bytes u64

definition limit_parse :: "string \<Rightarrow> limit option" where
  "limit_parse raw = (let t = trim raw in
     if t = ''max'' then Some Unlimited
     else map_option (\<lambda>n. Bytes (of_nat n)) (parse_uint 64 t))"

definition limit_describe :: "limit \<Rightarrow> string" where
  "limit_describe l = (case l of Unlimited \<Rightarrow> ''max'' | Bytes b \<Rightarrow> show_nat (unat b))"

definition cgroup_path :: "string \<Rightarrow> string option" where
  "cgroup_path proc_cgroup =
     (case find_map (strip_prefix ''0::'') (str_lines proc_cgroup) of
        None \<Rightarrow> None
      | Some rest \<Rightarrow> let p = trim rest in if starts_with p ''/'' then Some p else None)"

definition is_worker_scope :: "string \<Rightarrow> bool" where
  "is_worker_scope cgroup = (last (split_on CHR ''/'' cgroup) = SCOPE_UNIT)"

definition anon_bytes :: "string \<Rightarrow> u64 option" where
  "anon_bytes memory_stat =
     (case find_map (strip_prefix ''anon '') (str_lines memory_stat) of
        None \<Rightarrow> None
      | Some n \<Rightarrow> map_option of_nat (parse_uint 64 (trim n)))"

record effective =
  ef_cgroup :: string
  ef_max :: "limit option"
  ef_high :: "limit option"

datatype assessment =
    InEffect string limit "limit option"
  | NotInScope string
  | NoLimit string
  | Unknown

definition assess :: "effective option \<Rightarrow> assessment" where
  "assess eff = (case eff of
       None \<Rightarrow> Unknown
     | Some e \<Rightarrow>
         if \<not> is_worker_scope (ef_cgroup e) then NotInScope (ef_cgroup e)
         else case ef_max e of
             Some (Bytes b) \<Rightarrow> InEffect (ef_cgroup e) (Bytes b) (ef_high e)
           | _ \<Rightarrow> NoLimit (ef_cgroup e))"

text \<open>\<open>Path::join\<close> on Unix.\<close>

definition path_join :: "string \<Rightarrow> string \<Rightarrow> string" where
  "path_join a b = (if starts_with b ''/'' then b
     else if a = [] \<or> ends_with a ''/'' then a @ b else a @ ''/'' @ b)"

definition cgroup_dir :: "string \<Rightarrow> string" where
  "cgroup_dir cgroup =
     path_join ''/sys/fs/cgroup'' (dropWhile (\<lambda>c. c = CHR ''/'') cgroup)"

definition read_effective :: "(string \<Rightarrow> string option) \<Rightarrow> effective option" where
  "read_effective read =
     (case read ''/proc/self/cgroup'' of None \<Rightarrow> None
      | Some proc_cgroup \<Rightarrow>
     (case cgroup_path proc_cgroup of None \<Rightarrow> None
      | Some cgroup \<Rightarrow>
         let lim = (\<lambda>name. Option.bind (read (path_join (cgroup_dir cgroup) name)) limit_parse)
         in Some \<lparr>ef_cgroup = cgroup, ef_max = lim ''memory.max'', ef_high = lim ''memory.high''\<rparr>))"

definition own_cgroup_usage :: "(string \<Rightarrow> string option) \<Rightarrow> (limit \<times> u64) option" where
  "own_cgroup_usage read =
     (case read ''/proc/self/cgroup'' of None \<Rightarrow> None
      | Some proc_cgroup \<Rightarrow>
     (case cgroup_path proc_cgroup of None \<Rightarrow> None
      | Some cgroup \<Rightarrow>
     (case Option.bind (read (path_join (cgroup_dir cgroup) ''memory.max'')) limit_parse of None \<Rightarrow> None
      | Some mx \<Rightarrow>
     (case Option.bind (read (path_join (cgroup_dir cgroup) ''memory.stat'')) anon_bytes of None \<Rightarrow> None
      | Some anon \<Rightarrow> Some (mx, anon)))))"

text \<open>\<open>reconcile\<close> on Linux: the command it runs, if it runs one.\<close>

definition reconcile :: "(string \<Rightarrow> string option) \<Rightarrow> memory_ceiling \<Rightarrow> string list option" where
  "reconcile read c =
     (if (case read_effective read of None \<Rightarrow> False | Some e \<Rightarrow> is_worker_scope (ef_cgroup e))
      then let (high, mx) = properties c
           in Some [''systemctl'', ''--user'', ''set-property'', ''--runtime'', SCOPE_UNIT, high, mx]
      else None)"

text \<open>\<open>launch_ceiling\<close> on Linux: \<open>run\<close> says whether a command could be run and exited 0.\<close>

definition launch_ceiling :: "(string list \<Rightarrow> bool) \<Rightarrow> memory_ceiling \<Rightarrow> memory_ceiling option" where
  "launch_ceiling run c = (let (high, mx) = properties c in
     if run [''systemd-run'', ''--user'', ''--scope'', ''--quiet'', ''--collect'', ''-p'', mx, ''true'']
     then Some c else None)"

section \<open>Facts\<close>

lemma ceiling_or_default_range:
  "MIN_MEMORY_MAX_GB \<le> mc_max_gb (ceiling_or_default gb) \<and>
   mc_max_gb (ceiling_or_default gb) \<le> MAX_MEMORY_MAX_GB"
  by (auto simp: ceiling_or_default_def ceiling_new_def ceiling_default_def
      DEFAULT_MEMORY_MAX_GB_def MIN_MEMORY_MAX_GB_def MAX_MEMORY_MAX_GB_def)

lemma memory_high_mib_exact:
  assumes "gb \<le> 1024"
  shows "memory_high_mib gb = gb * 1024 * 9 div 10"
proof -
  let ?p = "gb * 1024 * 8106479329266893" and ?q = "gb * 1024 * 9 div 10"
  have ten: "?p * 10 = gb * 1024 * 9 * 2 ^ 53 + gb * 2048" by simp
  have lower: "?q * 2 ^ 53 \<le> ?p" using ten by simp
  have "?q < 2 ^ 53" using assms by simp
  then have "?q * 2 ^ 53 \<le> rnd_to 53 ?p"
    using rnd_to_mono [OF _ lower, of 53] by (simp only: rnd_to_exact)
  moreover have "rnd_to 53 ?p < Suc ?q * 2 ^ 53"
  proof -
    have "?p < 2 ^ 73" using assms by simp
    then have "bits_of ?p - 53 \<le> 20" using bits_of_le by fastforce
    then have "(2::nat) ^ (bits_of ?p - 53) \<le> 2 ^ 20" by (rule power_increasing) simp
    then have "rnd_to 53 ?p \<le> ?p + 2 ^ 20" using rnd_to_upper [of 53 ?p] by linarith
    moreover have "(?p + 2 ^ 20) * 10 < Suc ?q * 2 ^ 53 * 10"
    proof -
      have "x + 1 \<le> Suc (x div 10) * 10" for x :: nat by presburger
      then have q: "gb * 1024 * 9 + 1 \<le> Suc ?q * 10" .
      have "(gb * 1024 * 9 + 1) * 2 ^ 53 \<le> Suc ?q * 10 * 2 ^ 53"
        using q by (rule mult_le_mono1)
      with ten assms show ?thesis by (simp add: algebra_simps)
    qed
    ultimately have "rnd_to 53 ?p \<le> ?p + 2 ^ 20" "?p + 2 ^ 20 < Suc ?q * 2 ^ 53"
      by (simp_all only: mult_less_cancel2)
    then show ?thesis by (rule le_less_trans)
  qed
  ultimately show ?thesis
    unfolding memory_high_mib_def by (intro div_nat_eqI) (simp_all add: mult.commute)
qed

text \<open>Whatever \<open>memory_max_gb\<close> a hand-edited config holds, the scope the worker starts
  under gets a \<open>MemoryMax\<close> between 4 and 1024 GB, and its \<open>MemoryHigh\<close> is exactly nine tenths
  of it in whole MiB, so the throttle is always below the kill limit; the binary floating
  point of the code loses nothing.\<close>

theorem memory_scope_limits:
  fixes gb :: u32
  defines "c \<equiv> ceiling_or_default gb"
  shows "properties c =
           (''MemoryHigh='' @ show_nat (unat (mc_max_gb c) * 1024 * 9 div 10) @ ''M'',
            ''MemoryMax='' @ show_nat (unat (mc_max_gb c)) @ ''G'') \<and>
         4 \<le> unat (mc_max_gb c) \<and> unat (mc_max_gb c) \<le> 1024 \<and>
         unat (mc_max_gb c) * 1024 * 9 div 10 < unat (mc_max_gb c) * 1024"
proof -
  have "4 \<le> unat (mc_max_gb c)" "unat (mc_max_gb c) \<le> 1024"
    using ceiling_or_default_range [of gb]
    by (simp_all add: c_def word_le_nat_alt MIN_MEMORY_MAX_GB_def MAX_MEMORY_MAX_GB_def)
  then show ?thesis
    by (simp add: properties_def memory_high_def memory_max_def memory_high_mib_exact)
qed

end
