(* ===== verification/FileStore.thy ===== *)
theory FileStore
  imports MemoryCeiling
begin

text \<open>
  The files the worker keeps: a map from normalised paths to text, and
  \<^verbatim>\<open>config::write_atomic\<close> (\<^verbatim>\<open>src/src/config.rs\<close>), through which the config, the
  catalogue and the residency file are saved.  Which operations fail is an argument, so
  every theorem holds for every pattern of I/O faults.  The temporary file's name is an
  argument too (the \<^verbatim>\<open>tempfile\<close> crate picks a fresh one and removes it when dropped).
\<close>

type_synonym path = string

type_synonym files = "path \<rightharpoonup> string"

datatype io_error = NotFound | IoOther string

record faults =
  read_fault :: "path \<Rightarrow> bool"
  mkdir_fault :: "path \<Rightarrow> bool"
  temp_fault :: "path \<Rightarrow> bool"
  write_fault :: bool
  persist_fault :: "path \<Rightarrow> bool"
  rename_fault :: "path \<Rightarrow> bool"

definition no_faults :: faults where
  "no_faults = \<lparr>read_fault = (\<lambda>_. False), mkdir_fault = (\<lambda>_. False), temp_fault = (\<lambda>_. False),
     write_fault = False, persist_fault = (\<lambda>_. False), rename_fault = (\<lambda>_. False)\<rparr>"

section \<open>Paths\<close>

definition last_slash :: "path \<Rightarrow> nat option" where
  "last_slash p = (let k = length (takeWhile (\<lambda>c. c \<noteq> CHR ''/'') (rev p))
     in if k = length p then None else Some (length p - k - 1))"

definition path_parent :: "path \<Rightarrow> path option" where
  "path_parent p = (if p = [] \<or> p = ''/'' then None
     else case last_slash p of None \<Rightarrow> Some [] | Some 0 \<Rightarrow> Some ''/'' | Some i \<Rightarrow> Some (take i p))"

definition file_name :: "path \<Rightarrow> string option" where
  "file_name p = (let n = (case last_slash p of None \<Rightarrow> p | Some i \<Rightarrow> drop (Suc i) p)
     in if n = [] \<or> n = ''..'' then None else Some n)"

definition with_file_name :: "path \<Rightarrow> string \<Rightarrow> path" where
  "with_file_name p n = (case path_parent p of
       None \<Rightarrow> path_join p n | Some d \<Rightarrow> if file_name p = None then path_join p n else path_join d n)"

definition sibling :: "string \<Rightarrow> path \<Rightarrow> path option" where
  "sibling name p = map_option (\<lambda>d. path_join d name) (path_parent p)"

section \<open>Reading, renaming, writing\<close>

definition read_to_string :: "faults \<Rightarrow> files \<Rightarrow> path \<Rightarrow> (io_error, string) result" where
  "read_to_string flt fs p =
     (case fs p of
        None \<Rightarrow> Inl NotFound
      | Some s \<Rightarrow> if read_fault flt p then Inl (IoOther ''read'') else Inr s)"

definition rename_file :: "faults \<Rightarrow> files \<Rightarrow> path \<Rightarrow> path \<Rightarrow> files \<times> (io_error, unit) result" where
  "rename_file flt fs from_p to_p =
     (if rename_fault flt from_p then (fs, Inl (IoOther ''rename''))
      else case fs from_p of
          None \<Rightarrow> (fs, Inl NotFound)
        | Some s \<Rightarrow> (fs(from_p := None, to_p \<mapsto> s), Inr ()))"

text \<open>
  The states the disk passes through, first to last, and the outcome: the temporary file is
  created empty, filled, flushed, and renamed over the target; a failure drops it.
\<close>

definition write_atomic_trace ::
  "faults \<Rightarrow> path \<Rightarrow> files \<Rightarrow> path \<Rightarrow> string \<Rightarrow> files list \<times> (io_error, unit) result" where
  "write_atomic_trace flt tmp fs p bytes =
     (let dir = (case path_parent p of Some d \<Rightarrow> if d \<noteq> [] then d else ''.'' | None \<Rightarrow> ''.'') in
      if temp_fault flt dir then ([fs], Inl (IoOther ''temp''))
      else
        let s1 = fs(tmp \<mapsto> []) in
        if write_fault flt then ([fs, s1, fs(tmp := None)], Inl (IoOther ''write''))
        else
          let s2 = fs(tmp \<mapsto> bytes) in
          if persist_fault flt p then ([fs, s1, s2, fs(tmp := None)], Inl (IoOther ''persist''))
          else ([fs, s1, s2, fs(tmp := None, p \<mapsto> bytes)], Inr ()))"

definition write_atomic ::
  "faults \<Rightarrow> path \<Rightarrow> files \<Rightarrow> path \<Rightarrow> string \<Rightarrow> files \<times> (io_error, unit) result" where
  "write_atomic flt tmp fs p bytes =
     (let (states, r) = write_atomic_trace flt tmp fs p bytes in (last states, r))"

text \<open>\<open>create_dir_all\<close> of the parent, then the atomic write: how every file is saved.\<close>

definition save_text ::
  "faults \<Rightarrow> path \<Rightarrow> files \<Rightarrow> path \<Rightarrow> string \<Rightarrow> files \<times> (io_error, unit) result" where
  "save_text flt tmp fs p content =
     (if (case path_parent p of None \<Rightarrow> False | Some d \<Rightarrow> mkdir_fault flt d)
      then (fs, Inl (IoOther ''mkdir'')) else write_atomic flt tmp fs p content)"

section \<open>Facts\<close>

lemma write_atomic_cases:
  assumes "tmp \<noteq> p" "fs tmp = None"
  shows "write_atomic flt tmp fs p bytes = (fs(p \<mapsto> bytes), Inr ()) \<or>
         (\<exists>e. write_atomic flt tmp fs p bytes = (fs, Inl e))"
  using assms by (auto simp: write_atomic_def write_atomic_trace_def Let_def fun_upd_idem fun_upd_twist)

lemma save_text_cases:
  assumes "tmp \<noteq> p" "fs tmp = None"
  shows "save_text flt tmp fs p content = (fs(p \<mapsto> content), Inr ()) \<or>
         (\<exists>e. save_text flt tmp fs p content = (fs, Inl e))"
  using write_atomic_cases [where fs = fs and tmp = tmp and p = p and flt = flt and bytes = content]
    assms by (auto simp: save_text_def)

lemma save_text_no_faults:
  assumes "tmp \<noteq> p" "fs tmp = None"
  shows "save_text no_faults tmp fs p content = (fs(p \<mapsto> content), Inr ())"
  using assms by (auto simp: save_text_def no_faults_def write_atomic_def write_atomic_trace_def
      Let_def fun_upd_idem fun_upd_twist split: option.splits)

text \<open>C10: a save is atomic under a crash: cut off at any point, the target holds its old
  contents or the whole new text, never a part of it, and no other file but the temporary one
  is touched; and a save that reports an error leaves every file as it was.\<close>

theorem write_atomic_crash_safe:
  assumes "tmp \<noteq> p" and "fs tmp = None"
    and "st \<in> set (fst (write_atomic_trace flt tmp fs p bytes))"
  shows "(st p = fs p \<or> st p = Some bytes) \<and> (\<forall>q. q \<noteq> p \<and> q \<noteq> tmp \<longrightarrow> st q = fs q) \<and>
         (snd (write_atomic flt tmp fs p bytes) \<noteq> Inr () \<longrightarrow>
          fst (write_atomic flt tmp fs p bytes) = fs)"
proof -
  have "(st p = fs p \<or> st p = Some bytes) \<and> (\<forall>q. q \<noteq> p \<and> q \<noteq> tmp \<longrightarrow> st q = fs q)"
    using assms by (auto simp: write_atomic_trace_def Let_def split: if_splits)
  moreover have "snd (write_atomic flt tmp fs p bytes) \<noteq> Inr () \<longrightarrow>
      fst (write_atomic flt tmp fs p bytes) = fs"
    using write_atomic_cases [where fs = fs and tmp = tmp and p = p and flt = flt and bytes = bytes]
      assms(1,2) by auto
  ultimately show ?thesis by blast
qed

theorem write_atomic_crash_safe_witness:
  "(\<lambda>q. if q = ''/c/t'' then Some ''new'' else if q = ''/c/config.toml'' then Some ''old'' else None)
     \<in> set (fst (write_atomic_trace no_faults ''/c/t'' [''/c/config.toml'' \<mapsto> ''old''] ''/c/config.toml'' ''new''))
   \<and> (\<lambda>q. if q = ''/c/t'' then Some ''new'' else if q = ''/c/config.toml'' then Some ''old'' else None)
        ''/c/config.toml'' \<in> {Some ''old'', Some ''new''}"
proof -
  let ?st = "\<lambda>q. if q = ''/c/t'' then Some ''new''
    else if q = ''/c/config.toml'' then Some ''old'' else None"
  have m: "?st \<in> set (fst (write_atomic_trace no_faults ''/c/t'' [''/c/config.toml'' \<mapsto> ''old'']
      ''/c/config.toml'' ''new''))"
    by (simp add: write_atomic_trace_def no_faults_def Let_def fun_eq_iff)
  show ?thesis using m write_atomic_crash_safe [OF _ _ m] by simp
qed

end
