(* ===== verification/Config.thy ===== *)
theory Config
  imports FileStore
begin

text \<open>
  \<^verbatim>\<open>src/src/config.rs\<close>: the persistent config and its load, save and comparison.  TOML is a
  pair of parameters, \<open>show_toml\<close> and \<open>parse_toml\<close>; the home directory, the temporary
  directory and the VRAM probe are arguments.
\<close>

record config =
  api_base_url :: string
  worker_id :: "string option"
  auth_token :: "string option"
  vram_threshold_gb :: f32
  memory_max_gb :: u32
  auto_start :: bool
  start_minimised :: bool
  only_when_idle :: bool
  auto_update_enabled :: bool
  auto_update_interval_secs :: u64
  auto_update_feed :: string
  auto_update_prerelease :: bool
  models_root :: path
  ws_reconnect_attempts :: "u32 option"
  local_api_port :: "u16 option"
  stream_port :: "u16 option"
  local_api_token :: "string option"
  install_id :: "string option"
  registration_request_id :: "string option"
  registration_secret :: "string option"

definition default_auto_update_interval :: u64 where
  "default_auto_update_interval = 1800"

definition default_auto_update_feed :: string where
  "default_auto_update_feed =
     ''https://api.github.com/repos/webbertakken/studio-worker/releases''"

definition models_root_from :: "path \<Rightarrow> path option \<Rightarrow> path" where
  "models_root_from temp_dir home = (case home of
       Some h \<Rightarrow> path_join h ''models'' | None \<Rightarrow> path_join temp_dir ''studio-worker-models'')"

definition expand_home_with :: "path \<Rightarrow> path option \<Rightarrow> path" where
  "expand_home_with p home =
     (if p = ''~'' then (case home of Some h \<Rightarrow> h | None \<Rightarrow> p)
      else case (strip_prefix ''~/'' p, home) of
          (Some rest, Some h) \<Rightarrow> path_join h rest
        | _ \<Rightarrow> p)"

definition config_default :: "path \<Rightarrow> path option \<Rightarrow> config" where
  "config_default temp_dir home =
     \<lparr>api_base_url = ''https://studio.minis.gg/'', worker_id = None, auth_token = None,
      vram_threshold_gb = f32_of_nat 12, memory_max_gb = DEFAULT_MEMORY_MAX_GB, auto_start = True,
      start_minimised = True, only_when_idle = False, auto_update_enabled = True,
      auto_update_interval_secs = default_auto_update_interval,
      auto_update_feed = default_auto_update_feed, auto_update_prerelease = False,
      models_root = models_root_from temp_dir home, ws_reconnect_attempts = None,
      local_api_port = None, stream_port = None, local_api_token = None, install_id = None,
      registration_request_id = None, registration_secret = None\<rparr>"

definition catalog_path_for :: "path \<Rightarrow> path option" where
  "catalog_path_for p = sibling ''models.json'' p"

definition residency_path_for :: "path \<Rightarrow> path option" where
  "residency_path_for p = sibling ''residency.json'' p"

definition local_api_discovery_path_for :: "path \<Rightarrow> path option" where
  "local_api_discovery_path_for p = sibling ''local-api.json'' p"

definition default_config_path :: "path option \<Rightarrow> (string, path) result" where
  "default_config_path config_dir = (case config_dir of
       None \<Rightarrow> Inl ''cannot resolve config directory'' | Some d \<Rightarrow> Inr (path_join d ''config.toml''))"

definition resolve_path :: "path option \<Rightarrow> path option \<Rightarrow> (string, path) result" where
  "resolve_path override_path config_dir = (case override_path of
       Some p \<Rightarrow> Inr p | None \<Rightarrow> default_config_path config_dir)"

definition clamp_initial_threshold :: "f32 \<Rightarrow> f32 \<Rightarrow> f32" where
  "clamp_initial_threshold default_threshold detected_vram =
     (if f32_lt f32_zero detected_vram \<and> f32_lt detected_vram default_threshold
      then detected_vram else default_threshold)"

section \<open>Load and save\<close>

definition config_save ::
  "(config \<Rightarrow> string) \<Rightarrow> faults \<Rightarrow> path \<Rightarrow> files \<Rightarrow> config \<Rightarrow> path \<Rightarrow>
   files \<times> (io_error, unit) result" where
  "config_save show_toml flt tmp fs cfg p = save_text flt tmp fs p (show_toml cfg)"

definition peek ::
  "(string \<Rightarrow> config option) \<Rightarrow> faults \<Rightarrow> files \<Rightarrow> path \<Rightarrow> path \<Rightarrow> path option \<Rightarrow> config" where
  "peek parse_toml flt fs p temp_dir home =
     (case read_to_string flt fs p of
        Inl _ \<Rightarrow> config_default temp_dir home
      | Inr text \<Rightarrow> (case parse_toml text of
            None \<Rightarrow> config_default temp_dir home | Some c \<Rightarrow> c))"

datatype load_error = LoadIo io_error | LoadToml

definition config_load ::
  "(string \<Rightarrow> config option) \<Rightarrow> (config \<Rightarrow> string) \<Rightarrow> faults \<Rightarrow> path \<Rightarrow> files \<Rightarrow> path \<Rightarrow>
   path \<Rightarrow> path option \<Rightarrow> f32 option \<Rightarrow> files \<times> (load_error, config) result" where
  "config_load parse_toml show_toml flt tmp fs p temp_dir home detected =
     (case fs p of
        None \<Rightarrow>
          let d = (case detected of Some v \<Rightarrow> v | None \<Rightarrow> f32_zero);
              c0 = config_default temp_dir home;
              c = c0\<lparr>vram_threshold_gb := clamp_initial_threshold (vram_threshold_gb c0) d\<rparr>
          in (case config_save show_toml flt tmp fs c p of
                (fs', Inl e) \<Rightarrow> (fs', Inl (LoadIo e)) | (fs', Inr _) \<Rightarrow> (fs', Inr c))
      | Some _ \<Rightarrow>
          (fs, case read_to_string flt fs p of
                Inl e \<Rightarrow> Inl (LoadIo e)
              | Inr text \<Rightarrow> (case parse_toml text of
                    None \<Rightarrow> Inl LoadToml
                  | Some c \<Rightarrow> Inr (c\<lparr>models_root := expand_home_with (models_root c) home\<rparr>))))"

section \<open>Comparison\<close>

definition F32_EPSILON :: f32 where
  "F32_EPSILON = Fin (2 ^ 126)"

definition changed_fields :: "config \<Rightarrow> config \<Rightarrow> string list" where
  "changed_fields a b =
     (if api_base_url a \<noteq> api_base_url b then [''api_base_url''] else []) @
     (if f32_le F32_EPSILON (f32_abs (f32_sub (vram_threshold_gb a) (vram_threshold_gb b)))
      then [''vram_threshold_gb''] else []) @
     (if memory_max_gb a \<noteq> memory_max_gb b then [''memory_max_gb''] else []) @
     (if auto_start a \<noteq> auto_start b then [''auto_start''] else []) @
     (if start_minimised a \<noteq> start_minimised b then [''start_minimised''] else []) @
     (if only_when_idle a \<noteq> only_when_idle b then [''only_when_idle''] else []) @
     (if auto_update_enabled a \<noteq> auto_update_enabled b then [''auto_update_enabled''] else []) @
     (if auto_update_interval_secs a \<noteq> auto_update_interval_secs b
      then [''auto_update_interval_secs''] else []) @
     (if auto_update_feed a \<noteq> auto_update_feed b then [''auto_update_feed''] else []) @
     (if auto_update_prerelease a \<noteq> auto_update_prerelease b
      then [''auto_update_prerelease''] else []) @
     (if models_root a \<noteq> models_root b then [''models_root''] else [])"

section \<open>Registration state\<close>

text \<open>\<^verbatim>\<open>runtime::clear_registration\<close>.\<close>

definition clear_registration :: "config \<Rightarrow> config" where
  "clear_registration c = c\<lparr>worker_id := None, auth_token := None, registration_request_id := None,
     registration_secret := None, install_id := None\<rparr>"

text \<open>What the registration gate tests, and what the session tests.\<close>

definition is_registered :: "config \<Rightarrow> bool" where
  "is_registered c = (worker_id c \<noteq> None \<and> auth_token c \<noteq> None)"

definition has_credentials :: "config \<Rightarrow> bool" where
  "has_credentials c =
     ((case worker_id c of None \<Rightarrow> False | Some s \<Rightarrow> s \<noteq> []) \<and>
      (case auth_token c of None \<Rightarrow> False | Some s \<Rightarrow> s \<noteq> []))"

lemma has_credentials_registered: "has_credentials c \<Longrightarrow> is_registered c"
  by (auto simp: has_credentials_def is_registered_def split: option.splits)

lemma changed_fields_refl: "changed_fields c c = []"
proof -
  have "\<not> f32_le F32_EPSILON (f32_abs (f32_sub x x))" for x
  proof (cases x)
    case (Fin n)
    have "f32_round 0 = Fin 0" using f32_round_exact [of 0 0] by simp
    with Fin show ?thesis by (simp add: f32_sub_def f32_abs_def F32_EPSILON_def)
  qed (simp_all add: f32_sub_def f32_abs_def F32_EPSILON_def)
  then show ?thesis by (simp add: changed_fields_def)
qed

lemma clamp_never_raises:
  "t \<noteq> NaN \<Longrightarrow> f32_le (clamp_initial_threshold t d) t"
  by (auto simp: clamp_initial_threshold_def f32_lt_def f32_le_refl)

text \<open>Starting twice gives the same config: the file a first start bootstraps is the
  one the next start reads back, with the threshold clamped to the card, provided TOML reads
  back what it printed and the default models root carries no tilde to expand.\<close>

theorem config_bootstrap_roundtrip:
  assumes fresh: "fs p = None" and tmp: "tmp \<noteq> p" "fs tmp = None"
    and first: "config_load parse_toml show_toml flt tmp fs p temp_dir home detected = (fs', Inr c)"
    and toml: "parse_toml (show_toml c) = Some c"
    and root: "expand_home_with (models_root c) home = models_root c"
  shows "config_load parse_toml show_toml no_faults tmp' fs' p temp_dir home detected' = (fs', Inr c) \<and>
         f32_le (vram_threshold_gb c) (f32_of_nat 12)"
proof -
  let ?d = "case detected of Some v \<Rightarrow> v | None \<Rightarrow> f32_zero"
  let ?c = "(config_default temp_dir home)\<lparr>vram_threshold_gb := clamp_initial_threshold (f32_of_nat 12) ?d\<rparr>"
  have "save_text flt tmp fs p (show_toml ?c) = (fs(p \<mapsto> show_toml ?c), Inr ()) \<or>
         (\<exists>e. save_text flt tmp fs p (show_toml ?c) = (fs, Inl e))"
    using tmp by (rule save_text_cases)
  then have saved: "fs' = fs(p \<mapsto> show_toml c)" and c: "c = ?c"
    using first fresh
    by (auto simp: config_load_def config_save_def config_default_def Let_def)
  have "f32_of_nat 12 \<noteq> NaN" by (simp add: f32_of_nat_def f32_round_def f32_pack_def)
  then have "f32_le (clamp_initial_threshold (f32_of_nat 12) ?d) (f32_of_nat 12)"
    by (rule clamp_never_raises)
  then have "f32_le (vram_threshold_gb c) (f32_of_nat 12)" by (subst c) simp
  with saved toml root show ?thesis
    by (simp add: config_load_def read_to_string_def no_faults_def)
qed

theorem config_bootstrap_roundtrip_witness:
  "config_load (\<lambda>_. Some (config_default ''/tmp'' None)) (\<lambda>_. ''text'') no_faults ''u'' [''/c/w.toml'' \<mapsto> ''text'']
     ''/c/w.toml'' ''/tmp'' None (Some (Fin 1)) =
     ([''/c/w.toml'' \<mapsto> ''text''], Inr (config_default ''/tmp'' None))"
proof -
  have "(config_default ''/tmp'' None)\<lparr>vram_threshold_gb := clamp_initial_threshold (f32_of_nat 12) f32_zero\<rparr>
      = config_default ''/tmp'' None"
    by (simp add: config_default_def clamp_initial_threshold_def f32_lt_def)
  then have "config_load (\<lambda>_. Some (config_default ''/tmp'' None)) (\<lambda>_. ''text'') no_faults ''t'' Map.empty
      ''/c/w.toml'' ''/tmp'' None None = ([''/c/w.toml'' \<mapsto> ''text''], Inr (config_default ''/tmp'' None))"
    using save_text_no_faults [where tmp = "''t''" and p = "''/c/w.toml''" and fs = Map.empty and content = "''text''"]
    by (simp add: config_load_def config_save_def Let_def) (simp add: config_default_def)
  from config_bootstrap_roundtrip [OF _ _ _ this, of "''u''" "Some (Fin 1)"] show ?thesis
    by (simp add: config_default_def models_root_from_def expand_home_with_def strip_prefix_def path_join_def)
qed

end
