(* ===== verification/Capabilities.thy ===== *)
theory Capabilities
  imports Config "HOL-Library.List_Lexorder" "HOL-Library.Char_ord"
begin

text \<open>
  What the worker advertises to the studio (\<^verbatim>\<open>src/src/runtime.rs\<close>,
  \<^verbatim>\<open>src/src/engine/mod.rs\<close>): the capability snapshot of the handshake and of every heartbeat.
  An engine's capabilities are its models per task kind, in key order (a \<^verbatim>\<open>BTreeMap\<close>); the
  machine's name, user and VRAM probe are arguments.
\<close>

type_synonym engine_capabilities = "(task_kind \<times> string list) list"

definition caps_supports :: "engine_capabilities \<Rightarrow> task_kind \<Rightarrow> string \<Rightarrow> bool" where
  "caps_supports caps kind model = (case map_of caps kind of
       None \<Rightarrow> False | Some ms \<Rightarrow> list_ex (\<lambda>m. m = model) ms)"

definition caps_kinds :: "engine_capabilities \<Rightarrow> task_kind list" where
  "caps_kinds caps = map fst caps"

definition flat_models :: "engine_capabilities \<Rightarrow> string list" where
  "flat_models caps = concat (map snd caps)"

record engine_view =
  ev_name :: string
  ev_caps :: engine_capabilities
  ev_model_engines :: "model_engine list"

record machine =
  mc_name :: string
  mc_user :: string
  mc_version :: string
  mc_vram_gb :: "f32 option"
  mc_ui_build :: bool

definition build_capabilities_with ::
  "machine \<Rightarrow> config \<Rightarrow> engine_view \<Rightarrow> bool \<Rightarrow> user_presence option \<Rightarrow> worker_capabilities" where
  "build_capabilities_with m cfg e auto_enabled presence =
     \<lparr>wc_machine_name = mc_name m, wc_username = mc_user m, wc_agent_version = mc_version m,
      wc_engine = ev_name e,
      wc_vram_total_gb = (case mc_vram_gb m of None \<Rightarrow> f32_zero | Some g \<Rightarrow> g),
      wc_vram_threshold_gb = vram_threshold_gb cfg, wc_auto_enabled = auto_enabled,
      wc_auto_start = (mc_ui_build m \<and> auto_start cfg), wc_auto_update = auto_update_enabled cfg,
      wc_start_minimised = start_minimised cfg, wc_only_when_idle = only_when_idle cfg,
      wc_user_presence = presence, wc_supported_models = remdups_adj (sort (flat_models (ev_caps e))),
      wc_task_kinds = caps_kinds (ev_caps e), wc_supported_models_per_kind = ev_caps e,
      wc_model_engines = ev_model_engines e\<rparr>"

definition build_capabilities :: "machine \<Rightarrow> config \<Rightarrow> engine_view \<Rightarrow> worker_capabilities" where
  "build_capabilities m cfg e = build_capabilities_with m cfg e True None"

definition model_engine_wire :: "model_engine \<Rightarrow> string" where
  "model_engine_wire e = (case e of SdCpp \<Rightarrow> ''sd-cpp'' | LlamaCpp \<Rightarrow> ''llama-cpp'' | Onnx \<Rightarrow> ''onnx''
     | Parakeet \<Rightarrow> ''parakeet'' | OnnxVision \<Rightarrow> ''onnx-vision'' | Torch \<Rightarrow> ''torch''
     | Convert \<Rightarrow> ''convert'' | Synthetic \<Rightarrow> ''synthetic'')"

definition show_bool :: "bool \<Rightarrow> string" where
  "show_bool b = (if b then ''true'' else ''false'')"

definition summarize_capabilities :: "worker_capabilities \<Rightarrow> string" where
  "summarize_capabilities c =
     ''advertising engine='' @ wc_engine c @ '', vram='' @ show_f32_prec 1 (wc_vram_total_gb c) @ ''/'' @
     show_f32_prec 1 (wc_vram_threshold_gb c) @ ''GB threshold, auto_enabled='' @ show_bool (wc_auto_enabled c) @
     '', only_when_idle='' @ show_bool (wc_only_when_idle c) @ '', user_presence='' @
     (case wc_user_presence c of None \<Rightarrow> ''unknown'' | Some Idle \<Rightarrow> ''idle'' | Some Active \<Rightarrow> ''active'') @
     '', kinds=['' @ join_str '', '' (map task_kind_str (wc_task_kinds c)) @
     ''], model_engines=['' @ join_str '', '' (map model_engine_wire (wc_model_engines c)) @ ''], '' @
     show_nat (length (wc_supported_models c)) @ '' model(s)=['' @ join_str '', '' (wc_supported_models c) @ '']''"

definition vram_threshold_warning :: "worker_capabilities \<Rightarrow> string option" where
  "vram_threshold_warning c =
     (let total = wc_vram_total_gb c; threshold = wc_vram_threshold_gb c in
      if f32_lt f32_zero total \<and> f32_lt total threshold
      then Some (''configured VRAM threshold '' @ show_f32_prec 1 threshold @ ''GB exceeds detected GPU VRAM '' @
        show_f32_prec 1 total @ ''GB; the studio may offer jobs larger than this card can fit and they will OOM on load '' @
        EM_DASH @ '' lower vram_threshold_gb to at or below '' @ show_f32_prec 1 total @ ''GB'')
      else None)"

lemma distinct_remdups_sorted:
  fixes xs :: "'a::linorder list"
  shows "sorted xs \<Longrightarrow> distinct (remdups_adj xs)"
proof (induction xs rule: remdups_adj.induct)
  case (3 x y xs)
  then show ?case by (auto simp: order.antisym)
qed simp_all

lemma advertised_models:
  "set (wc_supported_models (build_capabilities_with m cfg e a p)) = set (flat_models (ev_caps e))"
  "sorted (wc_supported_models (build_capabilities_with m cfg e a p))"
  "distinct (wc_supported_models (build_capabilities_with m cfg e a p))"
  by (simp_all add: build_capabilities_with_def sorted_remdups_adj distinct_remdups_sorted)

lemma threshold_within_card_is_silent:
  "f32_le (wc_vram_threshold_gb c) (wc_vram_total_gb c) \<Longrightarrow> vram_threshold_warning c = None"
proof -
  assume le: "f32_le (wc_vram_threshold_gb c) (wc_vram_total_gb c)"
  then have "\<not> f32_lt (wc_vram_total_gb c) (wc_vram_threshold_gb c)"
    by (cases "wc_vram_total_gb c"; cases "wc_vram_threshold_gb c")
      (auto simp: f32_lt_def split: if_splits)
  then show ?thesis by (simp add: vram_threshold_warning_def)
qed

end
