(* ===== verification/StudioApi.thy ===== *)
theory StudioApi
  imports Types
begin

text \<open>
  \<^verbatim>\<open>src/src/http.rs\<close>: the studio's HTTP interface.  A request's answer is an argument: a
  status with its body, or a transport error's text.  JSON bodies are parsed by arguments.
\<close>

section \<open>Answers and errors\<close>

datatype http_answer = HttpAnswer u16 string | TransportFailed string

datatype api_error =
    HttpStatusError string u16 string
  | ReqwestError string
  | ApiOther string

definition is_transient :: "u16 \<Rightarrow> bool" where
  "is_transient status = (500 \<le> status)"

definition is_transient_upload_error :: "api_error \<Rightarrow> bool" where
  "is_transient_upload_error e = (case e of
       HttpStatusError _ status _ \<Rightarrow> is_transient status
     | ReqwestError _ \<Rightarrow> True
     | ApiOther _ \<Rightarrow> False)"

definition show_api_error :: "(u16 \<Rightarrow> string) \<Rightarrow> api_error \<Rightarrow> string" where
  "show_api_error show_u16 e = (case e of
       HttpStatusError what status body \<Rightarrow> what @ '' failed: '' @ show_u16 status @ '' '' @ EM_DASH @ '' '' @ body
     | ReqwestError d \<Rightarrow> d
     | ApiOther d \<Rightarrow> d)"

definition check_response :: "string \<Rightarrow> http_answer \<Rightarrow> (api_error, string) result" where
  "check_response what a = (case a of
       TransportFailed d \<Rightarrow> Inl (ReqwestError d)
     | HttpAnswer status body \<Rightarrow>
         if (200 \<le> status \<and> status < 300) \<or> status = 204 then Inr body
         else Inl (HttpStatusError what status body))"

definition decode :: "(string \<Rightarrow> (string, 'a) result) \<Rightarrow> (api_error, string) result \<Rightarrow> (api_error, 'a) result" where
  "decode parse r = (case r of
       Inl e \<Rightarrow> Inl e
     | Inr body \<Rightarrow> (case parse body of Inl d \<Rightarrow> Inl (ReqwestError d) | Inr v \<Rightarrow> Inr v))"

section \<open>Registration\<close>

definition register_request ::
  "(string \<Rightarrow> (string, auto_register_response) result) \<Rightarrow> http_answer \<Rightarrow> (api_error, auto_register_response) result" where
  "register_request parse a = decode parse (check_response ''register-request'' a)"

definition poll_register_status ::
  "(string \<Rightarrow> (string, register_status) result) \<Rightarrow> http_answer \<Rightarrow> (api_error, register_status option) result" where
  "poll_register_status parse a = (case a of
       HttpAnswer status body \<Rightarrow>
         if status = 404 then Inr None
         else map_sum id Some (decode parse (check_response ''register-poll'' a))
     | TransportFailed d \<Rightarrow> Inl (ReqwestError d))"

section \<open>Uploads\<close>

record job_output =
  jo_ext :: string
  jo_prompt :: string
  jo_bytes :: bytes
  jo_generation_meta :: "string option"

definition job_output_new :: "string \<Rightarrow> string \<Rightarrow> bytes \<Rightarrow> job_output" where
  "job_output_new ext prompt b =
     \<lparr>jo_ext = ext, jo_prompt = prompt, jo_bytes = b, jo_generation_meta = None\<rparr>"

definition to_ascii_lowercase :: "string \<Rightarrow> string" where
  "to_ascii_lowercase s = map (\<lambda>c. let n = (of_char c :: nat) in
     if 65 \<le> n \<and> n \<le> 90 then char_of (n + 32) else c) s"

definition mime_for_ext :: "string \<Rightarrow> string" where
  "mime_for_ext ext = (let e = to_ascii_lowercase ext in
     if e = ''webp'' then ''image/webp''
     else if e = ''png'' then ''image/png''
     else if e = ''jpg'' \<or> e = ''jpeg'' then ''image/jpeg''
     else if e = ''gif'' then ''image/gif''
     else if e = ''wav'' then ''audio/wav''
     else if e = ''mp3'' then ''audio/mpeg''
     else if e = ''ogg'' \<or> e = ''opus'' then ''audio/ogg''
     else if e = ''flac'' then ''audio/flac''
     else if e = ''mp4'' then ''video/mp4''
     else if e = ''webm'' then ''video/webm''
     else if e = ''glb'' then ''model/gltf-binary''
     else ''application/octet-stream'')"

definition complete_parts :: "string \<Rightarrow> job_output \<Rightarrow> (string \<times> string) list \<times> (string \<times> string \<times> bytes)" where
  "complete_parts job out =
     ([(''prompt'', jo_prompt out), (''ext'', jo_ext out)] @
        (case jo_generation_meta out of Some meta \<Rightarrow> [(''generationMeta'', meta)] | None \<Rightarrow> []),
      (job @ ''.'' @ jo_ext out, mime_for_ext (jo_ext out), jo_bytes out))"

text \<open>\<open>complete_with_retry\<close>: \<open>answer k\<close> is what attempt \<open>k\<close> meets.  The answer, and the pauses
  slept between the attempts.\<close>

definition complete :: "http_answer \<Rightarrow> (api_error, unit) result" where
  "complete a = map_sum id (\<lambda>_. ()) (check_response ''complete'' a)"

function complete_loop ::
  "(nat \<Rightarrow> http_answer) \<Rightarrow> nat \<Rightarrow> nat \<Rightarrow> nat \<Rightarrow> (api_error, unit) result \<times> nat list" where
  "complete_loop answer retries pause attempt =
     (case complete (answer attempt) of
        Inr _ \<Rightarrow> (Inr (), [])
      | Inl e \<Rightarrow>
          if attempt < retries \<and> is_transient_upload_error e
          then let (r, slept) = complete_loop answer retries pause (attempt + 1)
               in (r, pause * (attempt + 1) # slept)
          else (Inl e, []))"
  by pat_completeness auto
termination by (relation "measure (\<lambda>(_, retries, _, attempt). retries - attempt)") auto

declare complete_loop.simps [simp del]

definition complete_with_retry ::
  "(nat \<Rightarrow> http_answer) \<Rightarrow> nat \<Rightarrow> nat \<Rightarrow> (api_error, unit) result \<times> nat list" where
  "complete_with_retry answer retries pause = complete_loop answer retries pause 0"

definition transient_answer :: "http_answer \<Rightarrow> bool" where
  "transient_answer a = (case complete a of Inl e \<Rightarrow> is_transient_upload_error e | Inr _ \<Rightarrow> False)"

lemma transient_answer_complete:
  "transient_answer a \<Longrightarrow> \<exists>e. complete a = Inl e \<and> is_transient_upload_error e"
  by (auto simp: transient_answer_def split: sum.splits)

lemma complete_loop_skips:
  "\<forall>j. i \<le> j \<and> j < i + k \<longrightarrow> transient_answer (answer j) \<Longrightarrow> i + k \<le> retries \<Longrightarrow>
   complete_loop answer retries pause i =
     (let (r, slept) = complete_loop answer retries pause (i + k)
      in (r, map (\<lambda>j. pause * (j + 1)) [i..<i + k] @ slept))"
proof (induction k arbitrary: i)
  case 0
  then show ?case by (simp split: prod.splits)
next
  case (Suc k)
  from Suc.prems have "transient_answer (answer i)" by simp
  then obtain e where e: "complete (answer i) = Inl e" "is_transient_upload_error e"
    using transient_answer_complete by blast
  have ih: "complete_loop answer retries pause (Suc i) =
      (let (r, slept) = complete_loop answer retries pause (Suc i + k)
       in (r, map (\<lambda>j. pause * (j + 1)) [Suc i..<Suc i + k] @ slept))"
    using Suc.prems by (intro Suc.IH) auto
  have "i < retries" using Suc.prems by simp
  with e ih show ?case
    by (subst complete_loop.simps) (simp add: Let_def upt_conv_Cons split: prod.splits)
qed

lemma complete_loop_stops:
  "complete (answer i) = r \<Longrightarrow> \<not> transient_answer (answer i) \<or> retries \<le> i \<Longrightarrow>
   complete_loop answer retries pause i = (r, [])"
  by (subst complete_loop.simps) (auto simp: transient_answer_def split: sum.splits)

text \<open>An upload that meets \<open>k\<close> transient failures (a 5xx or a transport error), within the
  retries it may spend, answers what the next attempt answers when that one is not transient,
  or when the retries are spent; it makes no further attempt and paused a linearly growing
  time between the attempts.\<close>

theorem upload_retries_transients:
  assumes "\<forall>j < k. transient_answer (answer j)" and "k \<le> retries"
    and "\<not> transient_answer (answer k) \<or> k = retries"
  shows "complete_with_retry answer retries pause =
    (complete (answer k), map (\<lambda>j. pause * (j + 1)) [0..<k])"
  using complete_loop_skips [of 0 k answer retries pause] assms
    complete_loop_stops [of answer k _ retries pause]
  by (auto simp: complete_with_retry_def)

theorem upload_retries_transients_witness:
  "complete_with_retry (\<lambda>j. if j = 0 then TransportFailed ''reset''
       else if j = 1 then HttpAnswer 503 [] else HttpAnswer 200 []) 2 1 = (Inr (), [1, 2])"
proof -
  let ?a = "\<lambda>j::nat. if j = 0 then TransportFailed ''reset''
       else if j = 1 then HttpAnswer 503 [] else HttpAnswer 200 []"
  have t: "transient_answer (TransportFailed ''reset'')" "transient_answer (HttpAnswer 503 [])"
    "complete (HttpAnswer 200 []) = Inr ()"
    by (simp_all add: transient_answer_def complete_def check_response_def
        is_transient_upload_error_def is_transient_def)
  have "\<forall>j < 2. transient_answer (?a j)" using t by (auto simp: less_2_cases_iff)
  then show ?thesis
    using upload_retries_transients [of 2 ?a 2 1] t by (simp add: upt_conv_Cons)
qed

end
