(* ===== verification/Secrets.thy ===== *)
theory Secrets
  imports Types
begin

text \<open>
  \<^verbatim>\<open>src/src/secrets.rs\<close>: the secrets the worker mints.  The operating system's random bytes are an
  argument.
\<close>

text \<open>Random bytes in hex, and 16 of them as 8-4-4-4-12.\<close>

definition hex_digit :: "nat \<Rightarrow> char" where
  "hex_digit n = (if n < 10 then char_of (48 + n) else char_of (87 + n))"

definition hex_of_bytes :: "bytes \<Rightarrow> string" where
  "hex_of_bytes bs = concat (map (\<lambda>b. [hex_digit (unat b div 16), hex_digit (unat b mod 16)]) bs)"

definition new_secret_hex :: "bytes \<Rightarrow> string" where
  "new_secret_hex entropy = hex_of_bytes entropy"

definition slice :: "nat \<Rightarrow> nat \<Rightarrow> 'a list \<Rightarrow> 'a list" where
  "slice i j xs = take (j - i) (drop i xs)"

definition new_uuid :: "bytes \<Rightarrow> string" where
  "new_uuid entropy = (let hex = hex_of_bytes entropy in
     slice 0 8 hex @ ''-'' @ slice 8 12 hex @ ''-'' @ slice 12 16 hex @ ''-'' @ slice 16 20 hex @ ''-'' @ slice 20 32 hex)"

text \<open>\<open>sha256_hex\<close>, over the hash of the \<^verbatim>\<open>sha2\<close> crate.\<close>

definition sha256_hex :: "(string \<Rightarrow> bytes) \<Rightarrow> string \<Rightarrow> string" where
  "sha256_hex sha256 input = hex_of_bytes (sha256 input)"

lemma length_hex [simp]: "length (hex_of_bytes bs) = 2 * length bs"
  by (induction bs) (simp_all add: hex_of_bytes_def)

lemma uuid_shape:
  assumes "length bs = 16"
  shows "length (new_uuid bs) = 36"
  using assms by (simp add: new_uuid_def slice_def Let_def)

lemma hex_digit_inj: "m < 16 \<Longrightarrow> n < 16 \<Longrightarrow> hex_digit m = hex_digit n \<Longrightarrow> m = n"
  by (auto simp: hex_digit_def of_char_eq_iff [symmetric] split: if_splits)

end
