(* ===== verification/AutoRegister.thy ===== *)
theory AutoRegister
  imports Capabilities StudioApi Secrets
begin

text \<open>
  \<^verbatim>\<open>src/src/auto_register.rs\<close> and the registration gate of \<^verbatim>\<open>src/src/runtime.rs\<close>: the worker
  asks the studio for approval and polls for the operator's decision.  The world is the shared
  configuration, the files and the state shown to the interface.  Fresh random values, the hash,
  the engine build, the HTTP answers and which writes fail are given by the environment of a
  tick; the HTTP calls a tick makes are part of its result.
\<close>

section \<open>State\<close>

datatype registration_state =
    RsPristine
  | RsPending string nat
  | RsApproved
  | RsRejected string

record reg_world =
  rw_cfg :: config
  rw_files :: files
  rw_state :: registration_state

definition shared_initial :: registration_state where
  "shared_initial = RsPristine"

text \<open>A call that ran on the blocking pool: \<open>Inl\<close> the text of a panic.\<close>

type_synonym 'a blocking = "(string, (api_error, 'a) result) result"

record reg_env =
  re_path :: path
  re_tmp :: path
  re_show :: "config \<Rightarrow> string"
  re_faults :: faults
  re_now :: nat
  re_uuid_bytes :: bytes
  re_secret_bytes :: bytes
  re_sha256 :: "string \<Rightarrow> bytes"
  re_engine :: "(string, engine_view) result"
  re_machine :: machine
  re_request :: "auto_register_response blocking"
  re_poll :: "register_status option blocking"

datatype reg_call = PostRequest auto_register_request | GetStatus string string

definition save_cfg :: "reg_env \<Rightarrow> reg_world \<Rightarrow> reg_world" where
  "save_cfg v w = w\<lparr>rw_files := fst (config_save (re_show v) (re_faults v) (re_tmp v) (rw_files w) (rw_cfg w) (re_path v))\<rparr>"

text \<open>A change made under the lock, then the save of the snapshot (a failed save is logged).\<close>

definition change_cfg :: "reg_env \<Rightarrow> (config \<Rightarrow> config) \<Rightarrow> reg_world \<Rightarrow> reg_world" where
  "change_cfg v f w = save_cfg v (w\<lparr>rw_cfg := f (rw_cfg w)\<rparr>)"

definition show_state :: "registration_state \<Rightarrow> reg_world \<Rightarrow> reg_world" where
  "show_state st w = w\<lparr>rw_state := st\<rparr>"

section \<open>One tick\<close>

definition ensure_install_state :: "reg_env \<Rightarrow> reg_world \<Rightarrow> reg_world" where
  "ensure_install_state v w =
     (let c = rw_cfg w; no_id = (install_id c = None);
          no_secret = (registration_request_id c = None \<and> registration_secret c = None);
          c' = (if no_id then c\<lparr>install_id := Some (new_uuid (re_uuid_bytes v))\<rparr> else c);
          c' = (if no_secret then c'\<lparr>registration_secret := Some (new_secret_hex (re_secret_bytes v))\<rparr> else c')
      in if no_id \<or> no_secret then change_cfg v (\<lambda>_. c') w else w)"

definition build_payload :: "reg_env \<Rightarrow> config \<Rightarrow> string \<Rightarrow> string \<Rightarrow> (string, auto_register_request) result" where
  "build_payload v c install hash = (case re_engine v of
       Inl e \<Rightarrow> Inl e
     | Inr engine \<Rightarrow> Inr \<lparr>ar_install_id = install, ar_registration_secret_hash = hash,
         ar_capabilities = build_capabilities (re_machine v) c engine,
         ar_user_agent = ''studio-worker/'' @ mc_version (re_machine v)\<rparr>)"

definition create_request ::
  "reg_env \<Rightarrow> string \<Rightarrow> reg_world \<Rightarrow> reg_world \<times> registration_state \<times> reg_call list" where
  "create_request v install w =
     (let (w, secret) = (case registration_secret (rw_cfg w) of
            Some s \<Rightarrow> (w, s)
          | None \<Rightarrow> (let s = new_secret_hex (re_secret_bytes v)
                     in (w\<lparr>rw_cfg := (rw_cfg w)\<lparr>registration_secret := Some s\<rparr>\<rparr>, s)))
      in case build_payload v (rw_cfg w) install (sha256_hex (re_sha256 v) secret) of
           Inl _ \<Rightarrow> (w, RsPristine, [])
         | Inr payload \<Rightarrow> (case re_request v of
             Inl _ \<Rightarrow> (w, RsPristine, [PostRequest payload])
           | Inr (Inl _) \<Rightarrow> (w, RsPristine, [PostRequest payload])
           | Inr (Inr response) \<Rightarrow>
               (let i = arr_request_id response; st = RsPending i (re_now v);
                    w = change_cfg v (\<lambda>c. c\<lparr>registration_request_id := Some i\<rparr>) w
                in (show_state st w, st, [PostRequest payload]))))"

definition pending_since :: "registration_state \<Rightarrow> string \<Rightarrow> nat \<Rightarrow> nat" where
  "pending_since shown i now = (case shown of
       RsPending prev since \<Rightarrow> if prev = i then since else now
     | _ \<Rightarrow> now)"

definition forget_request :: "config \<Rightarrow> config" where
  "forget_request c = c\<lparr>registration_request_id := None, registration_secret := None\<rparr>"

definition approve :: "string \<Rightarrow> string \<Rightarrow> config \<Rightarrow> config" where
  "approve wid token c = c\<lparr>worker_id := Some wid, auth_token := Some token,
     registration_request_id := None, registration_secret := None\<rparr>"

definition poll_existing ::
  "reg_env \<Rightarrow> string \<Rightarrow> string \<Rightarrow> reg_world \<Rightarrow> reg_world \<times> registration_state \<times> reg_call list" where
  "poll_existing v i secret w =
     (let calls = [GetStatus i secret];
          pending = RsPending i (pending_since (rw_state w) i (re_now v));
          answer = (\<lambda>st w. (show_state st w, st, calls))
      in case re_poll v of
           Inl _ \<Rightarrow> answer pending w
         | Inr (Inl _) \<Rightarrow> answer pending w
         | Inr (Inr None) \<Rightarrow> answer RsPristine (change_cfg v forget_request w)
         | Inr (Inr (Some StatusPending)) \<Rightarrow> answer pending w
         | Inr (Inr (Some (StatusApproved wid token))) \<Rightarrow> answer RsApproved (change_cfg v (approve wid token) w)
         | Inr (Inr (Some (StatusRejected reason))) \<Rightarrow> answer (RsRejected reason) (change_cfg v forget_request w))"

text \<open>\<open>install_id.expect(..)\<close>: \<open>ensure_install_state\<close> has set it (\<open>install_of_ensured\<close> below).\<close>

definition tick :: "reg_env \<Rightarrow> reg_world \<Rightarrow> reg_world \<times> registration_state \<times> reg_call list" where
  "tick v w =
     (if is_registered (rw_cfg w) then (show_state RsApproved w, RsApproved, [])
      else let w = ensure_install_state v w; c = rw_cfg w in
        case (registration_request_id c, registration_secret c) of
          (Some i, Some secret) \<Rightarrow> poll_existing v i secret w
        | _ \<Rightarrow> create_request v (the (install_id c)) w)"

section \<open>The gate\<close>

datatype registration_gate = GateReady | GateStopped

text \<open>Each turn: the stop flag before the tick, the tick, and whether a stop came in the 30 s
  sleep after it.  \<open>None\<close>: still waiting when the turns end.\<close>

fun ensure_registered ::
  "(bool \<times> reg_env \<times> bool) list \<Rightarrow> reg_world \<Rightarrow> reg_world \<times> (string, registration_gate) result option" where
  "ensure_registered [] w = (w, None)"
| "ensure_registered ((stop, v, stop_asleep) # turns) w =
     (if stop then (w, Some (Inr GateStopped))
      else if is_registered (rw_cfg w) then (w, Some (Inr GateReady))
      else case tick v w of
          (w, RsApproved, _) \<Rightarrow> (w, Some (Inr GateReady))
        | (w, RsRejected reason, _) \<Rightarrow>
            (w, Some (Inl (''registration rejected by the studio operator: '' @ reason @
               ''.  Run `studio-worker register --reset` to clear local state and submit a fresh request.'')))
        | (w, _, _) \<Rightarrow> if stop_asleep then (w, Some (Inr GateStopped)) else ensure_registered turns w)"

section \<open>Facts\<close>

lemma save_cfg_sel [simp]: "rw_cfg (save_cfg v w) = rw_cfg w" "rw_state (save_cfg v w) = rw_state w"
  by (simp_all add: save_cfg_def)

lemma change_cfg_sel [simp]:
  "rw_cfg (change_cfg v f w) = f (rw_cfg w)" "rw_state (change_cfg v f w) = rw_state w"
  by (simp_all add: change_cfg_def)

lemma show_state_sel [simp]:
  "rw_cfg (show_state st w) = rw_cfg w" "rw_files (show_state st w) = rw_files w" "rw_state (show_state st w) = st"
  by (simp_all add: show_state_def)

lemma ensured:
  "install_id (rw_cfg (ensure_install_state v w)) \<noteq> None"
  "registration_request_id (rw_cfg (ensure_install_state v w)) = registration_request_id (rw_cfg w)"
  "registration_request_id (rw_cfg w) = None \<Longrightarrow> registration_secret (rw_cfg (ensure_install_state v w)) \<noteq> None"
  "is_registered (rw_cfg (ensure_install_state v w)) = is_registered (rw_cfg w)"
  "rw_state (ensure_install_state v w) = rw_state w"
  by (simp_all add: ensure_install_state_def is_registered_def Let_def)

lemma ensured_done:
  "install_id (rw_cfg w) \<noteq> None \<Longrightarrow> registration_secret (rw_cfg w) \<noteq> None \<Longrightarrow> ensure_install_state v w = w"
  unfolding ensure_install_state_def Let_def by (simp only: if_False simp_thms)

lemma ensured_install_id:
  "install_id (rw_cfg w) = Some i \<Longrightarrow> install_id (rw_cfg (ensure_install_state v w)) = Some i"
  "install_id (rw_cfg w) = None \<Longrightarrow>
     install_id (rw_cfg (ensure_install_state v w)) = Some (new_uuid (re_uuid_bytes v))"
  by (simp_all add: ensure_install_state_def Let_def)

lemmas registration_steps =
  build_payload_def forget_request_def approve_def is_registered_def Let_def

text \<open>What holds of the answer of each way a tick can go.\<close>

definition tick_ok :: "reg_env \<Rightarrow> reg_world \<Rightarrow> reg_world \<times> registration_state \<times> reg_call list \<Rightarrow> bool" where
  "tick_ok v w r = (case r of (w', st, calls) \<Rightarrow>
     length calls \<le> 1 \<and> (st = RsApproved \<longleftrightarrow> is_registered (rw_cfg w')) \<and>
     (st \<noteq> RsPristine \<longrightarrow> rw_state w' = st) \<and> install_id (rw_cfg w') = install_id (rw_cfg w) \<and>
     (\<forall>p. PostRequest p \<in> set calls \<longrightarrow>
        install_id (rw_cfg w') = Some (ar_install_id p) \<and>
        (\<exists>s. registration_secret (rw_cfg w') = Some s \<and> ar_registration_secret_hash p = sha256_hex (re_sha256 v) s)) \<and>
     (\<forall>i s. GetStatus i s \<in> set calls \<longrightarrow>
        registration_request_id (rw_cfg w) = Some i \<and> registration_secret (rw_cfg w) = Some s) \<and>
     (case st of
        RsPending i since \<Rightarrow> registration_request_id (rw_cfg w') = Some i \<and> registration_secret (rw_cfg w') \<noteq> None
      | RsRejected _ \<Rightarrow> registration_request_id (rw_cfg w') = None \<and> registration_secret (rw_cfg w') = None
      | _ \<Rightarrow> True))"

lemma create_request_ok:
  assumes "\<not> is_registered (rw_cfg w)" "install_id (rw_cfg w) = Some i"
  shows "tick_ok v w (create_request v i w)"
  using assms
  by (auto simp: create_request_def tick_ok_def registration_steps split: option.splits sum.splits)

lemma poll_existing_ok:
  assumes "\<not> is_registered (rw_cfg w)" "registration_request_id (rw_cfg w) = Some i"
    "registration_secret (rw_cfg w) = Some s"
  shows "tick_ok v w (poll_existing v i s w)"
  using assms
  by (auto simp: poll_existing_def tick_ok_def registration_steps
      split: option.splits sum.splits register_status.splits)

lemma tick_unregistered:
  assumes "\<not> is_registered (rw_cfg w)"
  shows "tick_ok v (ensure_install_state v w) (tick v w)"
proof -
  let ?w = "ensure_install_state v w"
  have unreg: "\<not> is_registered (rw_cfg ?w)" using assms by (simp add: ensured)
  obtain i where i: "install_id (rw_cfg ?w) = Some i" using ensured(1) by blast
  show ?thesis
    using assms create_request_ok [OF unreg i] poll_existing_ok [OF unreg]
    by (auto simp: tick_def Let_def i split: option.splits)
qed

lemma tick_registered: "is_registered (rw_cfg w) \<Longrightarrow> tick v w = (show_state RsApproved w, RsApproved, [])"
  by (simp add: tick_def)


definition sample_reg_env :: "register_status option blocking \<Rightarrow> reg_env" where
  "sample_reg_env answer = \<lparr>re_path = ''/c/w.toml'', re_tmp = ''/c/t'', re_show = (\<lambda>_. ''text''), re_faults = no_faults,
     re_now = 90, re_uuid_bytes = replicate 16 0, re_secret_bytes = replicate 32 0, re_sha256 = (\<lambda>_. []),
     re_engine = Inl ''none'',
     re_machine = \<lparr>mc_name = [], mc_user = [], mc_version = [], mc_vram_gb = None, mc_ui_build = False\<rparr>,
     re_request = Inl ''panic'', re_poll = answer\<rparr>"

definition sample_reg_world :: reg_world where
  "sample_reg_world = \<lparr>rw_cfg = (config_default ''/tmp'' None)\<lparr>install_id := Some ''u'',
       registration_request_id := Some ''r'', registration_secret := Some ''s''\<rparr>,
     rw_files = Map.empty, rw_state = RsPending ''r'' 30\<rparr>"

lemmas sample_reg_defs = sample_reg_env_def sample_reg_world_def config_default_def


definition undecided :: "reg_env \<Rightarrow> bool" where
  "undecided v = (case re_poll v of
       Inr (Inr None) \<Rightarrow> False | Inr (Inr (Some st)) \<Rightarrow> st = StatusPending | _ \<Rightarrow> True)"

lemma tick_polls:
  assumes "\<not> is_registered (rw_cfg w)" "install_id (rw_cfg w) \<noteq> None"
    "registration_request_id (rw_cfg w) = Some i" "registration_secret (rw_cfg w) = Some s"
  shows "tick v w = poll_existing v i s w"
proof -
  have "ensure_install_state v w = w" using assms by (simp add: ensured_done)
  with assms show ?thesis by (simp add: tick_def Let_def)
qed

lemma undecided_tick:
  assumes "\<not> is_registered (rw_cfg w)" "install_id (rw_cfg w) \<noteq> None"
    "registration_request_id (rw_cfg w) = Some i" "registration_secret (rw_cfg w) = Some s"
    "rw_state w = RsPending i since" "undecided v"
  shows "tick v w = (w, RsPending i since, [GetStatus i s])"
proof -
  have "show_state (RsPending i since) w = w" using assms by (simp add: show_state_def)
  with assms(5,6) tick_polls [OF assms(1-4)] show ?thesis
    by (auto simp: poll_existing_def pending_since_def undecided_def Let_def split: sum.splits option.splits)
qed

text \<open>While the studio has not decided (it answers Pending, answers an error, cannot be reached or the
  poll panics), the registration gate keeps polling and changes nothing: not the configuration, not a
  file, and the interface keeps the instant the request was first seen pending.\<close>

theorem undecided_request_waits:
  assumes unreg: "\<not> is_registered (rw_cfg w)" "install_id (rw_cfg w) \<noteq> None"
    and pair: "registration_request_id (rw_cfg w) = Some i" "registration_secret (rw_cfg w) = Some s"
    and shown: "rw_state w = RsPending i since"
    and polls: "\<forall>v \<in> set vs. undecided v"
  shows "ensure_registered (map (\<lambda>v. (False, v, False)) vs) w = (w, None)"
  using polls by (induction vs) (simp_all add: unreg undecided_tick [OF unreg pair shown])

theorem undecided_request_waits_witness:
  "ensure_registered [(False, sample_reg_env (Inl ''panic''), False),
       (False, sample_reg_env (Inr (Inr (Some StatusPending))), False)] sample_reg_world = (sample_reg_world, None)"
  using undecided_request_waits [of sample_reg_world "''r''" "''s''" 30
      "[sample_reg_env (Inl ''panic''), sample_reg_env (Inr (Inr (Some StatusPending)))]"]
  by (simp add: is_registered_def undecided_def sample_reg_defs)

end
