(* ===== verification/CatalogSeed.thy ===== *)
theory CatalogSeed
  imports Types
begin

text \<open>
  \<^verbatim>\<open>src/src/catalog.rs\<close>, first part: a catalogue entry and the eight models every worker ships
  seeded with, field by field.  The float literals are the exact \<open>f32\<close> the compiler rounds
  them to (\<open>f32_lit p q\<close> is the literal p/q).
\<close>

record catalog_model =
  cm_id :: string
  cm_display_name :: string
  cm_kind :: task_kind
  cm_vram_gb_estimate :: f32
  cm_description :: "string option"
  cm_source :: model_source
  cm_enabled :: bool
  cm_origin :: string
  cm_exclusive_group :: "string option"

definition default_true :: bool where
  "default_true = True"

definition default_origin :: string where
  "default_origin = ''local''"

definition hf_file :: "string \<Rightarrow> string \<Rightarrow> string \<Rightarrow> u64 \<Rightarrow> string \<Rightarrow> model_file" where
  "hf_file repo revision path bytes sha256 =
     \<lparr>mf_role = Model,
      mf_url = ''https://huggingface.co/'' @ repo @ ''/resolve/'' @ revision @ ''/'' @ path,
      mf_filename = last (split_on CHR ''/'' path), mf_approx_bytes = Some bytes,
      mf_sha256 = Some sha256\<rparr>"

definition megadetector_v5a :: catalog_model where
  "megadetector_v5a =
     \<lparr>cm_id = ''megadetector-v5a'',
      cm_display_name = ''MegaDetector v5a (camera trap animals)'',
      cm_kind = Vision, cm_vram_gb_estimate = f32_of_nat 2,
      cm_description = Some ''Finds animals, people and vehicles; filters blank pictures'',
      cm_source = \<lparr>ms_engine = OnnxVision,
        ms_files = [hf_file ''malyvsen/megadetector-v5a-onnx'' ''f042c11430241afaf986a1f856f0d2552811628f''
          ''md_v5a.0.0.onnx'' 561711905
          ''6b81668c931a15a0117cb43f810ee06ee1009896d71831d060ba3fb8d286cfa0''],
        ms_cli_defaults = cli_defaults_default\<lparr>cd_width := 1280, cd_height := 1280,
        cd_vision := Some \<lparr>vd_task = Detect, vd_labels = [''animal'', ''person'', ''vehicle''],
          vd_animal_labels = Some [''animal''], vd_mean = None,
          vd_std = None, vd_probabilities = None, vd_min_confidence = Some (f32_lit 2 10),
          vd_iou = Some (f32_lit 45 100), vd_top_k = None, vd_channels_last = None, vd_crop_margin = None\<rparr>\<rparr>\<rparr>,
      cm_enabled = True, cm_origin = ''local'', cm_exclusive_group = None\<rparr>"

definition speciesnet_v4a :: catalog_model where
  "speciesnet_v4a =
     \<lparr>cm_id = ''speciesnet-v4a'',
      cm_display_name = ''SpeciesNet v4.0.1a (camera trap species, crops)'',
      cm_kind = Vision, cm_vram_gb_estimate = f32_lit 15 10,
      cm_description = Some (''Names an animal'' @ [CHR 0x27] @ ''s crop over 2 498 species, with taxonomy''),
      cm_source = \<lparr>ms_engine = OnnxVision,
        ms_files = [hf_file ''daslearning/Google-SpeciesNet-ONNX'' ''9022b5f81b49ee090dd8f384581178d1c7432ff3''
          ''onnx/spicesNet_v401a.onnx'' 223998606
          ''3241441fc5783d1a909ae5c2af432b97ff8210abe336d03f62b24373a61bc1fa'',
        (hf_file ''earthtoolsmaker/speciesnet'' ''8fb0eeea863afe62e442305bf41112316bf59709''
          ''4.0.1a/always_crop_99710272_22x8_v12_epoch_00148.labels.txt'' 256138
          ''b6b7f5c9e3bff6730c0c526ed717df5e5a251c2062070458387cb7de84017052'')\<lparr>mf_role := Labels\<rparr>],
        ms_cli_defaults = cli_defaults_default\<lparr>cd_width := 480, cd_height := 480,
        cd_vision := Some \<lparr>vd_task = Classify, vd_labels = [],
          vd_animal_labels = None, vd_mean = None,
          vd_std = None, vd_probabilities = None, vd_min_confidence = None,
          vd_iou = None, vd_top_k = Some 5, vd_channels_last = Some True, vd_crop_margin = Some (f32_lit 0 1)\<rparr>\<rparr>\<rparr>,
      cm_enabled = True, cm_origin = ''local'', cm_exclusive_group = None\<rparr>"

definition BIRD_REPO :: string where
  "BIRD_REPO = ''chriamue/bird-species-classifier''"

definition BIRD_REVISION :: string where
  "BIRD_REVISION = ''c8b211833491b1032250462c2b7e53e02f4de336''"

definition bird_species :: catalog_model where
  "bird_species =
     \<lparr>cm_id = ''bird-species-efficientnet-b2'',
      cm_display_name = ''Bird species (EfficientNet-B2, 525 species)'',
      cm_kind = Vision, cm_vram_gb_estimate = f32_lit 5 10,
      cm_description = Some ''Ranks 525 bird species with confidences'',
      cm_source = \<lparr>ms_engine = OnnxVision,
        ms_files = [hf_file BIRD_REPO BIRD_REVISION
          ''onnx/model.onnx'' 33741738
          ''09b950b371030de9003824baa66457f2e8fc4f96fe87a34cc4c3b242b2864d8b'',
        (hf_file BIRD_REPO BIRD_REVISION
          ''config.json'' 32307
          ''c0e5dcd2132ca2bb1e25c2b6d5bddee5201418307fda9d7cfe063600729afeb4'')\<lparr>mf_role := Labels\<rparr>],
        ms_cli_defaults = cli_defaults_default\<lparr>cd_width := 260, cd_height := 260,
        cd_vision := Some \<lparr>vd_task = Classify, vd_labels = [],
          vd_animal_labels = None, vd_mean = Some [f32_lit 485 1000, f32_lit 456 1000, f32_lit 406 1000],
          vd_std = Some [f32_lit 47853944 100000000, f32_lit 4732864 10000000, f32_lit 47434163 100000000], vd_probabilities = None, vd_min_confidence = None,
          vd_iou = None, vd_top_k = Some 5, vd_channels_last = None, vd_crop_margin = None\<rparr>\<rparr>\<rparr>,
      cm_enabled = True, cm_origin = ''local'', cm_exclusive_group = None\<rparr>"

definition PARAKEET_RS_REVISION :: string where
  "PARAKEET_RS_REVISION = ''4d2a8bc71f5c896ec40faa59732e6716295edaf2''"

definition qwen35_08b :: catalog_model where
  "qwen35_08b =
     \<lparr>cm_id = ''qwen3.5-0.8b'',
      cm_display_name = ''Qwen3.5 0.8B instruct (Q8_0)'',
      cm_kind = Llm, cm_vram_gb_estimate = f32_lit 15 10,
      cm_description = Some ''Small chat model: reasoning off, 32K context'',
      cm_source = \<lparr>ms_engine = LlamaCpp,
        ms_files = [hf_file ''unsloth/Qwen3.5-0.8B-GGUF'' ''6ab461498e2023f6e3c1baea90a8f0fe38ab64d0''
          ''Qwen3.5-0.8B-Q8_0.gguf'' 811843840
          ''0ad885ffd4bb022fc4f0d33a3308fa108ef8613159d3b3a67e23abca056b7a6c''],
        ms_cli_defaults = cli_defaults_default\<lparr>cd_context_size := Some 32768,
        cd_chat_template_kwargs := Some [(''enable_thinking'', JBool False)]\<rparr>\<rparr>,
      cm_enabled = True, cm_origin = ''local'', cm_exclusive_group = None\<rparr>"

definition qwen35_2b :: catalog_model where
  "qwen35_2b =
     \<lparr>cm_id = ''qwen3.5-2b'',
      cm_display_name = ''Qwen3.5 2B instruct (Q8_0)'',
      cm_kind = Llm, cm_vram_gb_estimate = f32_of_nat 3,
      cm_description = Some ''Chat model: reasoning off, 32K context'',
      cm_source = \<lparr>ms_engine = LlamaCpp,
        ms_files = [hf_file ''unsloth/Qwen3.5-2B-GGUF'' ''f6d5376be1edb4d416d56da11e5397a961aca8ae''
          ''Qwen3.5-2B-Q8_0.gguf'' 2012012800
          ''1b04acba824817554f4ce23639bc8495ff70453b8fcb047900c731521021f2c1''],
        ms_cli_defaults = cli_defaults_default\<lparr>cd_context_size := Some 32768,
        cd_chat_template_kwargs := Some [(''enable_thinking'', JBool False)]\<rparr>\<rparr>,
      cm_enabled = True, cm_origin = ''local'', cm_exclusive_group = None\<rparr>"

text \<open>The closure \<open>f\<close> of both streaming seeds.\<close>

definition parakeet_file :: "string \<Rightarrow> string \<Rightarrow> u64 \<Rightarrow> string \<Rightarrow> model_file" where
  "parakeet_file dir name bytes sha =
     hf_file ''altunenes/parakeet-rs'' PARAKEET_RS_REVISION (dir @ ''/'' @ name) bytes sha"

definition nemotron_stream :: catalog_model where
  "nemotron_stream =
     \<lparr>cm_id = ''nemotron-3.5-stream'',
      cm_display_name = ''Nemotron 3.5 streaming (0.6B, multilingual)'',
      cm_kind = AudioStt, cm_vram_gb_estimate = f32_lit 35 10,
      cm_description = Some ''Streaming speech-to-text with punctuation'',
      cm_source = \<lparr>ms_engine = Parakeet,
        ms_files = [parakeet_file ''nemotron-3.5-asr-streaming-0.6b-onnx'' ''config.json'' 2979
          ''b0289e196d11a17e3c661bbadfe455c87de4baffc1a5e652a5779f5d687c5db0'',
        parakeet_file ''nemotron-3.5-asr-streaming-0.6b-onnx'' ''decoder_joint.onnx'' 97590054
          ''634dfadf24cb4f73c2fae170b36611d68db48186426882cbc8f7e02ed9f2bb29'',
        parakeet_file ''nemotron-3.5-asr-streaming-0.6b-onnx'' ''encoder.onnx'' 42164972
          ''d569fbe78b48fbb04e169d324f5d25463838ceed7b5fc3bfe209872441979bd9'',
        parakeet_file ''nemotron-3.5-asr-streaming-0.6b-onnx'' ''encoder.onnx.data'' 2454405120
          ''7584f85df76bc9ae6fbdfa53aa8d97b07a842525d1c501d536d77fd9e4f57ac7'',
        parakeet_file ''nemotron-3.5-asr-streaming-0.6b-onnx'' ''tokenizer.model'' 406554
          ''ce3895e40806f02a26c3a225161b96ef682d6c0054bae32a245dec4258d7d291''],
        ms_cli_defaults = cli_defaults_default\<rparr>,
      cm_enabled = True, cm_origin = ''local'', cm_exclusive_group = Some ''stt''\<rparr>"

definition parakeet_eou :: catalog_model where
  "parakeet_eou =
     \<lparr>cm_id = ''parakeet-eou-120m'',
      cm_display_name = ''Parakeet EOU (120M, English)'',
      cm_kind = AudioStt, cm_vram_gb_estimate = f32_lit 12 10,
      cm_description = Some ''Light streaming speech-to-text, English'',
      cm_source = \<lparr>ms_engine = Parakeet,
        ms_files = [parakeet_file ''realtime_eou_120m-v1-onnx'' ''decoder_joint.onnx'' 21347639
          ''9d2553ac043c2fc5f69e970769b0fb8ab9103fbfdeb7d26a1ea9729d4bd2dddd'',
        parakeet_file ''realtime_eou_120m-v1-onnx'' ''encoder.onnx'' 459341289
          ''d472887cc38a784a5bfc21c2dbe247639edc3b3f9992388d8ceceaec07256b5b'',
        parakeet_file ''realtime_eou_120m-v1-onnx'' ''tokenizer.json'' 20053
          ''f6b0ad8690559351fa478116fe0985a203b76f7c040f3a9381f485c99c0325f8''],
        ms_cli_defaults = cli_defaults_default\<rparr>,
      cm_enabled = True, cm_origin = ''local'', cm_exclusive_group = Some ''stt''\<rparr>"

definition zimage_turbo :: catalog_model where
  "zimage_turbo =
     \<lparr>cm_id = ''z-image-turbo-q4_k_m.gguf'',
      cm_display_name = ''Z-Image Turbo (Q4_K_M)'',
      cm_kind = Image, cm_vram_gb_estimate = f32_of_nat 12,
      cm_description = Some (''Distilled 8-step diffusion model packaged for sd.cpp. Diffusion (Q4_K), '' @
        ''Qwen3-4B text encoder, Flux ae.safetensors VAE.''),
      cm_source = \<lparr>ms_engine = SdCpp,
        ms_files = [\<lparr>mf_role = DiffusionModel,
          mf_url = ''https://huggingface.co/leejet/Z-Image-Turbo-GGUF/resolve/main/z_image_turbo-Q4_K.gguf'',
          mf_filename = ''z_image_turbo-Q4_K.gguf'', mf_approx_bytes = Some 3864250304,
          mf_sha256 = Some
            ''14b375ab4f226bc5378f68f37e899ef3c2242b8541e61e2bc1aff40976086fbd''\<rparr>,
        \<lparr>mf_role = TextEncoder,
          mf_url = ''https://huggingface.co/unsloth/Qwen3-4B-Instruct-2507-GGUF/resolve/main/Qwen3-4B-Instruct-2507-Q4_K_M.gguf'',
          mf_filename = ''Qwen3-4B-Instruct-2507-Q4_K_M.gguf'', mf_approx_bytes = Some 2497281120,
          mf_sha256 = Some
            ''3605803b982cb64aead44f6c1b2ae36e3acdb41d8e46c8a94c6533bc4c67e597''\<rparr>,
        \<lparr>mf_role = Vae,
          mf_url = ''https://huggingface.co/Comfy-Org/Lumina_Image_2.0_Repackaged/resolve/main/split_files/vae/ae.safetensors'',
          mf_filename = ''ae.safetensors'', mf_approx_bytes = Some 335304388,
          mf_sha256 = Some
            ''afc8e28272cd15db3919bacdb6918ce9c1ed22e96cb12c4d5ed0fba823529e38''\<rparr>],
        ms_cli_defaults = cli_defaults_default\<lparr>cd_cfg_scale := f32_of_nat 1, cd_steps := 8,
        cd_width := 1024, cd_height := 1024, cd_sampling_method := Some ''euler''\<rparr>\<rparr>,
      cm_enabled = True, cm_origin = ''local'', cm_exclusive_group = None\<rparr>"


text \<open>\<open>Catalog::seed\<close>: the list of models it holds.\<close>

definition seed_models :: "catalog_model list" where
  "seed_models =
     [zimage_turbo, qwen35_08b, qwen35_2b, nemotron_stream, parakeet_eou, megadetector_v5a,
      speciesnet_v4a, bird_species]"

lemmas seed_model_defs = zimage_turbo_def qwen35_08b_def qwen35_2b_def nemotron_stream_def
  parakeet_eou_def megadetector_v5a_def speciesnet_v4a_def bird_species_def

lemma seed_model_ids [simp]:
  "cm_id zimage_turbo = ''z-image-turbo-q4_k_m.gguf''" "cm_id qwen35_08b = ''qwen3.5-0.8b''"
  "cm_id qwen35_2b = ''qwen3.5-2b''" "cm_id nemotron_stream = ''nemotron-3.5-stream''"
  "cm_id parakeet_eou = ''parakeet-eou-120m''" "cm_id megadetector_v5a = ''megadetector-v5a''"
  "cm_id speciesnet_v4a = ''speciesnet-v4a''" "cm_id bird_species = ''bird-species-efficientnet-b2''"
  by (simp_all add: seed_model_defs)

lemma seed_ids:
  "map cm_id seed_models =
     [''z-image-turbo-q4_k_m.gguf'', ''qwen3.5-0.8b'', ''qwen3.5-2b'', ''nemotron-3.5-stream'',
      ''parakeet-eou-120m'', ''megadetector-v5a'', ''speciesnet-v4a'', ''bird-species-efficientnet-b2'']"
  by (simp add: seed_models_def)

lemma seed_ids_distinct: "distinct (map cm_id seed_models)"
  by (simp add: seed_ids)

lemma seed_origin: "m \<in> set seed_models \<Longrightarrow> cm_origin m = ''local'' \<and> cm_enabled m"
  by (auto simp: seed_models_def seed_model_defs)

section \<open>The seeds are pinned\<close>

definition is_hex :: "char \<Rightarrow> bool" where
  "is_hex c = (c \<in> set ''0123456789abcdef'')"

text \<open>A file is pinned: fetched over https, its size known, and its bytes fixed by a sha256.\<close>

definition pinned_file :: "model_file \<Rightarrow> bool" where
  "pinned_file f =
     (starts_with (mf_url f) ''https://huggingface.co/'' \<and> ends_with (mf_url f) (mf_filename f) \<and>
      (case mf_approx_bytes f of None \<Rightarrow> False | Some n \<Rightarrow> 0 < n) \<and>
      (case mf_sha256 f of None \<Rightarrow> False | Some h \<Rightarrow> length h = 64 \<and> list_all is_hex h))"

definition file_names :: "catalog_model \<Rightarrow> string list" where
  "file_names m = map mf_filename (ms_files (cm_source m))"

text \<open>The files alone, so that evaluating them does not touch the rest of an entry.\<close>

definition good_files :: "bool \<Rightarrow> model_file list \<Rightarrow> bool" where
  "good_files need_revision fs =
     (fs \<noteq> [] \<and> list_all pinned_file fs \<and> distinct (map mf_filename fs) \<and>
      (\<not> need_revision \<or> list_all (\<lambda>f. \<not> contains_str (mf_url f) ''/resolve/main/'') fs))"

lemma good_zimage_turbo: "good_files False (ms_files (cm_source zimage_turbo))"
  unfolding zimage_turbo_def catalog_model.simps model_source.simps by code_simp

lemma good_qwen35_08b: "good_files True (ms_files (cm_source qwen35_08b))"
  unfolding qwen35_08b_def catalog_model.simps model_source.simps by code_simp

lemma good_qwen35_2b: "good_files True (ms_files (cm_source qwen35_2b))"
  unfolding qwen35_2b_def catalog_model.simps model_source.simps by code_simp

lemma good_nemotron_stream: "good_files True (ms_files (cm_source nemotron_stream))"
  unfolding nemotron_stream_def catalog_model.simps model_source.simps by code_simp

lemma good_parakeet_eou: "good_files True (ms_files (cm_source parakeet_eou))"
  unfolding parakeet_eou_def catalog_model.simps model_source.simps by code_simp

lemma good_megadetector_v5a: "good_files True (ms_files (cm_source megadetector_v5a))"
  unfolding megadetector_v5a_def catalog_model.simps model_source.simps by code_simp

lemma good_speciesnet_v4a: "good_files True (ms_files (cm_source speciesnet_v4a))"
  unfolding speciesnet_v4a_def catalog_model.simps model_source.simps by code_simp

lemma good_bird_species: "good_files True (ms_files (cm_source bird_species))"
  unfolding bird_species_def catalog_model.simps model_source.simps by code_simp

lemmas good_seed_files = good_zimage_turbo good_qwen35_08b good_qwen35_2b good_nemotron_stream
  good_parakeet_eou good_megadetector_v5a good_speciesnet_v4a good_bird_species

text \<open>The models a fresh install can load cannot be swapped in transit or at rest: every
  file of every seed is fetched over https with a known size and a 64-digit sha256, the files
  of a model have distinct names, the ids are distinct, and all but the Z-Image entry pin a
  repository revision; the two streaming speech models, and only those, share a group.\<close>

theorem seeds_are_pinned:
  "list_all (\<lambda>m. ms_files (cm_source m) \<noteq> [] \<and> list_all pinned_file (ms_files (cm_source m)) \<and>
       distinct (file_names m) \<and>
       (cm_id m = ''z-image-turbo-q4_k_m.gguf'' \<or>
        list_all (\<lambda>f. \<not> contains_str (mf_url f) ''/resolve/main/'') (ms_files (cm_source m))))
     seed_models \<and>
   distinct (map cm_id seed_models) \<and>
   map cm_id (filter (\<lambda>m. cm_exclusive_group m = Some ''stt'') seed_models) =
     [''nemotron-3.5-stream'', ''parakeet-eou-120m''] \<and>
   map cm_id (filter (\<lambda>m. cm_exclusive_group m = None) seed_models) =
     [''z-image-turbo-q4_k_m.gguf'', ''qwen3.5-0.8b'', ''qwen3.5-2b'', ''megadetector-v5a'',
      ''speciesnet-v4a'', ''bird-species-efficientnet-b2'']"
proof -
  have "\<forall>m \<in> set seed_models. good_files (cm_id m \<noteq> ''z-image-turbo-q4_k_m.gguf'') (ms_files (cm_source m))"
    using good_seed_files by (simp add: seed_models_def)
  then have "list_all (\<lambda>m. ms_files (cm_source m) \<noteq> [] \<and> list_all pinned_file (ms_files (cm_source m)) \<and>
       distinct (file_names m) \<and>
       (cm_id m = ''z-image-turbo-q4_k_m.gguf'' \<or>
        list_all (\<lambda>f. \<not> contains_str (mf_url f) ''/resolve/main/'') (ms_files (cm_source m)))) seed_models"
    by (auto simp: list_all_iff good_files_def file_names_def)
  moreover have "map cm_id (filter (\<lambda>m. cm_exclusive_group m = Some ''stt'') seed_models) =
     [''nemotron-3.5-stream'', ''parakeet-eou-120m'']"
    by (simp add: seed_models_def seed_model_defs)
  moreover have "map cm_id (filter (\<lambda>m. cm_exclusive_group m = None) seed_models) =
     [''z-image-turbo-q4_k_m.gguf'', ''qwen3.5-0.8b'', ''qwen3.5-2b'', ''megadetector-v5a'',
      ''speciesnet-v4a'', ''bird-species-efficientnet-b2'']"
    by (simp add: seed_models_def seed_model_defs)
  ultimately show ?thesis using seed_ids_distinct by blast
qed

end
