(* ===== verification/Catalog.thy ===== *)
theory Catalog
  imports CatalogSeed FileStore
begin

text \<open>
  \<^verbatim>\<open>src/src/catalog.rs\<close>, second part: the operator's catalogue, its edits, the studio sync,
  startup seeding, and its file.  \<open>parse_json\<close> and \<open>show_json\<close> stand for serde_json.
\<close>

record catalog =
  models :: "catalog_model list"
  dismissed_seeds :: "string list"

definition seed :: catalog where
  "seed = \<lparr>models = seed_models, dismissed_seeds = []\<rparr>"

section \<open>Operations\<close>

definition cat_get :: "catalog \<Rightarrow> string \<Rightarrow> catalog_model option" where
  "cat_get c i = find (\<lambda>m. cm_id m = i) (models c)"

definition cat_list :: "catalog \<Rightarrow> catalog_model list" where
  "cat_list c = models c"

definition missing_seeds :: "catalog \<Rightarrow> catalog_model list" where
  "missing_seeds c =
     filter (\<lambda>m. cat_get c (cm_id m) = None \<and> cm_id m \<notin> set (dismissed_seeds c)) (models seed)"

definition ensure_seeds :: "catalog \<Rightarrow> catalog \<times> bool" where
  "ensure_seeds c = (c\<lparr>models := models c @ missing_seeds c\<rparr>, missing_seeds c \<noteq> [])"

definition upsert :: "catalog_model \<Rightarrow> catalog \<Rightarrow> catalog" where
  "upsert m c =
     (let c = c\<lparr>dismissed_seeds := filter (\<lambda>d. d \<noteq> cm_id m) (dismissed_seeds c)\<rparr> in
      case find (\<lambda>e. cm_id e = cm_id m) (models c) of
        Some _ \<Rightarrow> c\<lparr>models := update_first (\<lambda>e. cm_id e = cm_id m) m (models c)\<rparr>
      | None \<Rightarrow> c\<lparr>models := models c @ [m]\<rparr>)"

text \<open>The derived \<open>PartialEq\<close>: two entries are equal when all fields are, and an \<open>f32\<close> that
  is NaN equals nothing.\<close>

definition is_nan :: "f32 \<Rightarrow> bool" where
  "is_nan x = (x = NaN)"

definition opt_nan :: "f32 option \<Rightarrow> bool" where
  "opt_nan x = (x = Some NaN)"

definition opt_nans :: "f32 list option \<Rightarrow> bool" where
  "opt_nans x = (case x of None \<Rightarrow> False | Some xs \<Rightarrow> NaN \<in> set xs)"

definition vision_has_nan :: "vision_defaults \<Rightarrow> bool" where
  "vision_has_nan v =
     (opt_nans (vd_mean v) \<or> opt_nans (vd_std v) \<or> opt_nan (vd_min_confidence v) \<or>
      opt_nan (vd_iou v) \<or> opt_nan (vd_crop_margin v))"

definition model_has_nan :: "catalog_model \<Rightarrow> bool" where
  "model_has_nan m =
     (let d = ms_cli_defaults (cm_source m) in
      is_nan (cm_vram_gb_estimate m) \<or> is_nan (cd_cfg_scale d) \<or> opt_nan (cd_flow_shift d) \<or>
      opt_nan (cd_max_vram_gib d) \<or> opt_nan (cd_lora_weight d) \<or>
      (case cd_vision d of None \<Rightarrow> False | Some v \<Rightarrow> vision_has_nan v))"

definition model_eq :: "catalog_model \<Rightarrow> catalog_model \<Rightarrow> bool" where
  "model_eq a b = (a = b \<and> \<not> model_has_nan a)"

definition sync_studio_model :: "catalog_model \<Rightarrow> catalog \<Rightarrow> catalog \<times> bool" where
  "sync_studio_model m c =
     (case find (\<lambda>e. cm_id e = cm_id m) (models c) of
        Some e \<Rightarrow>
          if cm_origin e = ''local'' then (c, False)
          else if model_eq e m then (c, False)
          else (c\<lparr>models := update_first (\<lambda>e. cm_id e = cm_id m) m (models c)\<rparr>, True)
      | None \<Rightarrow> (c\<lparr>models := models c @ [m]\<rparr>, True))"

definition cat_remove :: "string \<Rightarrow> catalog \<Rightarrow> catalog \<times> bool" where
  "cat_remove i c =
     (let kept = filter (\<lambda>m. cm_id m \<noteq> i) (models c);
          removed = (length kept \<noteq> length (models c));
          is_seed = list_ex (\<lambda>m. cm_id m = i) (models seed)
      in (\<lparr>models = kept,
           dismissed_seeds = (if removed \<and> is_seed \<and> \<not> list_ex (\<lambda>d. d = i) (dismissed_seeds c)
             then dismissed_seeds c @ [i] else dismissed_seeds c)\<rparr>, removed))"

definition default_model_for :: "task_kind \<Rightarrow> catalog \<Rightarrow> catalog_model option" where
  "default_model_for k c = find (\<lambda>m. cm_enabled m \<and> cm_kind m = k) (models c)"

definition default_image_model :: "catalog \<Rightarrow> catalog_model option" where
  "default_image_model c = default_model_for Image c"

section \<open>The file\<close>

definition quarantine_path :: "nat \<Rightarrow> path \<Rightarrow> path" where
  "quarantine_path ts p =
     (let name = (case file_name p of Some n \<Rightarrow> n | None \<Rightarrow> ''models.json'')
      in with_file_name p (name @ ''.corrupt-'' @ show_nat ts))"

definition catalog_save ::
  "(catalog \<Rightarrow> string) \<Rightarrow> faults \<Rightarrow> path \<Rightarrow> catalog \<Rightarrow> files \<Rightarrow> path \<Rightarrow> files \<times> (io_error, unit) result" where
  "catalog_save show_json flt tmp c fs p = save_text flt tmp fs p (show_json c)"

definition load_or_seed ::
  "(string \<Rightarrow> catalog option) \<Rightarrow> (catalog \<Rightarrow> string) \<Rightarrow> faults \<Rightarrow> path \<Rightarrow> nat \<Rightarrow> files \<Rightarrow> path \<Rightarrow>
   files \<times> (io_error, catalog) result" where
  "load_or_seed parse_json show_json flt tmp ts fs p =
     (case read_to_string flt fs p of
        Inr contents \<Rightarrow>
          (case parse_json contents of
             Some c \<Rightarrow>
               let (c, added) = ensure_seeds c in
               if added
               then (case catalog_save show_json flt tmp c fs p of
                       (fs, Inl e) \<Rightarrow> (fs, Inl e) | (fs, Inr _) \<Rightarrow> (fs, Inr c))
               else (fs, Inr c)
           | None \<Rightarrow>
               (case rename_file flt fs p (quarantine_path ts p) of
                  (fs, Inl e) \<Rightarrow> (fs, Inl e)
                | (fs, Inr _) \<Rightarrow>
                    (case catalog_save show_json flt tmp seed fs p of
                       (fs, Inl e) \<Rightarrow> (fs, Inl e) | (fs, Inr _) \<Rightarrow> (fs, Inr seed))))
      | Inl NotFound \<Rightarrow>
          (case catalog_save show_json flt tmp seed fs p of
             (fs, Inl e) \<Rightarrow> (fs, Inl e) | (fs, Inr _) \<Rightarrow> (fs, Inr seed))
      | Inl e \<Rightarrow> (fs, Inl e))"

definition load_for_serving ::
  "(string \<Rightarrow> catalog option) \<Rightarrow> (catalog \<Rightarrow> string) \<Rightarrow> faults \<Rightarrow> path \<Rightarrow> nat \<Rightarrow> files \<Rightarrow> path option \<Rightarrow>
   files \<times> catalog \<times> path option" where
  "load_for_serving parse_json show_json flt tmp ts fs po =
     (case po of
        None \<Rightarrow> (fs, seed, None)
      | Some p \<Rightarrow>
          (case load_or_seed parse_json show_json flt tmp ts fs p of
             (fs, Inr c) \<Rightarrow> (fs, c, Some p)
           | (fs, Inl _) \<Rightarrow> (fs, seed, None)))"

section \<open>What the operations mean\<close>

datatype catalog_op = Upsert catalog_model | Sync catalog_model | Remove string | EnsureSeeds

fun catalog_step :: "catalog_op \<Rightarrow> catalog \<Rightarrow> catalog" where
  "catalog_step (Upsert m) c = upsert m c"
| "catalog_step (Sync m) c = fst (sync_studio_model m c)"
| "catalog_step (Remove i) c = fst (cat_remove i c)"
| "catalog_step EnsureSeeds c = fst (ensure_seeds c)"

text \<open>The abstract catalogue: what \<open>get\<close> answers, and the set of dismissed ids.\<close>

type_synonym catalog_view = "(string \<Rightarrow> catalog_model option) \<times> string set"

definition catalog_abs :: "catalog \<Rightarrow> catalog_view" where
  "catalog_abs c = (cat_get c, set (dismissed_seeds c))"

fun catalog_spec :: "catalog_op \<Rightarrow> catalog_view \<Rightarrow> catalog_view" where
  "catalog_spec (Upsert m) (f, d) = (f(cm_id m \<mapsto> m), d - {cm_id m})"
| "catalog_spec (Sync m) (f, d) =
     (case f (cm_id m) of
        Some e \<Rightarrow> if cm_origin e = ''local'' then (f, d) else (f(cm_id m \<mapsto> m), d)
      | None \<Rightarrow> (f(cm_id m \<mapsto> m), d))"
| "catalog_spec (Remove i) (f, d) =
     (f(i := None), if f i \<noteq> None \<and> cat_get seed i \<noteq> None then insert i d else d)"
| "catalog_spec EnsureSeeds (f, d) =
     (\<lambda>i. case f i of Some m \<Rightarrow> Some m | None \<Rightarrow> if i \<in> d then None else cat_get seed i, d)"

lemma find_update_first_id:
  "find (\<lambda>e. cm_id e = i) (update_first (\<lambda>e. cm_id e = cm_id m) m xs) =
     (if i = cm_id m then map_option (\<lambda>_. m) (find (\<lambda>e. cm_id e = i) xs)
      else find (\<lambda>e. cm_id e = i) xs)"
  by (induction xs) auto

lemma upsert_refines: "catalog_abs (upsert m c) = catalog_spec (Upsert m) (catalog_abs c)"
  by (auto simp: catalog_abs_def upsert_def cat_get_def Let_def fun_eq_iff find_update_first_id
      find_append split: option.splits)

lemma sync_refines:
  "catalog_abs (fst (sync_studio_model m c)) = catalog_spec (Sync m) (catalog_abs c)"
  by (auto simp: catalog_abs_def sync_studio_model_def cat_get_def fun_eq_iff find_update_first_id
      find_append model_eq_def split: option.splits)

lemma filter_length_neq: "(length (filter P xs) \<noteq> length xs) = (\<exists>x \<in> set xs. \<not> P x)"
  by (metis length_filter_less nat_neq_iff filter_True)

lemma remove_refines:
  "catalog_abs (fst (cat_remove i c)) = catalog_spec (Remove i) (catalog_abs c)"
proof -
  have "find (\<lambda>m. cm_id m = j) (filter (\<lambda>m. cm_id m \<noteq> i) xs) =
      (if j = i then None else find (\<lambda>m. cm_id m = j) xs)" for j and xs :: "catalog_model list"
    by (induction xs) auto
  moreover have "(length (filter (\<lambda>m. cm_id m \<noteq> i) (models c)) \<noteq> length (models c)) =
      (find (\<lambda>m. cm_id m = i) (models c) \<noteq> None)"
    by (auto simp: filter_length_neq find_none_iff)
  moreover have "list_ex (\<lambda>d. d = i) ds = (i \<in> set ds)" for ds by (auto simp: list_ex_iff)
  moreover have "list_ex (\<lambda>m. cm_id m = i) (models seed) = (find (\<lambda>m. cm_id m = i) (models seed) \<noteq> None)"
    by (rule list_ex_find)
  ultimately show ?thesis
    by (auto simp: catalog_abs_def cat_remove_def cat_get_def Let_def fun_eq_iff)
qed

lemma seeds_refine: "catalog_abs (fst (ensure_seeds c)) = catalog_spec EnsureSeeds (catalog_abs c)"
proof -
  have "find (\<lambda>m. cm_id m = i) (missing_seeds c) =
      (if cat_get c i = None \<and> i \<notin> set (dismissed_seeds c) then cat_get seed i else None)" for i
  proof -
    have "find (\<lambda>m. cm_id m = i) (missing_seeds c) =
        find (\<lambda>m. cm_id m = i \<and> (cat_get c i = None \<and> i \<notin> set (dismissed_seeds c))) (models seed)"
      unfolding missing_seeds_def find_filter by (rule find_cong_set) auto
    then show ?thesis by (auto simp: cat_get_def find_none_iff)
  qed
  then show ?thesis
    by (auto simp: catalog_abs_def ensure_seeds_def cat_get_def fun_eq_iff find_append
        split: option.splits)
qed

interpretation catalog_view: op_refinement catalog_abs catalog_step catalog_spec
proof unfold_locales
  show "catalog_abs (catalog_step p s) = catalog_spec p (catalog_abs s)" for p s
    by (cases p) (simp_all add: upsert_refines sync_refines remove_refines seeds_refine)
qed

lemmas catalog_run_view = catalog_view.run_refines

lemma catalog_abs_inj: "catalog_abs c = (f, d) \<Longrightarrow> cat_get c = f \<and> set (dismissed_seeds c) = d"
  by (simp add: catalog_abs_def)


text \<open>C9: the catalogue the worker edits in place is a map from ids to entries with a set of
  dismissed ids: any sequence of edits, studio syncs, removals and seedings does to what
  \<open>get\<close> answers exactly what it does to that map.\<close>

theorem catalog_refines_map:
  "catalog_abs (fold catalog_step ops c) = fold catalog_spec ops (catalog_abs c)"
  by (rule catalog_view.run_refines)

section \<open>What nobody but the operator changes\<close>

text \<open>Ids stay distinct.\<close>

definition ids_distinct :: "catalog \<Rightarrow> bool" where
  "ids_distinct c = distinct (map cm_id (models c))"

lemma map_id_update_first:
  "map cm_id (update_first (\<lambda>e. cm_id e = cm_id m) m xs) = map cm_id xs"
  by (rule map_update_first) simp

lemma distinct_map_filter_id: "distinct (map cm_id xs) \<Longrightarrow> distinct (map cm_id (filter P xs))"
  by (induction xs) auto

lemma get_none_notin: "cat_get c i = None \<Longrightarrow> i \<notin> cm_id ` set (models c)"
  by (auto simp: cat_get_def find_none_iff)

lemma step_ids_distinct: "ids_distinct c \<Longrightarrow> ids_distinct (catalog_step p c)"
proof (cases p)
  case EnsureSeeds
  moreover assume "ids_distinct c"
  moreover have "distinct (map cm_id (missing_seeds c))"
    unfolding missing_seeds_def seed_def catalog.simps by (intro distinct_map_filter_id seed_ids_distinct)
  moreover have "cm_id ` set (models c) \<inter> cm_id ` set (missing_seeds c) = {}"
    by (auto simp: missing_seeds_def dest!: get_none_notin intro: rev_image_eqI)
  ultimately show ?thesis by (simp add: ids_distinct_def ensure_seeds_def)
qed (auto simp: ids_distinct_def upsert_def sync_studio_model_def cat_remove_def Let_def
    map_id_update_first distinct_map_filter_id find_none_iff split: option.splits)

interpretation catalog_ids: op_invariant catalog_step "\<lambda>_. True" ids_distinct
  by unfold_locales (rule step_ids_distinct)

text \<open>An operation that names \<open>i\<close> on the operator's behalf.\<close>

fun edits :: "string \<Rightarrow> catalog_op \<Rightarrow> bool" where
  "edits i (Upsert m) = (cm_id m = i)"
| "edits i (Remove j) = (j = i)"
| "edits i (Sync m) = False"
| "edits i EnsureSeeds = False"

fun offers :: "string \<Rightarrow> catalog_op \<Rightarrow> bool" where
  "offers i (Sync m) = (cm_id m = i)"
| "offers i _ = False"

definition keeps_local :: "string \<Rightarrow> catalog_model \<Rightarrow> catalog \<Rightarrow> bool" where
  "keeps_local i m c = (cat_get c i = Some m \<and> cm_origin m = ''local'')"

definition keeps_dismissed :: "string \<Rightarrow> catalog \<Rightarrow> bool" where
  "keeps_dismissed i c = (cat_get c i = None \<and> i \<in> set (dismissed_seeds c))"

lemma step_view:
  "cat_get (catalog_step p c) = fst (catalog_spec p (cat_get c, set (dismissed_seeds c)))"
  "set (dismissed_seeds (catalog_step p c)) = snd (catalog_spec p (cat_get c, set (dismissed_seeds c)))"
  using catalog_view.step_refines [of p c] by (simp_all add: catalog_abs_def prod_eq_iff)

interpretation local_entry: op_invariant catalog_step "\<lambda>p. \<not> edits i p" "keeps_local i m" for i m
proof unfold_locales
  show "\<not> edits i p \<Longrightarrow> keeps_local i m s \<Longrightarrow> keeps_local i m (catalog_step p s)" for p s
    by (cases p) (auto simp: keeps_local_def step_view simp del: catalog_step.simps split: option.splits)
qed

interpretation dismissed: op_invariant catalog_step
  "\<lambda>p. \<not> edits i p \<and> \<not> offers i p" "keeps_dismissed i" for i
proof unfold_locales
  show "\<not> edits i p \<and> \<not> offers i p \<Longrightarrow> keeps_dismissed i s \<Longrightarrow> keeps_dismissed i (catalog_step p s)" for p s
    by (cases p) (auto simp: keeps_dismissed_def step_view simp del: catalog_step.simps
        split: option.splits)
qed

text \<open>C13: the operator's decisions stick: an entry of theirs is byte for byte the same after
  any number of studio syncs and startup seedings (and edits of other entries), and ids stay
  distinct throughout.\<close>

theorem operator_entry_survives:
  assumes "cat_get c i = Some m" and "cm_origin m = ''local''" and "ids_distinct c"
    and "list_all (\<lambda>p. \<not> edits i p) ops"
  shows "cat_get (fold catalog_step ops c) i = Some m \<and> ids_distinct (fold catalog_step ops c)"
  using local_entry.run_keeps [of i ops m c] catalog_ids.run_keeps [of ops c] assms
  by (simp add: keeps_local_def list_all_iff)

theorem operator_entry_survives_witness:
  "cat_get (fold catalog_step [Sync (qwen35_2b\<lparr>cm_origin := ''studio'', cm_enabled := False\<rparr>), EnsureSeeds] seed)
     ''qwen3.5-2b'' = Some qwen35_2b \<and>
   ids_distinct (fold catalog_step [Sync (qwen35_2b\<lparr>cm_origin := ''studio'', cm_enabled := False\<rparr>), EnsureSeeds] seed)"
proof (rule operator_entry_survives)
  show "cat_get seed ''qwen3.5-2b'' = Some qwen35_2b"
    by (simp add: cat_get_def seed_def seed_models_def)
qed (simp_all add: qwen35_2b_def ids_distinct_def seed_def seed_ids_distinct)

text \<open>A seed the operator deletes stays deleted: however often the worker starts and
  seeds, and whatever else is edited or synced, it does not come back until the operator adds
  it or the studio offers it.\<close>

theorem removed_seed_stays_removed:
  assumes "cat_get c i \<noteq> None" and "i \<in> cm_id ` set (models seed)"
    and "list_all (\<lambda>p. \<not> edits i p \<and> \<not> offers i p) ops"
  shows "cat_get (fold catalog_step ops (fst (cat_remove i c))) i = None"
proof -
  have "cat_get seed i \<noteq> None" using assms(2) by (auto simp: cat_get_def find_none_iff)
  with assms(1) have "keeps_dismissed i (catalog_step (Remove i) c)"
    by (simp add: keeps_dismissed_def step_view del: catalog_step.simps)
  with assms(3) show ?thesis
    using dismissed.run_keeps [of i ops "fst (cat_remove i c)"] by (simp add: keeps_dismissed_def)
qed

theorem removed_seed_stays_removed_witness:
  "cat_get (fold catalog_step [EnsureSeeds, Upsert qwen35_08b, EnsureSeeds]
     (fst (cat_remove ''qwen3.5-2b'' seed))) ''qwen3.5-2b'' = None"
proof (rule removed_seed_stays_removed)
  show in_seed: "''qwen3.5-2b'' \<in> cm_id ` set (models seed)"
    by (simp add: seed_def seed_models_def)
  then show "cat_get seed ''qwen3.5-2b'' \<noteq> None" by (auto simp: cat_get_def find_none_iff)
qed simp

section \<open>The file survives\<close>

text \<open>C14: starting the worker never loses the operator's catalogue: whatever fails, the file
  still holds their bytes, or it was not JSON and those bytes are in the quarantine file, or it
  holds the parsed catalogue with the missing seeds added; and when the worker keeps no path to
  save to, it serves the built-in seed.\<close>

theorem operator_catalog_never_lost:
  assumes stored: "fs p = Some s" and tmp: "tmp \<noteq> p" "fs tmp = None"
    and q: "quarantine_path ts p \<noteq> p" "tmp \<noteq> quarantine_path ts p"
    and run: "load_for_serving parse_json show_json flt tmp ts fs (Some p) = (fs', c, po)"
  shows "(fs' p = Some s \<or>
          parse_json s = None \<and> fs' (quarantine_path ts p) = Some s \<or>
          (\<exists>c0. parse_json s = Some c0 \<and> c = fst (ensure_seeds c0) \<and> po = Some p \<and>
                fs' p = Some (show_json c))) \<and>
         (po = None \<longrightarrow> c = seed)"
proof -
  let ?q = "quarantine_path ts p"
  have same: "save_text flt tmp fs p t = (fs(p \<mapsto> t), Inr ()) \<or>
      (\<exists>e. save_text flt tmp fs p t = (fs, Inl e))" for t
    using tmp by (rule save_text_cases)
  let ?fs = "fs(p := None, ?q \<mapsto> s)"
  have moved: "save_text flt tmp ?fs p t = (?fs(p \<mapsto> t), Inr ()) \<or>
      (\<exists>e. save_text flt tmp ?fs p t = (?fs, Inl e))" for t
    using tmp q by (intro save_text_cases) auto
  show ?thesis
  proof (cases "parse_json s")
    case None
    with run stored q moved [of "show_json seed"] show ?thesis
      by (auto simp: load_for_serving_def load_or_seed_def read_to_string_def rename_file_def
          catalog_save_def split: if_splits)
  next
    case (Some c0)
    obtain c1 b where c1: "ensure_seeds c0 = (c1, b)" by fastforce
    with Some run stored same [of "show_json c1"] show ?thesis
      by (auto simp: load_for_serving_def load_or_seed_def read_to_string_def
          catalog_save_def split: if_splits)
  qed
qed

theorem operator_catalog_never_lost_witness:
  "(let fs' = fst (load_for_serving (\<lambda>_. None) (\<lambda>_. ''seeded'') no_faults ''t'' 7 [''/c/m'' \<mapsto> ''junk''] (Some ''/c/m''))
    in fs' ''/c/m'' = Some ''junk'' \<or> fs' (quarantine_path 7 ''/c/m'') = Some ''junk'')"
proof -
  obtain fs' c po where run: "load_for_serving (\<lambda>_. None) (\<lambda>_. ''seeded'') no_faults ''t'' 7
      [''/c/m'' \<mapsto> ''junk''] (Some ''/c/m'') = (fs', c, po)" by (metis prod_cases3)
  have q: "quarantine_path 7 ''/c/m'' \<noteq> ''/c/m'' \<and> ''t'' \<noteq> quarantine_path 7 ''/c/m''"
    by (simp add: quarantine_path_def with_file_name_def path_parent_def file_name_def last_slash_def
        path_join_def starts_with_def ends_with_def Let_def)
  have "fs' ''/c/m'' = Some ''junk'' \<or> fs' (quarantine_path 7 ''/c/m'') = Some ''junk''"
    using operator_catalog_never_lost [OF _ _ _ _ _ run, of "''junk''"] q by simp
  with run show ?thesis by simp
qed

end
