(* ===== verification/WorkerLog.thy ===== *)
theory WorkerLog
  imports Catalog
begin

text \<open>
  The in-process observation state: the queue of log entries to ship and the display ring
  (\<^verbatim>\<open>src/src/runtime.rs\<close>), the per-job log store (\<^verbatim>\<open>src/src/job_log.rs\<close>), the job rings and
  a job's bookkeeping (\<^verbatim>\<open>src/src/job_run.rs\<close>) and the thumbnail ring
  (\<^verbatim>\<open>src/src/thumbnail.rs\<close>).  Rendered timestamps are arguments; sequence numbers and counters
  are naturals (a worker never logs 2^64 entries).
\<close>

definition RECENT_JOBS_CAP :: nat where "RECENT_JOBS_CAP = 50"
definition RECENT_LOGS_CAP :: nat where "RECENT_LOGS_CAP = 1000"
definition PROMPT_PREVIEW_CHARS :: nat where "PROMPT_PREVIEW_CHARS = 200"
definition LOG_SHIP_QUEUE_CAP :: nat where "LOG_SHIP_QUEUE_CAP = 5000"
definition JOB_LOG_JOBS_CAP :: nat where "JOB_LOG_JOBS_CAP = 128"
definition JOB_LOG_LINES_CAP :: nat where "JOB_LOG_LINES_CAP = 400"
definition JOB_LOG_LINE_CHARS :: nat where "JOB_LOG_LINE_CHARS = 2000"
definition THUMBNAILS_CAP :: nat where "THUMBNAILS_CAP = 2 * RECENT_JOBS_CAP"

lemmas cap_defs = RECENT_JOBS_CAP_def RECENT_LOGS_CAP_def PROMPT_PREVIEW_CHARS_def
  LOG_SHIP_QUEUE_CAP_def JOB_LOG_JOBS_CAP_def JOB_LOG_LINES_CAP_def JOB_LOG_LINE_CHARS_def
  THUMBNAILS_CAP_def

section \<open>Jobs and their outcomes\<close>

datatype job_source = Studio | Local | OnLane | OnStream

definition job_source_str :: "job_source \<Rightarrow> string" where
  "job_source_str s = (case s of Studio \<Rightarrow> ''studio'' | Local \<Rightarrow> ''local'' | OnLane \<Rightarrow> ''lane''
     | OnStream \<Rightarrow> ''stream'')"

record current_job =
  cj_job_id :: string
  cj_kind :: task_kind
  cj_model :: string
  cj_prompt :: string
  cj_started_at :: nat
  cj_source :: job_source

datatype job_outcome = Completed | JobFailed string

record recent_job =
  rj_job_id :: string
  rj_kind :: task_kind
  rj_model :: string
  rj_prompt :: string
  rj_outcome :: job_outcome
  rj_started_at :: nat
  rj_finished_at :: nat
  rj_source :: job_source

datatype heartbeat_outcome = HeartbeatOk | HeartbeatErr string

record heartbeat_status =
  hb_outcome :: heartbeat_outcome
  hb_last_attempt_at :: nat

datatype session_state =
    WaitingForApproval | Connecting | Connected | Reconnecting u32
  | SessionAuthFailed string | SessionFatal string | SessionStopped

definition session_state_summary :: "session_state \<Rightarrow> string" where
  "session_state_summary s = (case s of
       WaitingForApproval \<Rightarrow> ''waiting for studio operator approval''
     | Connecting \<Rightarrow> ''connecting to the studio'' @ ELLIPSIS
     | Connected \<Rightarrow> ''connected '' @ EM_DASH @ '' ready for jobs''
     | Reconnecting attempt \<Rightarrow> ''reconnecting (attempt '' @ show_nat (unat attempt) @ '')'' @ ELLIPSIS
     | SessionAuthFailed reason \<Rightarrow> ''authentication failed: '' @ reason @
         ''. Re-register with `studio-worker register --reset`.''
     | SessionFatal reason \<Rightarrow> ''session ended: '' @ reason
     | SessionStopped \<Rightarrow> ''stopped'')"

definition truncate_prompt :: "string \<Rightarrow> string" where
  "truncate_prompt s = (if char_count s \<le> PROMPT_PREVIEW_CHARS then s
     else take_chars PROMPT_PREVIEW_CHARS s @ ELLIPSIS)"

section \<open>The ship queue\<close>

definition drop_marker :: "string \<Rightarrow> nat \<Rightarrow> log_entry" where
  "drop_marker ts overflow = \<lparr>le_ts = ts, le_level = ''warn'', le_category = ''logs'',
     le_message = ''ship queue full ('' @ show_nat LOG_SHIP_QUEUE_CAP @ '' entries); dropped '' @
       show_nat overflow @ '' oldest'', le_job_id = None\<rparr>"

definition ship_push :: "string \<Rightarrow> log_entry \<Rightarrow> log_entry list \<Rightarrow> log_entry list" where
  "ship_push ts entry queue =
     (if LOG_SHIP_QUEUE_CAP \<le> length queue
      then let overflow = length queue + 2 - LOG_SHIP_QUEUE_CAP
           in drop overflow queue @ [drop_marker ts overflow] @ [entry]
      else queue @ [entry])"

definition restore_unshipped :: "log_entry list \<Rightarrow> log_entry list \<Rightarrow> log_entry list" where
  "restore_unshipped batch queue =
     (let q = batch @ queue in
      if LOG_SHIP_QUEUE_CAP < length q then drop (length q - LOG_SHIP_QUEUE_CAP) q else q)"

section \<open>The display ring\<close>

record worker_log_ring =
  ring_entries :: "log_entry list"
  ring_seq :: nat

definition ring_new :: worker_log_ring where
  "ring_new = \<lparr>ring_entries = [], ring_seq = 0\<rparr>"

definition ring_push :: "log_entry \<Rightarrow> worker_log_ring \<Rightarrow> worker_log_ring" where
  "ring_push e r = \<lparr>ring_entries = keep_last RECENT_LOGS_CAP (ring_entries r @ [e]),
     ring_seq = Suc (ring_seq r)\<rparr>"

definition recent_logs_after :: "nat \<Rightarrow> worker_log_ring \<Rightarrow> log_entry list \<times> nat" where
  "recent_logs_after after r =
     (let newest = ring_seq r; oldest = newest - length (ring_entries r);
          after = (if newest < after then 0 else max after oldest);
          skip = after - oldest
      in (drop skip (ring_entries r), newest))"

text \<open>\<open>push_log_with_observers\<close> writes both; \<open>push_log\<close> only the ship queue.\<close>

record worker_logs =
  wl_queue :: "log_entry list"
  wl_ring :: worker_log_ring

definition log_of :: "string \<Rightarrow> string \<Rightarrow> string \<Rightarrow> string \<Rightarrow> string option \<Rightarrow> log_entry" where
  "log_of ts level category message job = \<lparr>le_ts = ts, le_level = level, le_category = category,
     le_message = message, le_job_id = job\<rparr>"

definition push_log_with_observers ::
  "string \<Rightarrow> bool \<Rightarrow> string \<Rightarrow> string \<Rightarrow> string \<Rightarrow> string option \<Rightarrow> worker_logs \<Rightarrow> worker_logs" where
  "push_log_with_observers ts observed level category message job w =
     (let e = log_of ts level category message job in
      \<lparr>wl_queue = ship_push ts e (wl_queue w),
       wl_ring = (if observed then ring_push e (wl_ring w) else wl_ring w)\<rparr>)"

definition push_log ::
  "string \<Rightarrow> string \<Rightarrow> string \<Rightarrow> string \<Rightarrow> string option \<Rightarrow> worker_logs \<Rightarrow> worker_logs" where
  "push_log ts level category message job w =
     push_log_with_observers ts False level category message job w"

section \<open>Job logs\<close>

record job_log_line =
  jl_ts :: nat
  jl_level :: string
  jl_target :: string
  jl_message :: string

record job_log_entry =
  je_job_id :: string
  je_lines :: "job_log_line list"
  je_dropped :: nat

text \<open>\<open>rposition\<close>: the last index that satisfies the predicate.\<close>

definition rposition :: "('a \<Rightarrow> bool) \<Rightarrow> 'a list \<Rightarrow> nat option" where
  "rposition P xs = find (\<lambda>i. P (xs ! i)) (rev [0..<length xs])"

definition clip_message :: "string \<Rightarrow> string" where
  "clip_message s = (if JOB_LOG_LINE_CHARS < char_count s
     then take_chars JOB_LOG_LINE_CHARS s @ ELLIPSIS else s)"

definition entry_push :: "job_log_line \<Rightarrow> job_log_entry \<Rightarrow> job_log_entry" where
  "entry_push line e =
     (let lines = je_lines e @ [line] in
      if JOB_LOG_LINES_CAP < length lines
      then e\<lparr>je_lines := tl lines, je_dropped := Suc (je_dropped e)\<rparr>
      else e\<lparr>je_lines := lines\<rparr>)"

definition job_log_push :: "string \<Rightarrow> job_log_line \<Rightarrow> job_log_entry list \<Rightarrow> job_log_entry list" where
  "job_log_push job line jobs =
     (let line = line\<lparr>jl_message := clip_message (jl_message line)\<rparr>;
          (jobs, i) = (case rposition (\<lambda>e. je_job_id e = job) jobs of
              Some i \<Rightarrow> (jobs, i)
            | None \<Rightarrow>
                let jobs = jobs @ [\<lparr>je_job_id = job, je_lines = [], je_dropped = 0\<rparr>];
                    jobs = (if JOB_LOG_JOBS_CAP < length jobs then tl jobs else jobs)
                in (jobs, length jobs - 1))
      in jobs[i := entry_push line (jobs ! i)])"

definition job_log_get :: "string \<Rightarrow> job_log_entry list \<Rightarrow> (job_log_line list \<times> nat) option" where
  "job_log_get job jobs =
     map_option (\<lambda>e. (je_lines e, je_dropped e)) (find (\<lambda>e. je_job_id e = job) (rev jobs))"

section \<open>Observers and job runs\<close>

type_synonym thumbnails = "(string \<times> nat list) list"

definition thumb_insert :: "string \<Rightarrow> nat list \<Rightarrow> thumbnails \<Rightarrow> thumbnails" where
  "thumb_insert job png ring =
     keep_last THUMBNAILS_CAP (filter (\<lambda>(i, _). i \<noteq> job) ring @ [(job, png)])"

definition thumb_get :: "string \<Rightarrow> thumbnails \<Rightarrow> nat list option" where
  "thumb_get job ring = map_option snd (find (\<lambda>(i, _). i = job) ring)"

definition thumb_contains :: "string \<Rightarrow> thumbnails \<Rightarrow> bool" where
  "thumb_contains job ring = list_ex (\<lambda>(i, _). i = job) ring"

definition thumb_retain :: "(string \<Rightarrow> bool) \<Rightarrow> thumbnails \<Rightarrow> thumbnails" where
  "thumb_retain keep ring = filter (\<lambda>(i, _). keep i) ring"

record observers =
  ob_current_job :: "current_job option"
  ob_active_jobs :: "current_job list"
  ob_thumbnails :: thumbnails
  ob_recent_jobs :: "recent_job list"
  ob_local_jobs :: "recent_job list"
  ob_last_heartbeat :: "heartbeat_status option"
  ob_session_state :: session_state
  ob_user_presence :: "user_presence option"
  ob_update_pending :: bool

definition observers_default :: observers where
  "observers_default = \<lparr>ob_current_job = None, ob_active_jobs = [], ob_thumbnails = [],
     ob_recent_jobs = [], ob_local_jobs = [], ob_last_heartbeat = None,
     ob_session_state = WaitingForApproval, ob_user_presence = None, ob_update_pending = False\<rparr>"

definition record_recent_job :: "recent_job \<Rightarrow> observers \<Rightarrow> observers" where
  "record_recent_job j ob = ob\<lparr>ob_recent_jobs := keep_first RECENT_JOBS_CAP (j # ob_recent_jobs ob)\<rparr>"

definition record_local_job :: "recent_job \<Rightarrow> observers \<Rightarrow> observers" where
  "record_local_job j ob = ob\<lparr>ob_local_jobs := keep_first RECENT_JOBS_CAP (j # ob_local_jobs ob)\<rparr>"

definition set_session_state :: "session_state \<Rightarrow> observers \<Rightarrow> observers" where
  "set_session_state s ob = ob\<lparr>ob_session_state := s\<rparr>"

definition run_begin :: "current_job \<Rightarrow> observers \<Rightarrow> observers" where
  "run_begin j ob = ob\<lparr>ob_active_jobs := ob_active_jobs ob @ [j]\<rparr>"

definition run_set_prompt :: "string \<Rightarrow> current_job \<Rightarrow> current_job" where
  "run_set_prompt prompt j = j\<lparr>cj_prompt := truncate_prompt prompt\<rparr>"

text \<open>\<open>Drop for JobRun\<close>.\<close>

definition run_drop :: "current_job \<Rightarrow> observers \<Rightarrow> observers" where
  "run_drop j ob = ob\<lparr>ob_active_jobs := filter (\<lambda>a. cj_job_id a \<noteq> cj_job_id j) (ob_active_jobs ob)\<rparr>"

definition recent_of :: "nat \<Rightarrow> job_outcome \<Rightarrow> current_job \<Rightarrow> recent_job" where
  "recent_of now outcome j = \<lparr>rj_job_id = cj_job_id j, rj_kind = cj_kind j, rj_model = cj_model j,
     rj_prompt = cj_prompt j, rj_outcome = outcome, rj_started_at = cj_started_at j,
     rj_finished_at = now, rj_source = cj_source j\<rparr>"

text \<open>\<open>finish\<close> consumes the run, so it ends by dropping it.\<close>

definition run_finish :: "nat \<Rightarrow> job_outcome \<Rightarrow> current_job \<Rightarrow> observers \<Rightarrow> observers" where
  "run_finish now outcome j ob =
     run_drop j (case cj_source j of
         Studio \<Rightarrow> record_recent_job (recent_of now outcome j) ob
       | _ \<Rightarrow> record_local_job (recent_of now outcome j) ob)"

text \<open>A thumbnail is kept for an image result whose bytes decode (\<open>mk_png\<close> stands for the
  \<^verbatim>\<open>image\<close> crate).\<close>

definition keep_thumbnail :: "(bytes \<Rightarrow> nat list option) \<Rightarrow> task_result \<Rightarrow> current_job \<Rightarrow> observers \<Rightarrow> observers" where
  "keep_thumbnail mk_png result j ob = (case result of
       RImage bytes ext \<Rightarrow> (case mk_png bytes of
           Some png \<Rightarrow> ob\<lparr>ob_thumbnails := thumb_insert (cj_job_id j) png (ob_thumbnails ob)\<rparr>
         | None \<Rightarrow> ob)
     | _ \<Rightarrow> ob)"

text \<open>\<open>runtime::prompt_for\<close> and \<open>runtime::sync_studio_model\<close>.\<close>

definition studio_model :: "string \<Rightarrow> task_kind \<Rightarrow> model_source \<Rightarrow> catalog_model" where
  "studio_model i k src = \<lparr>cm_id = i, cm_display_name = i, cm_kind = k,
     cm_vram_gb_estimate = f32_zero, cm_description = None, cm_source = src, cm_enabled = True,
     cm_origin = ''studio'', cm_exclusive_group = None\<rparr>"

definition runtime_sync_studio_model ::
  "(catalog \<Rightarrow> string) \<Rightarrow> faults \<Rightarrow> path \<Rightarrow> path option \<Rightarrow> string \<Rightarrow> task_kind \<Rightarrow> model_source \<Rightarrow>
   files \<Rightarrow> catalog \<Rightarrow> files \<times> catalog" where
  "runtime_sync_studio_model show_json flt tmp po i k src fs c =
     (case Catalog.sync_studio_model (studio_model i k src) c of
        (c, False) \<Rightarrow> (fs, c)
      | (c, True) \<Rightarrow> (case po of
            None \<Rightarrow> (fs, c)
          | Some p \<Rightarrow> (fst (catalog_save show_json flt tmp c fs p), c)))"

section \<open>Shipping\<close>

text \<open>
  \<^verbatim>\<open>ws::session::spawn_log_shipper_pump\<close>: each tick takes the whole queue and sends it; a failed
  send puts the batch back; ending the session aborts the pump wherever it is.  The state is the
  queue, the batch being sent, and what the studio has.
\<close>

record shipper =
  sh_queue :: "log_entry list"
  sh_flight :: "log_entry list"
  sh_shipped :: "log_entry list"

datatype ship_op = ShPush string log_entry | ShTake | ShSent | ShFailed | ShAborted

definition shipper_new :: shipper where
  "shipper_new = \<lparr>sh_queue = [], sh_flight = [], sh_shipped = []\<rparr>"

fun ship_step :: "ship_op \<Rightarrow> shipper \<Rightarrow> shipper" where
  "ship_step (ShPush ts e) s = s\<lparr>sh_queue := ship_push ts e (sh_queue s)\<rparr>"
| "ship_step ShTake s =
     (if sh_flight s = [] then s\<lparr>sh_flight := sh_queue s, sh_queue := []\<rparr> else s)"
| "ship_step ShSent s = s\<lparr>sh_shipped := sh_shipped s @ sh_flight s, sh_flight := []\<rparr>"
| "ship_step ShFailed s =
     s\<lparr>sh_queue := restore_unshipped (sh_flight s) (sh_queue s), sh_flight := []\<rparr>"
| "ship_step ShAborted s = s\<lparr>sh_flight := []\<rparr>"

fun pushed :: "ship_op list \<Rightarrow> log_entry list" where
  "pushed [] = []"
| "pushed (ShPush ts e # ops) = e # pushed ops"
| "pushed (_ # ops) = pushed ops"

definition queue_bounded :: "shipper \<Rightarrow> bool" where
  "queue_bounded s = (length (sh_queue s) \<le> LOG_SHIP_QUEUE_CAP)"

lemma length_ship_push:
  "length q \<le> LOG_SHIP_QUEUE_CAP \<Longrightarrow> length (ship_push ts e q) \<le> LOG_SHIP_QUEUE_CAP"
  by (simp add: ship_push_def Let_def cap_defs)

lemma length_restore: "length (restore_unshipped b q) \<le> LOG_SHIP_QUEUE_CAP"
  unfolding restore_unshipped_def Let_def by (auto simp del: drop_append)

interpretation ship_queue: op_invariant ship_step "\<lambda>_. True" queue_bounded
proof unfold_locales
  show "queue_bounded s \<Longrightarrow> queue_bounded (ship_step p s)" for p s
    by (cases p) (auto simp: queue_bounded_def length_ship_push length_restore)
qed

definition all_of :: "shipper \<Rightarrow> log_entry list" where
  "all_of s = sh_shipped s @ sh_flight s @ sh_queue s"

lemma ship_step_keeps_all:
  assumes "p \<noteq> ShAborted" "length (all_of s) + length (pushed [p]) \<le> LOG_SHIP_QUEUE_CAP"
  shows "all_of (ship_step p s) = all_of s @ pushed [p]"
proof (cases p)
  case (ShPush ts e)
  with assms(2) show ?thesis by (simp add: all_of_def ship_push_def)
next
  case ShFailed
  with assms(2) show ?thesis by (simp add: all_of_def restore_unshipped_def Let_def)
qed (use assms in \<open>simp_all add: all_of_def\<close>)

lemma pushed_Cons: "pushed (p # ops) = pushed [p] @ pushed ops"
  by (cases p) simp_all

lemma ship_run_keeps_all:
  assumes "ShAborted \<notin> set ops" "length (all_of s) + length (pushed ops) \<le> LOG_SHIP_QUEUE_CAP"
  shows "all_of (fold ship_step ops s) = all_of s @ pushed ops"
  using assms
proof (induction ops arbitrary: s)
  case (Cons p ops)
  have len: "length (pushed (p # ops)) = length (pushed [p]) + length (pushed ops)"
    by (subst pushed_Cons) simp
  have step: "all_of (ship_step p s) = all_of s @ pushed [p]"
    using Cons.prems len by (intro ship_step_keeps_all) auto
  then have "all_of (fold ship_step ops (ship_step p s)) = all_of (ship_step p s) @ pushed ops"
    using Cons.prems len by (intro Cons.IH) auto
  with step show ?case by (subst pushed_Cons) simp
qed simp

text \<open>Log shipping: the queue never outgrows its cap, whatever is pushed, sent, lost or
  restored; a push onto a queue that is not full only appends, and onto a full one drops the
  oldest entries and says how many, keeping the newest entry last; and while no more than the
  cap is outstanding and no pump is aborted, every entry is shipped, in flight or queued exactly
  once and in order, whichever sends fail.\<close>

theorem log_shipping:
  assumes "length q \<le> LOG_SHIP_QUEUE_CAP"
  shows "queue_bounded (fold ship_step ops (shipper_new\<lparr>sh_queue := q\<rparr>)) \<and>
         (length q < LOG_SHIP_QUEUE_CAP \<longrightarrow> ship_push ts e q = q @ [e]) \<and>
         (length q = LOG_SHIP_QUEUE_CAP \<longrightarrow> ship_push ts e q = drop 2 q @ [drop_marker ts 2, e]) \<and>
         (ShAborted \<notin> set ops \<longrightarrow> length q + length (pushed ops) \<le> LOG_SHIP_QUEUE_CAP \<longrightarrow>
          all_of (fold ship_step ops (shipper_new\<lparr>sh_queue := q\<rparr>)) = q @ pushed ops)"
proof -
  have "queue_bounded (shipper_new\<lparr>sh_queue := q\<rparr>)"
    using assms by (simp add: queue_bounded_def)
  then have "queue_bounded (fold ship_step ops (shipper_new\<lparr>sh_queue := q\<rparr>))"
    by (intro ship_queue.run_keeps) (simp_all add: list_all_iff)
  moreover have "all_of (shipper_new\<lparr>sh_queue := q\<rparr>) = q" by (simp add: all_of_def shipper_new_def)
  ultimately show ?thesis
    using ship_run_keeps_all [of ops "shipper_new\<lparr>sh_queue := q\<rparr>"]
    by (auto simp: ship_push_def numeral_2_eq_2)
qed

theorem log_shipping_witness:
  "all_of (fold ship_step [ShPush ''t'' (log_of ''t'' ''info'' ''ws'' ''a'' None), ShTake, ShFailed]
     (shipper_new\<lparr>sh_queue := []\<rparr>)) = [log_of ''t'' ''info'' ''ws'' ''a'' None]"
proof -
  define ops where "ops = [ShPush ''t'' (log_of ''t'' ''info'' ''ws'' ''a'' None), ShTake, ShFailed]"
  have p: "pushed ops = [log_of ''t'' ''info'' ''ws'' ''a'' None]" "ShAborted \<notin> set ops"
    by (simp_all add: ops_def)
  have "all_of (fold ship_step ops (shipper_new\<lparr>sh_queue := []\<rparr>)) = [log_of ''t'' ''info'' ''ws'' ''a'' None]"
    using log_shipping [of "[]" ops] p by (simp add: LOG_SHIP_QUEUE_CAP_def)
  then show ?thesis by (simp only: ops_def)
qed

text \<open>A pump aborted while it sends loses its batch: the entries are neither shipped nor
  back in the queue, although a failed send would have restored them.\<close>

theorem aborted_pump_loses_its_batch:
  assumes "sh_flight s = []" and "sh_queue s \<noteq> []" and "length (sh_queue s) \<le> LOG_SHIP_QUEUE_CAP"
  shows "all_of (fold ship_step [ShTake, ShAborted] s) = sh_shipped s \<and>
         all_of (fold ship_step [ShTake, ShFailed] s) = sh_shipped s @ sh_queue s"
  using assms by (simp add: all_of_def restore_unshipped_def Let_def)

theorem aborted_pump_loses_its_batch_witness:
  "all_of (fold ship_step [ShTake, ShAborted]
     (shipper_new\<lparr>sh_queue := [log_of ''t'' ''info'' ''ws'' ''a'' None]\<rparr>)) = []"
  using aborted_pump_loses_its_batch [of "shipper_new\<lparr>sh_queue := [log_of ''t'' ''info'' ''ws'' ''a'' None]\<rparr>"]
  by (simp add: shipper_new_def LOG_SHIP_QUEUE_CAP_def)

section \<open>Reading the log by increments\<close>

definition ring_ok :: "worker_log_ring \<Rightarrow> bool" where
  "ring_ok r = (length (ring_entries r) = min RECENT_LOGS_CAP (ring_seq r))"

interpretation log_ring: op_invariant ring_push "\<lambda>_. True" ring_ok
  by unfold_locales (auto simp: ring_ok_def ring_push_def)

lemma keep_last_keep_last: "keep_last n (keep_last n xs @ ys) = keep_last n (xs @ ys)"
  by (cases "length xs \<le> n") (simp_all add: keep_last_def add.commute)

lemma drop_keep_last_append:
  assumes "k + (length xs + length ys - n) = length xs + (length ys - n)"
  shows "drop k (keep_last n (xs @ ys)) = keep_last n ys"
proof -
  have "drop k (keep_last n (xs @ ys)) = drop (length xs + (length ys - n)) (xs @ ys)"
    using assms by (simp add: keep_last_def del: drop_append)
  then show ?thesis by (simp add: keep_last_def)
qed

lemma ring_pushes:
  "ring_entries (fold ring_push es r) = (if es = [] then ring_entries r else keep_last RECENT_LOGS_CAP (ring_entries r @ es)) \<and>
   ring_seq (fold ring_push es r) = ring_seq r + length es"
proof (induction es arbitrary: r)
  case (Cons e es)
  show ?case
    using Cons.IH [of "ring_push e r"]
    by (simp add: ring_push_def keep_last_keep_last)
qed simp

text \<open>Reading the worker log by increments misses nothing and repeats nothing: a client
  that passes back the number it was given receives exactly the entries logged since, unless
  more than the ring holds were logged, when it receives the newest ring; and a number from
  before a restart (beyond the newest) answers the whole ring.\<close>

theorem recent_logs_incremental:
  assumes "ring_ok r"
  shows "recent_logs_after (snd (recent_logs_after a r)) (fold ring_push es r) =
           (keep_last RECENT_LOGS_CAP es, ring_seq r + length es) \<and>
         (ring_seq r < a \<longrightarrow> recent_logs_after a r = (ring_entries r, ring_seq r))"
proof -
  have seq: "snd (recent_logs_after a r) = ring_seq r" for a
    by (simp add: recent_logs_after_def Let_def)
  have "recent_logs_after (ring_seq r) (fold ring_push es r) =
      (keep_last RECENT_LOGS_CAP es, ring_seq r + length es)"
  proof (cases "es = []")
    case True
    then show ?thesis using assms by (simp add: recent_logs_after_def Let_def ring_ok_def keep_last_def)
  next
    case False
    let ?L = "length (ring_entries r)" and ?n = "length es" and ?S = "ring_seq r"
    have e: "ring_entries (fold ring_push es r) = keep_last RECENT_LOGS_CAP (ring_entries r @ es)"
      "ring_seq (fold ring_push es r) = ?S + ?n"
      using ring_pushes [of es r] False by simp_all
    have "0 < ?n" using False by simp
    then have k: "max ?S (?S + ?n - min RECENT_LOGS_CAP (?L + ?n)) - (?S + ?n - min RECENT_LOGS_CAP (?L + ?n)) +
        (?L + ?n - RECENT_LOGS_CAP) = ?L + (?n - RECENT_LOGS_CAP)"
      using assms by (simp add: ring_ok_def max_def min_def split: if_splits)
    show ?thesis
      unfolding recent_logs_after_def Let_def e length_keep_last length_append
      using drop_keep_last_append [OF k] by simp
  qed
  moreover have "ring_seq r < a \<longrightarrow> recent_logs_after a r = (ring_entries r, ring_seq r)"
    by (simp add: recent_logs_after_def Let_def max_def)
  ultimately show ?thesis by (simp add: seq)
qed

theorem recent_logs_incremental_witness:
  "recent_logs_after 0 (fold ring_push [log_of ''t'' ''info'' ''ws'' ''a'' None] ring_new) =
     ([log_of ''t'' ''info'' ''ws'' ''a'' None], 1)"
  using recent_logs_incremental [of ring_new 0 "[log_of ''t'' ''info'' ''ws'' ''a'' None]"]
  by (simp add: ring_ok_def ring_new_def recent_logs_after_def keep_last_def RECENT_LOGS_CAP_def)

section \<open>Job logs\<close>

lemma rposition_SomeD:
  assumes "rposition P xs = Some i"
  shows "i < length xs \<and> P (xs ! i)"
  using find_SomeD [OF assms [unfolded rposition_def]] by auto

lemma rposition_NoneD: "rposition P xs = None \<Longrightarrow> x \<in> set xs \<Longrightarrow> \<not> P x"
  by (auto simp: rposition_def find_none_iff in_set_conv_nth)

definition store_ok :: "job_log_entry list \<Rightarrow> bool" where
  "store_ok jobs = (length jobs \<le> JOB_LOG_JOBS_CAP \<and> distinct (map je_job_id jobs) \<and>
     (\<forall>e \<in> set jobs. length (je_lines e) \<le> JOB_LOG_LINES_CAP \<and>
        (\<forall>l \<in> set (je_lines e). char_count (jl_message l) \<le> Suc JOB_LOG_LINE_CHARS)))"

lemma char_count_clip: "char_count (clip_message s) \<le> Suc JOB_LOG_LINE_CHARS"
  by (simp add: clip_message_def char_count_append char_count_ELLIPSIS char_count_take_chars)

definition entry_ok :: "job_log_entry \<Rightarrow> bool" where
  "entry_ok e = (length (je_lines e) \<le> JOB_LOG_LINES_CAP \<and>
     (\<forall>l \<in> set (je_lines e). char_count (jl_message l) \<le> Suc JOB_LOG_LINE_CHARS))"

lemma entry_push_ok:
  "entry_ok e \<Longrightarrow> char_count (jl_message l) \<le> Suc JOB_LOG_LINE_CHARS \<Longrightarrow> entry_ok (entry_push l e)"
  by (cases "je_lines e") (auto simp: entry_ok_def entry_push_def Let_def)

lemma entry_push_id [simp]: "je_job_id (entry_push l e) = je_job_id e"
  by (simp add: entry_push_def Let_def)

lemma store_ok_update:
  assumes "store_ok jobs" "i < length jobs" "entry_ok e" "je_job_id e = je_job_id (jobs ! i)"
  shows "store_ok (jobs[i := e])"
proof -
  have "map je_job_id (jobs[i := e]) = map je_job_id jobs"
    using assms(2,4) by (metis list_update_id map_update nth_map)
  then show ?thesis using assms(1,3) set_update_subset_insert [of jobs i e]
    by (fastforce simp: store_ok_def entry_ok_def)
qed

definition clipped :: "job_log_line \<Rightarrow> job_log_line" where
  "clipped l = l\<lparr>jl_message := clip_message (jl_message l)\<rparr>"

definition store_with :: "string \<Rightarrow> job_log_entry list \<Rightarrow> job_log_entry list \<times> nat" where
  "store_with job jobs = (case rposition (\<lambda>e. je_job_id e = job) jobs of
       Some i \<Rightarrow> (jobs, i)
     | None \<Rightarrow>
         let jobs = jobs @ [\<lparr>je_job_id = job, je_lines = [], je_dropped = 0\<rparr>];
             jobs = (if JOB_LOG_JOBS_CAP < length jobs then tl jobs else jobs)
         in (jobs, length jobs - 1))"

lemma job_log_push_eq:
  "job_log_push job line jobs =
     (case store_with job jobs of (js, i) \<Rightarrow> js[i := entry_push (clipped line) (js ! i)])"
  by (simp add: job_log_push_def store_with_def clipped_def Let_def split: option.splits)

lemma store_with_ok:
  assumes "store_ok jobs" "store_with job jobs = (js, i)"
  shows "store_ok js \<and> i < length js \<and> je_job_id (js ! i) = job"
proof (cases "rposition (\<lambda>e. je_job_id e = job) jobs")
  case (Some k)
  with assms rposition_SomeD [OF Some] show ?thesis by (auto simp: store_with_def)
next
  case None
  let ?new = "\<lparr>je_job_id = job, je_lines = [], je_dropped = 0\<rparr>"
  have new: "job \<notin> je_job_id ` set jobs" using rposition_NoneD [OF None] by auto
  show ?thesis
  proof (cases "JOB_LOG_JOBS_CAP < Suc (length jobs)")
    case True
    then have js: "js = tl (jobs @ [?new])" "i = length jobs - 1 + 0"
      using None assms(2) by (simp_all add: store_with_def Let_def)
    have "length jobs = JOB_LOG_JOBS_CAP" using True assms(1) by (simp add: store_ok_def)
    then obtain e es where jobs: "jobs = e # es" by (cases jobs) (simp_all add: JOB_LOG_JOBS_CAP_def)
    show ?thesis using js assms(1) new unfolding jobs
      by (auto simp: store_ok_def nth_append)
  next
    case False
    then have "js = jobs @ [?new]" "i = length jobs"
      using None assms(2) by (simp_all add: store_with_def Let_def)
    then show ?thesis using assms(1) new False by (auto simp: store_ok_def)
  qed
qed

lemma job_log_push_ok:
  assumes "store_ok jobs"
  shows "store_ok (job_log_push job line jobs)"
proof -
  obtain js i where sw: "store_with job jobs = (js, i)" by fastforce
  note ok = store_with_ok [OF assms sw]
  then have "entry_ok (js ! i)" by (auto simp: store_ok_def entry_ok_def)
  then have "entry_ok (entry_push (clipped line) (js ! i))"
    by (rule entry_push_ok) (simp add: clipped_def char_count_clip)
  then show ?thesis using ok sw by (auto simp: job_log_push_eq intro: store_ok_update)
qed

fun job_log_step :: "string \<times> job_log_line \<Rightarrow> job_log_entry list \<Rightarrow> job_log_entry list" where
  "job_log_step (job, line) jobs = job_log_push job line jobs"

interpretation job_log: op_invariant job_log_step "\<lambda>_. True" store_ok
  by unfold_locales (auto simp: job_log_push_ok)

lemma find_rev_distinct:
  assumes "distinct (map f xs)" "x \<in> set xs"
  shows "find (\<lambda>e. f e = f x) (rev xs) = Some x"
proof -
  obtain y where y: "find (\<lambda>e. f e = f x) (rev xs) = Some y"
    using assms(2) by (cases "find (\<lambda>e. f e = f x) (rev xs)") (auto simp: find_none_iff)
  then have "y \<in> set xs" "f y = f x" using find_SomeD by fastforce+
  with assms have "y = x" by (auto simp: distinct_map dest: inj_onD)
  with y show ?thesis by simp
qed

lemma store_with_new:
  assumes "store_ok jobs" "rposition (\<lambda>e. je_job_id e = job) jobs = None" "store_with job jobs = (js, i)"
  shows "js ! i = \<lparr>je_job_id = job, je_lines = [], je_dropped = 0\<rparr>"
proof (cases jobs)
  case Nil
  with assms(2,3) show ?thesis by (auto simp: store_with_def Let_def JOB_LOG_JOBS_CAP_def split: if_splits)
next
  case (Cons e es)
  with assms(2,3) show ?thesis
    by (auto simp: store_with_def Let_def nth_append split: if_splits)
qed

text \<open>What a log shows after one more line: its last lines, and a count of the others.\<close>

lemma job_log_get_push:
  assumes "store_ok jobs"
  shows "job_log_get job (job_log_push job line jobs) =
    (case job_log_get job jobs of
       None \<Rightarrow> Some ([clipped line], 0)
     | Some (ls, d) \<Rightarrow>
         if length ls < JOB_LOG_LINES_CAP then Some (ls @ [clipped line], d)
         else Some (tl ls @ [clipped line], Suc d))"
proof -
  obtain js i where sw: "store_with job jobs = (js, i)" by fastforce
  note ok = store_with_ok [OF assms sw]
  let ?js = "js[i := entry_push (clipped line) (js ! i)]"
  have push: "job_log_push job line jobs = ?js" using sw by (simp add: job_log_push_eq)
  have "store_ok ?js" using job_log_push_ok [OF assms, of job line] push by simp
  moreover have mem: "entry_push (clipped line) (js ! i) \<in> set ?js" using ok by (simp add: set_update_memI)
  ultimately have get: "job_log_get job ?js =
      Some (je_lines (entry_push (clipped line) (js ! i)), je_dropped (entry_push (clipped line) (js ! i)))"
    using find_rev_distinct [of je_job_id ?js "entry_push (clipped line) (js ! i)"] ok
    by (simp add: job_log_get_def store_ok_def)
  show ?thesis
  proof (cases "rposition (\<lambda>e. je_job_id e = job) jobs")
    case (Some k)
    then have js: "js = jobs" "i = k" using sw by (simp_all add: store_with_def)
    have "jobs ! k \<in> set jobs" using ok js by simp
    then have old: "job_log_get job jobs = Some (je_lines (jobs ! k), je_dropped (jobs ! k))"
      and len: "length (je_lines (jobs ! k)) \<le> JOB_LOG_LINES_CAP"
      using find_rev_distinct [of je_job_id jobs "jobs ! k"] assms ok js
      by (simp_all add: job_log_get_def store_ok_def)
    show ?thesis unfolding push get old using js len
      by (cases "je_lines (jobs ! k)") (auto simp: entry_push_def Let_def JOB_LOG_LINES_CAP_def)
  next
    case None
    then have old: "job_log_get job jobs = None"
      using rposition_NoneD [OF None] by (auto simp: job_log_get_def find_none_iff)
    have "js ! i = \<lparr>je_job_id = job, je_lines = [], je_dropped = 0\<rparr>"
      by (rule store_with_new [OF assms None sw])
    then show ?thesis unfolding push get old by (simp add: entry_push_def Let_def JOB_LOG_LINES_CAP_def)
  qed
qed

text \<open>A job's captured log: however much the jobs log, at most 128 jobs are kept, at most
  400 lines a job, at most 2001 characters a line; and a job's log shows exactly its most recent
  lines, clipped, with the count of those dropped, whatever the other jobs wrote before.\<close>

theorem job_log_shows_latest_lines:
  assumes "store_ok jobs" and "job_log_get job jobs = None" and "lines \<noteq> []"
  shows "store_ok (fold job_log_step (map (Pair job) lines) jobs) \<and>
         job_log_get job (fold job_log_step (map (Pair job) lines) jobs) =
           Some (keep_last JOB_LOG_LINES_CAP (map clipped lines), length lines - JOB_LOG_LINES_CAP)"
  using assms(3)
proof (induction lines rule: rev_induct)
  case (snoc l ls)
  show ?case
  proof (cases "ls = []")
    case True
    then show ?thesis using job_log_get_push [OF assms(1)] assms(1,2) job_log_push_ok
      by (simp add: keep_last_def JOB_LOG_LINES_CAP_def)
  next
    case False
    with snoc.IH have ok: "store_ok (fold job_log_step (map (Pair job) ls) jobs)"
      and get: "job_log_get job (fold job_log_step (map (Pair job) ls) jobs) =
        Some (keep_last JOB_LOG_LINES_CAP (map clipped ls), length ls - JOB_LOG_LINES_CAP)" by auto
    have tl: "tl (keep_last JOB_LOG_LINES_CAP (map clipped ls)) @ [clipped l] =
        keep_last JOB_LOG_LINES_CAP (map clipped (ls @ [l]))" if "JOB_LOG_LINES_CAP \<le> length ls"
      using that by (simp add: keep_last_def tl_drop drop_Suc Suc_diff_le flip: drop_Suc)
        (simp add: JOB_LOG_LINES_CAP_def)
    have app: "keep_last JOB_LOG_LINES_CAP (map clipped ls) @ [clipped l] =
        keep_last JOB_LOG_LINES_CAP (map clipped (ls @ [l]))" if "length ls < JOB_LOG_LINES_CAP"
      using that by (simp add: keep_last_def)
    show ?thesis using job_log_get_push [OF ok, of job l] get job_log_push_ok [OF ok] tl app
      by (auto simp: min_def Suc_diff_le split: if_splits)
  qed
qed simp

theorem job_log_shows_latest_lines_witness:
  "\<forall>l. snd (the (job_log_get ''j'' (fold job_log_step (map (Pair ''j'') (replicate 401 l)) []))) = 1"
proof
  fix l :: job_log_line
  define ls where "ls = replicate 401 l"
  have "ls \<noteq> []" "length ls = 401" by (simp_all add: ls_def)
  then have "snd (the (job_log_get ''j'' (fold job_log_step (map (Pair ''j'') ls) []))) = 1"
    using job_log_shows_latest_lines [of "[]" "''j''" ls]
    by (auto simp: store_ok_def job_log_get_def JOB_LOG_LINES_CAP_def JOB_LOG_JOBS_CAP_def)
  then show "snd (the (job_log_get ''j'' (fold job_log_step (map (Pair ''j'') (replicate 401 l)) []))) = 1"
    by (simp only: ls_def)
qed

section \<open>Job runs\<close>

datatype run_op = RunBegin current_job | RunFinish nat job_outcome current_job | RunDrop current_job

fun run_step :: "run_op \<Rightarrow> observers \<Rightarrow> observers" where
  "run_step (RunBegin j) ob = run_begin j ob"
| "run_step (RunFinish now out j) ob = run_finish now out j ob"
| "run_step (RunDrop j) ob = run_drop j ob"

definition rings_ok :: "observers \<Rightarrow> bool" where
  "rings_ok ob = (length (ob_recent_jobs ob) \<le> RECENT_JOBS_CAP \<and> length (ob_local_jobs ob) \<le> RECENT_JOBS_CAP \<and>
     (\<forall>r \<in> set (ob_recent_jobs ob). rj_source r = Studio) \<and> (\<forall>r \<in> set (ob_local_jobs ob). rj_source r \<noteq> Studio))"

lemma run_step_rings: "rings_ok ob \<Longrightarrow> rings_ok (run_step p ob)"
  by (cases p)
    (auto simp: rings_ok_def run_begin_def run_finish_def run_drop_def record_recent_job_def
      record_local_job_def recent_of_def keep_first_def dest!: in_set_takeD split: job_source.splits)

interpretation job_rings: op_invariant run_step "\<lambda>_. True" rings_ok
  by unfold_locales (rule run_step_rings)

text \<open>Whatever jobs begin, finish or are dropped, the rings hold at most 50 jobs each,
  studio jobs in one and all others in the other; a finished job is listed first in its ring
  with its outcome and is no longer running, and a dropped one (an early return, a panic) is no
  longer running and in no ring.\<close>

theorem job_runs_are_recorded:
  assumes "rings_ok ob"
  shows "rings_ok (fold run_step ops ob) \<and>
         (let ob' = run_finish now outcome j ob in
            hd (if cj_source j = Studio then ob_recent_jobs ob' else ob_local_jobs ob') = recent_of now outcome j \<and>
            cj_job_id j \<notin> cj_job_id ` set (ob_active_jobs ob')) \<and>
         cj_job_id j \<notin> cj_job_id ` set (ob_active_jobs (run_drop j (run_begin j ob))) \<and>
         ob_recent_jobs (run_drop j (run_begin j ob)) = ob_recent_jobs ob \<and>
         ob_local_jobs (run_drop j (run_begin j ob)) = ob_local_jobs ob"
proof -
  have "rings_ok (fold run_step ops ob)"
    by (rule job_rings.run_keeps) (use assms in \<open>simp_all add: list_all_iff\<close>)
  moreover have "keep_first RECENT_JOBS_CAP (r # rs) = r # keep_first 49 rs" for r :: recent_job and rs
    by (simp add: keep_first_def RECENT_JOBS_CAP_def)
  ultimately show ?thesis
    by (auto simp: run_finish_def run_drop_def run_begin_def record_recent_job_def record_local_job_def
        Let_def split: job_source.splits)
qed

theorem job_runs_are_recorded_witness:
  "rings_ok (fold run_step [RunBegin \<lparr>cj_job_id = ''j'', cj_kind = Image, cj_model = ''m'', cj_prompt = [],
     cj_started_at = 0, cj_source = Local\<rparr>] observers_default)"
proof -
  have "rings_ok observers_default" by (simp add: rings_ok_def observers_default_def)
  from job_runs_are_recorded [OF this] show ?thesis by blast
qed

end
