(* ===== verification/Net.thy ===== *)
theory Net
  imports Types
begin

text \<open>
  \<^verbatim>\<open>src/src/net.rs\<close>: which URLs the worker downloads from.  The \<^verbatim>\<open>url\<close> crate's parser is an
  argument; it answers the scheme and the typed host.
\<close>

datatype url_host = Domain string | Ipv4 u32 | Ipv6 "128 word"

record parsed_url =
  pu_scheme :: string
  pu_host :: "url_host option"

type_synonym url_parser = "string \<Rightarrow> parsed_url option"

definition ascii_lower :: "char \<Rightarrow> char" where
  "ascii_lower c = (let n = of_char c :: nat in if 65 \<le> n \<and> n \<le> 90 then char_of (n + 32) else c)"

definition to_ascii_lowercase :: "string \<Rightarrow> string" where
  "to_ascii_lowercase s = map ascii_lower s"

definition eq_ignore_ascii_case :: "string \<Rightarrow> string \<Rightarrow> bool" where
  "eq_ignore_ascii_case a b = (to_ascii_lowercase a = to_ascii_lowercase b)"

text \<open>\<open>Ipv4Addr::is_loopback\<close>: 127.0.0.0/8; \<open>Ipv6Addr::is_loopback\<close>: \<open>::1\<close>.\<close>

definition ipv4_loopback :: "u32 \<Rightarrow> bool" where
  "ipv4_loopback ip = (drop_bit 24 ip = 127)"

definition ipv6_loopback :: "128 word \<Rightarrow> bool" where
  "ipv6_loopback ip = (ip = 1)"

definition host_is_loopback :: "url_host option \<Rightarrow> bool" where
  "host_is_loopback h = (case h of
       Some (Domain d) \<Rightarrow> eq_ignore_ascii_case d ''localhost''
     | Some (Ipv4 ip) \<Rightarrow> ipv4_loopback ip
     | Some (Ipv6 ip) \<Rightarrow> ipv6_loopback ip
     | None \<Rightarrow> False)"

text \<open>\<open>Inl\<close>: what the caller is told; the raw URL is quoted by the \<open>Debug\<close> printer.\<close>

definition validate_download_url ::
  "url_parser \<Rightarrow> (string \<Rightarrow> string) \<Rightarrow> string \<Rightarrow> string \<Rightarrow> (string, unit) result" where
  "validate_download_url parse show_debug raw what = (case parse raw of
       None \<Rightarrow> Inl (''invalid '' @ what @ '' URL '' @ show_debug raw)
     | Some u \<Rightarrow>
         if pu_scheme u = ''https'' then Inr ()
         else if pu_scheme u = ''http'' \<and> host_is_loopback (pu_host u) then Inr ()
         else Inl (what @ '' URL must use https (loopback http is allowed for tests/mirrors): '' @ raw))"

lemma validate_download_url_ok:
  "validate_download_url parse show_debug raw what = Inr () \<longleftrightarrow>
     (\<exists>u. parse raw = Some u \<and>
        (pu_scheme u = ''https'' \<or> (pu_scheme u = ''http'' \<and> host_is_loopback (pu_host u))))"
  by (auto simp: validate_download_url_def split: option.splits)

definition sample_urls :: url_parser where
  "sample_urls raw = Some \<lparr>pu_scheme = ''https'', pu_host = Some (Domain ''github.com'')\<rparr>"

end
