(* ===== verification/Control.thy ===== *)
theory Control
  imports AutoRegister WorkerLog Net
begin

text \<open>
  \<^verbatim>\<open>src/src/control.rs\<close> and \<^verbatim>\<open>src/src/daemon_api.rs\<close>: what the tray can see and do in the daemon.
  The URL parser is an argument, as are the files' faults.  \<open>update_config\<close> reads, saves and stores
  the configuration in three separate critical sections, so it is given as those three steps too.
\<close>

section \<open>The editable part of the configuration\<close>

record editable_config =
  ec_api_base_url :: string
  ec_vram_threshold_gb :: f32
  ec_memory_max_gb :: u32
  ec_auto_start :: bool
  ec_start_minimised :: bool
  ec_only_when_idle :: bool
  ec_auto_update_enabled :: bool
  ec_auto_update_interval_secs :: u64
  ec_auto_update_feed :: string
  ec_auto_update_prerelease :: bool
  ec_models_root :: path

record config_rejection =
  cr_field :: string
  cr_problem :: string

definition MIN_AUTO_UPDATE_INTERVAL_SECS :: u64 where "MIN_AUTO_UPDATE_INTERVAL_SECS = 60"

definition from_config :: "config \<Rightarrow> editable_config" where
  "from_config c = \<lparr>ec_api_base_url = api_base_url c, ec_vram_threshold_gb = vram_threshold_gb c,
     ec_memory_max_gb = memory_max_gb c, ec_auto_start = auto_start c,
     ec_start_minimised = start_minimised c, ec_only_when_idle = only_when_idle c,
     ec_auto_update_enabled = auto_update_enabled c,
     ec_auto_update_interval_secs = auto_update_interval_secs c,
     ec_auto_update_feed = auto_update_feed c, ec_auto_update_prerelease = auto_update_prerelease c,
     ec_models_root = models_root c\<rparr>"

definition apply_to :: "editable_config \<Rightarrow> config \<Rightarrow> config" where
  "apply_to e c = c\<lparr>api_base_url := ec_api_base_url e, vram_threshold_gb := ec_vram_threshold_gb e,
     memory_max_gb := ec_memory_max_gb e, auto_start := ec_auto_start e,
     start_minimised := ec_start_minimised e, only_when_idle := ec_only_when_idle e,
     auto_update_enabled := ec_auto_update_enabled e,
     auto_update_interval_secs := ec_auto_update_interval_secs e,
     auto_update_feed := ec_auto_update_feed e, auto_update_prerelease := ec_auto_update_prerelease e,
     models_root := ec_models_root e\<rparr>"

definition is_http_url :: "url_parser \<Rightarrow> string \<Rightarrow> bool" where
  "is_http_url parse raw = (case parse raw of
       None \<Rightarrow> False | Some u \<Rightarrow> (pu_scheme u = ''http'' \<or> pu_scheme u = ''https'') \<and> pu_host u \<noteq> None)"

definition show_out_of_range :: "out_of_range \<Rightarrow> string" where
  "show_out_of_range e = ''must be a whole number of GB from '' @ show_nat (unat MIN_MEMORY_MAX_GB) @ '' to '' @
     show_nat (unat MAX_MEMORY_MAX_GB) @ '' (got '' @ show_nat (unat (oor_got e)) @ '')''"

definition f32_is_finite :: "f32 \<Rightarrow> bool" where
  "f32_is_finite x = (case x of Fin _ \<Rightarrow> True | _ \<Rightarrow> False)"

definition validate :: "url_parser \<Rightarrow> editable_config \<Rightarrow> (config_rejection, unit) result" where
  "validate parse e =
     (let reject = (\<lambda>field problem. Inl \<lparr>cr_field = field, cr_problem = problem\<rparr>) in
      if \<not> is_http_url parse (ec_api_base_url e) then reject ''apiBaseUrl'' ''must be an http(s) URL''
      else if \<not> f32_is_finite (ec_vram_threshold_gb e) \<or> f32_lt (ec_vram_threshold_gb e) f32_zero
      then reject ''vramThresholdGb'' ''must be a number of GB, 0 or more''
      else case ceiling_new (ec_memory_max_gb e) of
        Inl err \<Rightarrow> reject ''memoryMaxGb'' (show_out_of_range err)
      | Inr _ \<Rightarrow>
          if ec_auto_update_interval_secs e < MIN_AUTO_UPDATE_INTERVAL_SECS
          then reject ''autoUpdateIntervalSecs'' ''must be at least 60 seconds''
          else if \<not> is_http_url parse (ec_auto_update_feed e) then reject ''autoUpdateFeed'' ''must be an http(s) URL''
          else if ec_models_root e = [] then reject ''modelsRoot'' ''must not be empty''
          else Inr ())"

section \<open>Jobs on the wire\<close>

datatype job_status = JobRunning | JobCompleted | JobHasFailed

record job_wire =
  jw_job_id :: string
  jw_kind :: task_kind
  jw_model :: string
  jw_prompt :: string
  jw_source :: job_source
  jw_status :: job_status
  jw_reason :: "string option"
  jw_started_at :: nat
  jw_finished_at :: "nat option"
  jw_has_thumbnail :: bool

definition wire_running :: "current_job \<Rightarrow> bool \<Rightarrow> job_wire" where
  "wire_running j has_thumbnail = \<lparr>jw_job_id = cj_job_id j, jw_kind = cj_kind j, jw_model = cj_model j,
     jw_prompt = cj_prompt j, jw_source = cj_source j, jw_status = JobRunning, jw_reason = None,
     jw_started_at = cj_started_at j, jw_finished_at = None, jw_has_thumbnail = has_thumbnail\<rparr>"

definition wire_finished :: "recent_job \<Rightarrow> bool \<Rightarrow> job_wire" where
  "wire_finished j has_thumbnail =
     (let (status, reason) = (case rj_outcome j of
            Completed \<Rightarrow> (JobCompleted, None) | JobFailed r \<Rightarrow> (JobHasFailed, Some r))
      in \<lparr>jw_job_id = rj_job_id j, jw_kind = rj_kind j, jw_model = rj_model j, jw_prompt = rj_prompt j,
          jw_source = rj_source j, jw_status = status, jw_reason = reason,
          jw_started_at = rj_started_at j, jw_finished_at = Some (rj_finished_at j),
          jw_has_thumbnail = has_thumbnail\<rparr>)"

definition to_current :: "job_wire \<Rightarrow> current_job" where
  "to_current w = \<lparr>cj_job_id = jw_job_id w, cj_kind = jw_kind w, cj_model = jw_model w,
     cj_prompt = jw_prompt w, cj_started_at = jw_started_at w, cj_source = jw_source w\<rparr>"

definition to_recent :: "job_wire \<Rightarrow> recent_job option" where
  "to_recent w =
     (let finish = (\<lambda>outcome. Some \<lparr>rj_job_id = jw_job_id w, rj_kind = jw_kind w, rj_model = jw_model w,
            rj_prompt = jw_prompt w, rj_outcome = outcome, rj_started_at = jw_started_at w,
            rj_finished_at = (case jw_finished_at w of None \<Rightarrow> jw_started_at w | Some t \<Rightarrow> t),
            rj_source = jw_source w\<rparr>)
      in case jw_status w of
           JobRunning \<Rightarrow> None
         | JobCompleted \<Rightarrow> finish Completed
         | JobHasFailed \<Rightarrow> finish (JobFailed (case jw_reason w of None \<Rightarrow> [] | Some r \<Rightarrow> r)))"

section \<open>Control\<close>

text \<open>The handles other than the registration world; \<open>dc_tray_last_seen_ms\<close> is 0 until a poll.\<close>

record daemon_control =
  dc_paused :: bool
  dc_stop :: bool
  dc_reset_requested :: bool
  dc_vram_total_gb :: f32
  dc_tray_last_seen_ms :: u64

definition control_new :: "f32 \<Rightarrow> daemon_control" where
  "control_new vram = \<lparr>dc_paused = False, dc_stop = False, dc_reset_requested = False,
     dc_vram_total_gb = vram, dc_tray_last_seen_ms = 0\<rparr>"

definition note_tray_poll :: "u64 \<Rightarrow> daemon_control \<Rightarrow> daemon_control" where
  "note_tray_poll now d = d\<lparr>dc_tray_last_seen_ms := now\<rparr>"

definition tray_last_seen :: "daemon_control \<Rightarrow> u64 option" where
  "tray_last_seen d = (if dc_tray_last_seen_ms d = 0 then None else Some (dc_tray_last_seen_ms d))"

definition set_paused :: "bool \<Rightarrow> daemon_control \<Rightarrow> daemon_control \<times> bool" where
  "set_paused p d = (d\<lparr>dc_paused := p\<rparr>, p)"

definition control_shutdown :: "daemon_control \<Rightarrow> daemon_control" where
  "control_shutdown d = d\<lparr>dc_stop := True\<rparr>"

datatype control_error = Invalid config_rejection | NotSaved io_error | NotRejected

definition request_registration_reset :: "registration_state \<Rightarrow> bool \<Rightarrow> bool \<times> (control_error, unit) result" where
  "request_registration_reset st flag = (case st of RsRejected _ \<Rightarrow> (True, Inr ()) | _ \<Rightarrow> (flag, Inl NotRejected))"

text \<open>The daemon's status; the slots the observers' model leaves out come as arguments.\<close>

record 'g daemon_status =
  ds_version :: string
  ds_pid :: nat
  ds_config_path :: path
  ds_paused :: bool
  ds_busy :: bool
  ds_registered :: bool
  ds_worker_id :: "string option"
  ds_registration :: registration_state
  ds_config :: editable_config
  ds_session :: session_state
  ds_heartbeat :: "heartbeat_status option"
  ds_gpu_runtime :: "'g option"
  ds_vram_total_gb :: f32
  ds_local_api_url :: "string option"
  ds_current_job_id :: "string option"
  ds_active_jobs :: "job_wire list"
  ds_recent_jobs :: "job_wire list"
  ds_local_jobs :: "job_wire list"
  ds_logs_seq :: u64

definition control_status ::
  "string \<Rightarrow> nat \<Rightarrow> path \<Rightarrow> 'g option \<Rightarrow> string option \<Rightarrow> u64 \<Rightarrow> daemon_control \<Rightarrow> reg_world \<Rightarrow> observers \<Rightarrow> bool \<Rightarrow>
   'g daemon_status" where
  "control_status version pid config_path gpu url logs_seq d w ob busy =
     (let cfg = rw_cfg w; thumbs = ob_thumbnails ob;
          running = map (\<lambda>j. wire_running j (thumb_contains (cj_job_id j) thumbs)) (ob_active_jobs ob);
          finished = map (\<lambda>j. wire_finished j (thumb_contains (rj_job_id j) thumbs))
      in \<lparr>ds_version = version, ds_pid = pid, ds_config_path = config_path, ds_paused = dc_paused d,
          ds_busy = busy, ds_registered = is_registered cfg, ds_worker_id = worker_id cfg,
          ds_registration = rw_state w, ds_config = from_config cfg, ds_session = ob_session_state ob,
          ds_heartbeat = ob_last_heartbeat ob, ds_gpu_runtime = gpu, ds_vram_total_gb = dc_vram_total_gb d,
          ds_local_api_url = url, ds_current_job_id = map_option cj_job_id (ob_current_job ob),
          ds_active_jobs = running, ds_recent_jobs = finished (ob_recent_jobs ob),
          ds_local_jobs = finished (ob_local_jobs ob), ds_logs_seq = logs_seq\<rparr>)"

section \<open>Changing the configuration\<close>

text \<open>The world, the ceiling handed to the scope if it changed, and the answer.\<close>

definition update_config ::
  "url_parser \<Rightarrow> reg_env \<Rightarrow> editable_config \<Rightarrow> reg_world \<Rightarrow>
   reg_world \<times> memory_ceiling option \<times> (control_error, editable_config) result" where
  "update_config parse v edit w = (case validate parse edit of
       Inl rejection \<Rightarrow> (w, None, Inl (Invalid rejection))
     | Inr _ \<Rightarrow>
         (let current = rw_cfg w; nxt = apply_to edit current;
              (fs, r) = config_save (re_show v) (re_faults v) (re_tmp v) (rw_files w) nxt (re_path v);
              w = w\<lparr>rw_files := fs\<rparr>
          in case r of
               Inl e \<Rightarrow> (w, None, Inl (NotSaved e))
             | Inr _ \<Rightarrow>
                 (let changed = changed_fields current nxt; w = w\<lparr>rw_cfg := nxt\<rparr>
                  in (w, if ''memory_max_gb'' \<in> set changed then Some (ceiling_or_default (memory_max_gb nxt)) else None,
                      Inr (from_config (rw_cfg w))))))"

section \<open>The steps of a change, and of an approval\<close>

text \<open>
  \<open>update_config\<close> clones the configuration under its lock, saves the edited clone, and stores it
  under the lock again; an approval changes the configuration under the lock, saves the clone it took
  there, and then shows the new state.  \<open>rc_next\<close> and \<open>rc_snapshot\<close> are the clones in flight.
\<close>

record race =
  rc_world :: reg_world
  rc_next :: "config option"
  rc_snapshot :: "config option"

datatype race_event = EditReads | EditSaves | EditStores | ApprovalStores string string | ApprovalSaves

definition save_text_of :: "reg_env \<Rightarrow> config \<Rightarrow> reg_world \<Rightarrow> reg_world \<times> (io_error, unit) result" where
  "save_text_of v c w =
     (let (fs, r) = config_save (re_show v) (re_faults v) (re_tmp v) (rw_files w) c (re_path v)
      in (w\<lparr>rw_files := fs\<rparr>, r))"

definition race_step :: "reg_env \<Rightarrow> editable_config \<Rightarrow> race \<Rightarrow> race_event \<Rightarrow> race" where
  "race_step v edit r ev = (case ev of
       EditReads \<Rightarrow> r\<lparr>rc_next := Some (apply_to edit (rw_cfg (rc_world r)))\<rparr>
     | EditSaves \<Rightarrow> (case rc_next r of
           None \<Rightarrow> r
         | Some c \<Rightarrow> (case save_text_of v c (rc_world r) of
               (w, Inl _) \<Rightarrow> r\<lparr>rc_world := w, rc_next := None\<rparr>
             | (w, Inr _) \<Rightarrow> r\<lparr>rc_world := w\<rparr>))
     | EditStores \<Rightarrow> (case rc_next r of
           None \<Rightarrow> r | Some c \<Rightarrow> r\<lparr>rc_world := (rc_world r)\<lparr>rw_cfg := c\<rparr>, rc_next := None\<rparr>)
     | ApprovalStores wid token \<Rightarrow>
         (let c = approve wid token (rw_cfg (rc_world r))
          in r\<lparr>rc_world := (rc_world r)\<lparr>rw_cfg := c\<rparr>, rc_snapshot := Some c\<rparr>)
     | ApprovalSaves \<Rightarrow> (case rc_snapshot r of
           None \<Rightarrow> r
         | Some c \<Rightarrow> r\<lparr>rc_world := show_state RsApproved (fst (save_text_of v c (rc_world r))), rc_snapshot := None\<rparr>))"

definition race_run :: "reg_env \<Rightarrow> editable_config \<Rightarrow> race_event list \<Rightarrow> reg_world \<Rightarrow> reg_world" where
  "race_run v edit evs w =
     rc_world (foldl (race_step v edit) \<lparr>rc_world = w, rc_next = None, rc_snapshot = None\<rparr> evs)"

text \<open>Undisturbed, the steps are the operations.\<close>

lemma edit_steps_update_config:
  assumes "validate parse edit = Inr ()"
  shows "race_run v edit [EditReads, EditSaves, EditStores] w = fst (update_config parse v edit w)"
  using assms by (simp add: race_run_def race_step_def save_text_of_def update_config_def Let_def
      split: prod.splits sum.splits)

lemma approval_steps_poll_existing:
  assumes "re_poll v = Inr (Inr (Some (StatusApproved wid token)))"
  shows "race_run v edit [ApprovalStores wid token, ApprovalSaves] w = fst (poll_existing v i s w)"
  using assms by (simp add: race_run_def race_step_def save_text_of_def poll_existing_def change_cfg_def
      save_cfg_def Let_def split: prod.splits)

section \<open>Facts\<close>

lemma from_config_apply_to [simp]: "from_config (apply_to e c) = e"
  by (simp add: from_config_def apply_to_def)

lemma apply_to_from_config [simp]: "apply_to (from_config c) c = c"
  by (simp add: from_config_def apply_to_def)

lemma apply_to_keeps [simp]:
  "worker_id (apply_to e c) = worker_id c" "auth_token (apply_to e c) = auth_token c"
  "install_id (apply_to e c) = install_id c" "registration_request_id (apply_to e c) = registration_request_id c"
  "registration_secret (apply_to e c) = registration_secret c" "local_api_token (apply_to e c) = local_api_token c"
  "ws_reconnect_attempts (apply_to e c) = ws_reconnect_attempts c"
  "local_api_port (apply_to e c) = local_api_port c" "stream_port (apply_to e c) = stream_port c"
  by (simp_all add: apply_to_def)

lemma memory_changed: "''memory_max_gb'' \<in> set (changed_fields a b) \<longleftrightarrow> memory_max_gb a \<noteq> memory_max_gb b"
  by (auto simp: changed_fields_def)

lemma ceiling_or_default_valid: "ceiling_new gb = Inr c \<Longrightarrow> ceiling_or_default gb = c"
  by (simp add: ceiling_or_default_def)

lemma validate_ok:
  "validate parse e = Inr () \<longleftrightarrow>
     is_http_url parse (ec_api_base_url e) \<and> f32_is_finite (ec_vram_threshold_gb e) \<and>
     \<not> f32_lt (ec_vram_threshold_gb e) f32_zero \<and>
     ceiling_new (ec_memory_max_gb e) = Inr \<lparr>mc_max_gb = ec_memory_max_gb e\<rparr> \<and>
     60 \<le> ec_auto_update_interval_secs e \<and> is_http_url parse (ec_auto_update_feed e) \<and> ec_models_root e \<noteq> []"
  by (auto simp: validate_def ceiling_new_def MIN_AUTO_UPDATE_INTERVAL_SECS_def Let_def not_less split: if_splits)


definition sample_edit :: editable_config where
  "sample_edit = (from_config (config_default ''/tmp'' None))\<lparr>ec_memory_max_gb := 16, ec_vram_threshold_gb := f32_zero\<rparr>"

lemma sample_edit_mem: "memory_max_gb (apply_to sample_edit c) = 16"
  by (simp add: sample_edit_def apply_to_def)

lemma sample_edit_valid: "validate sample_urls sample_edit = Inr ()"
  by (simp add: validate_ok sample_edit_def from_config_def config_default_def is_http_url_def sample_urls_def f32_is_finite_def
      f32_lt_def ceiling_new_def MIN_MEMORY_MAX_GB_def MAX_MEMORY_MAX_GB_def
      default_auto_update_interval_def models_root_from_def path_join_def)


text \<open>The daemon's status carries no secret: two configurations that differ only in the tokens, the
  install id and the registration secret, and agree on whether there is a token, give the same status.\<close>

theorem status_carries_no_secrets:
  assumes "(t = None) = (auth_token (rw_cfg w) = None)"
  shows "control_status version pid path gpu url n d
      (w\<lparr>rw_cfg := (rw_cfg w)\<lparr>auth_token := t, local_api_token := l, install_id := i, registration_request_id := r,
         registration_secret := s\<rparr>\<rparr>) ob busy = control_status version pid path gpu url n d w ob busy"
  using assms by (auto simp: control_status_def from_config_def is_registered_def Let_def)

theorem status_carries_no_secrets_witness:
  "control_status ''1.0'' 7 ''/c/w.toml'' (None :: nat option) None 0 (control_new (f32_of_nat 12))
      (sample_reg_world\<lparr>rw_cfg := (rw_cfg sample_reg_world)\<lparr>auth_token := None, local_api_token := Some ''x'',
         install_id := None, registration_request_id := None, registration_secret := Some ''y''\<rparr>\<rparr>) observers_default False =
   control_status ''1.0'' 7 ''/c/w.toml'' None None 0 (control_new (f32_of_nat 12)) sample_reg_world observers_default False"
  by (rule status_carries_no_secrets) (simp add: sample_reg_world_def config_default_def)

text \<open>A job survives the trip to the tray: read back from the wire, a running job and a finished one
  are as they were, and a running one is never taken for finished.\<close>

theorem job_wire_roundtrip:
  "to_current (wire_running j t) = j \<and> to_recent (wire_finished k t) = Some k \<and> to_recent (wire_running j t) = None"
  by (cases k) (auto simp: to_current_def wire_running_def to_recent_def wire_finished_def Let_def
      split: job_outcome.splits)

end
