(* ===== verification/Lifecycle.thy ===== *)
theory Lifecycle
  imports Prelude
begin

text \<open>
  \<^verbatim>\<open>src/src/lifecycle.rs\<close>: one model's state machine.  It decides what the model host must
  start next; the host reports back when that work finishes.  The second half composes a
  lifecycle with the work it started and shows that the two never disagree.
\<close>

section \<open>The machine\<close>

datatype model_state = Unloaded | Loading | Loaded | Unloading | Failed string

definition state_name :: "model_state \<Rightarrow> string" where
  "state_name s = (case s of
       Unloaded \<Rightarrow> ''unloaded'' | Loading \<Rightarrow> ''loading'' | Loaded \<Rightarrow> ''loaded''
     | Unloading \<Rightarrow> ''unloading'' | Failed _ \<Rightarrow> ''failed'')"

definition serves :: "model_state \<Rightarrow> bool" where
  "serves s = (s = Loaded)"

datatype command = NoCommand | BeginLoad | BeginUnload

record unexpected_event =
  ev_event :: string
  ev_state :: string

record lifecycle =
  lc_state :: model_state
  unload_pending :: bool

definition lifecycle_new :: lifecycle where
  "lifecycle_new = \<lparr>lc_state = Unloaded, unload_pending = False\<rparr>"

definition request_load :: "lifecycle \<Rightarrow> lifecycle \<times> command" where
  "request_load l = (case lc_state l of
       Unloaded \<Rightarrow> (l\<lparr>lc_state := Loading\<rparr>, BeginLoad)
     | Failed _ \<Rightarrow> (l\<lparr>lc_state := Loading\<rparr>, BeginLoad)
     | Loading \<Rightarrow> (l\<lparr>unload_pending := False\<rparr>, NoCommand)
     | Loaded \<Rightarrow> (l, NoCommand)
     | Unloading \<Rightarrow> (l, NoCommand))"

definition request_unload :: "lifecycle \<Rightarrow> lifecycle \<times> command" where
  "request_unload l = (case lc_state l of
       Loaded \<Rightarrow> (l\<lparr>lc_state := Unloading\<rparr>, BeginUnload)
     | Loading \<Rightarrow> (l\<lparr>unload_pending := True\<rparr>, NoCommand)
     | Failed _ \<Rightarrow> (l\<lparr>lc_state := Unloaded\<rparr>, NoCommand)
     | Unloaded \<Rightarrow> (l, NoCommand)
     | Unloading \<Rightarrow> (l, NoCommand))"

definition unexpected :: "lifecycle \<Rightarrow> string \<Rightarrow> unexpected_event" where
  "unexpected l event = \<lparr>ev_event = event, ev_state = state_name (lc_state l)\<rparr>"

text \<open>An outcome is \<open>Inr ()\<close> or \<open>Inl\<close> of the reason; the event answers an error without
  changing the machine when the machine never started that work.\<close>

definition load_finished ::
  "(string, unit) result \<Rightarrow> lifecycle \<Rightarrow> lifecycle \<times> (unexpected_event, command) result" where
  "load_finished outcome l =
     (if lc_state l \<noteq> Loading then (l, Inl (unexpected l ''load_finished''))
      else let pending = unload_pending l; l' = l\<lparr>unload_pending := False\<rparr>
        in case outcome of
             Inr _ \<Rightarrow> if pending then (l'\<lparr>lc_state := Unloading\<rparr>, Inr BeginUnload)
                      else (l'\<lparr>lc_state := Loaded\<rparr>, Inr NoCommand)
           | Inl reason \<Rightarrow> (l'\<lparr>lc_state := Failed reason\<rparr>, Inr NoCommand))"

definition unload_finished ::
  "(string, unit) result \<Rightarrow> lifecycle \<Rightarrow> lifecycle \<times> (unexpected_event, command) result" where
  "unload_finished outcome l =
     (if lc_state l \<noteq> Unloading then (l, Inl (unexpected l ''unload_finished''))
      else (l\<lparr>lc_state := (case outcome of Inr _ \<Rightarrow> Unloaded | Inl reason \<Rightarrow> Failed reason)\<rparr>,
            Inr NoCommand))"

lemmas lifecycle_defs =
  request_load_def request_unload_def load_finished_def unload_finished_def

section \<open>The invariant of the flag\<close>

text \<open>An unload can only be pending while a load runs.\<close>

definition lifecycle_ok :: "lifecycle \<Rightarrow> bool" where
  "lifecycle_ok l = (unload_pending l \<longrightarrow> lc_state l = Loading)"

lemma lifecycle_ok_new [preserves]: "lifecycle_ok lifecycle_new"
  by (simp add: lifecycle_ok_def lifecycle_new_def)

lemma lifecycle_ok_ops [preserves]:
  "lifecycle_ok l \<Longrightarrow> lifecycle_ok (fst (request_load l))"
  "lifecycle_ok l \<Longrightarrow> lifecycle_ok (fst (request_unload l))"
  "lifecycle_ok l \<Longrightarrow> lifecycle_ok (fst (load_finished outcome l))"
  "lifecycle_ok l \<Longrightarrow> lifecycle_ok (fst (unload_finished outcome l))"
  by (auto simp: lifecycle_ok_def lifecycle_defs Let_def
      split: model_state.splits sum.splits)

section \<open>The machine with the work it started\<close>

text \<open>
  The host starts one piece of work per command and reports each exactly once.  A world is
  the lifecycle and the multiset (here a list) of work still running; an event is an
  operator's request, or the completion of running work with any outcome.
\<close>

datatype work = LoadWork | UnloadWork

datatype lc_event =
    ReqLoad
  | ReqUnload
  | Finish work "(string, unit) result"

type_synonym lc_world = "lifecycle \<times> work list"

definition start_work :: "command \<Rightarrow> work list \<Rightarrow> work list" where
  "start_work c ws = (case c of NoCommand \<Rightarrow> ws | BeginLoad \<Rightarrow> LoadWork # ws
     | BeginUnload \<Rightarrow> UnloadWork # ws)"

definition finish_work ::
  "work \<Rightarrow> (string, unit) result \<Rightarrow> lifecycle \<Rightarrow> lifecycle \<times> (unexpected_event, command) result" where
  "finish_work w outcome l = (case w of LoadWork \<Rightarrow> load_finished outcome l
     | UnloadWork \<Rightarrow> unload_finished outcome l)"

text \<open>\<open>None\<close>: the event cannot happen (work that is not running does not finish), or the
  machine refused it as unexpected.\<close>

fun lc_step :: "lc_world \<Rightarrow> lc_event \<Rightarrow> (unexpected_event, lc_world) result option" where
  "lc_step (l, ws) ReqLoad =
     Some (let (l', c) = request_load l in Inr (l', start_work c ws))"
| "lc_step (l, ws) ReqUnload =
     Some (let (l', c) = request_unload l in Inr (l', start_work c ws))"
| "lc_step (l, ws) (Finish w outcome) =
     (if w \<in> set ws then
        Some (case finish_work w outcome l of
            (l', Inl e) \<Rightarrow> Inl e
          | (l', Inr c) \<Rightarrow> Inr (l', start_work c (remove1 w ws)))
      else None)"

inductive lc_reachable :: "lc_world \<Rightarrow> bool" where
  lc_start: "lc_reachable (lifecycle_new, [])"
| lc_next: "lc_reachable w \<Longrightarrow> lc_step w e = Some (Inr w') \<Longrightarrow> lc_reachable w'"

text \<open>The abstract specification: the state alone says which work runs.\<close>

definition work_of :: "model_state \<Rightarrow> work list" where
  "work_of s = (case s of Loading \<Rightarrow> [LoadWork] | Unloading \<Rightarrow> [UnloadWork] | _ \<Rightarrow> [])"

definition lc_world_ok :: "lc_world \<Rightarrow> bool" where
  "lc_world_ok w = (lifecycle_ok (fst w) \<and> snd w = work_of (lc_state (fst w)))"

lemma lc_step_ok:
  assumes "lc_world_ok w" "lc_step w e = Some r"
  shows "\<exists>w'. r = Inr w' \<and> lc_world_ok w'"
proof -
  obtain l ws where w: "w = (l, ws)" by (cases w)
  have ok: "lifecycle_ok l" "ws = work_of (lc_state l)" using assms(1) w by (auto simp: lc_world_ok_def)
  show ?thesis
    using assms(2) ok unfolding w
    by (cases e; cases "lc_state l")
      (auto simp: lc_world_ok_def lifecycle_ok_def lifecycle_defs work_of_def start_work_def
        finish_work_def Let_def split: if_splits sum.splits work.splits)
qed

lemma lc_reachable_ok: "lc_reachable w \<Longrightarrow> lc_world_ok w"
proof (induction rule: lc_reachable.induct)
  case lc_start
  then show ?case by (simp add: lc_world_ok_def work_of_def preserves) (simp add: lifecycle_new_def)
next
  case (lc_next w e w')
  then show ?case using lc_step_ok [of w e "Inr w'"] by auto
qed

text \<open>However requests and completions interleave, a model never has two pieces of work
  running, the work running is the one its state names (a load runs exactly while it is
  \<open>Loading\<close>, an unload exactly while it is \<open>Unloading\<close>), and no completion is ever refused as
  unexpected.\<close>

theorem lifecycle_work_matches_state:
  assumes "lc_reachable (l, ws)"
  shows "ws = work_of (lc_state l) \<and> length ws \<le> 1 \<and>
         (\<forall>e. \<nexists>err. lc_step (l, ws) e = Some (Inl err))"
proof -
  have ok: "lc_world_ok (l, ws)" using assms by (rule lc_reachable_ok)
  then have ws: "ws = work_of (lc_state l)" by (simp add: lc_world_ok_def)
  moreover from ws have "length ws \<le> 1" by (simp add: work_of_def split: model_state.splits)
  moreover have "\<nexists>err. lc_step (l, ws) e = Some (Inl err)" for e
    using lc_step_ok [OF ok, of e] by auto
  ultimately show ?thesis by blast
qed

theorem lifecycle_work_matches_state_witness:
  "lc_reachable (\<lparr>lc_state = Loading, unload_pending = True\<rparr>, [LoadWork]) \<and>
   [LoadWork] = work_of Loading \<and>
   (\<nexists>err. lc_step (\<lparr>lc_state = Loading, unload_pending = True\<rparr>, [LoadWork])
      (Finish UnloadWork (Inr ())) = Some (Inl err))"
proof -
  have a: "lc_reachable (\<lparr>lc_state = Loading, unload_pending = False\<rparr>, [LoadWork])"
    by (rule lc_next [OF lc_start, of ReqLoad])
      (simp add: lifecycle_new_def request_load_def start_work_def)
  have b: "lc_reachable (\<lparr>lc_state = Loading, unload_pending = True\<rparr>, [LoadWork])"
    by (rule lc_next [OF a, of ReqUnload]) (simp add: request_unload_def start_work_def)
  show ?thesis
    using b lifecycle_work_matches_state [OF b] unfolding lifecycle.select_convs by blast
qed

text \<open>An unload asked for while the model loads is neither lost nor early: the load runs to
  its end first and then, unless a later load request withdrew it, the unload begins; a failed
  load drops it, because nothing is left to unload.\<close>

theorem unload_during_load_is_deferred:
  assumes "lc_state l = Loading"
  shows "let (l1, c1) = request_unload l; (l2, c2) = request_load l1
         in c1 = NoCommand \<and> lc_state l1 = Loading \<and>
            load_finished (Inr ()) l1 =
              (\<lparr>lc_state = Unloading, unload_pending = False\<rparr>, Inr BeginUnload) \<and>
            load_finished (Inl r) l1 =
              (\<lparr>lc_state = Failed r, unload_pending = False\<rparr>, Inr NoCommand) \<and>
            load_finished (Inr ()) l2 =
              (\<lparr>lc_state = Loaded, unload_pending = False\<rparr>, Inr NoCommand)"
  using assms by (cases l) (simp add: lifecycle_defs)

theorem unload_during_load_is_deferred_witness:
  "load_finished (Inr ()) (fst (request_unload (fst (request_load lifecycle_new)))) =
     (\<lparr>lc_state = Unloading, unload_pending = False\<rparr>, Inr BeginUnload)"
proof -
  have "lc_state (fst (request_load lifecycle_new)) = Loading"
    by (simp add: request_load_def lifecycle_new_def)
  from unload_during_load_is_deferred [OF this, of "[]"] show ?thesis
    by (simp add: Let_def case_prod_beta)
qed

end
