(* ===== verification/Admission.thy ===== *)
theory Admission
  imports MemoryCeiling
begin

text \<open>
  \<^verbatim>\<open>src/src/admission.rs\<close>: does a load or a transient job fit in device memory now, and in
  host memory when its engine keeps its weights there.  All quantities are \<^verbatim>\<open>f32\<close> GiB, as
  in the code; what the probes read at the moment of a call is a record.
\<close>

definition ADMISSION_MARGIN_GIB :: f32 where "ADMISSION_MARGIN_GIB = f32_of_nat 1"
definition HOST_RAM_MARGIN_GIB :: f32 where "HOST_RAM_MARGIN_GIB = f32_of_nat 4"

text \<open>One reading of the trait \<open>MemoryProbe\<close>.\<close>

record memory_probe =
  pr_free_gib :: "f32 option"
  pr_total_gib :: "f32 option"
  pr_host_available_gib :: "f32 option"

datatype memory_kind = Device | Host

record memory_need =
  need_device_gib :: f32
  need_host_gib :: "f32 option"

definition need_device :: "f32 \<Rightarrow> memory_need" where
  "need_device gib = \<lparr>need_device_gib = gib, need_host_gib = None\<rparr>"

text \<open>The sum of the files' sizes is a \<^verbatim>\<open>u64\<close> sum (it wraps in a release build).\<close>

definition host_need_gib :: "model_source \<Rightarrow> f32 option" where
  "host_need_gib source = (let d = ms_cli_defaults source in
     if cd_offload_to_cpu d \<noteq> Some True \<or> cd_mmap d = Some True then None
     else Some (u64_scaled_f32
       (unat (sum_list (List.map_filter mf_approx_bytes (ms_files source)) :: u64)) 30))"

definition need_of :: "f32 \<Rightarrow> model_source \<Rightarrow> memory_need" where
  "need_of device_gib source =
     \<lparr>need_device_gib = device_gib, need_host_gib = host_need_gib source\<rparr>"

definition mem_available_gib :: "string \<Rightarrow> f32 option" where
  "mem_available_gib meminfo =
     (case find_map (strip_prefix ''MemAvailable:'') (str_lines meminfo) of None \<Rightarrow> None
      | Some v \<Rightarrow>
     (case strip_suffix ''kB'' (trim v) of None \<Rightarrow> None
      | Some kb \<Rightarrow> map_option (\<lambda>kib. u64_scaled_f32 kib 20) (parse_uint 64 (trim kb))))"

definition host_available_gib :: "f32 option \<Rightarrow> (limit \<times> u64) option \<Rightarrow> f32 option" where
  "host_available_gib mem_available cgroup =
     (let headroom = (case cgroup of
          Some (Bytes mx, anon) \<Rightarrow> Some (u64_scaled_f32 (unat (sat_sub mx anon)) 30)
        | _ \<Rightarrow> None)
      in case (mem_available, headroom) of
          (Some a, Some h) \<Rightarrow> Some (f32_min a h)
        | (Some a, None) \<Rightarrow> Some a
        | (None, h) \<Rightarrow> h)"

record refused =
  rf_memory :: memory_kind
  rf_needed_gib :: f32
  rf_free_gib :: f32
  rf_margin_gib :: f32

definition show_refused :: "refused \<Rightarrow> string" where
  "show_refused r =
     (let (memory, free) = (case rf_memory r of
          Device \<Rightarrow> (''device'', ''free'') | Host \<Rightarrow> (''host'', ''available''))
      in ''insufficient '' @ memory @ '' memory: needs '' @ show_f32_prec 2 (rf_needed_gib r) @
         '' GiB, '' @ show_f32_prec 2 (rf_free_gib r) @ '' GiB '' @ free @ '' ('' @
         show_f32_prec 2 (rf_margin_gib r) @ '' GiB kept in reserve)'')"

definition admit_host :: "f32 \<Rightarrow> f32 \<Rightarrow> (refused, unit) result" where
  "admit_host needed available =
     (if f32_le needed (f32_sub available HOST_RAM_MARGIN_GIB) then Inr ()
      else Inl \<lparr>rf_memory = Host, rf_needed_gib = needed, rf_free_gib = available,
                rf_margin_gib = HOST_RAM_MARGIN_GIB\<rparr>)"

datatype free_memory =
    Probed f32
  | Accounted f32 f32 \<comment> \<open>total, loaded\<close>
  | FreeUnknown

definition free_gib :: "free_memory \<Rightarrow> f32" where
  "free_gib f = (case f of
       Probed gib \<Rightarrow> gib
     | Accounted tot loaded \<Rightarrow> f32_max (f32_sub tot loaded) f32_zero
     | FreeUnknown \<Rightarrow> f32_zero)"

definition free_now :: "memory_probe \<Rightarrow> f32 \<Rightarrow> free_memory" where
  "free_now probe loaded =
     (case pr_free_gib probe of
        Some gib \<Rightarrow> Probed gib
      | None \<Rightarrow> (case pr_total_gib probe of
            Some tot \<Rightarrow> Accounted tot loaded
          | None \<Rightarrow> FreeUnknown))"

definition admit :: "f32 \<Rightarrow> free_memory \<Rightarrow> (refused, unit) result" where
  "admit needed free =
     (if free \<noteq> FreeUnknown \<and> f32_le needed (f32_sub (free_gib free) ADMISSION_MARGIN_GIB) then Inr ()
      else Inl \<lparr>rf_memory = Device, rf_needed_gib = needed, rf_free_gib = free_gib free,
                rf_margin_gib = ADMISSION_MARGIN_GIB\<rparr>)"

text \<open>\<open>mib / 1024.0\<close> is a division by a power of two.\<close>

definition f32_div_1024 :: "f32 \<Rightarrow> f32" where
  "f32_div_1024 x = (case x of
       Fin n \<Rightarrow> f32_pack (n < 0) (rnd_frac (nat \<bar>n\<bar>) 1024) | NaN \<Rightarrow> NaN | Inf s \<Rightarrow> Inf s)"

definition first_gpu_free_gib :: "string \<Rightarrow> f32 option" where
  "first_gpu_free_gib stdout = (case str_lines stdout of
       [] \<Rightarrow> None
     | l # _ \<Rightarrow> map_option f32_div_1024 (parse_f32 (trim l)))"

definition amd_free_gib :: "string \<Rightarrow> string \<Rightarrow> f32 option" where
  "amd_free_gib tot used =
     (case (parse_uint 64 (trim tot), parse_uint 64 (trim used)) of
        (Some t, Some u) \<Rightarrow> Some (u64_scaled_f32 (t - u) 30)
      | _ \<Rightarrow> None)"

text \<open>\<open>SystemProbe\<close>: the text \<open>nvidia-smi\<close> printed (when it ran and succeeded) and the files it
  reads are arguments.\<close>

definition system_free_gib :: "string option \<Rightarrow> (string \<Rightarrow> string option) \<Rightarrow> f32 option" where
  "system_free_gib smi read =
     (case Option.bind smi first_gpu_free_gib of
        Some g \<Rightarrow> Some g
      | None \<Rightarrow>
          (case (read ''/sys/class/drm/card0/device/mem_info_vram_total'',
                 read ''/sys/class/drm/card0/device/mem_info_vram_used'') of
             (Some t, Some u) \<Rightarrow> amd_free_gib t u
           | _ \<Rightarrow> None))"

definition system_total_gib :: "f32 option \<Rightarrow> f32 option" where
  "system_total_gib detected = (case detected of
       Some g \<Rightarrow> if f32_lt f32_zero g then Some g else None | None \<Rightarrow> None)"

definition system_host_available_gib :: "(string \<Rightarrow> string option) \<Rightarrow> f32 option" where
  "system_host_available_gib read =
     host_available_gib (Option.bind (read ''/proc/meminfo'') mem_available_gib)
       (own_cgroup_usage read)"

section \<open>Facts\<close>

lemma admit_Inr_iff:
  "admit needed free = Inr () \<longleftrightarrow>
   free \<noteq> FreeUnknown \<and> f32_le needed (f32_sub (free_gib free) ADMISSION_MARGIN_GIB)"
  by (simp add: admit_def)

lemma f32_of_nat_small: "n < 2 ^ 24 \<Longrightarrow> f32_of_nat n = Fin (int n * 2 ^ 149)"
  using f32_round_exact [of "int n" 149] by (simp add: f32_of_nat_def f32_unit_def)

lemma margin_fin: "ADMISSION_MARGIN_GIB = Fin (2 ^ 149)" "HOST_RAM_MARGIN_GIB = Fin (4 * 2 ^ 149)"
  using f32_of_nat_small [of 1] f32_of_nat_small [of 4]
  by (simp_all add: ADMISSION_MARGIN_GIB_def HOST_RAM_MARGIN_GIB_def)

lemma admit_mono:
  assumes "admit needed free = Inr ()" "free' \<noteq> FreeUnknown" "f32_le (free_gib free) (free_gib free')"
  shows "admit needed free' = Inr ()"
  using assms f32_sub_mono [of "free_gib free" "free_gib free'" "2 ^ 149"]
  by (auto simp: admit_Inr_iff margin_fin intro: f32_le_trans)

lemma admit_smaller:
  assumes "admit needed free = Inr ()" "f32_le needed' needed"
  shows "admit needed' free = Inr ()"
  using assms by (auto simp: admit_Inr_iff intro: f32_le_trans)

text \<open>A reading of \<open>m\<close> whole MiB.\<close>

definition mib_gib :: "nat \<Rightarrow> f32" where
  "mib_gib m = Fin (int m * 2 ^ 139)"

lemma mib_gib_read:
  assumes "m < 2 ^ 24"
  shows "f32_div_1024 (f32_of_nat m) = mib_gib m"
proof -
  have "m * 2 ^ 149 = m * 2 ^ 139 * 1024" by simp
  then have "rnd_frac (m * 2 ^ 149) 1024 = m * 2 ^ 139"
    using rnd_frac_exact [of m 1024 139] assms by (simp only:)
  moreover have "m * 2 ^ 139 < 2 ^ 277" using assms by simp
  moreover have "nat (int m * 2 ^ 149) = m * 2 ^ 149" by (simp add: nat_mult_distrib)
  ultimately show ?thesis
    using assms by (simp add: f32_of_nat_small f32_div_1024_def f32_pack_def mib_gib_def abs_mult)
qed

text \<open>Admission is exact on what the device reports: when the probe reads \<open>m\<close> whole MiB
  (below 16 TiB) a model of \<open>n\<close> MiB is admitted exactly when \<open>n\<close> plus the 1 GiB reserve fits in
  \<open>m\<close>, with no error from the single-precision arithmetic; otherwise the refusal carries the
  need, the free memory and the reserve.\<close>

theorem admission_exact_on_mib:
  assumes "m < 2 ^ 24"
  shows "admit (mib_gib n) (free_now \<lparr>pr_free_gib = Some (f32_div_1024 (f32_of_nat m)),
             pr_total_gib = t, pr_host_available_gib = h\<rparr> loaded) =
         (if n + 1024 \<le> m then Inr ()
          else Inl \<lparr>rf_memory = Device, rf_needed_gib = mib_gib n, rf_free_gib = mib_gib m,
                    rf_margin_gib = f32_of_nat 1\<rparr>)"
proof -
  have "\<bar>int m - 1024\<bar> < 2 ^ 24" using assms by simp
  then have "f32_round ((int m - 1024) * 2 ^ 139) = Fin ((int m - 1024) * 2 ^ 139)"
    by (rule f32_round_exact) simp
  then have "f32_sub (mib_gib m) ADMISSION_MARGIN_GIB = Fin ((int m - 1024) * 2 ^ 139)"
    by (simp add: f32_sub_def mib_gib_def margin_fin algebra_simps)
  moreover have "int n * 2 ^ 139 \<le> (int m - 1024) * 2 ^ 139 \<longleftrightarrow> n + 1024 \<le> m"
    by (subst mult_le_cancel_right) auto
  ultimately show ?thesis
    using assms
    by (simp add: admit_def free_now_def free_gib_def mib_gib_read)
      (simp add: mib_gib_def ADMISSION_MARGIN_GIB_def)
qed

theorem admission_exact_on_mib_witness:
  "admit (mib_gib 12288) (free_now \<lparr>pr_free_gib = Some (f32_div_1024 (f32_of_nat 16376)),
     pr_total_gib = None, pr_host_available_gib = None\<rparr> f32_zero) = Inr ()"
  using admission_exact_on_mib [of 16376 12288 None None f32_zero] by simp

text \<open>Admission is monotone: a job that is admitted is still admitted when it needs less,
  and when the device has more free memory, whether that memory was probed or accounted.\<close>

theorem admission_monotone:
  assumes "admit needed free = Inr ()"
    and "f32_le needed' needed" and "f32_le (free_gib free) (free_gib free')" and "free' \<noteq> FreeUnknown"
  shows "admit needed' free' = Inr ()"
  using assms admit_mono admit_smaller by blast

theorem admission_monotone_witness:
  "admit (mib_gib 1024) (Accounted (mib_gib 8192) (mib_gib 1024)) = Inr ()"
proof (rule admission_monotone)
  show "admit (mib_gib 2048) (Probed (mib_gib 4096)) = Inr ()"
    using admission_exact_on_mib [of 4096 2048 None None f32_zero]
    by (simp add: free_now_def mib_gib_read)
  have "f32_round ((7 * 1024) * 2 ^ 139) = Fin ((7 * 1024) * 2 ^ 139)"
    by (rule f32_round_exact) simp_all
  then show "f32_le (free_gib (Probed (mib_gib 4096)))
      (free_gib (Accounted (mib_gib 8192) (mib_gib 1024)))"
    by (simp add: free_gib_def mib_gib_def f32_sub_def f32_max_def)
qed (simp_all add: mib_gib_def)

end
