(* ===== verification/Residency.thy ===== *)
theory Residency
  imports Catalog "HOL-Library.List_Lexorder" "HOL-Library.Char_ord"
begin

text \<open>
  \<^verbatim>\<open>src/src/residency.rs\<close>: the models the operator wants loaded, and their file.  The
  \<open>BTreeSet\<close> is its elements in order: a strictly sorted list.  \<open>parse_json\<close> (a version
  and the ids, \<open>None\<close> when the text is no such object) and \<open>show_json\<close> stand for serde_json.
\<close>

definition VERSION :: u32 where
  "VERSION = 1"

record residency =
  resident :: "string list"
  res_path :: "path option"

definition residency_default :: residency where
  "residency_default = \<lparr>resident = [], res_path = None\<rparr>"

definition parse_residency :: "(string \<Rightarrow> (u32 \<times> string list) option) \<Rightarrow> string \<Rightarrow> string list option" where
  "parse_residency parse_json contents =
     (case parse_json contents of
        None \<Rightarrow> None | Some (v, ids) \<Rightarrow> if v = VERSION then Some ids else None)"

definition quarantine :: "faults \<Rightarrow> nat \<Rightarrow> files \<Rightarrow> path \<Rightarrow> files" where
  "quarantine flt ts fs p = fst (rename_file flt fs p (quarantine_path ts p))"

definition residency_load_for_serving ::
  "(string \<Rightarrow> (u32 \<times> string list) option) \<Rightarrow> faults \<Rightarrow> nat \<Rightarrow> files \<Rightarrow> path option \<Rightarrow>
   files \<times> residency" where
  "residency_load_for_serving parse_json flt ts fs po =
     (case po of
        None \<Rightarrow> (fs, residency_default)
      | Some p \<Rightarrow>
          (case read_to_string flt fs p of
             Inr contents \<Rightarrow>
               (case parse_residency parse_json contents of
                  Some ids \<Rightarrow> (fs, \<lparr>resident = ids, res_path = Some p\<rparr>)
                | None \<Rightarrow> (quarantine flt ts fs p, \<lparr>resident = [], res_path = Some p\<rparr>))
           | Inl NotFound \<Rightarrow> (fs, \<lparr>resident = [], res_path = Some p\<rparr>)
           | Inl _ \<Rightarrow> (fs, residency_default)))"

definition is_resident :: "residency \<Rightarrow> string \<Rightarrow> bool" where
  "is_resident r i = (i \<in> set (resident r))"

definition resident_ids :: "residency \<Rightarrow> string list" where
  "resident_ids r = resident r"

definition persistence :: "residency \<Rightarrow> path option" where
  "persistence r = res_path r"

definition residency_save ::
  "(u32 \<times> string list \<Rightarrow> string) \<Rightarrow> faults \<Rightarrow> path \<Rightarrow> files \<Rightarrow> path \<Rightarrow> string list \<Rightarrow>
   files \<times> (io_error, unit) result" where
  "residency_save show_json flt tmp fs p ids = save_text flt tmp fs p (show_json (VERSION, ids))"

definition set_resident ::
  "(u32 \<times> string list \<Rightarrow> string) \<Rightarrow> faults \<Rightarrow> path \<Rightarrow> files \<Rightarrow> string \<Rightarrow> bool \<Rightarrow> residency \<Rightarrow>
   files \<times> residency \<times> (io_error, bool) result" where
  "set_resident show_json flt tmp fs i want r =
     (if is_resident r i = want then (fs, r, Inr False)
      else
        let nxt = (if want then insort_insert i (resident r) else remove1 i (resident r)) in
        case res_path r of
          None \<Rightarrow> (fs, r\<lparr>resident := nxt\<rparr>, Inr True)
        | Some p \<Rightarrow>
            (case residency_save show_json flt tmp fs p nxt of
               (fs, Inl e) \<Rightarrow> (fs, r, Inl e)
             | (fs, Inr _) \<Rightarrow> (fs, r\<lparr>resident := nxt\<rparr>, Inr True)))"

section \<open>Facts\<close>

definition residency_ok :: "residency \<Rightarrow> bool" where
  "residency_ok r = (sorted (resident r) \<and> distinct (resident r))"

definition agrees_with_disk :: "(u32 \<times> string list \<Rightarrow> string) \<Rightarrow> files \<Rightarrow> residency \<Rightarrow> bool" where
  "agrees_with_disk show_json fs r =
     (\<forall>p. res_path r = Some p \<longrightarrow>
       (case fs p of None \<Rightarrow> resident r = [] | Some s \<Rightarrow> s = show_json (VERSION, resident r)))"

text \<open>The three ways a \<open>set\<close> ends.\<close>

lemma set_resident_cases:
  assumes "res_path r \<noteq> Some tmp" "fs tmp = None"
    and run: "set_resident show_json flt tmp fs i want r = (fs', r', res)"
  shows "(res = Inr False \<and> is_resident r i = want \<and> fs' = fs \<and> r' = r) \<or>
         (\<exists>e. res = Inl e \<and> fs' = fs \<and> r' = r) \<or>
         (res = Inr True \<and> is_resident r i \<noteq> want \<and>
          r' = r\<lparr>resident := (if want then insort_insert i (resident r) else remove1 i (resident r))\<rparr> \<and>
          fs' = (case res_path r of None \<Rightarrow> fs
                 | Some p \<Rightarrow> fs(p \<mapsto> show_json (VERSION, resident r'))))"
proof (cases "is_resident r i = want")
  case True
  with run show ?thesis by (simp add: set_resident_def)
next
  case False
  show ?thesis
  proof (cases "res_path r")
    case None
    with False run show ?thesis by (auto simp: set_resident_def Let_def)
  next
    case (Some p)
    with assms(1) have "tmp \<noteq> p" by auto
    from this assms(2) have "save_text flt tmp fs p t = (fs(p \<mapsto> t), Inr ()) \<or>
        (\<exists>e. save_text flt tmp fs p t = (fs, Inl e))" for t
      by (rule save_text_cases)
    from this [of "show_json (VERSION, if want then insort_insert i (resident r) else remove1 i (resident r))"]
    show ?thesis using False Some run
      by (auto simp: set_resident_def residency_save_def Let_def)
  qed
qed

lemma set_update_resident:
  "distinct xs \<Longrightarrow> (i \<in> set xs) \<noteq> want \<Longrightarrow>
   set (if want then insort_insert i xs else remove1 i xs) =
     (if want then insert i (set xs) else set xs - {i})"
  by (auto simp: set_insort_insert)

lemma set_resident_ok:
  "residency_ok r \<Longrightarrow> residency_ok (r\<lparr>resident := (if want then insort_insert i (resident r)
     else remove1 i (resident r))\<rparr>)"
  by (simp add: residency_ok_def sorted_insort_insert sorted_remove1 distinct_insort_insert)

text \<open>C11: a residency change is all or nothing: it leaves the set sorted, the file in step
  with the set, and either reports an error and changes neither the set nor any file, or makes
  exactly the requested change to both and touches no other file, whatever write fails.\<close>

theorem set_resident_transactional:
  assumes "residency_ok r" and "agrees_with_disk show_json fs r"
    and "res_path r \<noteq> Some tmp" and "fs tmp = None"
    and "set_resident show_json flt tmp fs i want r = (fs', r', res)"
  shows "residency_ok r' \<and> agrees_with_disk show_json fs' r' \<and> res_path r' = res_path r \<and>
         (case res of Inl _ \<Rightarrow> r' = r \<and> fs' = fs
          | Inr changed \<Rightarrow>
              changed = (is_resident r i \<noteq> want) \<and>
              (\<forall>j. is_resident r' j = (if j = i then want else is_resident r j)) \<and>
              (\<forall>q. res_path r \<noteq> Some q \<longrightarrow> fs' q = fs q))"
proof -
  have d: "distinct (resident r)" using assms(1) by (simp add: residency_ok_def)
  show ?thesis using set_resident_cases [OF assms(3-5)]
  proof (elim disjE exE conjE)
    assume *: "res = Inr True" "is_resident r i \<noteq> want"
      "r' = r\<lparr>resident := (if want then insort_insert i (resident r) else remove1 i (resident r))\<rparr>"
      "fs' = (case res_path r of None \<Rightarrow> fs | Some p \<Rightarrow> fs(p \<mapsto> show_json (VERSION, resident r')))"
    have ok: "residency_ok r'" unfolding *(3) by (rule set_resident_ok) (rule assms(1))
    have "set (resident r') = (if want then insert i (set (resident r)) else set (resident r) - {i})"
      using set_update_resident [OF d] *(2,3) by (simp add: is_resident_def)
    then have "is_resident r' j = (if j = i then want else is_resident r j)" for j
      by (auto simp: is_resident_def)
    moreover have "res_path r' = res_path r" by (simp add: *(3))
    ultimately show ?thesis using *(1,2,4) ok by (auto simp: agrees_with_disk_def split: option.splits)
  qed (use assms(1,2) in auto)
qed

theorem set_resident_transactional_witness:
  "is_resident (fst (snd (set_resident (\<lambda>_. ''new'') no_faults ''t'' Map.empty ''b'' True
     \<lparr>resident = [''a''], res_path = None\<rparr>))) ''b''"
proof -
  obtain fs' r' res where run: "set_resident (\<lambda>_. ''new'') no_faults ''t'' Map.empty ''b'' True
     \<lparr>resident = [''a''], res_path = None\<rparr> = (fs', r', res)" by (metis prod_cases3)
  moreover from run have "res = Inr True"
    by (simp add: set_resident_def is_resident_def Let_def)
  ultimately show ?thesis
    using set_resident_transactional [OF _ _ _ _ run]
    by (simp add: residency_ok_def agrees_with_disk_def)
qed



end
