(* ===== verification/ModelHost.thy ===== *)
theory ModelHost
  imports Lifecycle Admission Residency
begin

text \<open>
  \<^verbatim>\<open>src/src/host.rs\<close>: the model host.  Its state is one record: the shared catalogue, the
  residency and its file, one entry per model touched so far, the lanes (shared objects, in a
  map from their addresses), the load and unload threads it spawned with the point each has
  reached, the requests waiting for or holding a lane, and the status messages published.  What
  the environment supplies at a call (the clock, a memory reading, which writes fail) is an
  \<open>env\<close>.  Each operation runs under the \<open>entries\<close> lock, so it is one step; between the steps of a
  thread anything else may happen.
\<close>

section \<open>State\<close>

datatype host_error =
    UnknownModel string
  | Disabled string
  | Refused refused
  | NotLoaded string string \<comment> \<open>id, state\<close>
  | LaneBusy string
  | Persist io_error

record lane =
  busy :: bool
  cancel :: bool

definition lane_new :: lane where
  "lane_new = \<lparr>busy = False, cancel = False\<rparr>"

definition lane_cancelled :: "lane \<Rightarrow> bool" where
  "lane_cancelled l = cancel l"

type_synonym lane_ref = nat

record 'm host_entry =
  en_lifecycle :: lifecycle
  en_since :: nat
  en_loaded :: "('m \<times> lane_ref) option"

definition entry_new :: "nat \<Rightarrow> 'm host_entry" where
  "entry_new now = \<lparr>en_lifecycle = lifecycle_new, en_since = now, en_loaded = None\<rparr>"

record model_status =
  st_id :: string
  st_state :: model_state
  st_resident :: bool
  st_since :: nat

datatype unload_phase = Cancelling | Draining | Freeing bool \<comment> \<open>whether the lane was drained in time\<close>

datatype host_thread =
    LoadThread catalog_model "string list" \<comment> \<open>outgoing models still to wait for\<close>
  | UnloadThread string "lane_ref option" unload_phase

datatype lane_request = Waiting string lane_ref | Serving string lane_ref

record 'm host =
  h_catalog :: catalog
  h_residency :: residency
  h_files :: files
  h_entries :: "string \<Rightarrow> 'm host_entry option"
  h_lanes :: "lane_ref \<Rightarrow> lane"
  h_next_lane :: lane_ref
  h_threads :: "host_thread list"
  h_requests :: "lane_request list"
  h_published :: "model_status list"

record env =
  env_now :: nat
  env_probe :: memory_probe
  env_show :: "u32 \<times> string list \<Rightarrow> string"
  env_faults :: faults
  env_tmp :: path

definition host_new :: "catalog \<Rightarrow> residency \<Rightarrow> files \<Rightarrow> 'm host" where
  "host_new c r fs = \<lparr>h_catalog = c, h_residency = r, h_files = fs, h_entries = Map.empty,
     h_lanes = (\<lambda>_. lane_new), h_next_lane = 0, h_threads = [], h_requests = [], h_published = []\<rparr>"

section \<open>Entries\<close>

definition the_entry :: "'m host \<Rightarrow> string \<Rightarrow> 'm host_entry" where
  "the_entry h i = (case h_entries h i of Some e \<Rightarrow> e | None \<Rightarrow> entry_new 0)"

definition state_of :: "'m host \<Rightarrow> string \<Rightarrow> model_state" where
  "state_of h i = lc_state (en_lifecycle (the_entry h i))"

text \<open>\<open>fn entry\<close>: the entry, created when missing.\<close>

definition host_entry_for :: "env \<Rightarrow> string \<Rightarrow> 'm host \<Rightarrow> 'm host" where
  "host_entry_for v i h = (case h_entries h i of
       Some _ \<Rightarrow> h
     | None \<Rightarrow> h\<lparr>h_entries := (h_entries h)(i \<mapsto> entry_new (env_now v))\<rparr>)"

definition put_entry :: "string \<Rightarrow> 'm host_entry \<Rightarrow> 'm host \<Rightarrow> 'm host" where
  "put_entry i e h = h\<lparr>h_entries := (h_entries h)(i \<mapsto> e)\<rparr>"

definition status_locked :: "env \<Rightarrow> string \<Rightarrow> 'm host \<Rightarrow> 'm host \<times> model_status" where
  "status_locked v i h =
     (let h = host_entry_for v i h; e = the_entry h i in
      (h, \<lparr>st_id = i, st_state = lc_state (en_lifecycle e),
           st_resident = is_resident (h_residency h) i, st_since = en_since e\<rparr>))"

definition holds_memory :: "model_state \<Rightarrow> bool" where
  "holds_memory s = (s = Loading \<or> s = Loaded \<or> s = Unloading)"

definition host_loaded_gib :: "'m host \<Rightarrow> f32" where
  "host_loaded_gib h =
     f32_sum (map cm_vram_gb_estimate (filter (\<lambda>m. holds_memory (state_of h (cm_id m)))
       (cat_list (h_catalog h))))"

definition credit :: "free_memory \<Rightarrow> f32 \<Rightarrow> free_memory" where
  "credit free freed = (case free of
       FreeUnknown \<Rightarrow> FreeUnknown
     | other \<Rightarrow> if f32_eq freed f32_zero then other else Probed (f32_add (free_gib other) freed))"

definition catalogue_model :: "'m host \<Rightarrow> string \<Rightarrow> (host_error, catalog_model) result" where
  "catalogue_model h i = (case cat_get (h_catalog h) i of
       Some m \<Rightarrow> Inr m | None \<Rightarrow> Inl (UnknownModel i))"

section \<open>Transitions\<close>

definition after_transition :: "env \<Rightarrow> string \<Rightarrow> model_state \<Rightarrow> 'm host \<Rightarrow> 'm host" where
  "after_transition v i old h =
     (let h = host_entry_for v i h; e = the_entry h i in
      if lc_state (en_lifecycle e) = old then h
      else
        let h = put_entry i (e\<lparr>en_since := env_now v\<rparr>) h;
            (h, status) = status_locked v i h
        in h\<lparr>h_published := h_published h @ [status]\<rparr>)"

definition spawn_load :: "catalog_model \<Rightarrow> string list \<Rightarrow> 'm host \<Rightarrow> 'm host" where
  "spawn_load m others h = h\<lparr>h_threads := LoadThread m others # h_threads h\<rparr>"

definition spawn_unload :: "string \<Rightarrow> 'm host \<Rightarrow> 'm host" where
  "spawn_unload i h =
     h\<lparr>h_threads := UnloadThread i (map_option snd (en_loaded (the_entry h i))) Cancelling # h_threads h\<rparr>"

definition request_unload_locked :: "env \<Rightarrow> string \<Rightarrow> 'm host \<Rightarrow> 'm host" where
  "request_unload_locked v i h =
     (let h = host_entry_for v i h; e = the_entry h i;
          (l, c) = request_unload (en_lifecycle e);
          h = after_transition v i (lc_state (en_lifecycle e)) (put_entry i (e\<lparr>en_lifecycle := l\<rparr>) h)
      in if c = BeginUnload then spawn_unload i h else h)"

definition request_load_locked :: "env \<Rightarrow> catalog_model \<Rightarrow> string list \<Rightarrow> 'm host \<Rightarrow> 'm host" where
  "request_load_locked v m others h =
     (let i = cm_id m; h = host_entry_for v i h; e = the_entry h i;
          (l, c) = request_load (en_lifecycle e);
          h = after_transition v i (lc_state (en_lifecycle e)) (put_entry i (e\<lparr>en_lifecycle := l\<rparr>) h)
      in if c = BeginLoad then spawn_load m others h else h)"

text \<open>\<open>residency.lock().set(..)\<close>.\<close>

definition set_residency :: "env \<Rightarrow> string \<Rightarrow> bool \<Rightarrow> 'm host \<Rightarrow> 'm host \<times> (host_error, unit) result" where
  "set_residency v i want h =
     (case set_resident (env_show v) (env_faults v) (env_tmp v) (h_files h) i want (h_residency h) of
        (fs, r, res) \<Rightarrow>
          (h\<lparr>h_files := fs, h_residency := r\<rparr>,
           case res of Inl e \<Rightarrow> Inl (Persist e) | Inr _ \<Rightarrow> Inr ()))"

section \<open>Requests of the operator\<close>

definition host_status :: "env \<Rightarrow> string \<Rightarrow> 'm host \<Rightarrow> 'm host \<times> (host_error, model_status) result" where
  "host_status v i h = (case catalogue_model h i of
       Inl e \<Rightarrow> (h, Inl e)
     | Inr _ \<Rightarrow> (let (h, s) = status_locked v i h in (h, Inr s)))"

fun statuses_of :: "env \<Rightarrow> string list \<Rightarrow> 'm host \<Rightarrow> 'm host \<times> model_status list" where
  "statuses_of v [] h = (h, [])"
| "statuses_of v (i # is) h =
     (let (h, s) = status_locked v i h; (h, ss) = statuses_of v is h in (h, s # ss))"

definition host_statuses :: "env \<Rightarrow> 'm host \<Rightarrow> 'm host \<times> model_status list" where
  "host_statuses v h = statuses_of v (map cm_id (cat_list (h_catalog h))) h"

definition swap_out :: "catalog_model \<Rightarrow> string \<Rightarrow> 'm host \<Rightarrow> string list" where
  "swap_out m i h = (case cm_exclusive_group m of
       None \<Rightarrow> []
     | Some g \<Rightarrow> map cm_id (filter (\<lambda>o'. state_of h (cm_id o') = Loading \<or> state_of h (cm_id o') = Loaded)
         (filter (\<lambda>o'. cm_id o' \<noteq> i \<and> cm_exclusive_group o' = Some g) (cat_list (h_catalog h)))))"

fun swap_each :: "env \<Rightarrow> string list \<Rightarrow> 'm host \<Rightarrow> 'm host \<times> (host_error, unit) result" where
  "swap_each v [] h = (h, Inr ())"
| "swap_each v (other # rest) h =
     (case set_residency v other False h of
        (h, Inl e) \<Rightarrow> (h, Inl e)
      | (h, Inr _) \<Rightarrow> swap_each v rest (request_unload_locked v other h))"

definition load_admission :: "env \<Rightarrow> catalog_model \<Rightarrow> string list \<Rightarrow> 'm host \<Rightarrow> (host_error, unit) result" where
  "load_admission v m others h =
     (let freed = f32_sum (map cm_vram_gb_estimate
            (filter (\<lambda>o'. cm_id o' \<in> set others) (cat_list (h_catalog h))));
          free = credit (free_now (env_probe v) (host_loaded_gib h)) freed
      in case admit (cm_vram_gb_estimate m) free of Inl r \<Rightarrow> Inl (Refused r) | Inr _ \<Rightarrow> Inr ())"

definition host_load :: "env \<Rightarrow> string \<Rightarrow> 'm host \<Rightarrow> 'm host \<times> (host_error, model_status) result" where
  "host_load v i h =
     (case catalogue_model h i of
        Inl e \<Rightarrow> (h, Inl e)
      | Inr m \<Rightarrow>
          if \<not> cm_enabled m then (h, Inl (Disabled i))
          else
            let h = host_entry_for v i h;
                needs_load = (case state_of h i of Unloaded \<Rightarrow> True | Failed _ \<Rightarrow> True | _ \<Rightarrow> False);
                others = swap_out m i h
            in case (if needs_load then load_admission v m others h else Inr ()) of
                 Inl e \<Rightarrow> (h, Inl e)
               | Inr _ \<Rightarrow>
                   (case set_residency v i True h of
                      (h, Inl e) \<Rightarrow> (h, Inl e)
                    | (h, Inr _) \<Rightarrow>
                        (case swap_each v others h of
                           (h, Inl e) \<Rightarrow> (h, Inl e)
                         | (h, Inr _) \<Rightarrow>
                             (let (h, s) = status_locked v i (request_load_locked v m others h)
                              in (h, Inr s)))))"

definition host_unload :: "env \<Rightarrow> string \<Rightarrow> 'm host \<Rightarrow> 'm host \<times> (host_error, model_status) result" where
  "host_unload v i h =
     (case catalogue_model h i of
        Inl e \<Rightarrow> (h, Inl e)
      | Inr _ \<Rightarrow>
          (case set_residency v i False h of
             (h, Inl e) \<Rightarrow> (h, Inl e)
           | (h, Inr _) \<Rightarrow>
               (let (h, s) = status_locked v i (request_unload_locked v i h) in (h, Inr s))))"

text \<open>The ids to restore are read once, then loaded one by one, each with its own readings.\<close>

definition restore_ids :: "'m host \<Rightarrow> string list" where
  "restore_ids h = filter (\<lambda>i. i \<in> set (resident_ids (h_residency h))) (map cm_id (cat_list (h_catalog h)))"

definition restore_residents :: "env \<Rightarrow> 'm host \<Rightarrow> 'm host" where
  "restore_residents v h = fold (\<lambda>i h. fst (host_load v i h)) (restore_ids h) h"

section \<open>Transient jobs\<close>

definition admit_transient :: "env \<Rightarrow> memory_need \<Rightarrow> 'm host \<Rightarrow> (refused, unit) result" where
  "admit_transient v need h =
     (let free = free_now (env_probe v) (host_loaded_gib h);
          device = (if free = FreeUnknown then Inr () else admit (need_device_gib need) free);
          available = (case need_host_gib need of
              None \<Rightarrow> None | Some _ \<Rightarrow> pr_host_available_gib (env_probe v))
      in case device of
           Inl r \<Rightarrow> Inl r
         | Inr _ \<Rightarrow> (case (need_host_gib need, available) of
               (Some n, Some a) \<Rightarrow> admit_host n a
             | _ \<Rightarrow> Inr ()))"

section \<open>Threads\<close>

text \<open>\<open>finish_load\<close>: \<open>Inr\<close> the loaded model or \<open>Inl\<close> the rendered error.  A lane is made for
  every successful result; a result the machine did not expect is dropped.\<close>

definition finish_load :: "env \<Rightarrow> string \<Rightarrow> (string, 'm) result \<Rightarrow> 'm host \<Rightarrow> 'm host" where
  "finish_load v i result h =
     (let h = host_entry_for v i h; e = the_entry h i; old = lc_state (en_lifecycle e);
          (h, outcome, loaded) = (case result of
              Inr m \<Rightarrow> (h\<lparr>h_lanes := (h_lanes h)(h_next_lane h := lane_new),
                          h_next_lane := Suc (h_next_lane h)\<rparr>, Inr (), Some (m, h_next_lane h))
            | Inl err \<Rightarrow> (h, Inl err, None))
      in case load_finished outcome (en_lifecycle e) of
           (l, Inr c) \<Rightarrow>
             (let h = after_transition v i old (put_entry i (e\<lparr>en_lifecycle := l, en_loaded := loaded\<rparr>) h)
              in if c = BeginUnload then spawn_unload i h else h)
         | (l, Inl _) \<Rightarrow> h)"

definition finish_unload :: "env \<Rightarrow> string \<Rightarrow> 'm host \<Rightarrow> 'm host" where
  "finish_unload v i h =
     (let h = host_entry_for v i h; e = the_entry h i; old = lc_state (en_lifecycle e) in
      case unload_finished (Inr ()) (en_lifecycle e) of
        (l, Inr _) \<Rightarrow> after_transition v i old (put_entry i (e\<lparr>en_lifecycle := l, en_loaded := None\<rparr>) h)
      | (l, Inl _) \<Rightarrow> put_entry i (e\<lparr>en_loaded := None\<rparr>) h)"

definition replace_thread :: "host_thread \<Rightarrow> host_thread list \<Rightarrow> 'm host \<Rightarrow> 'm host" where
  "replace_thread t ts h = h\<lparr>h_threads := ts @ remove1 t (h_threads h)\<rparr>"

definition set_cancel :: "lane_ref \<Rightarrow> 'm host \<Rightarrow> 'm host" where
  "set_cancel l h = h\<lparr>h_lanes := (h_lanes h)(l := (h_lanes h l)\<lparr>cancel := True\<rparr>)\<rparr>"

section \<open>Lanes\<close>

definition lane_of :: "env \<Rightarrow> string \<Rightarrow> 'm host \<Rightarrow> 'm host \<times> (host_error, 'm \<times> lane_ref) result" where
  "lane_of v i h =
     (let h = host_entry_for v i h; e = the_entry h i in
      (h, case (en_loaded e, serves (lc_state (en_lifecycle e))) of
            (Some ml, True) \<Rightarrow> Inr ml
          | _ \<Rightarrow> Inl (NotLoaded i (state_name (lc_state (en_lifecycle e))))))"

text \<open>\<open>serve\<close> holds the lane's lock; \<open>Inr\<close> means the request's body starts.\<close>

definition serve_check :: "string \<Rightarrow> lane_ref \<Rightarrow> 'm host \<Rightarrow> (host_error, unit) result" where
  "serve_check i l h =
     (if lane_cancelled (h_lanes h l) then Inl (NotLoaded i (state_name Unloading)) else Inr ())"

definition set_busy :: "lane_ref \<Rightarrow> bool \<Rightarrow> 'm host \<Rightarrow> 'm host" where
  "set_busy l b h = h\<lparr>h_lanes := (h_lanes h)(l := (h_lanes h l)\<lparr>busy := b\<rparr>)\<rparr>"

text \<open>With the lane's lock just taken: serve, or answer and release it.\<close>

definition take_lane :: "string \<Rightarrow> lane_ref \<Rightarrow> 'm host \<Rightarrow> 'm host \<times> (host_error, unit) result" where
  "take_lane i l h = (case serve_check i l h of
       Inl e \<Rightarrow> (h, Inl e)
     | Inr _ \<Rightarrow> ((set_busy l True h)\<lparr>h_requests := Serving i l # h_requests h\<rparr>, Inr ()))"

definition with_lane_begin :: "env \<Rightarrow> string \<Rightarrow> 'm host \<Rightarrow> 'm host \<times> (host_error, unit) result" where
  "with_lane_begin v i h = (case lane_of v i h of
       (h, Inl e) \<Rightarrow> (h, Inl e)
     | (h, Inr (m, l)) \<Rightarrow> (h\<lparr>h_requests := Waiting i l # h_requests h\<rparr>, Inr ()))"

definition try_with_lane :: "env \<Rightarrow> string \<Rightarrow> 'm host \<Rightarrow> 'm host \<times> (host_error, unit) result" where
  "try_with_lane v i h = (case lane_of v i h of
       (h, Inl e) \<Rightarrow> (h, Inl e)
     | (h, Inr (m, l)) \<Rightarrow> if busy (h_lanes h l) then (h, Inl (LaneBusy i)) else take_lane i l h)"

section \<open>Steps\<close>

datatype 'm host_event =
    OpStatus string
  | OpStatuses
  | OpLoad string
  | OpUnload string
  | OpRestore
  | OutgoingGone catalog_model string "string list" bool \<comment> \<open>the wait ended, by timeout or not\<close>
  | LoadReturns catalog_model "(string, 'm) result"
  | UnloadCancels string "lane_ref option"
  | UnloadDrains string "lane_ref option" bool \<comment> \<open>the drain ended in time\<close>
  | UnloadFrees string "lane_ref option" bool
  | AskLane string
  | TryLane string
  | GetLane string lane_ref
  | LeaveLane string lane_ref

definition unloaded_or_failed :: "model_state \<Rightarrow> bool" where
  "unloaded_or_failed s = (case s of Unloaded \<Rightarrow> True | Failed _ \<Rightarrow> True | _ \<Rightarrow> False)"

text \<open>\<open>None\<close>: the step is not possible now.\<close>

fun host_step :: "env \<Rightarrow> 'm host_event \<Rightarrow> 'm host \<Rightarrow> 'm host option" where
  "host_step v (OpStatus i) h = Some (fst (host_status v i h))"
| "host_step v OpStatuses h = Some (fst (host_statuses v h))"
| "host_step v (OpLoad i) h = Some (fst (host_load v i h))"
| "host_step v (OpUnload i) h = Some (fst (host_unload v i h))"
| "host_step v OpRestore h = Some (restore_residents v h)"
| "host_step v (OutgoingGone m other rest timed_out) h =
     (if LoadThread m (other # rest) \<in> set (h_threads h) \<and>
         (timed_out \<or> unloaded_or_failed (state_of h other))
      then Some (replace_thread (LoadThread m (other # rest)) [LoadThread m rest] (host_entry_for v other h))
      else None)"
| "host_step v (LoadReturns m result) h =
     (if LoadThread m [] \<in> set (h_threads h)
      then Some (finish_load v (cm_id m) result (replace_thread (LoadThread m []) [] h))
      else None)"
| "host_step v (UnloadCancels i lo) h =
     (if UnloadThread i lo Cancelling \<in> set (h_threads h)
      then Some (replace_thread (UnloadThread i lo Cancelling)
        [UnloadThread i lo (case lo of None \<Rightarrow> Freeing True | Some _ \<Rightarrow> Draining)]
        (case lo of None \<Rightarrow> h | Some l \<Rightarrow> set_cancel l h))
      else None)"
| "host_step v (UnloadDrains i lo in_time) h =
     (if UnloadThread i lo Draining \<in> set (h_threads h) \<and>
         (in_time \<longrightarrow> (case lo of None \<Rightarrow> True | Some l \<Rightarrow> \<not> busy (h_lanes h l)))
      then Some (replace_thread (UnloadThread i lo Draining) [UnloadThread i lo (Freeing in_time)] h)
      else None)"
| "host_step v (UnloadFrees i lo drained) h =
     (if UnloadThread i lo (Freeing drained) \<in> set (h_threads h)
      then Some (finish_unload v i (replace_thread (UnloadThread i lo (Freeing drained)) [] h))
      else None)"
| "host_step v (AskLane i) h = Some (fst (with_lane_begin v i h))"
| "host_step v (TryLane i) h = Some (fst (try_with_lane v i h))"
| "host_step v (GetLane i l) h =
     (if Waiting i l \<in> set (h_requests h) \<and> \<not> busy (h_lanes h l)
      then Some (fst (take_lane i l (h\<lparr>h_requests := remove1 (Waiting i l) (h_requests h)\<rparr>)))
      else None)"
| "host_step v (LeaveLane i l) h =
     (if Serving i l \<in> set (h_requests h)
      then Some (set_busy l False (h\<lparr>h_requests := remove1 (Serving i l) (h_requests h)\<rparr>))
      else None)"

inductive host_reachable :: "'m host \<Rightarrow> bool" where
  host_start: "ids_distinct c \<Longrightarrow> residency_ok r \<Longrightarrow> host_reachable (host_new c r fs)"
| host_next: "host_reachable h \<Longrightarrow> host_step v e h = Some h' \<Longrightarrow> host_reachable h'"

end
