(* ===== verification/WsFrames.thy ===== *)
theory WsFrames
  imports WorkerLog
begin

text \<open>
  The wire frames (\<^verbatim>\<open>src/src/ws/types.rs\<close>) and the client's classification of what the
  socket yields (\<^verbatim>\<open>src/src/ws/client.rs\<close>).  JSON parsing and the rendering of an HTTP status
  are arguments; a tungstenite error is what the client inspects of it.
\<close>

section \<open>Frames\<close>

record hello_frame =
  hf_auth_token :: string
  hf_capabilities :: worker_capabilities

datatype reject_code = RejBusy | RejPaused | RejInsufficientMemory

datatype worker_inbound =
    Hello hello_frame
  | Heartbeat worker_capabilities "string option"
  | Accept string
  | Reject string string "reject_code option"
  | CompleteJson string json "string option"
  | Fail string string bool
  | LogBatch "log_entry list"
  | ReadyForMore

record job_offer_claim =
  oc_job_id :: string
  oc_game_id :: string
  oc_asset_name :: string
  oc_model :: string
  oc_vram_gb_estimate :: f32
  oc_task :: task
  oc_model_source :: model_source

definition into_job_claim :: "job_offer_claim \<Rightarrow> job_claim" where
  "into_job_claim c = \<lparr>jc_job_id = oc_job_id c, jc_game_id = oc_game_id c,
     jc_asset_name = oc_asset_name c, jc_model = oc_model c,
     jc_vram_gb_estimate = oc_vram_gb_estimate c, jc_task = oc_task c,
     jc_model_source = oc_model_source c\<rparr>"

datatype worker_error_code =
  CodeAuthFailed | CodeProtocolViolation | CodeDuplicateWorker | CodeWorkerDeleted | CodeInternalError

datatype worker_outbound =
    Welcome string string
  | Offer job_offer_claim
  | HeartbeatAck
  | CompleteAck string
  | FailAck string
  | ErrorFrame worker_error_code string

datatype ws_close_code = CloseNormal | CloseAuthFailed | CloseProtocolViolation | CloseDuplicateWorker
  | CloseWorkerDeleted

definition close_code_value :: "ws_close_code \<Rightarrow> u16" where
  "close_code_value c = (case c of CloseNormal \<Rightarrow> 1000 | CloseAuthFailed \<Rightarrow> 4001
     | CloseProtocolViolation \<Rightarrow> 4002 | CloseDuplicateWorker \<Rightarrow> 4003 | CloseWorkerDeleted \<Rightarrow> 4004)"

definition from_error_code :: "worker_error_code \<Rightarrow> ws_close_code" where
  "from_error_code c = (case c of CodeAuthFailed \<Rightarrow> CloseAuthFailed
     | CodeProtocolViolation \<Rightarrow> CloseProtocolViolation | CodeDuplicateWorker \<Rightarrow> CloseDuplicateWorker
     | CodeWorkerDeleted \<Rightarrow> CloseWorkerDeleted | CodeInternalError \<Rightarrow> CloseNormal)"

definition frame_label :: "worker_inbound \<Rightarrow> string" where
  "frame_label f = (case f of Hello _ \<Rightarrow> ''hello'' | Heartbeat _ _ \<Rightarrow> ''heartbeat'' | Accept _ \<Rightarrow> ''accept''
     | Reject _ _ _ \<Rightarrow> ''reject'' | CompleteJson _ _ _ \<Rightarrow> ''completeJson'' | Fail _ _ _ \<Rightarrow> ''fail''
     | LogBatch _ \<Rightarrow> ''logBatch'' | ReadyForMore \<Rightarrow> ''readyForMore'')"

section \<open>Client errors\<close>

datatype ws_client_error =
    WsAuthFailed string
  | WsRegistrationRevoked string
  | WsConnectionClosed
  | WsTransport string
  | WsProtocol string

definition show_ws_error :: "ws_client_error \<Rightarrow> string" where
  "show_ws_error e = (case e of
       WsAuthFailed reason \<Rightarrow> ''auth failed: '' @ reason
     | WsRegistrationRevoked reason \<Rightarrow> ''registration revoked: '' @ reason
     | WsConnectionClosed \<Rightarrow> ''connection closed by server''
     | WsTransport d \<Rightarrow> ''ws transport error: '' @ d
     | WsProtocol d \<Rightarrow> ''protocol error: '' @ d)"

text \<open>A tungstenite error: an HTTP answer (status, decoded body), a closed connection, or any
  other error with its text.\<close>

datatype t_error = THttp u16 "string option" | TConnectionClosed | TAlreadyClosed | TOther string

definition HTTP_ERROR_BODY_MAX_CHARS :: nat where
  "HTTP_ERROR_BODY_MAX_CHARS = 300"

definition clip_error_body :: "string \<Rightarrow> string" where
  "clip_error_body body = (if HTTP_ERROR_BODY_MAX_CHARS < char_count body
     then take_chars HTTP_ERROR_BODY_MAX_CHARS body @ ELLIPSIS else body)"

definition http_upgrade_error_message :: "(u16 \<Rightarrow> string) \<Rightarrow> u16 \<Rightarrow> string option \<Rightarrow> string" where
  "http_upgrade_error_message show_status status body =
     (case (case body of None \<Rightarrow> None
              | Some b \<Rightarrow> if trim b = [] then None else Some (clip_error_body (trim b))) of
        Some b \<Rightarrow> ''HTTP '' @ show_status status @ '' on websocket upgrade: '' @ b
      | None \<Rightarrow> ''HTTP '' @ show_status status @ '' on websocket upgrade'')"

definition ws_error_of :: "(u16 \<Rightarrow> string) \<Rightarrow> t_error \<Rightarrow> ws_client_error" where
  "ws_error_of show_status e = (case e of
       THttp status body \<Rightarrow>
         if status = 401 then WsAuthFailed ''401 on websocket upgrade''
         else if status = 404 then WsRegistrationRevoked (http_upgrade_error_message show_status status body)
         else WsTransport (http_upgrade_error_message show_status status body)
     | TConnectionClosed \<Rightarrow> WsConnectionClosed
     | TAlreadyClosed \<Rightarrow> WsConnectionClosed
     | TOther d \<Rightarrow> WsTransport d)"

definition close_frame_to_error :: "(u16 \<times> string) option \<Rightarrow> ws_client_error" where
  "close_frame_to_error frame = (case frame of
       None \<Rightarrow> WsConnectionClosed
     | Some (code, reason) \<Rightarrow>
         if code = 4001 then WsAuthFailed (''server closed 4001: '' @ reason)
         else if code = 4004 then WsRegistrationRevoked (''server closed 4004: '' @ reason)
         else WsConnectionClosed)"

section \<open>Receiving\<close>

datatype message = MText string | MBinary | MClose "(u16 \<times> string) option" | MOther

datatype recv_step =
    Yield worker_outbound | Skip | FailStep ws_client_error | ClosedStep ws_client_error

text \<open>\<open>parse_frame\<close> is serde_json: the frame, or the error's text.\<close>

definition classify_incoming ::
  "(string \<Rightarrow> (string, worker_outbound) result) \<Rightarrow> (u16 \<Rightarrow> string) \<Rightarrow> (t_error, message) result \<Rightarrow> recv_step" where
  "classify_incoming parse_frame show_status item = (case item of
       Inr (MText text) \<Rightarrow>
         (case parse_frame text of Inr f \<Rightarrow> Yield f | Inl e \<Rightarrow> FailStep (WsProtocol e))
     | Inr MBinary \<Rightarrow> FailStep (WsProtocol ''unexpected binary frame'')
     | Inr (MClose frame) \<Rightarrow> ClosedStep (close_frame_to_error frame)
     | Inr MOther \<Rightarrow> Skip
     | Inl e \<Rightarrow> FailStep (ws_error_of show_status e))"

text \<open>\<open>recv_next\<close> over what the socket will yield: the answer, the rest, and the latch.\<close>

fun recv_next ::
  "(string \<Rightarrow> (string, worker_outbound) result) \<Rightarrow> (u16 \<Rightarrow> string) \<Rightarrow> bool \<Rightarrow> (t_error, message) result list \<Rightarrow>
   (ws_client_error, worker_outbound option) result \<times> (t_error, message) result list \<times> bool" where
  "recv_next parse_frame show_status True items = (Inr None, items, True)"
| "recv_next parse_frame show_status False [] = (Inr None, [], True)"
| "recv_next parse_frame show_status False (i # items) =
     (case classify_incoming parse_frame show_status i of
        Yield f \<Rightarrow> (Inr (Some f), items, False)
      | Skip \<Rightarrow> recv_next parse_frame show_status False items
      | FailStep e \<Rightarrow> (Inl e, items, False)
      | ClosedStep e \<Rightarrow> (Inl e, items, True))"

section \<open>Session events\<close>

datatype session_event = EvFrame worker_outbound | EvStopped | EvDisconnected ws_client_error

text \<open>\<open>spawn_reader\<close>: what one read puts on the channel; \<open>None\<close> is the idle timeout.\<close>

definition reader_event ::
  "string \<Rightarrow> (ws_client_error, worker_outbound option) result option \<Rightarrow> session_event" where
  "reader_event timeout_text r = (case r of
       Some (Inr (Some f)) \<Rightarrow> EvFrame f
     | Some (Inr None) \<Rightarrow> EvDisconnected WsConnectionClosed
     | Some (Inl e) \<Rightarrow> EvDisconnected e
     | None \<Rightarrow> EvDisconnected (WsTransport (''no frames from server for '' @ timeout_text @
         ''; treating connection as dead'')))"

lemma from_error_code_inj_on_terminal:
  "from_error_code c = CloseAuthFailed \<longleftrightarrow> c = CodeAuthFailed"
  "from_error_code c = CloseWorkerDeleted \<longleftrightarrow> c = CodeWorkerDeleted"
  by (cases c; simp add: from_error_code_def)+

text \<open>What ends a registration and what merely drops a connection are never confused:
  the client reports failed authentication exactly for a 401 upgrade or a 4001 close, a revoked
  registration exactly for a 404 upgrade or a 4004 close (the codes the server sends for those
  errors), and every other failure as one the session may retry.\<close>

theorem terminal_errors_are_exact:
  "((\<exists>r. ws_error_of show_status e = WsAuthFailed r) \<longleftrightarrow> (\<exists>b. e = THttp 401 b)) \<and>
   ((\<exists>r. ws_error_of show_status e = WsRegistrationRevoked r) \<longleftrightarrow> (\<exists>b. e = THttp 404 b)) \<and>
   ((\<exists>r. close_frame_to_error f = WsAuthFailed r) \<longleftrightarrow>
     (\<exists>r. f = Some (close_code_value (from_error_code CodeAuthFailed), r))) \<and>
   ((\<exists>r. close_frame_to_error f = WsRegistrationRevoked r) \<longleftrightarrow>
     (\<exists>r. f = Some (close_code_value (from_error_code CodeWorkerDeleted), r)))"
  by (cases e; cases f)
    (auto simp: ws_error_of_def close_frame_to_error_def close_code_value_def from_error_code_def
        split: if_splits)

end
