(* ===== verification/JobGate.thy ===== *)
theory JobGate
  imports Prelude
begin

text \<open>
  \<^verbatim>\<open>src/src/job_gate.rs\<close>: the worker's one-job-at-a-time flag.  The studio session, the
  local API and the auto-updater reserve the slot through clones of one shared flag.  The
  interface the clients rely on is the locale \<open>one_slot\<close>, interpreted on the code's own
  \<open>try_reserve\<close> and \<open>drop\<close>.
\<close>

section \<open>The gate\<close>

record job_gate =
  busy :: bool

text \<open>A reservation holds the shared flag; its only operation is the \<open>Drop\<close> that clears it.\<close>

datatype job_reservation = JobReservation

definition gate_new :: job_gate where
  "gate_new = \<lparr>busy = False\<rparr>"

definition from_shared :: "bool \<Rightarrow> job_gate" where
  "from_shared b = \<lparr>busy = b\<rparr>"

definition shared_flag :: "job_gate \<Rightarrow> bool" where
  "shared_flag g = busy g"

definition is_busy :: "job_gate \<Rightarrow> bool" where
  "is_busy g = busy g"

text \<open>\<open>compare_exchange(false, true)\<close>: one atomic step.\<close>

definition try_reserve :: "job_gate \<Rightarrow> job_gate \<times> job_reservation option" where
  "try_reserve g = (if busy g then (g, None) else (g\<lparr>busy := True\<rparr>, Some JobReservation))"

definition drop_reservation :: "job_reservation \<Rightarrow> job_gate \<Rightarrow> job_gate" where
  "drop_reservation r g = g\<lparr>busy := False\<rparr>"

section \<open>The interface its clients use\<close>

text \<open>Any number of parties reserve and release, in any order; a party that holds no
  reservation has nothing to drop.\<close>

datatype 'p slot_op = Reserve 'p | Release 'p

type_synonym ('g, 'r, 'p) slot_world = "'g \<times> ('p \<times> 'r) list"

fun slot_step ::
  "('g \<Rightarrow> 'g \<times> 'r option) \<Rightarrow> ('r \<Rightarrow> 'g \<Rightarrow> 'g) \<Rightarrow>
   ('g, 'r, 'p) slot_world \<Rightarrow> 'p slot_op \<Rightarrow> ('g, 'r, 'p) slot_world" where
  "slot_step res rel (g, hs) (Reserve p) =
     (case res g of (g', None) \<Rightarrow> (g', hs) | (g', Some r) \<Rightarrow> (g', (p, r) # hs))"
| "slot_step res rel (g, hs) (Release p) =
     (case find (\<lambda>h. fst h = p) hs of
        None \<Rightarrow> (g, hs)
      | Some h \<Rightarrow> (rel (snd h) g, filter (\<lambda>k. fst k \<noteq> p) hs))"

definition slot_run ::
  "('g \<Rightarrow> 'g \<times> 'r option) \<Rightarrow> ('r \<Rightarrow> 'g \<Rightarrow> 'g) \<Rightarrow>
   ('g, 'r, 'p) slot_world \<Rightarrow> 'p slot_op list \<Rightarrow> ('g, 'r, 'p) slot_world" where
  "slot_run res rel = foldl (slot_step res rel)"

locale one_slot =
  fixes held :: "'g \<Rightarrow> bool"
    and reserve :: "'g \<Rightarrow> 'g \<times> 'r option"
    and release :: "'r \<Rightarrow> 'g \<Rightarrow> 'g"
  assumes reserve_free: "\<not> held g \<Longrightarrow> \<exists>g' r. reserve g = (g', Some r) \<and> held g'"
    and reserve_held: "held g \<Longrightarrow> reserve g = (g, None)"
    and release_frees: "\<not> held (release r g)"
begin

definition slot_inv :: "('g, 'r, 'p) slot_world \<Rightarrow> bool" where
  "slot_inv w = (length (snd w) = (if held (fst w) then 1 else 0))"

lemma slot_step_inv: "slot_inv w \<Longrightarrow> slot_inv (slot_step reserve release w x)"
proof (cases x)
  case (Reserve p)
  assume inv: "slot_inv w"
  obtain g hs where w: "w = (g, hs)" by (cases w)
  show ?thesis
  proof (cases "held g")
    case True
    with inv w Reserve show ?thesis by (simp add: reserve_held)
  next
    case False
    then obtain g' r where "reserve g = (g', Some r)" "held g'" using reserve_free by blast
    with inv w Reserve False show ?thesis by (simp add: slot_inv_def)
  qed
next
  case (Release p)
  assume inv: "slot_inv w"
  obtain g hs where w: "w = (g, hs)" by (cases w)
  show ?thesis
  proof (cases "find (\<lambda>h. fst h = p) hs")
    case None
    with inv w Release show ?thesis by simp
  next
    case (Some h)
    then have h: "h \<in> set hs" "fst h = p" by (auto dest: find_SomeD)
    with inv w have "hs = [h]"
      by (cases hs) (auto simp: slot_inv_def split: if_splits)
    with Some h w Release show ?thesis by (simp add: slot_inv_def release_frees)
  qed
qed

lemma slot_run_inv: "slot_inv w \<Longrightarrow> slot_inv (slot_run reserve release w ops)"
  by (induction ops arbitrary: w) (auto simp: slot_run_def slot_step_inv)

lemma at_most_one_holder:
  "\<not> held g \<Longrightarrow> length (snd (slot_run reserve release (g, []) ops)) \<le> 1"
proof -
  assume "\<not> held g"
  then have "slot_inv (g, [] :: ('p \<times> 'r) list)" by (simp add: slot_inv_def)
  then have "slot_inv (slot_run reserve release (g, []) ops)" by (rule slot_run_inv)
  then show ?thesis by (simp add: slot_inv_def split: if_splits)
qed

lemma held_iff_holder:
  assumes "\<not> held g"
  shows "held (fst (slot_run reserve release (g, []) ops)) \<longleftrightarrow>
         snd (slot_run reserve release (g, []) ops) \<noteq> []"
proof -
  have "slot_inv (g, [] :: ('p \<times> 'r) list)" using assms by (simp add: slot_inv_def)
  then have "slot_inv (slot_run reserve release (g, []) ops)" by (rule slot_run_inv)
  then show ?thesis by (auto simp: slot_inv_def split: if_splits)
qed

end

interpretation gate: one_slot is_busy try_reserve drop_reservation
  by unfold_locales (auto simp: is_busy_def try_reserve_def drop_reservation_def)

text \<open>However the studio session, the local API and the updater interleave their
  reservations and releases, at most one party holds the job slot, and the shared flag is
  set exactly while one does.\<close>

theorem one_job_at_a_time:
  "length (snd (slot_run try_reserve drop_reservation (gate_new, []) ops)) \<le> 1 \<and>
   (is_busy (fst (slot_run try_reserve drop_reservation (gate_new, []) ops)) \<longleftrightarrow>
    snd (slot_run try_reserve drop_reservation (gate_new, []) ops) \<noteq> [])"
proof -
  have free: "\<not> is_busy gate_new" by (simp add: is_busy_def gate_new_def)
  show ?thesis
    using gate.at_most_one_holder [OF free, of ops] gate.held_iff_holder [OF free, of ops] by blast
qed

end
