(* ===== verification/WsSession.thy ===== *)
theory WsSession
  imports ModelHost WsFrames JobGate Config Presence StudioApi
begin

text \<open>
  \<^verbatim>\<open>src/src/ws/session.rs\<close>: the studio session.  The world is one record: the shared job flag
  with the other parties that hold it, the pause flag, the configuration, the observers, the
  logs, the model host (which holds the shared catalogue and files also when no host runs), the
  detached tasks with the point each has reached, and every frame sent.  The dispatch loop
  handles one event per step; a task advances by one send, dispatch or upload per step, whose
  result is an argument; between the steps anything else may happen.  Sessions come and go over
  one world: a task outlives the session that spawned it.
\<close>

section \<open>State\<close>

datatype session_outcome = SoStopped | SoDisconnected | SoAuthFailed string
  | SoRegistrationRevoked string | SoFatal string

datatype studio_exit = ExitStopped | ExitRegistrationRevoked

record session_schedule =
  sc_heartbeat :: millis
  sc_log_flush :: millis
  sc_shutdown_tick :: millis
  sc_base_backoff_ms :: u64
  sc_max_backoff_ms :: u64
  sc_read_idle_timeout :: millis

definition session_schedule_default :: session_schedule where
  "session_schedule_default = \<lparr>sc_heartbeat = 5000, sc_log_flush = 1000, sc_shutdown_tick = 250,
     sc_base_backoff_ms = 1000, sc_max_backoff_ms = 30000, sc_read_idle_timeout = 20000\<rparr>"

definition DEFAULT_RECONNECT_ATTEMPTS :: u32 where "DEFAULT_RECONNECT_ATTEMPTS = 0"
definition UPLOAD_RETRIES :: nat where "UPLOAD_RETRIES = 2"
definition UPLOAD_RETRY_PAUSE :: millis where "UPLOAD_RETRY_PAUSE = 1000"

text \<open>A failed dispatch is an error chain, outermost first: each link's text and what the
  permanence test recognises in it.\<close>

datatype cause_kind =
    UnsupportedTask | ImageRefusal | TorchError bool | ConvertError bool | LlamaProcessError bool
  | OtherCause

record cause =
  ca_text :: string
  ca_kind :: cause_kind

datatype dispatch_result = DispatchOk task_result | DispatchErr cause "cause list" | DispatchPanic string

text \<open>A studio job's task: answering a refused offer; accepting; running in the engine;
  uploading; sending JSON; and reporting a failure with the outcome to record.\<close>

datatype session_task =
    Rejecting string string reject_code
  | Accepting job_claim nat
  | Dispatching current_job job_claim
  | Uploading current_job job_output
  | SendingJson current_job json string
  | Failing current_job string bool

record 'm session =
  ss_gate :: job_gate
  ss_others :: nat
  ss_paused :: bool
  ss_config :: config
  ss_observers :: observers
  ss_logs :: worker_logs
  ss_host :: "'m host"
  ss_host_up :: bool
  ss_catalog_path :: "path option"
  ss_tasks :: "session_task list"
  ss_sent :: "worker_inbound list"

text \<open>The environment of one step: the clock, rendered values, the host's environment, what
  the image library makes of a picture.\<close>

record session_env =
  sv_now :: nat
  sv_ts :: string
  sv_show_f32 :: "f32 \<Rightarrow> string"
  sv_show_catalog :: "catalog \<Rightarrow> string"
  sv_show_json :: "json \<Rightarrow> string"
  sv_show_frame :: "worker_outbound \<Rightarrow> string"
  sv_host :: env
  sv_png :: "bytes \<Rightarrow> nat list option"

section \<open>Breadcrumbs\<close>

definition say :: "session_env \<Rightarrow> string \<Rightarrow> string \<Rightarrow> string option \<Rightarrow> 'm session \<Rightarrow> 'm session" where
  "say v level message job s =
     s\<lparr>ss_logs := push_log_with_observers (sv_ts v) True level ''ws'' message job (ss_logs s)\<rparr>"

definition welcome_breadcrumb :: "string \<Rightarrow> string \<Rightarrow> string" where
  "welcome_breadcrumb worker server_time = ''server welcomed '' @ worker @ '' server_time='' @ server_time"

definition offer_received_breadcrumb :: "(f32 \<Rightarrow> string) \<Rightarrow> job_offer_claim \<Rightarrow> string" where
  "offer_received_breadcrumb show_f32 c = ''offer received '' @ oc_job_id c @ '' game='' @ oc_game_id c @
     '' asset='' @ oc_asset_name c @ '' model='' @ oc_model c @ '' vram='' @ show_f32 (oc_vram_gb_estimate c)"

definition result_ack_breadcrumb :: "string \<Rightarrow> string \<Rightarrow> string" where
  "result_ack_breadcrumb outcome job = ''studio confirmed '' @ outcome @ '' of job '' @ job"

definition offer_response_breadcrumb ::
  "string \<Rightarrow> string \<Rightarrow> (ws_client_error, unit) result \<Rightarrow> (string \<times> string) option" where
  "offer_response_breadcrumb label job r = (case r of
       Inr _ \<Rightarrow> None
     | Inl e \<Rightarrow> Some (''error'', label @ '' send failed for offer '' @ job @ '': '' @ show_ws_error e))"

definition fail_send_breadcrumb ::
  "string \<Rightarrow> (ws_client_error, unit) result \<Rightarrow> (string \<times> string) option" where
  "fail_send_breadcrumb job r = (case r of
       Inr _ \<Rightarrow> None
     | Inl e \<Rightarrow> Some (''error'', ''failed to notify studio of job '' @ job @ '' failure: '' @ show_ws_error e))"

definition pause_transition_breadcrumb :: "bool \<Rightarrow> bool \<Rightarrow> string option" where
  "pause_transition_breadcrumb prev now =
     (if \<not> prev \<and> now then Some ''claiming paused by operator; new offers are rejected until resumed''
      else if prev \<and> \<not> now then Some ''claiming resumed by operator; accepting new offers again''
      else None)"

definition say_opt :: "session_env \<Rightarrow> (string \<times> string) option \<Rightarrow> string option \<Rightarrow> 'm session \<Rightarrow> 'm session" where
  "say_opt v crumb job s = (case crumb of None \<Rightarrow> s | Some (level, message) \<Rightarrow> say v level message job s)"

definition record_fail_send ::
  "session_env \<Rightarrow> (ws_client_error, unit) result \<Rightarrow> string \<Rightarrow> 'm session \<Rightarrow> 'm session" where
  "record_fail_send v r job s = say_opt v (fail_send_breadcrumb job r) (Some job) s"

text \<open>A frame reaches the wire only when its send succeeds.\<close>

definition send_frame :: "worker_inbound \<Rightarrow> (ws_client_error, unit) result \<Rightarrow> 'm session \<Rightarrow> 'm session" where
  "send_frame f r s = (case r of Inr _ \<Rightarrow> s\<lparr>ss_sent := ss_sent s @ [f]\<rparr> | Inl _ \<Rightarrow> s)"

definition on_observers :: "(observers \<Rightarrow> observers) \<Rightarrow> 'm session \<Rightarrow> 'm session" where
  "on_observers f s = s\<lparr>ss_observers := f (ss_observers s)\<rparr>"

section \<open>Offers\<close>

definition prompt_for :: "task \<Rightarrow> string" where
  "prompt_for t = (case t of
       TImage p \<Rightarrow> im_prompt p
     | TLlm p \<Rightarrow> (if lm_messages p = [] then [] else msg_content (last (lm_messages p)))
     | TAudioStt p \<Rightarrow> stt_input_url p
     | TAudioTts p \<Rightarrow> tts_text p
     | TVideo p \<Rightarrow> vid_prompt p
     | TMesh p \<Rightarrow> []
     | TModelConvert p \<Rightarrow> cv_source p @ '' '' @ cv_file p)"

definition spawn_reject_offer :: "string \<Rightarrow> string \<Rightarrow> reject_code \<Rightarrow> 'm session \<Rightarrow> 'm session" where
  "spawn_reject_offer job reason code s = s\<lparr>ss_tasks := ss_tasks s @ [Rejecting job reason code]\<rparr>"

definition admit_offer :: "session_env \<Rightarrow> memory_need \<Rightarrow> 'm session \<Rightarrow> (refused, unit) result" where
  "admit_offer v need s = (if ss_host_up s then admit_transient (sv_host v) need (ss_host s) else Inr ())"

definition presence_text :: "user_presence option \<Rightarrow> string" where
  "presence_text p = (case p of None \<Rightarrow> ''unknown'' | Some p \<Rightarrow> user_presence_str p)"

definition mirror_model :: "session_env \<Rightarrow> job_claim \<Rightarrow> 'm session \<Rightarrow> 'm session" where
  "mirror_model v j s =
     (let (fs, c) = runtime_sync_studio_model (sv_show_catalog v) (env_faults (sv_host v)) (env_tmp (sv_host v))
            (ss_catalog_path s) (jc_model j) (kind_of_task (jc_task j)) (jc_model_source j)
            (h_files (ss_host s)) (h_catalog (ss_host s))
      in s\<lparr>ss_host := (ss_host s)\<lparr>h_files := fs, h_catalog := c\<rparr>\<rparr>)"

definition handle_offer :: "session_env \<Rightarrow> job_offer_claim \<Rightarrow> 'm session \<Rightarrow> 'm session" where
  "handle_offer v c s =
     (let job = oc_job_id c;
          s = say v ''info'' (offer_received_breadcrumb (sv_show_f32 v) c) (Some job) s;
          presence = ob_user_presence (ss_observers s);
          need = need_of (oc_vram_gb_estimate c) (oc_model_source c)
      in if ss_paused s then
           spawn_reject_offer job ''worker paused by operator'' RejPaused
             (say v ''info'' (''rejecting offer '' @ job @ '': worker is paused'') (Some job) s)
         else if ob_update_pending (ss_observers s) then
           spawn_reject_offer job ''worker is installing an update'' RejBusy
             (say v ''info'' (''rejecting offer '' @ job @ '': an update is waiting to install'') (Some job) s)
         else if holds_back (only_when_idle (ss_config s)) presence then
           spawn_reject_offer job ''only when idle: the person is using this computer'' RejPaused
             (say v ''info'' (''rejecting offer '' @ job @ '': only when idle, and the person is '' @
                presence_text presence) (Some job) s)
         else case admit_offer v need s of
             Inl refused \<Rightarrow>
               spawn_reject_offer job (show_refused refused) RejInsufficientMemory
                 (say v ''warn'' (''rejecting offer '' @ job @ '': '' @ show_refused refused) (Some job) s)
           | Inr _ \<Rightarrow> (case try_reserve (ss_gate s) of
               (g, None) \<Rightarrow>
                 spawn_reject_offer job ''worker already has an in-flight job'' RejBusy
                   (say v ''info'' (''rejecting offer '' @ job @ '': worker is already busy'') (Some job) s)
             | (g, Some r) \<Rightarrow>
                 (let j = into_job_claim c; s = mirror_model v j (s\<lparr>ss_gate := g\<rparr>)
                  in s\<lparr>ss_tasks := ss_tasks s @ [Accepting j (sv_now v)]\<rparr>)))"

section \<open>The dispatch loop\<close>

definition record_heartbeat :: "session_env \<Rightarrow> heartbeat_outcome \<Rightarrow> 'm session \<Rightarrow> 'm session" where
  "record_heartbeat v outcome s = on_observers (\<lambda>ob. ob\<lparr>ob_last_heartbeat :=
     Some \<lparr>hb_outcome = outcome, hb_last_attempt_at = sv_now v\<rparr>\<rparr>) s"

definition worker_error_code_str :: "worker_error_code \<Rightarrow> string" where
  "worker_error_code_str c = (case c of CodeAuthFailed \<Rightarrow> ''AuthFailed''
     | CodeProtocolViolation \<Rightarrow> ''ProtocolViolation'' | CodeDuplicateWorker \<Rightarrow> ''DuplicateWorker''
     | CodeWorkerDeleted \<Rightarrow> ''WorkerDeleted'' | CodeInternalError \<Rightarrow> ''InternalError'')"

definition error_outcome :: "worker_error_code \<Rightarrow> string \<Rightarrow> session_outcome" where
  "error_outcome code message = (case code of CodeAuthFailed \<Rightarrow> SoAuthFailed message
     | CodeWorkerDeleted \<Rightarrow> SoRegistrationRevoked message | _ \<Rightarrow> SoFatal message)"

text \<open>One turn of the loop: the world after it, and the outcome when the loop returns.\<close>

definition dispatch_event ::
  "session_env \<Rightarrow> session_event \<Rightarrow> 'm session \<Rightarrow> 'm session \<times> session_outcome option" where
  "dispatch_event v ev s = (case ev of
       EvDisconnected (WsAuthFailed reason) \<Rightarrow> (s, Some (SoAuthFailed reason))
     | EvDisconnected (WsRegistrationRevoked reason) \<Rightarrow> (s, Some (SoRegistrationRevoked reason))
     | EvDisconnected _ \<Rightarrow> (s, Some SoDisconnected)
     | EvStopped \<Rightarrow> (s, Some SoStopped)
     | EvFrame (Welcome worker server_time) \<Rightarrow> (say v ''info'' (welcome_breadcrumb worker server_time) None s, None)
     | EvFrame (Offer c) \<Rightarrow> (handle_offer v c s, None)
     | EvFrame (ErrorFrame code message) \<Rightarrow>
         (say v ''error'' (''server error '' @ worker_error_code_str code @ '': '' @ message) None s,
          Some (error_outcome code message))
     | EvFrame (CompleteAck job) \<Rightarrow> (say v ''info'' (result_ack_breadcrumb ''completion'' job) (Some job) s, None)
     | EvFrame (FailAck job) \<Rightarrow> (say v ''info'' (result_ack_breadcrumb ''failure'' job) (Some job) s, None)
     | EvFrame HeartbeatAck \<Rightarrow> (record_heartbeat v HeartbeatOk s, None))"

text \<open>A closed channel ends the loop as a disconnect.\<close>

fun run_dispatch_loop ::
  "(session_env \<times> session_event) list \<Rightarrow> 'm session \<Rightarrow> 'm session \<times> session_outcome" where
  "run_dispatch_loop [] s = (s, SoDisconnected)"
| "run_dispatch_loop ((v, ev) # evs) s = (case dispatch_event v ev s of
       (s, Some outcome) \<Rightarrow> (s, outcome)
     | (s, None) \<Rightarrow> run_dispatch_loop evs s)"

datatype welcome_outcome = Welcomed | WoAuthFailed string | WoRegistrationRevoked string
  | WoFatal string | WoDisconnected

fun wait_for_welcome ::
  "(session_env \<times> session_event) list \<Rightarrow> 'm session \<Rightarrow>
   'm session \<times> welcome_outcome \<times> (session_env \<times> session_event) list" where
  "wait_for_welcome [] s = (s, WoDisconnected, [])"
| "wait_for_welcome ((v, ev) # evs) s = (case ev of
       EvFrame (Welcome worker server_time) \<Rightarrow>
         (say v ''info'' (welcome_breadcrumb worker server_time) None s, Welcomed, evs)
     | EvFrame (ErrorFrame code message) \<Rightarrow>
         (say v ''error'' (''server error before welcome '' @ worker_error_code_str code @ '': '' @ message) None s,
          (case code of CodeAuthFailed \<Rightarrow> WoAuthFailed message
             | CodeWorkerDeleted \<Rightarrow> WoRegistrationRevoked message | _ \<Rightarrow> WoFatal message), evs)
     | EvFrame other \<Rightarrow>
         wait_for_welcome evs
           (say v ''warn'' (''server sent unexpected frame before welcome: '' @ sv_show_frame v other) None s)
     | EvDisconnected (WsAuthFailed reason) \<Rightarrow> (s, WoAuthFailed reason, evs)
     | EvDisconnected (WsRegistrationRevoked reason) \<Rightarrow> (s, WoRegistrationRevoked reason, evs)
     | EvDisconnected _ \<Rightarrow> (s, WoDisconnected, evs)
     | EvStopped \<Rightarrow> (s, WoDisconnected, evs))"

section \<open>A studio job\<close>

definition is_permanent_failure :: "cause \<Rightarrow> cause list \<Rightarrow> bool" where
  "is_permanent_failure e chain =
     (list_ex (\<lambda>c. case ca_kind c of UnsupportedTask \<Rightarrow> True | ImageRefusal \<Rightarrow> True
         | TorchError p \<Rightarrow> p | ConvertError p \<Rightarrow> p | LlamaProcessError p \<Rightarrow> p | OtherCause \<Rightarrow> False) (e # chain)
      \<or> contains_str (ca_text e) ''cannot serve'')"

datatype delivery = Upload job_output | Json json

definition delivery_of :: "(json \<Rightarrow> string) \<Rightarrow> task_result \<Rightarrow> string \<Rightarrow> delivery" where
  "delivery_of show_json r prompt = (case r of
       RImage b ext \<Rightarrow> Upload (job_output_new ext prompt b)
     | RAudioTts b ext \<Rightarrow> Upload (job_output_new ext prompt b)
     | RVideo b ext \<Rightarrow> Upload (job_output_new ext prompt b)
     | RMesh b ext \<Rightarrow> Upload (job_output_new ext prompt b)
     | RModelConvert b ext report \<Rightarrow>
         Upload ((job_output_new ext prompt b)\<lparr>jo_generation_meta := Some (show_json report)\<rparr>)
     | RLlm j \<Rightarrow> Json j
     | RAudioStt j \<Rightarrow> Json j)"

definition current_of :: "job_claim \<Rightarrow> nat \<Rightarrow> current_job" where
  "current_of j started = \<lparr>cj_job_id = jc_job_id j, cj_kind = kind_of_task (jc_task j),
     cj_model = jc_model j, cj_prompt = truncate_prompt (prompt_for (jc_task j)),
     cj_started_at = started, cj_source = Studio\<rparr>"

text \<open>The end of \<open>run_offered_job\<close> and of its task, whose reservation is dropped.\<close>

definition finish_job :: "session_env \<Rightarrow> current_job \<Rightarrow> job_outcome \<Rightarrow> 'm session \<Rightarrow> 'm session" where
  "finish_job v j outcome s =
     (on_observers (\<lambda>ob. run_finish (sv_now v) outcome j (ob\<lparr>ob_current_job := None\<rparr>)) s)
       \<lparr>ss_gate := drop_reservation JobReservation (ss_gate s)\<rparr>"

text \<open>The accept frame's send returned.\<close>

definition after_accept ::
  "session_env \<Rightarrow> job_claim \<Rightarrow> nat \<Rightarrow> (ws_client_error, unit) result \<Rightarrow> 'm session \<Rightarrow> 'm session" where
  "after_accept v j started r s =
     (let job = jc_job_id j;
          s = say_opt v (offer_response_breadcrumb ''accept'' job r) (Some job) (send_frame (Accept job) r s)
      in case r of
           Inl _ \<Rightarrow> s\<lparr>ss_gate := drop_reservation JobReservation (ss_gate s)\<rparr>
         | Inr _ \<Rightarrow>
             (let cur = current_of j started
              in (on_observers (\<lambda>ob. run_begin cur (ob\<lparr>ob_current_job := Some cur\<rparr>)) s)
                   \<lparr>ss_tasks := ss_tasks s @ [Dispatching cur j]\<rparr>))"

text \<open>The engine returned (or its task panicked).\<close>

definition after_dispatch ::
  "session_env \<Rightarrow> string \<Rightarrow> current_job \<Rightarrow> job_claim \<Rightarrow> dispatch_result \<Rightarrow> 'm session \<Rightarrow> 'm session" where
  "after_dispatch v elapsed cur j d s =
     (let job = jc_job_id j in case d of
        DispatchOk result \<Rightarrow>
          (let s = on_observers (keep_thumbnail (sv_png v) result cur) s;
               s = say v ''info'' (task_kind_str (cj_kind cur) @ '' dispatched in '' @ elapsed) (Some job) s
           in s\<lparr>ss_tasks := ss_tasks s @
                 [case delivery_of (sv_show_json v) result (prompt_for (jc_task j)) of
                    Upload out \<Rightarrow> Uploading cur out
                  | Json val \<Rightarrow> SendingJson cur val (prompt_for (jc_task j))]\<rparr>)
      | DispatchErr e chain \<Rightarrow>
          (let s = say v ''error'' (''dispatch failed: '' @ ca_text e) (Some job) s
           in s\<lparr>ss_tasks := ss_tasks s @ [Failing cur (ca_text e) (\<not> is_permanent_failure e chain)]\<rparr>)
      | DispatchPanic e \<Rightarrow>
          (let s = say v ''error'' (''dispatch task panic: '' @ e) (Some job) s
           in s\<lparr>ss_tasks := ss_tasks s @ [Failing cur e True]\<rparr>))"

text \<open>The upload ended: \<open>Some\<close> the message of its failure or panic.\<close>

definition upload_message ::
  "(u16 \<Rightarrow> string) \<Rightarrow> (string, (api_error, unit) result) result \<Rightarrow> string option" where
  "upload_message show_u16 r = (case r of
       Inr (Inr _) \<Rightarrow> None
     | Inr (Inl e) \<Rightarrow> Some (show_api_error show_u16 e)
     | Inl e \<Rightarrow> Some (''upload task panic: '' @ e))"

definition after_upload :: "session_env \<Rightarrow> current_job \<Rightarrow> string option \<Rightarrow> 'm session \<Rightarrow> 'm session" where
  "after_upload v cur msg s =
     (let job = cj_job_id cur in case msg of
        Some msg \<Rightarrow>
          (let s = say v ''error'' msg (Some job) s
           in s\<lparr>ss_tasks := ss_tasks s @ [Failing cur msg True]\<rparr>)
      | None \<Rightarrow> finish_job v cur Completed (say v ''info'' ''binary upload ok'' (Some job) s))"

definition after_json ::
  "session_env \<Rightarrow> current_job \<Rightarrow> json \<Rightarrow> string \<Rightarrow> (ws_client_error, unit) result \<Rightarrow> 'm session \<Rightarrow> 'm session" where
  "after_json v cur val prompt r s =
     (let job = cj_job_id cur; s = send_frame (CompleteJson job val (Some prompt)) r s
      in case r of
           Inr _ \<Rightarrow> finish_job v cur Completed (say v ''info'' ''json result sent'' (Some job) s)
         | Inl e \<Rightarrow>
             (let msg = ''failed to send result: '' @ show_ws_error e
              in finish_job v cur (JobFailed msg) (say v ''error'' msg (Some job) s)))"

definition after_fail ::
  "session_env \<Rightarrow> current_job \<Rightarrow> string \<Rightarrow> bool \<Rightarrow> (ws_client_error, unit) result \<Rightarrow> 'm session \<Rightarrow> 'm session" where
  "after_fail v cur msg retryable r s =
     finish_job v cur (JobFailed msg)
       (record_fail_send v r (cj_job_id cur) (send_frame (Fail (cj_job_id cur) msg retryable) r s))"

definition after_reject ::
  "session_env \<Rightarrow> string \<Rightarrow> string \<Rightarrow> reject_code \<Rightarrow> (ws_client_error, unit) result \<Rightarrow> 'm session \<Rightarrow> 'm session" where
  "after_reject v job reason code r s =
     say_opt v (offer_response_breadcrumb ''reject'' job r) (Some job) (send_frame (Reject job reason (Some code)) r s)"

section \<open>Heartbeats\<close>

definition heartbeat_current_job_id :: "observers \<Rightarrow> string option" where
  "heartbeat_current_job_id ob = map_option cj_job_id (ob_current_job ob)"

text \<open>One tick that finds the stop flag clear; \<open>caps\<close> is the capability snapshot it builds.  The
  world, the pause flag it saw, and whether the pump goes on.\<close>

definition heartbeat_tick ::
  "session_env \<Rightarrow> worker_capabilities \<Rightarrow> (ws_client_error, unit) result \<Rightarrow> bool \<Rightarrow> 'm session \<Rightarrow>
   'm session \<times> bool \<times> bool" where
  "heartbeat_tick v caps r last_paused s =
     (let now_paused = ss_paused s;
          s = say_opt v (map_option (Pair ''info'') (pause_transition_breadcrumb last_paused now_paused)) None s;
          s = send_frame (Heartbeat caps (heartbeat_current_job_id (ss_observers s))) r s
      in case r of
           Inr _ \<Rightarrow> (s, now_paused, True)
         | Inl e \<Rightarrow> (record_heartbeat v (HeartbeatErr (show_ws_error e)) s, now_paused, False))"

section \<open>Steps\<close>

datatype session_op =
    Receive session_event
  | RejectSent string string reject_code "(ws_client_error, unit) result"
  | AcceptSent job_claim nat "(ws_client_error, unit) result"
  | DispatchEnds current_job job_claim dispatch_result string
  | UploadEnds current_job job_output "string option"
  | JsonSent current_job json string "(ws_client_error, unit) result"
  | FailSent current_job string bool "(ws_client_error, unit) result"
  | HeartbeatTick worker_capabilities bool "(ws_client_error, unit) result"
  | OtherReserves
  | OtherReleases
  | SetPaused bool
  | SetUpdatePending bool
  | SetPresence "user_presence option"
  | SetConfig config

definition take_task :: "session_task \<Rightarrow> ('m session \<Rightarrow> 'm session) \<Rightarrow> 'm session \<Rightarrow> 'm session option" where
  "take_task t f s = (if t \<in> set (ss_tasks s) then Some (f (s\<lparr>ss_tasks := remove1 t (ss_tasks s)\<rparr>)) else None)"

text \<open>\<open>None\<close>: the step is not possible now.\<close>

fun session_step :: "session_env \<Rightarrow> session_op \<Rightarrow> 'm session \<Rightarrow> 'm session option" where
  "session_step v (Receive ev) s = Some (fst (dispatch_event v ev s))"
| "session_step v (RejectSent job reason code r) s =
     take_task (Rejecting job reason code) (after_reject v job reason code r) s"
| "session_step v (AcceptSent j started r) s = take_task (Accepting j started) (after_accept v j started r) s"
| "session_step v (DispatchEnds cur j d elapsed) s =
     take_task (Dispatching cur j) (after_dispatch v elapsed cur j d) s"
| "session_step v (UploadEnds cur out msg) s = take_task (Uploading cur out) (after_upload v cur msg) s"
| "session_step v (JsonSent cur val prompt r) s =
     take_task (SendingJson cur val prompt) (after_json v cur val prompt r) s"
| "session_step v (FailSent cur msg retryable r) s =
     take_task (Failing cur msg retryable) (after_fail v cur msg retryable r) s"
| "session_step v (HeartbeatTick caps last_paused r) s = Some (fst (heartbeat_tick v caps r last_paused s))"
| "session_step v OtherReserves s = (case try_reserve (ss_gate s) of
       (g, None) \<Rightarrow> Some s
     | (g, Some r) \<Rightarrow> Some (s\<lparr>ss_gate := g, ss_others := Suc (ss_others s)\<rparr>))"
| "session_step v OtherReleases s = (if 0 < ss_others s
     then Some (s\<lparr>ss_gate := drop_reservation JobReservation (ss_gate s), ss_others := ss_others s - 1\<rparr>)
     else None)"
| "session_step v (SetPaused b) s = Some (s\<lparr>ss_paused := b\<rparr>)"
| "session_step v (SetUpdatePending b) s = Some (on_observers (\<lambda>ob. ob\<lparr>ob_update_pending := b\<rparr>) s)"
| "session_step v (SetPresence p) s = Some (on_observers (\<lambda>ob. ob\<lparr>ob_user_presence := p\<rparr>) s)"
| "session_step v (SetConfig c) s = Some (s\<lparr>ss_config := c\<rparr>)"

fun session_run :: "(session_env \<times> session_op) list \<Rightarrow> 'm session \<Rightarrow> 'm session option" where
  "session_run [] s = Some s"
| "session_run ((v, p) # ps) s = (case session_step v p s of None \<Rightarrow> None | Some s' \<Rightarrow> session_run ps s')"

definition session_new :: "config \<Rightarrow> 'm host \<Rightarrow> bool \<Rightarrow> path option \<Rightarrow> 'm session" where
  "session_new cfg h up p = \<lparr>ss_gate = gate_new, ss_others = 0, ss_paused = False, ss_config = cfg,
     ss_observers = observers_default, ss_logs = \<lparr>wl_queue = [], wl_ring = ring_new\<rparr>, ss_host = h,
     ss_host_up = up, ss_catalog_path = p, ss_tasks = [], ss_sent = []\<rparr>"

end
