(* ===== verification/WsDriver.thy ===== *)
theory WsDriver
  imports WsSession Capabilities
begin

text \<open>
  One session attempt and the reconnect loop around it (\<^verbatim>\<open>run_one_session\<close>,
  \<^verbatim>\<open>spawn_ws_session\<close> of \<^verbatim>\<open>src/src/ws/session.rs\<close>).  What an attempt meets (the connect result,
  the engine build, the hello send, the events the reader delivers) is one record; the loop runs
  over a list of attempts.
\<close>

section \<open>One attempt\<close>

record connection =
  cn_connect :: "(ws_client_error, unit) result"
  cn_engine :: "(string, engine_view) result"
  cn_machine :: machine
  cn_hello :: "(ws_client_error, unit) result"
  cn_events :: "(session_env \<times> session_event) list"

definition unwrap_or_default :: "string option \<Rightarrow> string" where
  "unwrap_or_default o' = (case o' of None \<Rightarrow> [] | Some x \<Rightarrow> x)"

definition say_hello :: "session_env \<Rightarrow> worker_capabilities \<Rightarrow> (ws_client_error, unit) result \<Rightarrow> 'm session \<Rightarrow> 'm session" where
  "say_hello v caps r s =
     (let s' = say v ''info'' (summarize_capabilities caps) None s;
          s' = say_opt v (map_option (Pair ''warn'') (vram_threshold_warning caps)) None s'
      in send_frame (Hello \<lparr>hf_auth_token = unwrap_or_default (auth_token (ss_config s)), hf_capabilities = caps\<rparr>) r s')"

text \<open>The world after the attempt, its result, and whether the studio welcomed the worker.\<close>

definition run_one_session ::
  "session_env \<Rightarrow> connection \<Rightarrow> 'm session \<Rightarrow> 'm session \<times> (string, session_outcome) result \<times> bool" where
  "run_one_session v k s =
     (let cfg = ss_config s in
      if unwrap_or_default (worker_id cfg) = [] \<or> unwrap_or_default (auth_token cfg) = []
      then (s, Inr (SoFatal ''worker_id or auth_token missing; run register''), False)
      else let s = say v ''info'' (''connecting to '' @ api_base_url cfg) None s in
      case cn_connect k of
        Inl (WsAuthFailed reason) \<Rightarrow> (s, Inr (SoAuthFailed reason), False)
      | Inl (WsRegistrationRevoked reason) \<Rightarrow> (s, Inr (SoRegistrationRevoked reason), False)
      | Inl e \<Rightarrow> (say v ''warn'' (''connect failed: '' @ show_ws_error e) None s, Inr SoDisconnected, False)
      | Inr _ \<Rightarrow> (case cn_engine k of
          Inl e \<Rightarrow> (s, Inl e, False)
        | Inr engine \<Rightarrow>
            (let caps = build_capabilities_with (cn_machine k) cfg engine (\<not> ss_paused s)
                   (ob_user_presence (ss_observers s));
                 s = say_hello v caps (cn_hello k) s
             in case cn_hello k of
                  Inl e \<Rightarrow> (s, Inl (''hello send failed: '' @ show_ws_error e), False)
                | Inr _ \<Rightarrow> (case wait_for_welcome (cn_events k) s of
                    (s, Welcomed, rest) \<Rightarrow>
                      (case run_dispatch_loop rest (on_observers (set_session_state Connected) s) of
                         (s, outcome) \<Rightarrow> (s, Inr outcome, True))
                  | (s, WoAuthFailed reason, _) \<Rightarrow> (s, Inr (SoAuthFailed reason), False)
                  | (s, WoRegistrationRevoked reason, _) \<Rightarrow> (s, Inr (SoRegistrationRevoked reason), False)
                  | (s, WoFatal reason, _) \<Rightarrow> (s, Inr (SoFatal reason), False)
                  | (s, WoDisconnected, _) \<Rightarrow> (s, Inr SoDisconnected, False)))))"

section \<open>Reconnecting\<close>

definition reconnect_exhausted :: "u32 \<Rightarrow> u32 \<Rightarrow> bool" where
  "reconnect_exhausted max_attempts attempt = (0 < max_attempts \<and> max_attempts < attempt)"

text \<open>Milliseconds.\<close>

definition backoff_for :: "u32 \<Rightarrow> session_schedule \<Rightarrow> u64" where
  "backoff_for attempt sch =
     (let factor = sat_pow 2 (unat (sat_sub attempt 1));
          raw_ms = sat_mul (sc_base_backoff_ms sch) factor
      in min raw_ms (sc_max_backoff_ms sch))"

definition reconnect_breadcrumb :: "string option \<Rightarrow> u32 \<Rightarrow> u64 \<Rightarrow> string" where
  "reconnect_breadcrumb error attempt backoff = (case error of
       Some e \<Rightarrow> ''session error: '' @ e @ ''; reconnect attempt '' @ show_nat (unat attempt) @ '' in '' @
         show_nat (unat backoff) @ ''ms''
     | None \<Rightarrow> ''disconnected; reconnect attempt '' @ show_nat (unat attempt) @ '' in '' @
         show_nat (unat backoff) @ ''ms'')"

text \<open>\<open>wait_with_stop\<close>: \<open>stop k\<close> is the flag at poll \<open>k\<close>; how long it slept.  A zero tick never
  gets on (\<open>None\<close>).\<close>

function wait_loop :: "(nat \<Rightarrow> bool) \<Rightarrow> millis \<Rightarrow> millis \<Rightarrow> nat \<Rightarrow> millis \<Rightarrow> millis option" where
  "wait_loop stop dur tick k elapsed =
     (if elapsed < dur
      then if stop k then Some elapsed
           else if tick = 0 then None
           else wait_loop stop dur tick (Suc k) (elapsed + min tick (dur - elapsed))
      else Some elapsed)"
  by pat_completeness auto
termination by (relation "measure (\<lambda>(_, dur, _, _, elapsed). dur - elapsed)") auto

declare wait_loop.simps [simp del]

definition wait_with_stop :: "(nat \<Rightarrow> bool) \<Rightarrow> millis \<Rightarrow> millis \<Rightarrow> millis option" where
  "wait_with_stop stop dur tick = wait_loop stop dur tick 0 0"

datatype driver_next = DriverExit studio_exit | DriverErr string | DriverRetry u32 u64

definition retry_after ::
  "session_env \<Rightarrow> u32 \<Rightarrow> session_schedule \<Rightarrow> string option \<Rightarrow> bool \<Rightarrow> u32 \<Rightarrow> 'm session \<Rightarrow> 'm session \<times> driver_next" where
  "retry_after v max_attempts sch error welcomed attempt s =
     (let attempt = (if welcomed then 0 else attempt) + 1;
          n = show_nat (unat attempt)
      in if reconnect_exhausted max_attempts attempt
         then (say v ''error'' (''giving up after '' @ n @ '' reconnect attempts'') None
                 (on_observers (set_session_state (SessionFatal (''gave up after '' @ n @ '' reconnect attempts''))) s),
               DriverErr ''ws reconnect cap reached'')
         else let backoff = backoff_for attempt sch
              in (say v ''warn'' (reconnect_breadcrumb error attempt backoff) None
                    (on_observers (set_session_state (Reconnecting attempt)) s),
                  DriverRetry attempt backoff))"

definition after_attempt ::
  "session_env \<Rightarrow> u32 \<Rightarrow> session_schedule \<Rightarrow> (string, session_outcome) result \<Rightarrow> bool \<Rightarrow> u32 \<Rightarrow> 'm session \<Rightarrow>
   'm session \<times> driver_next" where
  "after_attempt v max_attempts sch r welcomed attempt s = (case r of
       Inr SoStopped \<Rightarrow> (on_observers (set_session_state SessionStopped) s, DriverExit ExitStopped)
     | Inr (SoRegistrationRevoked reason) \<Rightarrow>
         (say v ''warn'' (''studio revoked this worker'' @ [CHR 0x27] @ ''s registration ('' @ reason @ ''); asking for approval again'')
            None (on_observers (set_session_state WaitingForApproval) s), DriverExit ExitRegistrationRevoked)
     | Inr (SoAuthFailed reason) \<Rightarrow>
         (say v ''error'' (''auth failed: '' @ reason @ ''. Re-register the worker.'') None
            (on_observers (set_session_state (SessionAuthFailed reason)) s), DriverErr (''ws auth failed: '' @ reason))
     | Inr (SoFatal reason) \<Rightarrow>
         (say v ''error'' (''fatal: '' @ reason) None
            (on_observers (set_session_state (SessionFatal reason)) s), DriverErr (''ws fatal: '' @ reason))
     | Inr SoDisconnected \<Rightarrow> retry_after v max_attempts sch None welcomed attempt s
     | Inl e \<Rightarrow> retry_after v max_attempts sch (Some e) welcomed attempt s)"

text \<open>One turn of the loop: the environment, the stop flag and the configuration as they are
  then, and what the attempt meets.\<close>

record turn =
  tu_env :: session_env
  tu_stop :: bool
  tu_config :: config
  tu_conn :: connection

text \<open>\<open>None\<close>: the loop is still running when the turns end.\<close>

fun ws_loop ::
  "u32 \<Rightarrow> session_schedule \<Rightarrow> turn list \<Rightarrow> u32 \<Rightarrow> bool \<Rightarrow> 'm session \<Rightarrow>
   'm session \<times> (string, studio_exit) result option" where
  "ws_loop max_attempts sch [] attempt logged s = (s, None)"
| "ws_loop max_attempts sch (t # ts) attempt logged s =
     (let v = tu_env t; s = s\<lparr>ss_config := tu_config t\<rparr> in
      if tu_stop t then (s, Some (Inr ExitStopped))
      else if \<not> has_credentials (ss_config s)
      then ws_loop max_attempts sch ts attempt True
        (if logged then s
         else say v ''info'' ''waiting for operator approval before opening the session'' None
                (on_observers (set_session_state WaitingForApproval) s))
      else (case run_one_session v (tu_conn t) (on_observers (set_session_state Connecting) s) of
          (s, r, welcomed) \<Rightarrow> (case after_attempt v max_attempts sch r welcomed attempt s of
              (s, DriverExit e) \<Rightarrow> (s, Some (Inr e))
            | (s, DriverErr e) \<Rightarrow> (s, Some (Inl e))
            | (s, DriverRetry attempt _) \<Rightarrow> ws_loop max_attempts sch ts attempt False s)))"

definition spawn_ws_session ::
  "session_schedule \<Rightarrow> turn list \<Rightarrow> 'm session \<Rightarrow> 'm session \<times> (string, studio_exit) result option" where
  "spawn_ws_session sch ts s =
     ws_loop (case ws_reconnect_attempts (ss_config s) of None \<Rightarrow> DEFAULT_RECONNECT_ATTEMPTS | Some n \<Rightarrow> n)
       sch ts 0 False s"

end
