(* ===== verification/WsFacts.thy ===== *)
theory WsFacts
  imports WsDriver
begin

text \<open>
  Facts about the studio session: what the helpers leave alone, and the invariant that ties the
  job flag, the heartbeat's job and the running list to the tasks.
\<close>

section \<open>What the helpers leave alone\<close>

lemma say_sel [simp]:
  "ss_gate (say v l m j s) = ss_gate s" "ss_others (say v l m j s) = ss_others s"
  "ss_paused (say v l m j s) = ss_paused s" "ss_config (say v l m j s) = ss_config s"
  "ss_observers (say v l m j s) = ss_observers s" "ss_host (say v l m j s) = ss_host s"
  "ss_host_up (say v l m j s) = ss_host_up s" "ss_tasks (say v l m j s) = ss_tasks s"
  "ss_sent (say v l m j s) = ss_sent s"
  by (simp_all add: say_def)

lemma say_opt_sel [simp]:
  "ss_gate (say_opt v c j s) = ss_gate s" "ss_others (say_opt v c j s) = ss_others s"
  "ss_paused (say_opt v c j s) = ss_paused s" "ss_config (say_opt v c j s) = ss_config s"
  "ss_observers (say_opt v c j s) = ss_observers s" "ss_host (say_opt v c j s) = ss_host s"
  "ss_host_up (say_opt v c j s) = ss_host_up s" "ss_tasks (say_opt v c j s) = ss_tasks s"
  "ss_sent (say_opt v c j s) = ss_sent s"
  by (auto simp: say_opt_def split: option.splits)

lemma record_fail_send_sel [simp]:
  "ss_gate (record_fail_send v r j s) = ss_gate s" "ss_others (record_fail_send v r j s) = ss_others s"
  "ss_observers (record_fail_send v r j s) = ss_observers s" "ss_tasks (record_fail_send v r j s) = ss_tasks s"
  "ss_sent (record_fail_send v r j s) = ss_sent s"
  by (simp_all add: record_fail_send_def)

lemma send_frame_sel [simp]:
  "ss_gate (send_frame f r s) = ss_gate s" "ss_others (send_frame f r s) = ss_others s"
  "ss_paused (send_frame f r s) = ss_paused s" "ss_config (send_frame f r s) = ss_config s"
  "ss_observers (send_frame f r s) = ss_observers s" "ss_host (send_frame f r s) = ss_host s"
  "ss_tasks (send_frame f r s) = ss_tasks s"
  "ss_sent (send_frame f r s) = ss_sent s @ (case r of Inr _ \<Rightarrow> [f] | Inl _ \<Rightarrow> [])"
  by (auto simp: send_frame_def split: sum.splits)

lemma on_observers_sel [simp]:
  "ss_gate (on_observers f s) = ss_gate s" "ss_others (on_observers f s) = ss_others s"
  "ss_paused (on_observers f s) = ss_paused s" "ss_config (on_observers f s) = ss_config s"
  "ss_observers (on_observers f s) = f (ss_observers s)" "ss_host (on_observers f s) = ss_host s"
  "ss_tasks (on_observers f s) = ss_tasks s" "ss_sent (on_observers f s) = ss_sent s"
  by (simp_all add: on_observers_def)

lemma record_heartbeat_sel [simp]:
  "ss_gate (record_heartbeat v x s) = ss_gate s" "ss_others (record_heartbeat v x s) = ss_others s"
  "ss_tasks (record_heartbeat v x s) = ss_tasks s" "ss_sent (record_heartbeat v x s) = ss_sent s"
  "ss_config (record_heartbeat v x s) = ss_config s"
  "ob_current_job (ss_observers (record_heartbeat v x s)) = ob_current_job (ss_observers s)"
  "ob_active_jobs (ss_observers (record_heartbeat v x s)) = ob_active_jobs (ss_observers s)"
  by (simp_all add: record_heartbeat_def)

lemma spawn_reject_sel [simp]:
  "ss_gate (spawn_reject_offer job reason code s) = ss_gate s"
  "ss_others (spawn_reject_offer job reason code s) = ss_others s"
  "ss_observers (spawn_reject_offer job reason code s) = ss_observers s"
  "ss_host (spawn_reject_offer job reason code s) = ss_host s"
  "ss_config (spawn_reject_offer job reason code s) = ss_config s"
  "ss_tasks (spawn_reject_offer job reason code s) = ss_tasks s @ [Rejecting job reason code]"
  "ss_sent (spawn_reject_offer job reason code s) = ss_sent s"
  by (simp_all add: spawn_reject_offer_def)

lemma mirror_model_sel [simp]:
  "ss_gate (mirror_model v j s) = ss_gate s" "ss_others (mirror_model v j s) = ss_others s"
  "ss_observers (mirror_model v j s) = ss_observers s" "ss_tasks (mirror_model v j s) = ss_tasks s"
  "ss_sent (mirror_model v j s) = ss_sent s" "ss_config (mirror_model v j s) = ss_config s"
  by (simp_all add: mirror_model_def split: prod.splits)

lemma run_drop_sel [simp]: "ob_current_job (run_drop j ob) = ob_current_job ob"
  "ob_recent_jobs (run_drop j ob) = ob_recent_jobs ob"
  "ob_active_jobs (run_drop j ob) = filter (\<lambda>a. cj_job_id a \<noteq> cj_job_id j) (ob_active_jobs ob)"
  by (simp_all add: run_drop_def)

lemma run_finish_sel [simp]:
  "ob_current_job (run_finish now out j ob) = ob_current_job ob"
  "ob_active_jobs (run_finish now out j ob) = filter (\<lambda>a. cj_job_id a \<noteq> cj_job_id j) (ob_active_jobs ob)"
  by (cases "cj_source j"; simp add: run_finish_def record_recent_job_def record_local_job_def)+

lemma keep_thumbnail_sel [simp]:
  "ob_current_job (keep_thumbnail f r j ob) = ob_current_job ob"
  "ob_active_jobs (keep_thumbnail f r j ob) = ob_active_jobs ob"
  "ob_recent_jobs (keep_thumbnail f r j ob) = ob_recent_jobs ob"
  by (auto simp: keep_thumbnail_def split: task_result.splits option.splits)

lemma finish_job_sel [simp]:
  "busy (ss_gate (finish_job v j out s)) = False" "ss_others (finish_job v j out s) = ss_others s"
  "ss_tasks (finish_job v j out s) = ss_tasks s" "ss_sent (finish_job v j out s) = ss_sent s"
  "ob_current_job (ss_observers (finish_job v j out s)) = None"
  "ob_active_jobs (ss_observers (finish_job v j out s)) =
     filter (\<lambda>a. cj_job_id a \<noteq> cj_job_id j) (ob_active_jobs (ss_observers s))"
  by (simp_all add: finish_job_def drop_reservation_def)

section \<open>What an offer does\<close>

lemma admit_offer_say [simp]: "admit_offer v n (say w l m j s) = admit_offer v n s"
  by (simp add: admit_offer_def)

text \<open>The refusal an offer gets, if any, as one decision.\<close>

definition offer_refusal :: "session_env \<Rightarrow> job_offer_claim \<Rightarrow> 'm session \<Rightarrow> (string \<times> reject_code) option" where
  "offer_refusal v c s =
     (if ss_paused s then Some (''worker paused by operator'', RejPaused)
      else if ob_update_pending (ss_observers s) then Some (''worker is installing an update'', RejBusy)
      else if holds_back (only_when_idle (ss_config s)) (ob_user_presence (ss_observers s))
      then Some (''only when idle: the person is using this computer'', RejPaused)
      else case admit_offer v (need_of (oc_vram_gb_estimate c) (oc_model_source c)) s of
          Inl r \<Rightarrow> Some (show_refused r, RejInsufficientMemory)
        | Inr _ \<Rightarrow> if busy (ss_gate s) then Some (''worker already has an in-flight job'', RejBusy) else None)"

lemma handle_offer_refused:
  "offer_refusal v c s = Some (reason, code) \<Longrightarrow>
   ss_tasks (handle_offer v c s) = ss_tasks s @ [Rejecting (oc_job_id c) reason code] \<and>
   ss_gate (handle_offer v c s) = ss_gate s \<and> ss_host (handle_offer v c s) = ss_host s"
  by (simp add: handle_offer_def offer_refusal_def Let_def try_reserve_def
      split: sum.splits if_split_asm)

lemma handle_offer_taken:
  "offer_refusal v c s = None \<Longrightarrow>
   ss_tasks (handle_offer v c s) = ss_tasks s @ [Accepting (into_job_claim c) (sv_now v)] \<and>
   \<not> busy (ss_gate s) \<and> ss_gate (handle_offer v c s) = (ss_gate s)\<lparr>busy := True\<rparr>"
  by (simp add: handle_offer_def offer_refusal_def Let_def try_reserve_def
      split: sum.splits if_split_asm)

lemma handle_offer_sel [simp]:
  "ss_others (handle_offer v c s) = ss_others s" "ss_observers (handle_offer v c s) = ss_observers s"
  "ss_sent (handle_offer v c s) = ss_sent s" "ss_config (handle_offer v c s) = ss_config s"
  by (auto simp: handle_offer_def Let_def try_reserve_def split: sum.splits)

end
