(* ===== verification/WsInvariant.thy ===== *)
theory WsInvariant
  imports WsFacts
begin

text \<open>
  The invariant of the studio session: the job flag counts the tasks and parties that hold it,
  and the current job and the running list are those of the one task that runs a job.
\<close>

section \<open>Counting tasks\<close>

fun holding :: "session_task \<Rightarrow> bool" where
  "holding (Rejecting _ _ _) = False"
| "holding _ = True"

fun running :: "session_task \<Rightarrow> current_job option" where
  "running (Dispatching cur _) = Some cur"
| "running (Uploading cur _) = Some cur"
| "running (SendingJson cur _ _) = Some cur"
| "running (Failing cur _ _) = Some cur"
| "running _ = None"

definition slot_count :: "'m session \<Rightarrow> nat" where
  "slot_count s = count_if holding (ss_tasks s) + ss_others s"

text \<open>The flag is set exactly while one party holds the slot; the current job and the running
  list are those of the task that runs it.\<close>

definition slot_ok :: "'m session \<Rightarrow> bool" where
  "slot_ok s = (slot_count s = (if busy (ss_gate s) then 1 else 0))"

definition current_ok :: "'m session \<Rightarrow> bool" where
  "current_ok s =
     (\<forall>j. (ob_current_job (ss_observers s) = Some j \<longleftrightarrow> (\<exists>t \<in> set (ss_tasks s). running t = Some j)) \<and>
          (ob_current_job (ss_observers s) = Some j \<longrightarrow> j \<in> set (ob_active_jobs (ss_observers s))))"

lemma running_holds: "running t = Some j \<Longrightarrow> holding t"
  by (cases t) auto

lemma take_taskD:
  "take_task t f s = Some s' \<Longrightarrow>
   t \<in> set (ss_tasks s) \<and> s' = f (s\<lparr>ss_tasks := remove1 t (ss_tasks s)\<rparr>)"
  by (simp add: take_task_def split: if_splits)

text \<open>While a task holds the slot the flag is set, and no other task or party holds it.\<close>

lemma holder_alone:
  assumes "slot_ok s" "t \<in> set (ss_tasks s)" "holding t"
  shows "busy (ss_gate s) \<and> ss_others s = 0 \<and> (\<forall>u \<in> set (remove1 t (ss_tasks s)). \<not> holding u)"
proof -
  have "count_if holding (ss_tasks s) = 1 + count_if holding (remove1 t (ss_tasks s))"
    using assms count_if_remove1 [of t "ss_tasks s" holding] by simp
  moreover have "slot_count s \<le> 1" using assms(1) by (simp add: slot_ok_def)
  ultimately have "count_if holding (remove1 t (ss_tasks s)) = 0 \<and> ss_others s = 0 \<and> slot_count s = 1"
    by (simp add: slot_count_def)
  then show ?thesis using assms(1) by (auto simp: slot_ok_def count_if_zero split: if_splits)
qed

lemma dispatch_event_cases:
  obtains (offer) c where "ev = EvFrame (Offer c)" "fst (dispatch_event v ev s) = handle_offer v c s"
  | (quiet) "\<And>c. ev \<noteq> EvFrame (Offer c)" "ss_tasks (fst (dispatch_event v ev s)) = ss_tasks s"
      "ss_gate (fst (dispatch_event v ev s)) = ss_gate s"
      "ss_others (fst (dispatch_event v ev s)) = ss_others s"
      "ss_sent (fst (dispatch_event v ev s)) = ss_sent s"
      "ob_current_job (ss_observers (fst (dispatch_event v ev s))) = ob_current_job (ss_observers s)"
      "ob_active_jobs (ss_observers (fst (dispatch_event v ev s))) = ob_active_jobs (ss_observers s)"
proof (cases ev)
  case (EvFrame f)
  then show ?thesis using offer quiet by (cases f) (simp_all add: dispatch_event_def)
next
  case EvStopped
  then show ?thesis using quiet by (simp add: dispatch_event_def)
next
  case (EvDisconnected e)
  then show ?thesis using quiet by (cases e) (simp_all add: dispatch_event_def)
qed

section \<open>The slot and the current job\<close>

lemma slot_ok_offer: "slot_ok s \<Longrightarrow> slot_ok (handle_offer v c s)"
proof (cases "offer_refusal v c s")
  case None
  assume "slot_ok s"
  with handle_offer_taken [OF None] show ?thesis by (simp add: slot_ok_def slot_count_def)
next
  case (Some p)
  assume "slot_ok s"
  with Some show ?thesis
    using handle_offer_refused [of v c s "fst p" "snd p"] by (simp add: slot_ok_def slot_count_def)
qed

lemma current_ok_offer: "current_ok s \<Longrightarrow> current_ok (handle_offer v c s)"
proof (cases "offer_refusal v c s")
  case None
  assume "current_ok s"
  with handle_offer_taken [OF None] show ?thesis by (simp add: current_ok_def)
next
  case (Some p)
  assume "current_ok s"
  with Some show ?thesis
    using handle_offer_refused [of v c s "fst p" "snd p"] by (simp add: current_ok_def)
qed

lemma heartbeat_tick_sel [simp]:
  "ss_gate (fst (heartbeat_tick v caps r lp s)) = ss_gate s"
  "ss_others (fst (heartbeat_tick v caps r lp s)) = ss_others s"
  "ss_tasks (fst (heartbeat_tick v caps r lp s)) = ss_tasks s"
  "ob_current_job (ss_observers (fst (heartbeat_tick v caps r lp s))) = ob_current_job (ss_observers s)"
  "ob_active_jobs (ss_observers (fst (heartbeat_tick v caps r lp s))) = ob_active_jobs (ss_observers s)"
  "ss_sent (fst (heartbeat_tick v caps r lp s)) = ss_sent s @ (case r of
     Inr _ \<Rightarrow> [Heartbeat caps (heartbeat_current_job_id (ss_observers s))] | Inl _ \<Rightarrow> [])"
  by (simp_all add: heartbeat_tick_def Let_def split: sum.splits)

definition sound :: "'m session \<Rightarrow> bool" where
  "sound s = (slot_ok s \<and> current_ok s)"

lemma current_ok_cong:
  assumes "current_ok s" "ob_current_job (ss_observers s') = ob_current_job (ss_observers s)"
    and "ob_active_jobs (ss_observers s') = ob_active_jobs (ss_observers s)"
    and "\<And>k. (\<exists>w \<in> set (ss_tasks s). running w = Some k) \<longleftrightarrow> (\<exists>w \<in> set (ss_tasks s'). running w = Some k)"
  shows "current_ok s'"
proof (unfold current_ok_def assms(2,3), intro allI)
  fix k
  show "(ob_current_job (ss_observers s) = Some k \<longleftrightarrow> (\<exists>t \<in> set (ss_tasks s'). running t = Some k)) \<and>
    (ob_current_job (ss_observers s) = Some k \<longrightarrow> k \<in> set (ob_active_jobs (ss_observers s)))"
    using assms(1) assms(4) [of k] unfolding current_ok_def by blast
qed

lemma no_runner_idle:
  assumes "current_ok s" "\<And>k. \<not> (\<exists>w \<in> set (ss_tasks s). running w = Some k)"
  shows "ob_current_job (ss_observers s) = None"
proof (cases "ob_current_job (ss_observers s)")
  case (Some k)
  with assms(1) have "\<exists>w \<in> set (ss_tasks s). running w = Some k" unfolding current_ok_def by blast
  with assms(2) show ?thesis by blast
qed simp

text \<open>A task that holds the slot moves on: either it keeps the slot and its job, or it finishes.\<close>

lemma sound_task_moves:
  assumes "sound s" "t \<in> set (ss_tasks s)" "holding t" "holding u" "running u = running t"
    and "ss_tasks s' = remove1 t (ss_tasks s) @ [u]" "ss_gate s' = ss_gate s" "ss_others s' = ss_others s"
    and "ob_current_job (ss_observers s') = ob_current_job (ss_observers s)"
    and "ob_active_jobs (ss_observers s') = ob_active_jobs (ss_observers s)"
  shows "sound s'"
proof -
  have "slot_ok s'"
    using assms count_if_remove1 [of t "ss_tasks s" holding]
    by (simp add: sound_def slot_ok_def slot_count_def)
  moreover have "(\<exists>w \<in> set (ss_tasks s'). running w = Some j) \<longleftrightarrow> (\<exists>w \<in> set (ss_tasks s). running w = Some j)" for j
    using assms(2,5,6) bex_remove1 [of t "ss_tasks s" "\<lambda>w. running w = Some j"] by auto
  ultimately show ?thesis using assms by (simp add: sound_def current_ok_def)
qed

lemma sound_task_finishes:
  assumes "sound s" "t \<in> set (ss_tasks s)" "holding t"
    and "ss_tasks s' = remove1 t (ss_tasks s)" "\<not> busy (ss_gate s')" "ss_others s' = ss_others s"
    and "ob_current_job (ss_observers s') = None"
  shows "sound s'"
proof -
  have alone: "ss_others s = 0" "\<forall>u \<in> set (remove1 t (ss_tasks s)). \<not> holding u"
    using assms holder_alone [of s t] by (auto simp: sound_def)
  then have "slot_ok s'" using assms by (simp add: slot_ok_def slot_count_def count_if_zero)
  moreover have "current_ok s'"
    using alone assms running_holds by (fastforce simp: current_ok_def)
  ultimately show ?thesis by (simp add: sound_def)
qed

lemma sound_keeps:
  assumes "sound s" "session_step v p s = Some s'"
  shows "sound s'"
proof (cases p)
  case (Receive ev)
  with assms(2) have s': "s' = fst (dispatch_event v ev s)" by simp
  show ?thesis
  proof (cases rule: dispatch_event_cases [of ev v s])
    case (offer c)
    with s' assms(1) show ?thesis by (simp add: sound_def slot_ok_offer current_ok_offer)
  next
    case quiet
    with s' assms(1) show ?thesis by (simp add: sound_def slot_ok_def slot_count_def current_ok_def)
  qed
next
  case (RejectSent job reason code r)
  with assms(2) have t: "Rejecting job reason code \<in> set (ss_tasks s)"
    and s': "s' = after_reject v job reason code r (s\<lparr>ss_tasks := remove1 (Rejecting job reason code) (ss_tasks s)\<rparr>)"
    by (auto dest: take_taskD)
  have ex: "(\<exists>w \<in> set (ss_tasks s). running w = Some k) \<longleftrightarrow> (\<exists>w \<in> set (ss_tasks s'). running w = Some k)" for k
    using bex_remove1 [OF t, of "\<lambda>w. running w = Some k"] by (simp add: s' after_reject_def)
  have "current_ok s'"
  proof (rule current_ok_cong [OF _ _ _ ex])
    show "current_ok s" using assms(1) by (simp add: sound_def)
  qed (simp_all add: s' after_reject_def)
  moreover have "slot_ok s'" using assms(1) count_if_remove1 [OF t, of holding]
    by (simp add: s' sound_def slot_ok_def slot_count_def after_reject_def)
  ultimately show ?thesis by (simp add: sound_def)
next
  case (AcceptSent j started r)
  let ?t = "Accepting j started"
  from AcceptSent assms(2) have t: "?t \<in> set (ss_tasks s)"
    and s': "s' = after_accept v j started r (s\<lparr>ss_tasks := remove1 ?t (ss_tasks s)\<rparr>)"
    by (auto dest: take_taskD)
  from holder_alone [of s ?t] assms(1) t
  have alone: "busy (ss_gate s)" "ss_others s = 0" "\<forall>u \<in> set (remove1 ?t (ss_tasks s)). \<not> holding u"
    by (auto simp: sound_def)
  have idle: "ob_current_job (ss_observers s) = None"
  proof (rule no_runner_idle)
    show "current_ok s" using assms(1) by (simp add: sound_def)
    show "\<not> (\<exists>w \<in> set (ss_tasks s). running w = Some k)" for k
      using bex_remove1 [OF t, of "\<lambda>w. running w = Some k"] alone(3) running_holds by auto
  qed
  show ?thesis
  proof (cases r)
    case (Inl e)
    with s' t idle show ?thesis
      by (intro sound_task_finishes [OF assms(1) t]) (simp_all add: after_accept_def Let_def drop_reservation_def)
  next
    case (Inr u)
    have "slot_ok s'" using s' Inr alone
      by (simp add: slot_ok_def slot_count_def after_accept_def Let_def count_if_zero)
    moreover have "current_ok s'"
    proof (unfold current_ok_def, intro allI)
      fix k
      have tasks: "ss_tasks s' = remove1 ?t (ss_tasks s) @ [Dispatching (current_of j started) j]"
        and obs: "ob_current_job (ss_observers s') = Some (current_of j started)"
        "current_of j started \<in> set (ob_active_jobs (ss_observers s'))"
        by (simp_all add: s' Inr after_accept_def Let_def run_begin_def)
      have "\<not> (\<exists>w \<in> set (remove1 ?t (ss_tasks s)). running w = Some k)"
        using alone(3) running_holds by blast
      then show "(ob_current_job (ss_observers s') = Some k \<longleftrightarrow> (\<exists>t \<in> set (ss_tasks s'). running t = Some k)) \<and>
        (ob_current_job (ss_observers s') = Some k \<longrightarrow> k \<in> set (ob_active_jobs (ss_observers s')))"
        using obs by (auto simp: tasks)
    qed
    ultimately show ?thesis by (simp add: sound_def)
  qed
next
  case (DispatchEnds cur j d elapsed)
  let ?t = "Dispatching cur j"
  from DispatchEnds assms(2) have t: "?t \<in> set (ss_tasks s)"
    and s': "s' = after_dispatch v elapsed cur j d (s\<lparr>ss_tasks := remove1 ?t (ss_tasks s)\<rparr>)"
    by (auto dest: take_taskD)
  have "\<exists>u. holding u \<and> running u = Some cur \<and> ss_tasks s' = remove1 ?t (ss_tasks s) @ [u]"
    by (cases d) (auto simp: s' after_dispatch_def Let_def split: delivery.splits)
  moreover have "ss_gate s' = ss_gate s" "ss_others s' = ss_others s"
    "ob_current_job (ss_observers s') = ob_current_job (ss_observers s)"
    "ob_active_jobs (ss_observers s') = ob_active_jobs (ss_observers s)"
    by (cases d; simp add: s' after_dispatch_def Let_def)+
  ultimately show ?thesis using sound_task_moves [OF assms(1) t] by auto
next
  case (UploadEnds cur out msg)
  let ?t = "Uploading cur out"
  from UploadEnds assms(2) have t: "?t \<in> set (ss_tasks s)"
    and s': "s' = after_upload v cur msg (s\<lparr>ss_tasks := remove1 ?t (ss_tasks s)\<rparr>)"
    by (auto dest: take_taskD)
  show ?thesis
  proof (cases msg)
    case None
    with s' show ?thesis by (intro sound_task_finishes [OF assms(1) t]) (simp_all add: after_upload_def)
  next
    case (Some m)
    with s' show ?thesis
      by (intro sound_task_moves [OF assms(1) t, of "Failing cur m True"])
        (simp_all add: after_upload_def)
  qed
next
  case (JsonSent cur val prompt r)
  let ?t = "SendingJson cur val prompt"
  from JsonSent assms(2) have t: "?t \<in> set (ss_tasks s)"
    and s': "s' = after_json v cur val prompt r (s\<lparr>ss_tasks := remove1 ?t (ss_tasks s)\<rparr>)"
    by (auto dest: take_taskD)
  then show ?thesis
    by (cases r; intro sound_task_finishes [OF assms(1) t]) (simp_all add: after_json_def Let_def)
next
  case (FailSent cur msg retryable r)
  let ?t = "Failing cur msg retryable"
  from FailSent assms(2) have t: "?t \<in> set (ss_tasks s)"
    and s': "s' = after_fail v cur msg retryable r (s\<lparr>ss_tasks := remove1 ?t (ss_tasks s)\<rparr>)"
    by (auto dest: take_taskD)
  then show ?thesis
    by (intro sound_task_finishes [OF assms(1) t]) (simp_all add: after_fail_def)
next
  case OtherReserves
  with assms show ?thesis
    by (auto simp: sound_def slot_ok_def slot_count_def current_ok_def try_reserve_def split: if_splits)
next
  case OtherReleases
  with assms show ?thesis
    by (auto simp: sound_def slot_ok_def slot_count_def current_ok_def drop_reservation_def split: if_splits)
qed (use assms in \<open>auto simp: sound_def slot_ok_def slot_count_def current_ok_def\<close>)

lemma sound_run: "sound s \<Longrightarrow> session_run ps s = Some s' \<Longrightarrow> sound s'"
  by (induction ps s rule: session_run.induct) (auto split: option.splits dest: sound_keeps)

lemma sound_new: "sound (session_new cfg h up p)"
  by (simp add: sound_def slot_ok_def slot_count_def current_ok_def session_new_def gate_new_def
      observers_default_def)

section \<open>A sample world for the witnesses\<close>

definition sample_source :: model_source where
  "sample_source = \<lparr>ms_engine = Synthetic, ms_files = [], ms_cli_defaults = cli_defaults_default\<rparr>"

definition sample_offer :: job_offer_claim where
  "sample_offer = \<lparr>oc_job_id = ''j'', oc_game_id = ''g'', oc_asset_name = ''a'', oc_model = ''m'',
     oc_vram_gb_estimate = f32_zero, oc_task = TMesh \<lparr>mesh_image_url = ''u'', mesh_seed = None, mesh_ext = ''glb''\<rparr>,
     oc_model_source = sample_source\<rparr>"

definition sample_env :: session_env where
  "sample_env = \<lparr>sv_now = 0, sv_ts = ''t'', sv_show_f32 = show_f32_prec 1, sv_show_catalog = (\<lambda>_. []),
     sv_show_json = (\<lambda>_. []), sv_show_frame = (\<lambda>_. []),
     sv_host = \<lparr>env_now = 0, env_probe = \<lparr>pr_free_gib = None, pr_total_gib = None, pr_host_available_gib = None\<rparr>,
       env_show = (\<lambda>_. []), env_faults = no_faults, env_tmp = ''tmp''\<rparr>, sv_png = (\<lambda>_. None)\<rparr>"

definition sample_session :: "unit session" where
  "sample_session = session_new ((config_default ''t'' None)\<lparr>worker_id := Some ''w'', auth_token := Some ''k''\<rparr>)
     (host_new \<lparr>models = [], dismissed_seeds = []\<rparr> residency_default (\<lambda>_. None)) False None"

end
