(* ===== verification/WsProperties.thy ===== *)
theory WsProperties
  imports WsInvariant
begin

text \<open>
  Properties of the studio session: the job slot, the protocol of frames per offer, the decision
  on an offer, the end of every job, the outcome of a session and the reconnect policy.
\<close>

section \<open>The slot\<close>

text \<open>C4: along any run of the session, with other parties of the worker reserving and
  releasing the slot as they like, at most one studio job or other party holds the slot and the
  flag is set exactly while one does; the current job is the job that a task runs, it is on the
  running list, and the id a heartbeat reports is that job's.\<close>

theorem session_runs_one_job:
  assumes "session_run ps (session_new cfg h up p) = Some s"
  shows "slot_count s \<le> 1 \<and> (busy (ss_gate s) \<longleftrightarrow> slot_count s = 1) \<and>
    (\<forall>j. ob_current_job (ss_observers s) = Some j \<longleftrightarrow> (\<exists>t \<in> set (ss_tasks s). running t = Some j)) \<and>
    (\<forall>j. ob_current_job (ss_observers s) = Some j \<longrightarrow> j \<in> set (ob_active_jobs (ss_observers s))) \<and>
    (\<forall>i. heartbeat_current_job_id (ss_observers s) = Some i \<longleftrightarrow>
       (\<exists>t \<in> set (ss_tasks s). \<exists>j. running t = Some j \<and> cj_job_id j = i))"
proof -
  have ok: "slot_ok s" "current_ok s" using sound_run [OF sound_new assms] by (simp_all add: sound_def)
  have cur: "ob_current_job (ss_observers s) = Some j \<longleftrightarrow> (\<exists>t \<in> set (ss_tasks s). running t = Some j)" for j
    using ok(2) unfolding current_ok_def by blast
  have hb: "heartbeat_current_job_id (ss_observers s) = Some i \<longleftrightarrow>
      (\<exists>j. ob_current_job (ss_observers s) = Some j \<and> cj_job_id j = i)" for i
    by (auto simp: heartbeat_current_job_id_def)
  have "\<forall>i. heartbeat_current_job_id (ss_observers s) = Some i \<longleftrightarrow>
       (\<exists>t \<in> set (ss_tasks s). \<exists>j. running t = Some j \<and> cj_job_id j = i)"
    unfolding hb cur by blast
  moreover have "\<forall>j. ob_current_job (ss_observers s) = Some j \<longrightarrow> j \<in> set (ob_active_jobs (ss_observers s))"
    using ok(2) unfolding current_ok_def by blast
  moreover have "slot_count s \<le> 1 \<and> (busy (ss_gate s) \<longleftrightarrow> slot_count s = 1)"
    using ok(1) by (auto simp: slot_ok_def split: if_splits)
  ultimately show ?thesis using cur by simp
qed

lemma sample_offer_taken: "offer_refusal sample_env sample_offer sample_session = None"
  by (simp add: offer_refusal_def sample_session_def session_new_def observers_default_def
      config_default_def admit_offer_def holds_back_def gate_new_def)

definition sample_accepted :: "unit session" where
  "sample_accepted = the (session_run [(sample_env, Receive (EvFrame (Offer sample_offer))),
     (sample_env, AcceptSent (into_job_claim sample_offer) 0 (Inr ()))] sample_session)"

definition sample_running :: session_task where
  "sample_running = Dispatching (current_of (into_job_claim sample_offer) 0) (into_job_claim sample_offer)"

lemma sample_run:
  "session_run [(sample_env, Receive (EvFrame (Offer sample_offer))),
     (sample_env, AcceptSent (into_job_claim sample_offer) 0 (Inr ()))] sample_session = Some sample_accepted"
  "ss_tasks sample_accepted = [sample_running]"
  "busy (ss_gate sample_accepted)" "ss_sent sample_accepted = [Accept ''j'']"
proof -
  have t: "ss_tasks (handle_offer sample_env sample_offer sample_session)
      = [Accepting (into_job_claim sample_offer) 0]"
    "busy (ss_gate (handle_offer sample_env sample_offer sample_session))"
    using handle_offer_taken [OF sample_offer_taken]
    by (simp_all add: sample_env_def sample_session_def session_new_def)
  have run: "\<exists>s. session_run [(sample_env, Receive (EvFrame (Offer sample_offer))),
     (sample_env, AcceptSent (into_job_claim sample_offer) 0 (Inr ()))] sample_session = Some s \<and>
     ss_tasks s = [sample_running] \<and> busy (ss_gate s) \<and> ss_sent s = [Accept ''j'']"
    using t by (simp add: dispatch_event_def take_task_def after_accept_def Let_def sample_running_def)
      (simp add: into_job_claim_def sample_offer_def sample_session_def session_new_def)
  then show "session_run [(sample_env, Receive (EvFrame (Offer sample_offer))),
     (sample_env, AcceptSent (into_job_claim sample_offer) 0 (Inr ()))] sample_session = Some sample_accepted"
    "ss_tasks sample_accepted = [sample_running]"
    "busy (ss_gate sample_accepted)" "ss_sent sample_accepted = [Accept ''j'']"
    unfolding sample_accepted_def by auto
qed

theorem session_runs_one_job_witness:
  "slot_count sample_accepted = 1 \<and> heartbeat_current_job_id (ss_observers sample_accepted) = Some ''j''"
proof -
  have r: "running sample_running = Some (current_of (into_job_claim sample_offer) 0)"
    "cj_job_id (current_of (into_job_claim sample_offer) 0) = ''j''"
    by (simp_all add: sample_running_def current_of_def into_job_claim_def sample_offer_def)
  show ?thesis
    using session_runs_one_job [OF sample_run(1) [unfolded sample_session_def]] sample_run(2,3) r by auto
qed

section \<open>Frames per offer\<close>

text \<open>Per job id: the offers received; the answers and results on the wire; the answers and results
  whose send failed, and the uploads that succeeded.\<close>

fun offer_of :: "string \<Rightarrow> session_op \<Rightarrow> bool" where
  "offer_of i (Receive (EvFrame (Offer c))) = (oc_job_id c = i)"
| "offer_of i _ = False"

fun answer_of :: "string \<Rightarrow> worker_inbound \<Rightarrow> bool" where
  "answer_of i (Accept j) = (j = i)"
| "answer_of i (Reject j _ _) = (j = i)"
| "answer_of i _ = False"

fun result_of :: "string \<Rightarrow> worker_inbound \<Rightarrow> bool" where
  "result_of i (CompleteJson j _ _) = (j = i)"
| "result_of i (Fail j _ _) = (j = i)"
| "result_of i _ = False"

fun lost_answer :: "string \<Rightarrow> session_op \<Rightarrow> bool" where
  "lost_answer i (RejectSent j _ _ (Inl _)) = (j = i)"
| "lost_answer i (AcceptSent j _ (Inl _)) = (jc_job_id j = i)"
| "lost_answer i _ = False"

fun uploaded_or_lost :: "string \<Rightarrow> session_op \<Rightarrow> bool" where
  "uploaded_or_lost i (UploadEnds cur _ None) = (cj_job_id cur = i)"
| "uploaded_or_lost i (JsonSent cur _ _ (Inl _)) = (cj_job_id cur = i)"
| "uploaded_or_lost i (FailSent cur _ _ (Inl _)) = (cj_job_id cur = i)"
| "uploaded_or_lost i _ = False"

fun unanswered :: "string \<Rightarrow> session_task \<Rightarrow> bool" where
  "unanswered i (Rejecting j _ _) = (j = i)"
| "unanswered i (Accepting j _) = (jc_job_id j = i)"
| "unanswered i _ = False"

definition runs :: "string \<Rightarrow> session_task \<Rightarrow> bool" where
  "runs i t = (case running t of None \<Rightarrow> False | Some cur \<Rightarrow> cj_job_id cur = i)"

lemma runs_simps [simp]:
  "runs i (Rejecting j r c) = False" "runs i (Accepting jc st) = False"
  "runs i (Dispatching cur jc) = (cj_job_id cur = i)" "runs i (Uploading cur out) = (cj_job_id cur = i)"
  "runs i (SendingJson cur v p) = (cj_job_id cur = i)" "runs i (Failing cur m b) = (cj_job_id cur = i)"
  by (simp_all add: runs_def)

definition answers :: "string \<Rightarrow> 'm session \<Rightarrow> nat" where
  "answers i s = count_if (answer_of i) (ss_sent s) + count_if (unanswered i) (ss_tasks s)"

definition results :: "string \<Rightarrow> 'm session \<Rightarrow> nat" where
  "results i s = count_if (result_of i) (ss_sent s) + count_if (runs i) (ss_tasks s)"

definition accepts :: "string \<Rightarrow> 'm session \<Rightarrow> nat" where
  "accepts i s = count_if (\<lambda>f. f = Accept i) (ss_sent s)"

lemma offer_ofD: "offer_of i p \<Longrightarrow> \<exists>c. p = Receive (EvFrame (Offer c))"
  by (induction i p rule: offer_of.induct) auto

lemma current_of_id [simp]: "cj_job_id (current_of j st) = jc_job_id j"
  by (simp add: current_of_def)

lemma offer_adds_unanswered:
  "answers i (handle_offer v c s) = answers i s + (if oc_job_id c = i then 1 else 0) \<and>
   results i (handle_offer v c s) = results i s \<and> accepts i (handle_offer v c s) = accepts i s"
proof (cases "offer_refusal v c s")
  case None
  from handle_offer_taken [OF this] show ?thesis
    by (simp add: answers_def results_def accepts_def into_job_claim_def)
next
  case (Some p)
  then show ?thesis
    using handle_offer_refused [of v c s "fst p" "snd p"] by (simp add: answers_def results_def accepts_def)
qed

lemma step_accounts:
  assumes "session_step v p s = Some s'"
  shows "answers i s' + (if lost_answer i p then 1 else 0) = answers i s + (if offer_of i p then 1 else 0) \<and>
    results i s' + (if uploaded_or_lost i p then 1 else 0) + accepts i s = results i s + accepts i s'"
proof (cases p)
  case (Receive ev)
  with assms have s': "s' = fst (dispatch_event v ev s)" by simp
  show ?thesis
  proof (cases rule: dispatch_event_cases [of ev v s])
    case (offer c)
    with s' Receive offer_adds_unanswered [of i v c s] show ?thesis by simp
  next
    case quiet
    have "\<not> offer_of i p" using quiet(1) Receive offer_ofD by blast
    with quiet s' Receive show ?thesis by (simp add: answers_def results_def accepts_def)
  qed
next
  case (RejectSent job reason code r)
  with assms count_if_remove1 [of "Rejecting job reason code" "ss_tasks s"] show ?thesis
    by (cases r) (auto dest!: take_taskD simp: after_reject_def answers_def results_def accepts_def)
next
  case (AcceptSent j started r)
  with assms count_if_remove1 [of "Accepting j started" "ss_tasks s"] show ?thesis
    by (cases r) (auto dest!: take_taskD simp: after_accept_def Let_def answers_def results_def accepts_def)
next
  case (DispatchEnds cur j d elapsed)
  with assms count_if_remove1 [of "Dispatching cur j" "ss_tasks s"] show ?thesis
    by (cases d) (auto dest!: take_taskD simp: after_dispatch_def Let_def answers_def results_def accepts_def
        split: delivery.splits)
next
  case (UploadEnds cur out msg)
  with assms count_if_remove1 [of "Uploading cur out" "ss_tasks s"] show ?thesis
    by (cases msg) (auto dest!: take_taskD simp: after_upload_def Let_def answers_def results_def accepts_def)
next
  case (JsonSent cur val prompt r)
  with assms count_if_remove1 [of "SendingJson cur val prompt" "ss_tasks s"] show ?thesis
    by (cases r) (auto dest!: take_taskD simp: after_json_def Let_def answers_def results_def accepts_def)
next
  case (FailSent cur msg retryable r)
  with assms count_if_remove1 [of "Failing cur msg retryable" "ss_tasks s"] show ?thesis
    by (cases r) (auto dest!: take_taskD simp: after_fail_def Let_def answers_def results_def accepts_def)
next
  case (HeartbeatTick caps lp r)
  with assms show ?thesis by (cases r) (auto simp: answers_def results_def accepts_def)
next
  case OtherReserves
  with assms show ?thesis
    by (auto simp: try_reserve_def answers_def results_def accepts_def split: if_splits)
next
  case OtherReleases
  with assms show ?thesis by (auto simp: answers_def results_def accepts_def split: if_splits)
qed (use assms in \<open>auto simp: answers_def results_def accepts_def\<close>)

lemma count_if_Cons: "count_if P (x # xs) = (if P x then 1 else 0) + count_if P xs"
  by simp

lemma run_accounts:
  "session_run ps s = Some s' \<Longrightarrow>
   answers i s' + count_if (lost_answer i) (map snd ps) = answers i s + count_if (offer_of i) (map snd ps) \<and>
   results i s' + count_if (uploaded_or_lost i) (map snd ps) + accepts i s = results i s + accepts i s'"
proof (induction ps s rule: session_run.induct)
  case (2 v p ps s)
  then obtain t where t: "session_step v p s = Some t" "session_run ps t = Some s'"
    by (auto split: option.splits)
  from 2(1) [OF t(1)] t(2) step_accounts [OF t(1), of i] show ?case
    by (simp add: count_if_Cons del: count_if_simps(2))
qed simp

text \<open>C5: every offer is answered exactly once and every accepted job reports exactly one result:
  per job id, the offers received are the accepts and rejects on the wire, the answers a task
  still has to send and those whose send failed; and the accepts on the wire are the results on
  the wire, the jobs a task still runs, the successful uploads and the reports whose send failed.\<close>

theorem frames_account_for_offers:
  assumes "session_run ps (session_new cfg h up p) = Some s"
  shows "count_if (offer_of i) (map snd ps) =
      count_if (answer_of i) (ss_sent s) + count_if (unanswered i) (ss_tasks s)
        + count_if (lost_answer i) (map snd ps) \<and>
    count_if (\<lambda>f. f = Accept i) (ss_sent s) =
      count_if (result_of i) (ss_sent s) + count_if (runs i) (ss_tasks s)
        + count_if (uploaded_or_lost i) (map snd ps)"
  using run_accounts [OF assms, of i]
  by (simp add: answers_def results_def accepts_def session_new_def)

theorem frames_account_for_offers_witness:
  "count_if (\<lambda>f. f = Accept ''j'') (ss_sent sample_accepted) = 1 \<and>
   count_if (result_of ''j'') (ss_sent sample_accepted) = 0 \<and> count_if (runs ''j'') (ss_tasks sample_accepted) = 1"
  using frames_account_for_offers [OF sample_run(1) [unfolded sample_session_def], of "''j''"] sample_run(2,4)
  by simp

section \<open>The decision on an offer\<close>

text \<open>C6: the decision on an offer, in the code's order of guards: it is accepted exactly when
  the worker is neither paused nor about to update, the person is known to be away if the
  operator asked for that, the model host (when it runs) admits the job, and the slot is free;
  then the slot is taken at once.  Otherwise exactly one reject is owed, with the code that tells
  the studio why, and neither the slot, the host, the observers nor the wire is touched.\<close>

theorem offer_decision:
  "let s' = handle_offer v c s; need = need_of (oc_vram_gb_estimate c) (oc_model_source c);
       held = (only_when_idle (ss_config s) \<and> ob_user_presence (ss_observers s) \<noteq> Some Idle);
       fits = (if ss_host_up s then is_ok (admit_transient (sv_host v) need (ss_host s)) else True)
   in ss_observers s' = ss_observers s \<and> ss_sent s' = ss_sent s \<and>
      (if \<not> ss_paused s \<and> \<not> ob_update_pending (ss_observers s) \<and> \<not> held \<and> fits \<and> \<not> busy (ss_gate s)
       then ss_tasks s' = ss_tasks s @ [Accepting (into_job_claim c) (sv_now v)] \<and> busy (ss_gate s')
       else ss_gate s' = ss_gate s \<and> ss_host s' = ss_host s \<and>
         (\<exists>reason. ss_tasks s' = ss_tasks s @ [Rejecting (oc_job_id c) reason
            (if ss_paused s then RejPaused else if ob_update_pending (ss_observers s) then RejBusy
             else if held then RejPaused else if \<not> fits then RejInsufficientMemory else RejBusy)]))"
proof (cases "offer_refusal v c s")
  case None
  from handle_offer_taken [OF this] None show ?thesis
    by (simp add: Let_def offer_refusal_def holds_back_def admit_offer_def is_ok_def
        split: if_split_asm sum.split_asm)
next
  case (Some p)
  then have "ss_tasks (handle_offer v c s) = ss_tasks s @ [Rejecting (oc_job_id c) (fst p) (snd p)]"
    "ss_gate (handle_offer v c s) = ss_gate s" "ss_host (handle_offer v c s) = ss_host s"
    using handle_offer_refused [of v c s "fst p" "snd p"] by simp_all
  with Some show ?thesis
    by (auto simp: Let_def offer_refusal_def holds_back_def admit_offer_def is_ok_def
        split: if_split_asm sum.splits)
qed

section \<open>The end of a job\<close>

text \<open>The steps a running job still takes: \<open>d\<close> is how the engine ends, \<open>up\<close> how an upload ends, \<open>r\<close>
  how the last send ends.\<close>

definition report_steps :: "session_env \<Rightarrow> current_job \<Rightarrow> string \<Rightarrow> bool \<Rightarrow> (ws_client_error, unit) result \<Rightarrow>
    (session_env \<times> session_op) list" where
  "report_steps v cur msg retryable r = [(v, FailSent cur msg retryable r)]"

definition job_steps :: "session_env \<Rightarrow> current_job \<Rightarrow> job_claim \<Rightarrow> dispatch_result \<Rightarrow> string option \<Rightarrow>
    (ws_client_error, unit) result \<Rightarrow> (session_env \<times> session_op) list" where
  "job_steps v cur j d up r = (v, DispatchEnds cur j d ''1s'') # (case d of
       DispatchOk result \<Rightarrow> (case delivery_of (sv_show_json v) result (prompt_for (jc_task j)) of
           Upload out \<Rightarrow> (v, UploadEnds cur out up) # (case up of
               None \<Rightarrow> [] | Some msg \<Rightarrow> report_steps v cur msg True r)
         | Json val \<Rightarrow> [(v, JsonSent cur val (prompt_for (jc_task j)) r)])
     | DispatchErr e chain \<Rightarrow> report_steps v cur (ca_text e) (\<not> is_permanent_failure e chain) r
     | DispatchPanic e \<Rightarrow> report_steps v cur e True r)"

text \<open>What the worker should record, and what should reach the wire.\<close>

definition job_result :: "session_env \<Rightarrow> job_claim \<Rightarrow> dispatch_result \<Rightarrow> string option \<Rightarrow>
    (ws_client_error, unit) result \<Rightarrow> job_outcome \<times> worker_inbound list" where
  "job_result v j d up r =
     (let i = jc_job_id j; wire = (\<lambda>f. case r of Inr _ \<Rightarrow> [f] | Inl _ \<Rightarrow> []) in case d of
        DispatchOk result \<Rightarrow> (case delivery_of (sv_show_json v) result (prompt_for (jc_task j)) of
            Upload out \<Rightarrow> (case up of None \<Rightarrow> (Completed, []) | Some msg \<Rightarrow> (JobFailed msg, wire (Fail i msg True)))
          | Json val \<Rightarrow> (case r of
                Inr _ \<Rightarrow> (Completed, [CompleteJson i val (Some (prompt_for (jc_task j)))])
              | Inl e \<Rightarrow> (JobFailed (''failed to send result: '' @ show_ws_error e), [])))
      | DispatchErr e chain \<Rightarrow> (JobFailed (ca_text e), wire (Fail i (ca_text e) (\<not> is_permanent_failure e chain)))
      | DispatchPanic e \<Rightarrow> (JobFailed e, wire (Fail i e True)))"

text \<open>A world whose only difference from \<open>s\<close> is that the task \<open>t\<close> is gone and the job \<open>cur\<close> has ended
  with an outcome and some frames sent.\<close>

definition job_ended :: "session_env \<Rightarrow> current_job \<Rightarrow> job_outcome \<Rightarrow> worker_inbound list \<Rightarrow> session_task list \<Rightarrow>
    'm session \<Rightarrow> 'm session \<Rightarrow> bool" where
  "job_ended v cur out fs ts s s' =
     (ss_tasks s' = ts \<and> \<not> busy (ss_gate s') \<and> ss_sent s' = ss_sent s @ fs \<and>
      ob_current_job (ss_observers s') = None \<and>
      cur \<notin> set (ob_active_jobs (ss_observers s')) \<and>
      ob_recent_jobs (ss_observers s') =
        keep_first RECENT_JOBS_CAP (recent_of (sv_now v) out cur # ob_recent_jobs (ss_observers s)))"

lemma finish_studio [simp]:
  "cj_source cur = Studio \<Longrightarrow> ob_recent_jobs (ss_observers (finish_job v cur out s)) =
     keep_first RECENT_JOBS_CAP (recent_of (sv_now v) out cur # ob_recent_jobs (ss_observers s))"
  by (simp add: finish_job_def run_finish_def record_recent_job_def)

lemma job_ended_finish:
  "cj_source cur = Studio \<Longrightarrow> ss_tasks s' = ts \<Longrightarrow> ss_sent s' = ss_sent s @ fs \<Longrightarrow>
   ob_recent_jobs (ss_observers s') = ob_recent_jobs (ss_observers s) \<Longrightarrow>
   job_ended v cur out fs ts s (finish_job v cur out s')"
  by (simp add: job_ended_def)

lemma report_ends_job:
  assumes "cj_source cur = Studio" "cj_job_id cur = i" "ss_tasks s' = ts @ [Failing cur msg b]" "Failing cur msg b \<notin> set ts"
    and "ss_sent s' = ss_sent s" "ob_recent_jobs (ss_observers s') = ob_recent_jobs (ss_observers s)"
  shows "\<exists>t. session_run (report_steps v cur msg b r) s' = Some t \<and>
    job_ended v cur (JobFailed msg) (case r of Inr _ \<Rightarrow> [Fail i msg b] | Inl _ \<Rightarrow> []) ts s t"
  using assms
  by (cases r) (auto simp: report_steps_def take_task_def after_fail_def remove1_append
      intro!: job_ended_finish)

text \<open>A running task carries the job it accepted.\<close>

definition tagged :: "'m session \<Rightarrow> bool" where
  "tagged s = (\<forall>cur j. Dispatching cur j \<in> set (ss_tasks s) \<longrightarrow> (\<exists>st. cur = current_of j st))"

lemma tagged_less:
  "tagged s \<Longrightarrow> (\<And>cur j. Dispatching cur j \<in> set (ss_tasks s') \<Longrightarrow> Dispatching cur j \<in> set (ss_tasks s)) \<Longrightarrow>
   tagged s'"
  by (simp add: tagged_def)

lemma in_remove1D: "x \<in> set (remove1 y xs) \<Longrightarrow> x \<in> set xs"
  using set_remove1_subset [of y xs] by blast

lemma tagged_step:
  assumes "tagged s" "session_step v p s = Some s'"
  shows "tagged s'"
proof (cases "\<exists>j st r. p = AcceptSent j st r")
  case True
  then obtain j st r where p: "p = AcceptSent j st r" by blast
  with assms(2) have "s' = after_accept v j st r (s\<lparr>ss_tasks := remove1 (Accepting j st) (ss_tasks s)\<rparr>)"
    by (auto dest: take_taskD)
  then show ?thesis using assms(1)
    by (cases r) (auto simp: tagged_def after_accept_def Let_def dest: in_remove1D)
next
  case False
  from assms(1) show ?thesis
  proof (rule tagged_less)
    fix cur j
    assume d: "Dispatching cur j \<in> set (ss_tasks s')"
    show "Dispatching cur j \<in> set (ss_tasks s)"
    proof (cases p)
      case (Receive ev)
      with assms(2) have s': "s' = fst (dispatch_event v ev s)" by simp
      show ?thesis
      proof (cases rule: dispatch_event_cases [of ev v s])
        case (offer c)
        show ?thesis
        proof (cases "offer_refusal v c s")
          case None
          with handle_offer_taken [OF None] d s' offer show ?thesis by simp
        next
          case (Some q)
          with handle_offer_refused [of v c s "fst q" "snd q"] d s' offer show ?thesis by simp
        qed
      next
        case quiet
        with s' d show ?thesis by simp
      qed
    next
      case (AcceptSent j st r)
      with False show ?thesis by blast
    next
      case (DispatchEnds c jc dr el)
      with assms(2) d show ?thesis
        by (cases dr) (auto dest!: take_taskD simp: after_dispatch_def Let_def dest: in_remove1D
            split: delivery.splits)
    next
      case (UploadEnds c out msg)
      with assms(2) d show ?thesis
        by (cases msg) (auto dest!: take_taskD simp: after_upload_def dest: in_remove1D)
    next
      case (JsonSent c val prompt r)
      with assms(2) d show ?thesis
        by (cases r) (auto dest!: take_taskD simp: after_json_def Let_def dest: in_remove1D)
    qed (use assms(2) d in \<open>auto dest!: take_taskD simp: after_reject_def after_fail_def try_reserve_def
          dest: in_remove1D split: if_splits\<close>)
  qed
qed

lemma tagged_run: "tagged s \<Longrightarrow> session_run ps s = Some s' \<Longrightarrow> tagged s'"
  by (induction ps s rule: session_run.induct) (auto split: option.splits dest: tagged_step)

lemma job_steps_end:
  assumes "cur = current_of j st" "Dispatching cur j \<in> set (ss_tasks s)"
    and alone: "\<forall>t \<in> set (remove1 (Dispatching cur j) (ss_tasks s)). \<not> holding t"
  shows "\<exists>s'. session_run (job_steps v cur j d up r) s = Some s' \<and>
    job_ended v cur (fst (job_result v j d up r)) (snd (job_result v j d up r))
      (remove1 (Dispatching cur j) (ss_tasks s)) s s'"
proof -
  let ?ts = "remove1 (Dispatching cur j) (ss_tasks s)"
  let ?s1 = "after_dispatch v ''1s'' cur j d (s\<lparr>ss_tasks := ?ts\<rparr>)"
  have studio: "cj_source cur = Studio" "cj_job_id cur = jc_job_id j" using assms(1) by (simp_all add: current_of_def)
  have fresh: "Failing cur m b \<notin> set ?ts" "Uploading cur out \<notin> set ?ts" "SendingJson cur val pr \<notin> set ?ts"
    for m b out val pr using alone by fastforce+
  have step: "session_step v (DispatchEnds cur j d ''1s'') s = Some ?s1" using assms(2) by (simp add: take_task_def)
  have s1: "ss_sent ?s1 = ss_sent s" "ob_recent_jobs (ss_observers ?s1) = ob_recent_jobs (ss_observers s)"
    by (cases d; simp add: after_dispatch_def Let_def)+
  show ?thesis
  proof (cases d)
    case (DispatchErr e chain)
    then have "ss_tasks ?s1 = ?ts @ [Failing cur (ca_text e) (\<not> is_permanent_failure e chain)]"
      by (simp add: after_dispatch_def)
    from report_ends_job [OF studio this fresh(1), of s v r] s1 step DispatchErr show ?thesis
      by (auto simp: job_steps_def job_result_def Let_def job_ended_def studio)
  next
    case (DispatchPanic e)
    then have "ss_tasks ?s1 = ?ts @ [Failing cur e True]" by (simp add: after_dispatch_def)
    from report_ends_job [OF studio this fresh(1), of s v r] s1 step DispatchPanic show ?thesis
      by (auto simp: job_steps_def job_result_def Let_def job_ended_def studio)
  next
    case (DispatchOk result)
    show ?thesis
    proof (cases "delivery_of (sv_show_json v) result (prompt_for (jc_task j))")
      case (Json val)
      with DispatchOk have t: "ss_tasks ?s1 = ?ts @ [SendingJson cur val (prompt_for (jc_task j))]"
        by (simp add: after_dispatch_def)
      then show ?thesis using step s1 DispatchOk Json fresh(3) studio
        by (cases r) (auto simp: job_steps_def job_result_def take_task_def remove1_append after_json_def Let_def
            intro!: job_ended_finish)
    next
      case (Upload out)
      with DispatchOk have t: "ss_tasks ?s1 = ?ts @ [Uploading cur out]" by (simp add: after_dispatch_def)
      let ?s2 = "after_upload v cur up (?s1\<lparr>ss_tasks := ?ts\<rparr>)"
      have step2: "session_step v (UploadEnds cur out up) ?s1 = Some ?s2"
        using t fresh(2) by (simp add: take_task_def remove1_append)
      show ?thesis
      proof (cases up)
        case None
        then show ?thesis using step step2 s1 DispatchOk Upload studio
          by (auto simp: job_steps_def job_result_def after_upload_def Let_def intro!: job_ended_finish)
      next
        case (Some msg)
        then have "ss_tasks ?s2 = ?ts @ [Failing cur msg True]" by (simp add: after_upload_def)
        from report_ends_job [OF studio this fresh(1), of s v r] s1 step step2 Some DispatchOk Upload
        show ?thesis by (auto simp: job_steps_def job_result_def Let_def job_ended_def studio after_upload_def)
      qed
    qed
  qed
qed

text \<open>C20: every accepted job ends: whatever the engine answers (a result, an error, a panic),
  however the upload ends and whether the last send succeeds, the job's task takes at most three
  more steps to its end; then the slot is free, no current job is shown, the job heads the recent
  ring with the outcome, which is a success exactly when the result was delivered, and the one
  frame reported is the result or a failure that is retryable unless it is permanent.\<close>

theorem studio_job_ends:
  assumes "session_run ps (session_new cfg h up p) = Some s" and "Dispatching cur j \<in> set (ss_tasks s)"
  shows "\<exists>s'. session_run (job_steps v cur j d u r) s = Some s' \<and>
    length (job_steps v cur j d u r) \<le> 3 \<and>
    job_ended v cur (fst (job_result v j d u r)) (snd (job_result v j d u r))
      (remove1 (Dispatching cur j) (ss_tasks s)) s s'"
proof -
  have "sound s" by (rule sound_run [OF sound_new assms(1)])
  then have "\<forall>t \<in> set (remove1 (Dispatching cur j) (ss_tasks s)). \<not> holding t"
    using holder_alone [of s "Dispatching cur j"] assms(2) by (simp add: sound_def)
  moreover have "tagged s"
    by (rule tagged_run [OF _ assms(1)]) (simp add: tagged_def session_new_def)
  then obtain st where "cur = current_of j st" using assms(2) by (auto simp: tagged_def)
  moreover have "length (job_steps v cur j d u r) \<le> 3"
    by (simp add: job_steps_def report_steps_def split: dispatch_result.splits delivery.splits option.splits)
  ultimately show ?thesis using job_steps_end assms(2) by blast
qed

theorem studio_job_ends_witness:
  "\<exists>s'. session_run (job_steps sample_env (current_of (into_job_claim sample_offer) 0) (into_job_claim sample_offer)
      (DispatchPanic ''x'') None (Inr ())) sample_accepted = Some s' \<and>
    ss_sent s' = [Accept ''j'', Fail ''j'' ''x'' True]"
  using studio_job_ends [OF sample_run(1) [unfolded sample_session_def], of "current_of (into_job_claim sample_offer) 0"
      "into_job_claim sample_offer" sample_env "DispatchPanic ''x''" None "Inr ()"] sample_run(2,4)
  by (auto simp: sample_running_def job_ended_def job_result_def Let_def into_job_claim_def sample_offer_def)

end
