(* ===== verification/WsReconnect.thy ===== *)
theory WsReconnect
  imports WsProperties
begin

text \<open>
  The outcome of a session and the reconnect loop: what ends a session, what it leaves running,
  how long the worker waits and when it gives up.
\<close>

section \<open>The outcome of a session\<close>

text \<open>Reference: the outcome the events decide, and whether the studio welcomed the worker.\<close>

definition drop_outcome :: "ws_client_error \<Rightarrow> session_outcome" where
  "drop_outcome e = (case e of WsAuthFailed r \<Rightarrow> SoAuthFailed r
     | WsRegistrationRevoked r \<Rightarrow> SoRegistrationRevoked r | _ \<Rightarrow> SoDisconnected)"

fun verdict :: "bool \<Rightarrow> session_event list \<Rightarrow> session_outcome \<times> bool" where
  "verdict welcomed [] = (SoDisconnected, welcomed)"
| "verdict welcomed (EvDisconnected e # evs) = (drop_outcome e, welcomed)"
| "verdict welcomed (EvStopped # evs) = (if welcomed then SoStopped else SoDisconnected, welcomed)"
| "verdict welcomed (EvFrame f # evs) = (case f of
       ErrorFrame code message \<Rightarrow> (error_outcome code message, welcomed)
     | Welcome _ _ \<Rightarrow> verdict True evs
     | _ \<Rightarrow> verdict welcomed evs)"

definition session_verdict :: "config \<Rightarrow> connection \<Rightarrow> (string, session_outcome) result \<times> bool" where
  "session_verdict cfg k =
     (if \<not> has_credentials cfg then (Inr (SoFatal ''worker_id or auth_token missing; run register''), False)
      else case cn_connect k of
        Inl e \<Rightarrow> (Inr (drop_outcome e), False)
      | Inr _ \<Rightarrow> (case (cn_engine k, cn_hello k) of
          (Inl e, _) \<Rightarrow> (Inl e, False)
        | (Inr _, Inl e) \<Rightarrow> (Inl (''hello send failed: '' @ show_ws_error e), False)
        | (Inr _, Inr _) \<Rightarrow> (case verdict False (map snd (cn_events k)) of (out, w) \<Rightarrow> (Inr out, w))))"

lemma dispatch_event_verdict:
  "verdict True (ev # evs) =
     (case snd (dispatch_event v ev s) of Some out \<Rightarrow> (out, True) | None \<Rightarrow> verdict True evs)"
proof (cases ev)
  case (EvFrame f)
  then show ?thesis by (cases f) (simp_all add: dispatch_event_def)
next
  case EvStopped
  then show ?thesis by (simp add: dispatch_event_def)
next
  case (EvDisconnected e)
  then show ?thesis by (cases e) (simp_all add: dispatch_event_def drop_outcome_def)
qed

lemma loop_verdict: "verdict True (map snd evs) = (snd (run_dispatch_loop evs s), True)"
proof (induction evs s rule: run_dispatch_loop.induct)
  case (2 v ev evs s)
  then show ?case
    by (simp only: list.map snd_conv dispatch_event_verdict [of ev "map snd evs" v s])
      (simp split: prod.splits option.splits)
qed simp

lemma welcome_verdict:
  "verdict False (map snd evs) = (case wait_for_welcome evs s of
       (_, Welcomed, rest) \<Rightarrow> verdict True (map snd rest)
     | (_, WoAuthFailed r, _) \<Rightarrow> (SoAuthFailed r, False)
     | (_, WoRegistrationRevoked r, _) \<Rightarrow> (SoRegistrationRevoked r, False)
     | (_, WoFatal r, _) \<Rightarrow> (SoFatal r, False)
     | (_, WoDisconnected, _) \<Rightarrow> (SoDisconnected, False))"
proof (induction evs s rule: wait_for_welcome.induct)
  case (2 v ev evs s)
  show ?case
  proof (cases ev)
    case (EvFrame f)
    then show ?thesis
    proof (cases f)
      case (ErrorFrame code message)
      with EvFrame show ?thesis by (cases code) (simp_all add: error_outcome_def)
    qed (use 2 EvFrame in auto)
  next
    case (EvDisconnected e)
    then show ?thesis by (cases e) (simp_all add: drop_outcome_def)
  qed simp
qed simp

text \<open>Tasks are only ever added.\<close>

definition keeps_tasks :: "'m session \<Rightarrow> 'm session \<Rightarrow> bool" where
  "keeps_tasks s s' = (\<exists>new. ss_tasks s' = ss_tasks s @ new)"

lemma keeps_tasks_refl: "ss_tasks s' = ss_tasks s \<Longrightarrow> keeps_tasks s s'"
  by (simp add: keeps_tasks_def)

lemma keeps_tasks_trans: "keeps_tasks s t \<Longrightarrow> keeps_tasks t u \<Longrightarrow> keeps_tasks s u"
  by (auto simp: keeps_tasks_def)

lemma dispatch_keeps_tasks: "keeps_tasks s (fst (dispatch_event v ev s))"
proof (cases rule: dispatch_event_cases [of ev v s])
  case (offer c)
  then show ?thesis
  proof (cases "offer_refusal v c s")
    case None
    with handle_offer_taken [OF None] offer show ?thesis by (simp add: keeps_tasks_def)
  next
    case (Some q)
    with handle_offer_refused [of v c s "fst q" "snd q"] offer show ?thesis by (simp add: keeps_tasks_def)
  qed
next
  case quiet
  then show ?thesis by (simp add: keeps_tasks_refl)
qed

lemma loop_keeps_tasks: "keeps_tasks s (fst (run_dispatch_loop evs s))"
proof (induction evs s rule: run_dispatch_loop.induct)
  case (2 v ev evs s)
  obtain s1 o1 where d: "dispatch_event v ev s = (s1, o1)" by (cases "dispatch_event v ev s")
  then have k: "keeps_tasks s s1" using dispatch_keeps_tasks [of s v ev] by simp
  with 2 d show ?case by (cases o1) (auto intro: keeps_tasks_trans)
qed (simp add: keeps_tasks_refl)

lemma welcome_same_tasks: "ss_tasks (fst (wait_for_welcome evs s)) = ss_tasks s"
proof (induction evs s rule: wait_for_welcome.induct)
  case (2 v ev evs s)
  show ?case
  proof (cases ev)
    case (EvFrame f)
    with 2 show ?thesis by (cases f) simp_all
  next
    case (EvDisconnected e)
    then show ?thesis by (cases e) simp_all
  qed simp
qed simp

lemma has_credentials_unwrap:
  "has_credentials cfg \<longleftrightarrow>
   \<not> (unwrap_or_default (worker_id cfg) = [] \<or> unwrap_or_default (auth_token cfg) = [])"
  by (auto simp: has_credentials_def unwrap_or_default_def split: option.splits)

lemma say_hello_tasks [simp]: "ss_tasks (say_hello v caps r s) = ss_tasks s"
  by (simp add: say_hello_def Let_def)

text \<open>The handshake and the loop after it.\<close>

definition run_welcomed :: "(session_env \<times> session_event) list \<Rightarrow> 'm session \<Rightarrow>
    'm session \<times> (string, session_outcome) result \<times> bool" where
  "run_welcomed evs s = (case wait_for_welcome evs s of
       (s, Welcomed, rest) \<Rightarrow> (case run_dispatch_loop rest (on_observers (set_session_state Connected) s) of
           (s, outcome) \<Rightarrow> (s, Inr outcome, True))
     | (s, WoAuthFailed reason, _) \<Rightarrow> (s, Inr (SoAuthFailed reason), False)
     | (s, WoRegistrationRevoked reason, _) \<Rightarrow> (s, Inr (SoRegistrationRevoked reason), False)
     | (s, WoFatal reason, _) \<Rightarrow> (s, Inr (SoFatal reason), False)
     | (s, WoDisconnected, _) \<Rightarrow> (s, Inr SoDisconnected, False))"

lemma run_welcomed_verdict:
  "snd (run_welcomed evs s) = (case verdict False (map snd evs) of (out, w) \<Rightarrow> (Inr out, w)) \<and>
   keeps_tasks s (fst (run_welcomed evs s))"
proof -
  obtain s1 o1 rest where w: "wait_for_welcome evs s = (s1, o1, rest)"
    by (cases "wait_for_welcome evs s") auto
  then have t: "ss_tasks s1 = ss_tasks s" using welcome_same_tasks [of evs s] by simp
  show ?thesis
  proof (cases o1)
    case Welcomed
    let ?s = "on_observers (set_session_state Connected) s1"
    have "keeps_tasks s (fst (run_dispatch_loop rest ?s))"
      using loop_keeps_tasks [of ?s rest] t by (simp add: keeps_tasks_def)
    then show ?thesis using Welcomed w welcome_verdict [of evs s] loop_verdict [of rest ?s]
      by (cases "run_dispatch_loop rest ?s") (simp add: run_welcomed_def)
  qed (use w t welcome_verdict [of evs s] in \<open>simp_all add: run_welcomed_def keeps_tasks_refl\<close>)
qed

lemma run_one_session_cases:
  "run_one_session v k s =
    (if \<not> has_credentials (ss_config s)
     then (s, Inr (SoFatal ''worker_id or auth_token missing; run register''), False)
     else let s1 = say v ''info'' (''connecting to '' @ api_base_url (ss_config s)) None s in
       case cn_connect k of
         Inl e \<Rightarrow> ((case e of WsAuthFailed _ \<Rightarrow> s1 | WsRegistrationRevoked _ \<Rightarrow> s1
             | _ \<Rightarrow> say v ''warn'' (''connect failed: '' @ show_ws_error e) None s1), Inr (drop_outcome e), False)
       | Inr _ \<Rightarrow> (case cn_engine k of
           Inl e \<Rightarrow> (s1, Inl e, False)
         | Inr engine \<Rightarrow>
             (let s2 = say_hello v (build_capabilities_with (cn_machine k) (ss_config s) engine (\<not> ss_paused s)
                    (ob_user_presence (ss_observers s))) (cn_hello k) s1
              in case cn_hello k of
                   Inl e \<Rightarrow> (s2, Inl (''hello send failed: '' @ show_ws_error e), False)
                 | Inr _ \<Rightarrow> run_welcomed (cn_events k) s2)))"
  by (simp add: run_one_session_def has_credentials_unwrap run_welcomed_def Let_def drop_outcome_def
      split: sum.splits ws_client_error.splits)

lemma session_outcome_is:
  "snd (run_one_session v k s) = session_verdict (ss_config s) k \<and> keeps_tasks s (fst (run_one_session v k s))"
proof (cases "has_credentials (ss_config s)")
  case False
  then show ?thesis by (simp add: run_one_session_cases session_verdict_def keeps_tasks_refl)
next
  case True
  show ?thesis
  proof (cases "cn_connect k")
    case (Inl e)
    with True show ?thesis
      by (cases e) (simp_all add: run_one_session_cases session_verdict_def keeps_tasks_def Let_def)
  next
    case connected: (Inr x)
    show ?thesis
    proof (cases "cn_engine k")
      case (Inl e)
      with True connected show ?thesis
        by (simp add: run_one_session_cases session_verdict_def keeps_tasks_def)
    next
      case (Inr engine)
      let ?s2 = "say_hello v (build_capabilities_with (cn_machine k) (ss_config s) engine (\<not> ss_paused s)
          (ob_user_presence (ss_observers s))) (cn_hello k)
          (say v ''info'' (''connecting to '' @ api_base_url (ss_config s)) None s)"
      from True connected Inr run_welcomed_verdict [of "cn_events k" ?s2] show ?thesis
        by (cases "cn_hello k") (simp_all add: run_one_session_cases session_verdict_def keeps_tasks_def)
    qed
  qed
qed

text \<open>C21: a session ends for exactly one reason, the first one met: missing credentials, a failed
  connect, engine build or hello, the first error frame or disconnect; a stop counts only once the
  studio has welcomed the worker, and no other frame ends it.  Whatever ends it, no task is lost:
  an offered job keeps running after its session.\<close>

theorem session_ends_for_the_first_reason:
  "snd (run_one_session v k s) = session_verdict (ss_config s) k \<and>
   (\<exists>new. ss_tasks (fst (run_one_session v k s)) = ss_tasks s @ new)"
  using session_outcome_is [of v k s] by (simp add: keeps_tasks_def)

section \<open>Waiting and giving up\<close>

lemma wait_loop_bounds:
  "elapsed \<le> dur \<Longrightarrow> 0 < tick \<Longrightarrow> \<exists>w. wait_loop stop dur tick k elapsed = Some w \<and> elapsed \<le> w \<and> w \<le> dur \<and>
     (\<forall>j \<ge> k. stop j \<longrightarrow> w \<le> elapsed + (j - k) * tick) \<and> ((\<forall>j \<ge> k. \<not> stop j) \<longrightarrow> w = dur)"
proof (induction stop dur tick k elapsed rule: wait_loop.induct)
  case (1 stop dur tick k elapsed)
  show ?case
  proof (cases "elapsed < dur \<and> \<not> stop k")
    case False
    with 1(2) show ?thesis by (subst wait_loop.simps) auto
  next
    case True
    let ?e = "elapsed + min tick (dur - elapsed)"
    have "?e \<le> dur" using True by linarith
    then obtain w where w: "wait_loop stop dur tick (Suc k) ?e = Some w" "?e \<le> w" "w \<le> dur"
      "\<forall>j \<ge> Suc k. stop j \<longrightarrow> w \<le> ?e + (j - Suc k) * tick" "(\<forall>j \<ge> Suc k. \<not> stop j) \<longrightarrow> w = dur"
      using 1 True by auto
    have "w \<le> elapsed + (j - k) * tick" if "k \<le> j" "stop j" for j
    proof -
      from that True have j: "Suc k \<le> j" by (metis le_antisym not_less_eq_eq)
      with w(4) that have "w \<le> ?e + (j - Suc k) * tick" by blast
      also have "\<dots> \<le> elapsed + tick + (j - Suc k) * tick" by simp
      also have "\<dots> = elapsed + (j - k) * tick" using j by (simp add: Suc_diff_Suc [symmetric])
      finally show ?thesis .
    qed
    with True w 1(3) show ?thesis by (subst wait_loop.simps) auto
  qed
qed

text \<open>The wait before reconnect attempt \<open>a\<close> is the base doubled \<open>a - 1\<close> times, capped, with no
  overflow at any attempt; it always ends, within a tick of a stop, and lasts exactly that long
  when nobody stops it.\<close>

theorem reconnect_backoff:
  assumes "0 < sc_shutdown_tick sch"
    and ms_def: "ms = unat (backoff_for a sch)"
  shows "ms = min (unat (sc_base_backoff_ms sch) * 2 ^ (unat a - 1)) (unat (sc_max_backoff_ms sch)) \<and>
    (\<exists>w. wait_with_stop stop ms (sc_shutdown_tick sch) = Some w \<and> w \<le> ms \<and>
       (\<forall>j. stop j \<longrightarrow> w \<le> j * sc_shutdown_tick sch) \<and> ((\<forall>j. \<not> stop j) \<longrightarrow> w = ms))"
proof -
  let ?b = "unat (sc_base_backoff_ms sch)" and ?m = "unat (sc_max_backoff_ms sch)" and ?M = "2 ^ 64 - 1 :: nat"
  have m: "?m \<le> ?M" using unsigned_less [of "sc_max_backoff_ms sch", where 'a = nat] by simp
  have "ms = min (min (?b * min (2 ^ (unat a - 1)) ?M) ?M) ?m"
    by (simp add: ms_def backoff_for_def Let_def unat_sat_mul unat_sat_pow unat_sat_sub min_def word_le_nat_alt)
  also have "\<dots> = min (?b * 2 ^ (unat a - 1)) ?m"
  proof (cases "2 ^ (unat a - 1) \<le> ?M")
    case True
    then show ?thesis using m by (simp add: min_def)
  next
    case False
    show ?thesis
    proof (cases "?b = 0")
      case False
      have "?M \<le> ?b * ?M" "?M \<le> ?b * 2 ^ (unat a - 1)"
        using False \<open>\<not> 2 ^ (unat a - 1) \<le> ?M\<close> by (auto intro: order.trans [of _ "2 ^ (unat a - 1)"])
      then show ?thesis using m \<open>\<not> 2 ^ (unat a - 1) \<le> ?M\<close> by (simp add: min_def)
    qed simp
  qed
  finally show ?thesis
    using wait_loop_bounds [of 0 ms "sc_shutdown_tick sch" stop 0] assms(1) by (auto simp: wait_with_stop_def)
qed

theorem reconnect_backoff_witness:
  "unat (backoff_for 4 session_schedule_default) = 8000 \<and> unat (backoff_for 100 session_schedule_default) = 30000"
  using reconnect_backoff [of session_schedule_default _ 4 "\<lambda>_. False", OF _ refl]
    reconnect_backoff [of session_schedule_default _ 100 "\<lambda>_. False", OF _ refl]
  by (simp add: session_schedule_default_def)

text \<open>A turn that neither stops nor reaches a welcome, but may be retried.\<close>

definition fails :: "turn \<Rightarrow> bool" where
  "fails t = (\<not> tu_stop t \<and> has_credentials (tu_config t) \<and>
     (case session_verdict (tu_config t) (tu_conn t) of
        (Inr SoDisconnected, False) \<Rightarrow> True | (Inl _, False) \<Rightarrow> True | _ \<Rightarrow> False))"

lemma fails_turn:
  assumes "fails t"
  shows "ws_loop n sch (t # ts) a logged s =
    (case retry_after (tu_env t) n sch
         (case fst (session_verdict (tu_config t) (tu_conn t)) of Inl e \<Rightarrow> Some e | Inr _ \<Rightarrow> None) False a
         (fst (run_one_session (tu_env t) (tu_conn t) (on_observers (set_session_state Connecting)
           (s\<lparr>ss_config := tu_config t\<rparr>)))) of
       (s', DriverRetry b _) \<Rightarrow> ws_loop n sch ts b False s'
     | (s', DriverErr e) \<Rightarrow> (s', Some (Inl e))
     | (s', DriverExit e) \<Rightarrow> (s', Some (Inr e)))"
proof -
  let ?s = "on_observers (set_session_state Connecting) (s\<lparr>ss_config := tu_config t\<rparr>)"
  obtain s1 r w where run: "run_one_session (tu_env t) (tu_conn t) ?s = (s1, r, w)"
    by (cases "run_one_session (tu_env t) (tu_conn t) ?s") auto
  then have "session_verdict (tu_config t) (tu_conn t) = (r, w)"
    using session_outcome_is [of "tu_env t" "tu_conn t" ?s] by simp
  with assms run show ?thesis
    by (cases r) (auto simp: fails_def after_attempt_def Let_def
        split: session_outcome.splits driver_next.splits prod.splits bool.splits)
qed

lemma unat_Suc: "unat a + 1 < 2 ^ LENGTH('l) \<Longrightarrow> unat (a + 1 :: 'l::len word) = unat a + 1"
  by (simp add: unat_word_ariths unsigned_1)

lemma gives_up_after:
  "\<forall>t \<in> set ts. fails t \<Longrightarrow> unat a + length ts < 2 ^ 32 \<Longrightarrow> \<not> (0 < n \<and> n < a) \<Longrightarrow>
   snd (ws_loop n sch ts a logged s) =
     (if 0 < n \<and> unat n < unat a + length ts then Some (Inl ''ws reconnect cap reached'') else None)"
proof (induction ts arbitrary: a logged s)
  case Nil
  then show ?case by (auto simp: word_less_nat_alt)
next
  case (Cons t ts)
  have next_a: "unat (a + 1) = unat a + 1" using Cons.prems(2) by (intro unat_Suc) simp
  show ?case
  proof (cases "0 < n \<and> n < a + 1")
    case True
    then have "unat n < unat a + length (t # ts)" using next_a by (simp add: word_less_nat_alt)
    with True Cons.prems(1) show ?thesis
      by (simp add: fails_turn retry_after_def reconnect_exhausted_def Let_def del: ws_loop.simps)
  next
    case False
    have "snd (ws_loop n sch ts (a + 1) False s') =
      (if 0 < n \<and> unat n < unat a + length (t # ts) then Some (Inl ''ws reconnect cap reached'') else None)" for s' :: "'a session"
      using Cons.IH [of "a + 1" False s'] Cons.prems next_a False by (simp add: add.assoc)
    with False Cons.prems(1) show ?thesis
      by (simp add: fails_turn retry_after_def reconnect_exhausted_def Let_def del: ws_loop.simps)
  qed
qed

text \<open>The worker gives up reconnecting exactly when the operator's cap of attempts is exceeded
  by consecutive failures; with no cap, or a cap of zero, it never does, however long the studio
  stays away.\<close>

theorem reconnect_gives_up_at_the_cap:
  assumes "\<forall>t \<in> set ts. fails t" and "length ts < 2 ^ 32"
  shows "snd (spawn_ws_session sch ts s) =
    (case ws_reconnect_attempts (ss_config s) of
       None \<Rightarrow> None
     | Some n \<Rightarrow> if n \<noteq> 0 \<and> unat n < length ts then Some (Inl ''ws reconnect cap reached'') else None)"
  using gives_up_after [of ts 0 _ sch False s] assms
  by (auto simp: spawn_ws_session_def DEFAULT_RECONNECT_ATTEMPTS_def word_neq_0_conv split: option.splits)

definition sample_turn :: turn where
  "sample_turn = \<lparr>tu_env = sample_env, tu_stop = False,
     tu_config = (config_default ''t'' None)\<lparr>worker_id := Some ''w'', auth_token := Some ''k''\<rparr>,
     tu_conn = \<lparr>cn_connect = Inl WsConnectionClosed, cn_engine = Inl ''none'',
       cn_machine = \<lparr>mc_name = [], mc_user = [], mc_version = [], mc_vram_gb = None, mc_ui_build = False\<rparr>,
       cn_hello = Inr (), cn_events = []\<rparr>\<rparr>"

theorem reconnect_gives_up_at_the_cap_witness:
  "snd (spawn_ws_session session_schedule_default (replicate 3 sample_turn)
     (sample_session\<lparr>ss_config := (config_default ''t'' None)\<lparr>ws_reconnect_attempts := Some 2\<rparr>\<rparr>))
   = Some (Inl ''ws reconnect cap reached'')"
proof -
  have "fails sample_turn"
    by (simp add: fails_def sample_turn_def session_verdict_def has_credentials_def drop_outcome_def)
  then show ?thesis
    using reconnect_gives_up_at_the_cap [of "replicate 3 sample_turn" session_schedule_default
        "sample_session\<lparr>ss_config := (config_default ''t'' None)\<lparr>ws_reconnect_attempts := Some 2\<rparr>\<rparr>"]
    by simp
qed

end
