(* ===== verification/ServeStudio.thy ===== *)
theory ServeStudio
  imports Control WsReconnect
begin

text \<open>
  \<^verbatim>\<open>serve_studio\<close> of \<^verbatim>\<open>src/src/runtime.rs\<close>: the registration gate, the studio session, and the
  way back to the gate after a revocation or a rejection.  One round is what the environment brings
  to one turn of the loop: the gate's ticks, the session's turns, and the polls of the rejection wait.
\<close>

section \<open>The loop\<close>

text \<open>The stop flag is part of every input; the reset flag is state, since a request may outlive
  the wait it was meant for.\<close>

record 'm studio =
  st_reg :: reg_world
  st_session :: "'m session"
  st_reset_requested :: bool \<comment> \<open>\<open>DaemonControl::reset_requested\<close>\<close>

record round =
  rd_gate :: "(bool \<times> reg_env \<times> bool) list"
  rd_schedule :: session_schedule
  rd_turns :: "turn list"
  rd_wait :: "(bool \<times> bool) list"
  rd_env :: reg_env

text \<open>Each poll: the stop flag, and whether the operator asked for a reset before it.\<close>

fun wait_for_registration_reset ::
  "registration_state \<Rightarrow> (bool \<times> bool) list \<Rightarrow> bool \<Rightarrow> bool \<times> bool option" where
  "wait_for_registration_reset st [] flag = (flag, None)"
| "wait_for_registration_reset st ((stop, asked) # polls) flag =
     (let flag = (if asked then fst (request_registration_reset st flag) else flag)
      in if stop then (flag, Some False)
         else if flag then (False, Some True)
         else wait_for_registration_reset st polls flag)"

definition reset_registration :: "reg_env \<Rightarrow> reg_world \<Rightarrow> reg_world \<times> (io_error, unit) result" where
  "reset_registration v w =
     (let c = clear_registration (rw_cfg w);
          (fs, r) = config_save (re_show v) (re_faults v) (re_tmp v) (rw_files w) c (re_path v);
          w = w\<lparr>rw_cfg := c, rw_files := fs\<rparr>
      in case r of Inl e \<Rightarrow> (w, Inl e) | Inr _ \<Rightarrow> (show_state RsPristine w, Inr ()))"

datatype serve_error = SaveFailed io_error | LoopsFailed string

text \<open>\<open>None\<close>: the daemon still serves when the rounds end.  The session reads the shared
  configuration when it starts; what it is at each later turn comes with the turn.\<close>

fun serve_studio :: "round list \<Rightarrow> 'm studio \<Rightarrow> 'm studio \<times> (serve_error, unit) result option" where
  "serve_studio [] w = (w, None)"
| "serve_studio (rd # rds) w =
     (case ensure_registered (rd_gate rd) (st_reg w) of
        (g, None) \<Rightarrow> (w\<lparr>st_reg := g\<rparr>, None)
      | (g, Some (Inr GateStopped)) \<Rightarrow> (w\<lparr>st_reg := g\<rparr>, Some (Inr ()))
      | (g, Some (Inr GateReady)) \<Rightarrow>
          (case spawn_ws_session (rd_schedule rd) (rd_turns rd) ((st_session w)\<lparr>ss_config := rw_cfg g\<rparr>) of
             (s, None) \<Rightarrow> (w\<lparr>st_reg := g, st_session := s\<rparr>, None)
           | (s, Some (Inr ExitStopped)) \<Rightarrow> (w\<lparr>st_reg := g, st_session := s\<rparr>, Some (Inr ()))
           | (s, Some (Inr ExitRegistrationRevoked)) \<Rightarrow>
               (case reset_registration (rd_env rd) g of
                  (g, Inl e) \<Rightarrow> (w\<lparr>st_reg := g, st_session := s\<rparr>, Some (Inl (SaveFailed e)))
                | (g, Inr _) \<Rightarrow> serve_studio rds (w\<lparr>st_reg := g, st_session := s\<rparr>))
           | (s, Some (Inl e)) \<Rightarrow> (w\<lparr>st_reg := g, st_session := s\<rparr>, Some (Inl (LoopsFailed e))))
      | (g, Some (Inl _)) \<Rightarrow>
          (case wait_for_registration_reset (rw_state g) (rd_wait rd) (st_reset_requested w) of
             (flag, None) \<Rightarrow> (w\<lparr>st_reg := g, st_reset_requested := flag\<rparr>, None)
           | (flag, Some False) \<Rightarrow> (w\<lparr>st_reg := g, st_reset_requested := flag\<rparr>, Some (Inr ()))
           | (flag, Some True) \<Rightarrow>
               (case reset_registration (rd_env rd) g of
                  (g, Inl e) \<Rightarrow> (w\<lparr>st_reg := g, st_reset_requested := flag\<rparr>, Some (Inl (SaveFailed e)))
                | (g, Inr _) \<Rightarrow> serve_studio rds (w\<lparr>st_reg := g, st_reset_requested := flag\<rparr>))))"

section \<open>Facts\<close>

lemma tick_cleared:
  assumes "re_engine v = Inr e"
    and cleared: "rw_cfg w = clear_registration c"
  shows "\<exists>p. snd (snd (tick v w)) = [PostRequest p] \<and> ar_install_id p = new_uuid (re_uuid_bytes v) \<and>
    ar_registration_secret_hash p = sha256_hex (re_sha256 v) (new_secret_hex (re_secret_bytes v))"
  using assms
  by (auto simp: tick_def create_request_def ensure_install_state_def build_payload_def clear_registration_def
      is_registered_def Let_def split: sum.splits)

lemma reset_registration_ok:
  assumes "reset_registration v w = (w', Inr ())" "re_tmp v \<noteq> re_path v" "rw_files w (re_tmp v) = None"
  shows "rw_cfg w' = clear_registration (rw_cfg w) \<and> rw_state w' = RsPristine \<and>
    rw_files w' = (rw_files w)(re_path v \<mapsto> re_show v (clear_registration (rw_cfg w)))"
  using assms save_text_cases [where fs = "rw_files w" and tmp = "re_tmp v" and p = "re_path v" and
      flt = "re_faults v" and content = "re_show v (clear_registration (rw_cfg w))"]
  by (auto simp: reset_registration_def config_save_def Let_def split: sum.splits)

text \<open>The two ways back to the gate: the studio revoked the worker while its session ran, or the
  operator asked for a reset after a rejection.\<close>

definition back_to_gate :: "round \<Rightarrow> 'm studio \<Rightarrow> reg_world \<Rightarrow> (string, registration_gate) result \<Rightarrow> bool" where
  "back_to_gate rd w g r = (case r of
       Inr GateReady \<Rightarrow> snd (spawn_ws_session (rd_schedule rd) (rd_turns rd) ((st_session w)\<lparr>ss_config := rw_cfg g\<rparr>))
         = Some (Inr ExitRegistrationRevoked)
     | Inr GateStopped \<Rightarrow> False
     | Inl _ \<Rightarrow> snd (wait_for_registration_reset (rw_state g) (rd_wait rd) (st_reset_requested w)) = Some True)"

lemma serve_studio_back:
  assumes "ensure_registered (rd_gate rd) (st_reg w) = (g, Some r)" "back_to_gate rd w g r"
    and "reset_registration (rd_env rd) g = (g', Inr ())"
  shows "\<exists>w1. serve_studio (rd # rds) w = serve_studio rds w1 \<and> st_reg w1 = g'"
proof (cases r)
  case (Inl e)
  then obtain flag where "wait_for_registration_reset (rw_state g) (rd_wait rd) (st_reset_requested w) = (flag, Some True)"
    using assms(2) by (cases "wait_for_registration_reset (rw_state g) (rd_wait rd) (st_reset_requested w)")
      (simp add: back_to_gate_def)
  with Inl assms(1,3) show ?thesis by (intro exI [of _ "w\<lparr>st_reg := g', st_reset_requested := flag\<rparr>"]) simp
next
  case (Inr gate)
  let ?run = "spawn_ws_session (rd_schedule rd) (rd_turns rd) ((st_session w)\<lparr>ss_config := rw_cfg g\<rparr>)"
  have ready: "gate = GateReady" and "snd ?run = Some (Inr ExitRegistrationRevoked)"
    using assms(2) Inr by (auto simp: back_to_gate_def split: registration_gate.splits)
  then obtain s where "?run = (s, Some (Inr ExitRegistrationRevoked))" by (cases ?run) simp
  with Inr ready assms(1,3) show ?thesis by (intro exI [of _ "w\<lparr>st_reg := g', st_session := s\<rparr>"]) simp
qed

text \<open>A worker whose registration the studio revoked, and one whose operator asked for a reset
  after a rejection, starts over: once the cleared state is saved, credentials, install id, request
  and secret are gone from memory and from the file, no other file changed, and the next tick posts a
  request with a fresh install id and a fresh secret (as soon as an engine can be described).\<close>

theorem registration_starts_over:
  assumes gate: "ensure_registered (rd_gate rd) (st_reg w) = (g, Some r)"
    and returns: "back_to_gate rd w g r"
    and saved: "reset_registration (rd_env rd) g = (g', Inr ())"
    and tmp: "re_tmp (rd_env rd) \<noteq> re_path (rd_env rd)" "rw_files g (re_tmp (rd_env rd)) = None"
  shows "\<exists>w1. serve_studio (rd # rds) w = serve_studio rds w1 \<and>
    rw_cfg (st_reg w1) = clear_registration (rw_cfg g) \<and> rw_state (st_reg w1) = RsPristine \<and>
    rw_files (st_reg w1) =
      (rw_files g)(re_path (rd_env rd) \<mapsto> re_show (rd_env rd) (clear_registration (rw_cfg g))) \<and>
    (\<forall>v e. re_engine v = Inr e \<longrightarrow>
       (\<exists>p. snd (snd (tick v (st_reg w1))) = [PostRequest p] \<and> ar_install_id p = new_uuid (re_uuid_bytes v) \<and>
            ar_registration_secret_hash p = sha256_hex (re_sha256 v) (new_secret_hex (re_secret_bytes v))))"
proof -
  from serve_studio_back [OF gate returns saved]
  obtain w1 where "serve_studio (rd # rds) w = serve_studio rds w1" and w1: "st_reg w1 = g'" by blast
  moreover note reset_registration_ok [OF saved tmp]
  ultimately show ?thesis using tick_cleared by (metis w1)
qed

definition sample_round :: round where
  "sample_round = \<lparr>rd_gate = [(False, sample_reg_env (Inr (Inr (Some (StatusRejected ''no'')))), False)],
     rd_schedule = session_schedule_default, rd_turns = [], rd_wait = [(False, False), (False, True)],
     rd_env = sample_reg_env (Inl ''panic'')\<rparr>"

definition sample_studio :: "unit studio" where
  "sample_studio = \<lparr>st_reg = sample_reg_world, st_session = sample_session, st_reset_requested = False\<rparr>"

lemma sample_reg_env_sel [simp]:
  "re_path (sample_reg_env a) = ''/c/w.toml''" "re_tmp (sample_reg_env a) = ''/c/t''"
  "re_show (sample_reg_env a) = (\<lambda>_. ''text'')" "re_faults (sample_reg_env a) = no_faults"
  "re_poll (sample_reg_env a) = a"
  by (simp_all add: sample_reg_env_def)

theorem registration_starts_over_witness:
  "\<exists>w1. serve_studio [sample_round] sample_studio = serve_studio [] w1 \<and>
     rw_cfg (st_reg w1) = config_default ''/tmp'' None \<and> rw_state (st_reg w1) = RsPristine \<and>
     rw_files (st_reg w1) ''/c/w.toml'' = Some ''text''"
proof -
  let ?v = "sample_reg_env (Inr (Inr (Some (StatusRejected ''no''))))"
  let ?g = "show_state (RsRejected ''no'') (change_cfg ?v forget_request sample_reg_world)"
  let ?r = "reset_registration (sample_reg_env (Inl ''panic'')) ?g"
  have saved: "config_save (\<lambda>_. ''text'') no_faults ''/c/t'' fs c ''/c/w.toml'' = (fs(''/c/w.toml'' \<mapsto> ''text''), Inr ())"
    if "fs ''/c/t'' = None" for fs c
    using that save_text_no_faults [where tmp = "''/c/t''" and p = "''/c/w.toml''"] by (simp add: config_save_def)
  have files: "rw_files ?g = [''/c/w.toml'' \<mapsto> ''text'']" and cfg: "rw_cfg ?g = config_default ''/tmp'' None\<lparr>install_id := Some ''u''\<rparr>"
    by (simp_all add: change_cfg_def save_cfg_def forget_request_def sample_reg_defs saved)
  have reset: "?r = (fst ?r, Inr ())"
    using files by (simp add: reset_registration_def saved Let_def)
  have gate: "ensure_registered (rd_gate sample_round) (st_reg sample_studio) = (?g, Some (Inl
      (''registration rejected by the studio operator: no.  Run `studio-worker register --reset` to clear local state and submit a fresh request.'')))"
  proof -
    have "tick ?v sample_reg_world = poll_existing ?v ''r'' ''s'' sample_reg_world"
      by (intro tick_polls) (simp_all add: is_registered_def sample_reg_defs)
    moreover have "\<not> is_registered (rw_cfg sample_reg_world)"
      by (simp add: is_registered_def sample_reg_defs)
    ultimately show ?thesis
      by (simp add: sample_round_def sample_studio_def poll_existing_def Let_def)
  qed
  show ?thesis
    using registration_starts_over [OF gate, of "fst ?r" "[]"] reset files cfg
    by (auto simp: back_to_gate_def sample_round_def sample_studio_def request_registration_reset_def
        clear_registration_def config_default_def)
qed

section \<open>An approval lost to a configuration change\<close>

lemma waits_without_credentials:
  assumes "\<forall>t \<in> set ts. \<not> tu_stop t \<and> \<not> has_credentials (tu_config t)"
  shows "snd (ws_loop n sch ts a logged s) = None"
  using assms by (induction ts arbitrary: logged s) (auto simp: Let_def)

text \<open>The configuration change of the tray and the approval of the studio can lose each other.  If the
  change reads the configuration before the approval is stored and stores its copy after, then, with
  every save successful, the gate was told Approved, yet the credentials are gone from memory and from the
  file (the file holds the edited old configuration), and the session that starts next waits for an approval
  nobody asks for: as long as the configuration stays and no stop comes, it never ends.\<close>

theorem config_change_loses_an_approval:
  assumes unreg: "\<not> is_registered (rw_cfg w)"
    and env: "re_faults v = no_faults" "re_tmp v \<noteq> re_path v" "rw_files w (re_tmp v) = None"
    and r: "r = race_run v edit [EditReads, ApprovalStores wid token, ApprovalSaves, EditSaves, EditStores] w"
    and turns: "\<forall>t \<in> set ts. \<not> tu_stop t \<and> tu_config t = rw_cfg r"
  shows "rw_state r = RsApproved \<and> \<not> is_registered (rw_cfg r) \<and>
    rw_files r (re_path v) = Some (re_show v (apply_to edit (rw_cfg w))) \<and>
    snd (spawn_ws_session sch ts s) = None"
proof -
  have files: "save_text no_faults (re_tmp v) fs (re_path v) c = (fs(re_path v \<mapsto> c), Inr ())"
    if "fs (re_tmp v) = None" for fs c
    using env(2) that by (rule save_text_no_faults)
  have cfg: "rw_cfg r = apply_to edit (rw_cfg w)" and st: "rw_state r = RsApproved"
    and on_disk: "rw_files r (re_path v) = Some (re_show v (apply_to edit (rw_cfg w)))"
    using env by (simp_all add: r race_run_def race_step_def save_text_of_def config_save_def files Let_def)
  have lost: "\<not> is_registered (rw_cfg r)" using unreg by (simp add: cfg is_registered_def)
  then have "\<not> has_credentials (rw_cfg r)" using has_credentials_registered by blast
  then have "snd (spawn_ws_session sch ts s) = None"
    unfolding spawn_ws_session_def by (intro waits_without_credentials) (use turns in auto)
  with st lost on_disk show ?thesis by blast
qed

theorem config_change_loses_an_approval_witness:
  "let r = race_run (sample_reg_env (Inl ''panic'')) sample_edit
      [EditReads, ApprovalStores ''w'' ''k'', ApprovalSaves, EditSaves, EditStores] sample_reg_world
   in rw_state r = RsApproved \<and> \<not> is_registered (rw_cfg r) \<and>
      snd (spawn_ws_session session_schedule_default (replicate 3 (sample_turn\<lparr>tu_config := rw_cfg r\<rparr>)) sample_session) = None"
proof -
  let ?r = "race_run (sample_reg_env (Inl ''panic'')) sample_edit
      [EditReads, ApprovalStores ''w'' ''k'', ApprovalSaves, EditSaves, EditStores] sample_reg_world"
  have "\<not> is_registered (rw_cfg sample_reg_world)" "rw_files sample_reg_world ''/c/t'' = None"
    by (simp_all add: is_registered_def sample_reg_defs)
  moreover have "\<not> tu_stop sample_turn" by (simp add: sample_turn_def)
  ultimately show ?thesis
    using config_change_loses_an_approval [where w = sample_reg_world and v = "sample_reg_env (Inl ''panic'')" and
        edit = sample_edit and wid = "''w''" and token = "''k''" and r = ?r and sch = session_schedule_default and
        ts = "replicate 3 (sample_turn\<lparr>tu_config := rw_cfg ?r\<rparr>)" and s = sample_session]
    by (simp only: Let_def) simp
qed

end
