(* ===== verification/Update.thy ===== *)
theory Update
  imports FileStore Net Secrets
begin

text \<open>
  \<^verbatim>\<open>src/src/update.rs\<close>, \<^verbatim>\<open>self_install.rs\<close> and \<^verbatim>\<open>variant.rs\<close>: finding a newer release, and
  installing it.  Versions are any linear order with a parser and a printer (the \<^verbatim>\<open>semver\<close> crate's
  \<open>Version\<close>); JSON, zip, SHA-256, the URL parser and what the network, the disk and the installer
  answer are arguments.  Every request sent and every installer run is recorded.
\<close>

section \<open>Errors\<close>

text \<open>An \<open>anyhow\<close> error, outermost context first; a link that is an I/O error carries its raw code and
  whether its kind is \<open>PermissionDenied\<close>.\<close>

record err_link =
  el_text :: string
  el_io :: "(nat option \<times> bool) option"

type_synonym anyhow = "err_link list"

definition bail :: "string \<Rightarrow> (anyhow, 'a) result" where
  "bail message = Inl [\<lparr>el_text = message, el_io = None\<rparr>]"

definition with_context :: "string \<Rightarrow> (anyhow, 'a) result \<Rightarrow> (anyhow, 'a) result" where
  "with_context message r = (case r of Inl e \<Rightarrow> Inl (\<lparr>el_text = message, el_io = None\<rparr> # e) | Inr a \<Rightarrow> Inr a)"

definition show_error :: "anyhow \<Rightarrow> string" where
  "show_error e = (case e of [] \<Rightarrow> [] | l # _ \<Rightarrow> el_text l)"

definition show_error_chain :: "anyhow \<Rightarrow> string" where
  "show_error_chain e = join_str '': '' (map el_text e)"

definition OS_BLOCKS :: "(nat \<times> string) list" where
  "OS_BLOCKS = [(5, ''access denied''), (32, ''the file is in use by another process''),
     (225, ''the antivirus flagged the file''), (1260, ''blocked by group policy''),
     (4551, ''blocked by an application control policy'')]"

definition os_block :: "bool \<Rightarrow> err_link \<Rightarrow> string option" where
  "os_block windows l = (case el_io l of
       None \<Rightarrow> None
     | Some (code, denied) \<Rightarrow>
         (case (if windows then Option.bind code (map_of OS_BLOCKS) else None) of
            Some reason \<Rightarrow> Some reason
          | None \<Rightarrow> if denied then Some ''permission denied'' else None))"

definition describe_failure :: "bool \<Rightarrow> anyhow \<Rightarrow> string" where
  "describe_failure windows e = (case find_map (os_block windows) e of
       Some reason \<Rightarrow> ''update blocked by the OS: '' @ reason @ '' ('' @ show_error_chain e @ '')''
     | None \<Rightarrow> ''update failed: '' @ show_error_chain e)"

section \<open>Releases\<close>

record github_asset =
  ga_name :: string
  ga_url :: string

record github_release =
  gr_tag :: string
  gr_prerelease :: bool
  gr_draft :: bool
  gr_assets :: "github_asset list"

datatype variant = Cpu | Cuda

definition variant_str :: "variant \<Rightarrow> string" where
  "variant_str b = (case b of Cpu \<Rightarrow> ''cpu'' | Cuda \<Rightarrow> ''cuda'')"

definition INSTALLER_ENV :: string where "INSTALLER_ENV = ''STUDIO_WORKER_VARIANT''"

definition cuda_archive_name :: "string \<Rightarrow> string" where
  "cuda_archive_name target = ''studio-worker-'' @ target @ ''-cuda.tar.xz''"

text \<open>The libraries the updater builds on, and the platform.\<close>

record 'v updater =
  uv_parse :: "string \<Rightarrow> 'v option"
  uv_show :: "'v \<Rightarrow> string"
  uv_url :: url_parser
  uv_debug :: "string \<Rightarrow> string"
  uv_status :: "u16 \<Rightarrow> string"
  uv_status_error :: "u16 \<Rightarrow> string \<Rightarrow> anyhow"
  uv_sha256 :: "string \<Rightarrow> bytes"
  uv_releases :: "string \<Rightarrow> github_release list option"
  uv_release :: "string \<Rightarrow> (anyhow, github_release) result"
  uv_unzip :: "string \<Rightarrow> (anyhow, (string option \<times> (anyhow, string) result) list) result"
  uv_windows :: bool

datatype 'v check_outcome = UpToDate 'v | NewerAvailable 'v 'v

text \<open>An HTTP answer's status, declared length, the bytes that came, and how the stream ended.\<close>

record http_body =
  bd_status :: u16
  bd_length :: "nat option"
  bd_received :: string
  bd_end :: "(anyhow, unit) result"

definition is_success :: "u16 \<Rightarrow> bool" where
  "is_success status = (200 \<le> status \<and> status < 300)"

definition parse_releases :: "'v updater \<Rightarrow> string \<Rightarrow> (anyhow, github_release list) result" where
  "parse_releases v body = (case uv_releases v body of
       Some l \<Rightarrow> Inr l
     | None \<Rightarrow> (case with_context ''feed JSON is neither an array nor a single release'' (uv_release v body) of
           Inl e \<Rightarrow> Inl e | Inr r \<Rightarrow> Inr [r]))"

definition fetch_releases ::
  "'v updater \<Rightarrow> string \<Rightarrow> (anyhow, http_body) result \<Rightarrow> (anyhow, github_release list) result" where
  "fetch_releases v feed answer = (case with_context (''GET '' @ feed) answer of
       Inl e \<Rightarrow> Inl e
     | Inr b \<Rightarrow>
         if \<not> is_success (bd_status b) then bail (''feed '' @ feed @ '' returned '' @ uv_status v (bd_status b))
         else case bd_end b of Inl e \<Rightarrow> Inl e | Inr _ \<Rightarrow> parse_releases v (bd_received b))"

text \<open>What follows the last occurrence: \<open>rsplit_once\<close>.\<close>

fun after_last :: "string \<Rightarrow> string \<Rightarrow> string option" where
  "after_last p [] = None"
| "after_last p (c # s) = (case after_last p s of
       Some r \<Rightarrow> Some r
     | None \<Rightarrow> if starts_with (c # s) p then Some (drop (length p) (c # s)) else None)"

definition parse_tag :: "'v updater \<Rightarrow> string \<Rightarrow> 'v option" where
  "parse_tag v tag = find_map (uv_parse v)
     [tag, (case strip_prefix ''v'' tag of Some r \<Rightarrow> r | None \<Rightarrow> tag),
      (case after_last ''-v'' tag of Some r \<Rightarrow> r | None \<Rightarrow> tag)]"

text \<open>\<open>Iterator::max\<close>: the greatest, the last of equals.\<close>

fun iter_max :: "('v::linorder) list \<Rightarrow> 'v option" where
  "iter_max [] = None"
| "iter_max (x # xs) = Some (foldl max x xs)"

definition candidates :: "('v::linorder) updater \<Rightarrow> bool \<Rightarrow> github_release list \<Rightarrow> 'v list" where
  "candidates v prerelease_ok releases =
     List.map_filter (\<lambda>r. parse_tag v (gr_tag r))
       (filter (\<lambda>r. prerelease_ok \<or> \<not> gr_prerelease r) (filter (\<lambda>r. \<not> gr_draft r) releases))"

definition decide :: "('v::linorder) updater \<Rightarrow> github_release list \<Rightarrow> 'v \<Rightarrow> bool \<Rightarrow> 'v check_outcome" where
  "decide v releases current prerelease_ok = (case iter_max (candidates v prerelease_ok releases) of
       Some latest \<Rightarrow> if current < latest then NewerAvailable current latest else UpToDate current
     | None \<Rightarrow> UpToDate current)"

definition check ::
  "('v::linorder) updater \<Rightarrow> string \<Rightarrow> (anyhow, http_body) result \<Rightarrow> 'v \<Rightarrow> bool \<Rightarrow> (anyhow, 'v check_outcome) result" where
  "check v feed answer current prerelease_ok = (case fetch_releases v feed answer of
       Inl e \<Rightarrow> Inl e | Inr releases \<Rightarrow> Inr (decide v releases current prerelease_ok))"

definition installer_asset_name :: "'v updater \<Rightarrow> string" where
  "installer_asset_name v = (if uv_windows v then ''studio-worker-installer.ps1'' else ''studio-worker-installer.sh'')"

definition asset_url :: "string \<Rightarrow> github_release \<Rightarrow> string option" where
  "asset_url name r = map_option ga_url (find (\<lambda>a. ga_name a = name) (gr_assets r))"

definition resolve_installer_url :: "'v updater \<Rightarrow> github_release \<Rightarrow> string option" where
  "resolve_installer_url v r = asset_url (installer_asset_name v) r"

section \<open>Variants\<close>

datatype variant_reason = KeepCuda | CudaFallback | DriverFound | NoDriver | NoCudaBuild

record variant_choice =
  vc_variant :: variant
  vc_reason :: variant_reason

definition choose_variant :: "github_release \<Rightarrow> variant \<Rightarrow> string option \<Rightarrow> bool \<Rightarrow> variant_choice" where
  "choose_variant r running target nvidia_driver =
     (let cuda_shipped = (case target of None \<Rightarrow> False
            | Some t \<Rightarrow> list_ex (\<lambda>a. ga_name a = cuda_archive_name t) (gr_assets r));
          (b, reason) = (case (running, cuda_shipped, nvidia_driver) of
              (Cuda, True, _) \<Rightarrow> (Cuda, KeepCuda)
            | (Cuda, False, _) \<Rightarrow> (Cpu, CudaFallback)
            | (Cpu, True, True) \<Rightarrow> (Cuda, DriverFound)
            | (Cpu, True, False) \<Rightarrow> (Cpu, NoDriver)
            | (Cpu, False, _) \<Rightarrow> (Cpu, NoCudaBuild))
      in \<lparr>vc_variant = b, vc_reason = reason\<rparr>)"

section \<open>Integrity\<close>

definition ALLOWED_INSTALLER_HOSTS :: "string list" where
  "ALLOWED_INSTALLER_HOSTS = [''github.com'', ''objects.githubusercontent.com'']"

definition validate_installer_download_url :: "'v updater \<Rightarrow> string \<Rightarrow> (anyhow, unit) result" where
  "validate_installer_download_url v raw = (case validate_download_url (uv_url v) (uv_debug v) raw ''installer'' of
       Inl e \<Rightarrow> bail e
     | Inr _ \<Rightarrow> (case uv_url v raw of
           None \<Rightarrow> bail (''invalid installer URL '' @ uv_debug v raw)
         | Some u \<Rightarrow>
             let pinned = (case pu_host u of
                   Some (Domain d) \<Rightarrow> list_ex (\<lambda>allowed. eq_ignore_ascii_case d allowed) ALLOWED_INSTALLER_HOSTS
                 | _ \<Rightarrow> False)
             in if pinned \<or> host_is_loopback (pu_host u) then Inr ()
                else bail (''installer URL host is not an allowed release host (github.com / objects.githubusercontent.com): '' @ raw)))"

definition verify_download_len :: "nat \<Rightarrow> nat option \<Rightarrow> (anyhow, unit) result" where
  "verify_download_len copied expected = (case expected of
       Some n \<Rightarrow> if copied \<noteq> n
         then bail (''size mismatch: wrote '' @ show_nat copied @ '' bytes but the server declared Content-Length '' @
           show_nat n @ '' (installer download truncated or corrupt)'')
         else Inr ()
     | None \<Rightarrow> Inr ())"

definition is_ascii_hexdigit :: "char \<Rightarrow> bool" where
  "is_ascii_hexdigit c = (let n = of_char c :: nat in
     (48 \<le> n \<and> n \<le> 57) \<or> (65 \<le> n \<and> n \<le> 70) \<or> (97 \<le> n \<and> n \<le> 102))"

definition parse_checksum_file :: "string \<Rightarrow> string option" where
  "parse_checksum_file body = (case find (\<lambda>l. trim l \<noteq> []) (str_lines body) of
       None \<Rightarrow> None
     | Some line \<Rightarrow>
         let token = takeWhile (\<lambda>c. \<not> is_ws c) (trim_start line)
         in if length token = 64 \<and> list_all is_ascii_hexdigit token then Some (to_ascii_lowercase token) else None)"

definition hash_matches :: "'v updater \<Rightarrow> string \<Rightarrow> string \<Rightarrow> bool" where
  "hash_matches v content expected_hex =
     eq_ignore_ascii_case (sha256_hex (uv_sha256 v) content) (trim expected_hex)"

end
