(* ===== verification/UpdateInstall.thy ===== *)
theory UpdateInstall
  imports Update
begin

text \<open>
  Installing an update: \<^verbatim>\<open>apply_variant_with\<close> with the real runner (\<^verbatim>\<open>src/src/update.rs\<close>) and
  \<^verbatim>\<open>self_install\<close> (\<^verbatim>\<open>src/src/self_install.rs\<close>).  The state is the files and the record of what was
  requested and run; what the network, the disk and the installer answer is one record.
\<close>

section \<open>State and environment\<close>

datatype update_call = Requested string | RanInstaller string variant

record up_state =
  us_files :: files
  us_calls :: "update_call list"

record up_env =
  ux_feed :: "(anyhow, http_body) result"
  ux_get :: "string \<Rightarrow> (anyhow, http_body) result"
  ux_tempdir :: "(anyhow, path) result"
  ux_create :: "path \<Rightarrow> (anyhow, unit) result"
  ux_read :: "path \<Rightarrow> (anyhow, unit) result"
  ux_remove :: "path \<Rightarrow> (anyhow, unit) result"
  ux_rename :: "path \<Rightarrow> (anyhow, unit) result"
  ux_copy :: "(string \<times> anyhow) option"
  ux_chmod :: "(anyhow, unit) result"
  ux_exe :: "(anyhow, path) result"
  ux_installer :: "string \<Rightarrow> variant \<Rightarrow> files \<Rightarrow> files \<times> (anyhow, unit) result"

text \<open>Rust's \<open>?\<close>: go on with the value, or return the error from here.\<close>

definition try_then ::
  "'s \<times> ('e, 'a) result \<Rightarrow> ('s \<Rightarrow> 'a \<Rightarrow> 's \<times> ('e, 'b) result) \<Rightarrow> 's \<times> ('e, 'b) result" where
  "try_then m f = (case m of (s, Inl e) \<Rightarrow> (s, Inl e) | (s, Inr a) \<Rightarrow> f s a)"

lemma try_then_simps [simp]: "try_then (s, Inl e) f = (s, Inl e)" "try_then (s, Inr a) f = f s a"
  by (simp_all add: try_then_def)

lemma try_then_Inr: "try_then m f = (s', Inr b) \<longleftrightarrow> (\<exists>s a. m = (s, Inr a) \<and> f s a = (s', Inr b))"
  by (cases m; cases "snd m") auto

section \<open>Files\<close>

definition not_found :: anyhow where
  "not_found = [\<lparr>el_text = ''No such file or directory (os error 2)'', el_io = Some (Some 2, False)\<rparr>]"

definition put_file :: "path \<Rightarrow> string \<Rightarrow> up_state \<Rightarrow> up_state" where
  "put_file p s st = st\<lparr>us_files := (us_files st)(p \<mapsto> s)\<rparr>"

definition delete_file :: "path \<Rightarrow> up_state \<Rightarrow> up_state" where
  "delete_file p st = st\<lparr>us_files := (us_files st)(p := None)\<rparr>"

definition note_call :: "update_call \<Rightarrow> up_state \<Rightarrow> up_state" where
  "note_call k st = st\<lparr>us_calls := us_calls st @ [k]\<rparr>"

definition read_file :: "up_env \<Rightarrow> path \<Rightarrow> up_state \<Rightarrow> (anyhow, string) result" where
  "read_file x p st = (case us_files st p of
       None \<Rightarrow> Inl not_found
     | Some s \<Rightarrow> (case ux_read x p of Inl e \<Rightarrow> Inl e | Inr _ \<Rightarrow> Inr s))"

definition move_file :: "up_env \<Rightarrow> path \<Rightarrow> path \<Rightarrow> up_state \<Rightarrow> up_state \<times> (anyhow, unit) result" where
  "move_file x from_p to_p st = (case us_files st from_p of
       None \<Rightarrow> (st, Inl not_found)
     | Some s \<Rightarrow> (case ux_rename x from_p of
           Inl e \<Rightarrow> (st, Inl e) | Inr _ \<Rightarrow> (put_file to_p s (delete_file from_p st), Inr ())))"

text \<open>The temporary directory goes when its owner returns.\<close>

definition drop_tempdir :: "path list \<Rightarrow> up_state \<times> 'a \<Rightarrow> up_state \<times> 'a" where
  "drop_tempdir ps m = (case m of (st, r) \<Rightarrow> (foldr delete_file ps st, r))"

section \<open>Downloads\<close>

definition download ::
  "'v updater \<Rightarrow> up_env \<Rightarrow> string \<Rightarrow> path \<Rightarrow> up_state \<Rightarrow> up_state \<times> (anyhow, unit) result" where
  "download v x url dest st =
     try_then (st, validate_installer_download_url v url) (\<lambda>st _.
     try_then (note_call (Requested url) st, ux_get x url) (\<lambda>st b.
       if 400 \<le> bd_status b \<and> bd_status b < 600 then (st, Inl (uv_status_error v (bd_status b) url))
       else
     try_then (st, ux_create x dest) (\<lambda>st _.
     try_then (put_file dest (bd_received b) st, bd_end b) (\<lambda>st _.
       (st, with_context (''downloading installer from '' @ url)
              (verify_download_len (length (bd_received b)) (bd_length b)))))))"

definition fetch_checksum ::
  "'v updater \<Rightarrow> up_env \<Rightarrow> string \<Rightarrow> up_state \<Rightarrow> up_state \<times> (anyhow, string option) result" where
  "fetch_checksum v x url st =
     try_then (st, validate_installer_download_url v url) (\<lambda>st _.
     try_then (note_call (Requested url) st, with_context (''GET '' @ url) (ux_get x url)) (\<lambda>st b.
       if bd_status b = 404 then (st, Inr None)
       else if 400 \<le> bd_status b \<and> bd_status b < 600 then (st, Inl (uv_status_error v (bd_status b) url))
       else try_then (st, bd_end b) (\<lambda>st _. (st, Inr (Some (bd_received b))))))"

definition verify_file_sha256 :: "'v updater \<Rightarrow> up_env \<Rightarrow> path \<Rightarrow> string \<Rightarrow> up_state \<Rightarrow> (anyhow, unit) result" where
  "verify_file_sha256 v x p expected_hex st =
     (case with_context (''opening '' @ p @ '' for hashing'') (read_file x p st) of
        Inl e \<Rightarrow> Inl e
      | Inr content \<Rightarrow>
          if hash_matches v content expected_hex then Inr ()
          else bail (''installer sha256 mismatch: downloaded file hashes to '' @ sha256_hex (uv_sha256 v) content @
            '' but the release publishes '' @ expected_hex @ '' (corrupted or tampered download)''))"

section \<open>Replacing the running executable\<close>

definition parked_artifact_path :: "path \<Rightarrow> path" where
  "parked_artifact_path exe =
     with_file_name exe ((case file_name exe of Some n \<Rightarrow> n | None \<Rightarrow> ''studio-worker'') @ ''.old'')"

text \<open>Best effort, on the next start.\<close>

definition cleanup_parked_artifact :: "up_env \<Rightarrow> path \<Rightarrow> up_state \<Rightarrow> up_state" where
  "cleanup_parked_artifact x exe st = (let parked = parked_artifact_path exe in
     if us_files st parked \<noteq> None \<and> is_ok (ux_remove x parked) then delete_file parked st else st)"

definition park :: "up_env \<Rightarrow> path \<Rightarrow> up_state \<Rightarrow> up_state \<times> (anyhow, unit) result" where
  "park x exe st = (let parked = parked_artifact_path exe in
     try_then (if us_files st parked = None then (st, Inr ())
               else (case with_context (''removing stale parked binary '' @ parked) (ux_remove x parked) of
                   Inl e \<Rightarrow> (st, Inl e) | Inr _ \<Rightarrow> (delete_file parked st, Inr ()))) (\<lambda>st _.
       case move_file x exe parked st of
         (st, r) \<Rightarrow> (st, with_context (''parking running binary '' @ exe @ '' -> '' @ parked) r)))"

definition confirm_replaced :: "path \<Rightarrow> up_state \<Rightarrow> (anyhow, unit) result" where
  "confirm_replaced exe st = (if us_files st exe \<noteq> None then Inr ()
     else bail (''installer did not write a new binary at '' @ exe @ '' (custom install dir?)''))"

definition rollback :: "up_env \<Rightarrow> path \<Rightarrow> up_state \<Rightarrow> up_state \<times> (anyhow, unit) result" where
  "rollback x exe st = (let parked = parked_artifact_path exe in
     case move_file x parked exe st of
       (st, r) \<Rightarrow> (st, with_context (''restoring parked binary '' @ parked @ '' -> '' @ exe) r))"

section \<open>The two ways to install\<close>

definition binary_name :: "'v updater \<Rightarrow> string" where
  "binary_name v = (if uv_windows v then ''studio-worker.exe'' else ''studio-worker'')"

definition archive_asset_name :: "string \<Rightarrow> string" where
  "archive_asset_name target = ''studio-worker-'' @ target @ ''.zip''"

definition extract_named_file ::
  "'v updater \<Rightarrow> up_env \<Rightarrow> path \<Rightarrow> string \<Rightarrow> path \<Rightarrow> up_state \<Rightarrow> up_state \<times> (anyhow, unit) result" where
  "extract_named_file v x archive name dest st =
     try_then (st, with_context (''opening the release archive '' @ archive) (read_file x archive st)) (\<lambda>st content.
     try_then (st, with_context ''reading the release archive'' (uv_unzip v content)) (\<lambda>st entries.
       case find (\<lambda>(p, _). Option.bind p file_name = Some name) entries of
         None \<Rightarrow> (st, bail (''the release archive holds no '' @ name))
       | Some (_, entry) \<Rightarrow>
     try_then (st, with_context (''writing the new binary to '' @ dest) (ux_create x dest)) (\<lambda>st _.
       case entry of
         Inl e \<Rightarrow> (put_file dest [] st, with_context ''extracting the new binary'' (Inl e))
       | Inr s \<Rightarrow> (put_file dest s st, Inr ()))))"

text \<open>\<open>std::fs::copy\<close>: on a failure the target may hold a part.\<close>

definition place_binary :: "up_env \<Rightarrow> path \<Rightarrow> path \<Rightarrow> up_state \<Rightarrow> up_state \<times> (anyhow, unit) result" where
  "place_binary x from_p exe st = (case with_context (''placing the new binary at '' @ exe) (read_file x from_p st) of
       Inl e \<Rightarrow> (st, Inl e)
     | Inr s \<Rightarrow> (case ux_copy x of
           Some (part, e) \<Rightarrow> (put_file exe part st, with_context (''placing the new binary at '' @ exe) (Inl e))
         | None \<Rightarrow> (let st = put_file exe s st in (st, confirm_replaced exe st))))"

definition swap_binary :: "'v updater \<Rightarrow> up_env \<Rightarrow> path \<Rightarrow> path \<Rightarrow> up_state \<Rightarrow> up_state \<times> (anyhow, unit) result" where
  "swap_binary v x new_binary exe st =
     try_then (park x exe st) (\<lambda>st _.
       case place_binary x new_binary exe st of
         (st, Inl e) \<Rightarrow> (fst (rollback x exe st), Inl e)
       | (st, Inr _) \<Rightarrow>
           (st, if uv_windows v then Inr () else with_context (''making '' @ exe @ '' executable'') (ux_chmod x)))"

definition self_install ::
  "'v updater \<Rightarrow> up_env \<Rightarrow> github_release \<Rightarrow> string \<Rightarrow> path \<Rightarrow> up_state \<Rightarrow> up_state \<times> (anyhow, unit) result" where
  "self_install v x release target exe st =
     (let asset = archive_asset_name target in
      case asset_url asset release of
        None \<Rightarrow> (st, bail (''release '' @ gr_tag release @ '' has no '' @ asset))
      | Some url \<Rightarrow> (case with_context ''creating a working folder for the update'' (ux_tempdir x) of
          Inl e \<Rightarrow> (st, Inl e)
        | Inr work \<Rightarrow>
            (let archive = path_join work asset; new_binary = path_join work (binary_name v) in
             drop_tempdir [archive, new_binary] (
               try_then (download v x url archive st) (\<lambda>st _.
               try_then (fetch_checksum v x (url @ ''.sha256'') st) (\<lambda>st sidecar.
                 case sidecar of
                   None \<Rightarrow> (st, bail (''release '' @ gr_tag release @ '' publishes no checksum for '' @ asset @
                     ''; refusing to install it''))
                 | Some body \<Rightarrow> (case parse_checksum_file body of
                     None \<Rightarrow> (st, bail (''the checksum sidecar for '' @ asset @ '' holds no sha256; refusing to install it''))
                   | Some expected \<Rightarrow>
               try_then (st, verify_file_sha256 v x archive expected st) (\<lambda>st _.
               try_then (extract_named_file v x archive (binary_name v) new_binary st) (\<lambda>st _.
                 swap_binary v x new_binary exe st)))))))))"

definition verify_sidecar :: "'v updater \<Rightarrow> up_env \<Rightarrow> path \<Rightarrow> string option \<Rightarrow> up_state \<Rightarrow> (anyhow, unit) result" where
  "verify_sidecar v x installer sidecar st = (case sidecar of
       None \<Rightarrow> Inr ()
     | Some body \<Rightarrow> (case parse_checksum_file body of
           Some expected \<Rightarrow> verify_file_sha256 v x installer expected st
         | None \<Rightarrow> bail (''the release publishes an installer checksum sidecar but it contains no parseable sha256 '' @
             EM_DASH @ '' refusing to run the installer'')))"

definition ensure_installer_supports_variants ::
  "up_env \<Rightarrow> path \<Rightarrow> variant \<Rightarrow> up_state \<Rightarrow> (anyhow, unit) result" where
  "ensure_installer_supports_variants x installer b st =
     (if b = Cpu then Inr ()
      else case with_context (''reading installer '' @ installer) (read_file x installer st) of
        Inl e \<Rightarrow> Inl e
      | Inr script \<Rightarrow>
          if \<not> contains_str script INSTALLER_ENV
          then bail (''the release installer does not read '' @ INSTALLER_ENV @ '': it would replace this '' @
            variant_str b @ '' build with the CPU one, so the update is not applied'')
          else Inr ())"

definition run_installer :: "up_env \<Rightarrow> path \<Rightarrow> variant \<Rightarrow> up_state \<Rightarrow> up_state \<times> (anyhow, unit) result" where
  "run_installer x installer b st =
     (let script = (case us_files st installer of None \<Rightarrow> [] | Some s \<Rightarrow> s);
          (fs, r) = ux_installer x script b (us_files st)
      in (note_call (RanInstaller script b) st\<lparr>us_files := fs\<rparr>, r))"

definition run_guarded ::
  "'v updater \<Rightarrow> up_env \<Rightarrow> path \<Rightarrow> variant \<Rightarrow> up_state \<Rightarrow> up_state \<times> (anyhow, unit) result" where
  "run_guarded v x installer b st =
     (if \<not> uv_windows v then run_installer x installer b st
      else try_then (st, with_context ''resolving current exe for update'' (ux_exe x)) (\<lambda>st exe.
           try_then (park x exe st) (\<lambda>st _.
             case run_installer x installer b st of
               (st, Inr _) \<Rightarrow> (case confirm_replaced exe st of
                   Inr _ \<Rightarrow> (st, Inr ()) | Inl e \<Rightarrow> (fst (rollback x exe st), Inl e))
             | (st, Inl e) \<Rightarrow> (fst (rollback x exe st), Inl e))))"

record update_host =
  uh_running :: variant
  uh_target :: "string option"
  uh_nvidia_driver :: bool
  uh_self_install_exe :: "path option"

definition install_with_script ::
  "'v updater \<Rightarrow> up_env \<Rightarrow> 'v \<Rightarrow> update_host \<Rightarrow> github_release \<Rightarrow> up_state \<Rightarrow> up_state \<times> (anyhow, unit) result" where
  "install_with_script v x latest host release st =
     (case resolve_installer_url v release of
        None \<Rightarrow> (st, bail (''release '' @ uv_show v latest @ '' is missing installer asset '' @ installer_asset_name v))
      | Some url \<Rightarrow>
          (let choice = choose_variant release (uh_running host) (uh_target host) (uh_nvidia_driver host) in
           case with_context ''creating tempdir for installer'' (ux_tempdir x) of
             Inl e \<Rightarrow> (st, Inl e)
           | Inr tmp \<Rightarrow>
               (let installer = path_join tmp (installer_asset_name v) in
                drop_tempdir [installer] (
                  try_then (download v x url installer st) (\<lambda>st _.
                  try_then (fetch_checksum v x (url @ ''.sha256'') st) (\<lambda>st sidecar.
                  try_then (st, verify_sidecar v x installer sidecar st) (\<lambda>st _.
                  try_then (st, ensure_installer_supports_variants x installer (vc_variant choice) st) (\<lambda>st _.
                    run_guarded v x installer (vc_variant choice) st))))))))"

definition apply_variant_with ::
  "'v updater \<Rightarrow> up_env \<Rightarrow> string \<Rightarrow> 'v \<Rightarrow> update_host \<Rightarrow> up_state \<Rightarrow> up_state \<times> (anyhow, unit) result" where
  "apply_variant_with v x feed latest host st =
     try_then (st, fetch_releases v feed (ux_feed x)) (\<lambda>st releases.
       case find (\<lambda>r. parse_tag v (gr_tag r) = Some latest) releases of
         None \<Rightarrow> (st, bail (''release '' @ uv_show v latest @ '' not present in feed''))
       | Some release \<Rightarrow> (case uh_self_install_exe host of
             Some exe \<Rightarrow> (case uh_target host of
                 None \<Rightarrow> (st, bail ''this build names no release target to update from'')
               | Some target \<Rightarrow> self_install v x release target exe st)
           | None \<Rightarrow> install_with_script v x latest host release st))"

end
