(* ===== verification/UpdateProperties.thy ===== *)
theory UpdateProperties
  imports UpdateInstall
begin

text \<open>
  What the updater guarantees: which release it picks, that nothing is run or put in place
  unverified and from nowhere but the release hosts, and what is left of a failed self-install.
\<close>

section \<open>Which release\<close>

lemma foldl_max: "foldl max x xs = (m :: 'v::linorder) \<Longrightarrow> m \<in> insert x (set xs) \<and> (\<forall>y \<in> insert x (set xs). y \<le> m)"
proof (induction xs arbitrary: x)
  case Nil
  then show ?case by simp
next
  case (Cons a xs)
  then have "foldl max (max x a) xs = m" by simp
  from Cons.IH [OF this] show ?case by (auto simp: max_def split: if_splits)
qed

lemma iter_max_Some:
  "iter_max xs = Some (m :: 'v::linorder) \<longleftrightarrow> m \<in> set xs \<and> (\<forall>y \<in> set xs. y \<le> m)"
proof (cases xs)
  case Nil
  then show ?thesis by simp
next
  case (Cons x ys)
  have "foldl max x ys \<in> set xs \<and> (\<forall>y \<in> set xs. y \<le> foldl max x ys)"
    using foldl_max [OF refl, of x ys] Cons by simp
  with Cons show ?thesis by (auto intro: antisym)
qed

lemma iter_max_None: "iter_max xs = None \<longleftrightarrow> xs = []"
  by (cases xs) simp_all

lemma set_candidates:
  "set (candidates v pre rs) = {c. \<exists>r \<in> set rs. \<not> gr_draft r \<and> (gr_prerelease r \<longrightarrow> pre) \<and> parse_tag v (gr_tag r) = Some c}"
  by (force simp: candidates_def List.map_filter_def split: option.splits)

text \<open>The update check offers a version exactly when some published release allows it: it is the
  greatest version among the releases that are no drafts, are no prereleases unless the operator opted
  in, and carry a version in their tag, and it is greater than the running one.  It never offers the
  running version or an older one.\<close>

theorem decide_offers_the_newest:
  "(decide v releases current pre = NewerAvailable c l \<longleftrightarrow>
      c = current \<and> current < l \<and>
      (\<exists>r \<in> set releases. \<not> gr_draft r \<and> (pre \<or> \<not> gr_prerelease r) \<and> parse_tag v (gr_tag r) = Some l) \<and>
      list_all (\<lambda>r. case parse_tag v (gr_tag r) of None \<Rightarrow> True
        | Some k \<Rightarrow> gr_draft r \<or> gr_prerelease r \<and> \<not> pre \<or> k \<le> l) releases) \<and>
   (decide v releases current pre = UpToDate current \<or> (\<exists>l. decide v releases current pre = NewerAvailable current l))"
proof -
  have "decide v releases current pre = NewerAvailable c l \<longleftrightarrow>
      c = current \<and> current < l \<and> iter_max (candidates v pre releases) = Some l"
    by (auto simp: decide_def split: option.splits)
  then show ?thesis
    unfolding iter_max_Some set_candidates list_all_iff
    by (auto simp: decide_def split: option.splits)
qed

section \<open>What is requested\<close>

text \<open>A URL the updater may fetch: https to a release host, or the loopback.\<close>

definition trusted_url :: "'v updater \<Rightarrow> string \<Rightarrow> bool" where
  "trusted_url v raw = (case uv_url v raw of
       None \<Rightarrow> False
     | Some u \<Rightarrow> (pu_scheme u = ''https'' \<or> (pu_scheme u = ''http'' \<and> host_is_loopback (pu_host u))) \<and>
         (host_is_loopback (pu_host u) \<or>
          (case pu_host u of Some (Domain d) \<Rightarrow>
               list_ex (\<lambda>h. to_ascii_lowercase d = h) [''github.com'', ''objects.githubusercontent.com'']
             | _ \<Rightarrow> False)))"

lemma bail_not_Inr [simp]: "bail m \<noteq> Inr a"
  by (simp add: bail_def)

lemma lowercase_hosts [simp]:
  "to_ascii_lowercase ''github.com'' = ''github.com''"
  "to_ascii_lowercase ''objects.githubusercontent.com'' = ''objects.githubusercontent.com''"
  by (simp_all add: to_ascii_lowercase_def ascii_lower_def)

lemma validate_installer_trusted: "validate_installer_download_url v url = Inr () \<Longrightarrow> trusted_url v url"
  unfolding validate_installer_download_url_def trusted_url_def
  by (cases "validate_download_url (uv_url v) (uv_debug v) url ''installer''")
    (auto simp: validate_download_url_ok eq_ignore_ascii_case_def ALLOWED_INSTALLER_HOSTS_def Let_def
      split: option.splits if_splits url_host.splits)

text \<open>Steps that request only trusted URLs and run nothing.\<close>

definition only_requests :: "'v updater \<Rightarrow> up_state \<Rightarrow> up_state \<Rightarrow> bool" where
  "only_requests v st st' =
     (\<exists>ks. us_calls st' = us_calls st @ ks \<and> (\<forall>k \<in> set ks. \<exists>u. k = Requested u \<and> trusted_url v u))"

named_theorems requests "steps that only request trusted URLs"

lemma only_requests_refl [simp]: "us_calls st' = us_calls st \<Longrightarrow> only_requests v st st'"
  by (simp add: only_requests_def)

lemma only_requests_trans: "only_requests v a b \<Longrightarrow> only_requests v b c \<Longrightarrow> only_requests v a c"
  unfolding only_requests_def by (metis UnE append_assoc set_append)

lemma try_then_requests:
  assumes "only_requests v st (fst m)" and "\<And>s a. m = (s, Inr a) \<Longrightarrow> only_requests v s (fst (f s a))"
  shows "only_requests v st (fst (try_then m f))"
  using assms by (cases m; cases "snd m") (auto intro: only_requests_trans)

lemma call_sel [simp]:
  "us_calls (put_file p s st) = us_calls st" "us_calls (delete_file p st) = us_calls st"
  "us_calls (note_call k st) = us_calls st @ [k]" "us_files (note_call k st) = us_files st"
  "us_files (put_file p s st) = (us_files st)(p \<mapsto> s)" "us_files (delete_file p st) = (us_files st)(p := None)"
  by (simp_all add: put_file_def delete_file_def note_call_def)

lemma move_file_calls [simp]: "us_calls (fst (move_file x p q st)) = us_calls st"
  by (auto simp: move_file_def split: option.splits sum.splits)

lemma drop_tempdir_calls [simp]: "us_calls (fst (drop_tempdir ps m)) = us_calls (fst m)"
proof -
  have "us_calls (foldr delete_file ps st) = us_calls st" for st by (induction ps) simp_all
  then show ?thesis by (simp add: drop_tempdir_def split: prod.splits)
qed

lemma noted_request: "trusted_url v u \<Longrightarrow> only_requests v st (note_call (Requested u) st)"
  by (simp add: only_requests_def)

lemma download_requests [requests]: "only_requests v st (fst (download v x url dest st))"
  unfolding download_def
  by (intro try_then_requests) (auto simp: noted_request validate_installer_trusted intro!: try_then_requests)

lemma checksum_requests [requests]: "only_requests v st (fst (fetch_checksum v x url st))"
  unfolding fetch_checksum_def
  by (intro try_then_requests) (auto simp: noted_request validate_installer_trusted intro!: try_then_requests)

lemma try_then_calls:
  assumes "us_calls (fst m) = us_calls st" "\<And>s a. m = (s, Inr a) \<Longrightarrow> us_calls (fst (f s a)) = us_calls s"
  shows "us_calls (fst (try_then m f)) = us_calls st"
  using assms by (cases m; cases "snd m") auto

lemma park_calls [simp]: "us_calls (fst (park x exe st)) = us_calls st"
  unfolding park_def Let_def
  by (intro try_then_calls) (auto simp: case_prod_beta split: sum.splits)

lemma rollback_calls [simp]: "us_calls (fst (rollback x exe st)) = us_calls st"
  by (simp add: rollback_def Let_def case_prod_beta)

lemma place_calls [simp]: "us_calls (fst (place_binary x p exe st)) = us_calls st"
  by (auto simp: place_binary_def Let_def split: sum.splits option.splits)

lemma swap_calls [simp]: "us_calls (fst (swap_binary v x p exe st)) = us_calls st"
  unfolding swap_binary_def
proof (rule try_then_calls)
  fix s and u :: unit
  obtain t r where placed: "place_binary x p exe s = (t, r)" by fastforce
  then have "us_calls t = us_calls s" using place_calls [of x p exe s] by simp
  with placed show "us_calls (fst (case place_binary x p exe s of (st, Inl e) \<Rightarrow> (fst (rollback x exe st), Inl e)
      | (st, Inr _) \<Rightarrow> (st, if uv_windows v then Inr () else with_context (''making '' @ exe @ '' executable'') (ux_chmod x))))
      = us_calls s"
    by (cases r) simp_all
qed simp

lemma extract_calls [simp]: "us_calls (fst (extract_named_file v x archive n dest st)) = us_calls st"
  unfolding extract_named_file_def
  by (intro try_then_calls) (auto split: option.splits sum.splits intro!: try_then_calls)

lemma drop_tempdir_requests [simp]:
  "only_requests v st (fst (drop_tempdir ps m)) = only_requests v st (fst m)"
  by (simp add: only_requests_def)

lemma self_install_requests [requests]: "only_requests v st (fst (self_install v x rel target exe st))"
  unfolding self_install_def Let_def
  by (auto split: option.splits sum.splits intro!: try_then_requests requests)

section \<open>What is run\<close>

lemma download_ok:
  assumes "download v x url dest st = (st', Inr ())"
  shows "\<exists>b. ux_get x url = Inr b \<and> us_files st' = (us_files st)(dest \<mapsto> bd_received b) \<and>
    (bd_length b = None \<or> bd_length b = Some (length (bd_received b)))"
  using assms
  by (auto simp: download_def try_then_Inr with_context_def verify_download_len_def
      split: if_splits option.splits sum.splits)

lemma fetch_checksum_ok:
  assumes "fetch_checksum v x url st = (st', Inr sidecar)"
  shows "us_files st' = us_files st \<and> (\<exists>b. ux_get x url = Inr b \<and>
    (case sidecar of None \<Rightarrow> bd_status b = 404 | Some t \<Rightarrow> t = bd_received b))"
  using assms
  by (auto simp: fetch_checksum_def try_then_Inr with_context_def split: if_splits sum.splits)

lemma move_file_other: "q \<notin> {a, b} \<Longrightarrow> us_files (fst (move_file x a b st)) q = us_files st q"
  by (auto simp: move_file_def split: option.splits sum.splits)

lemma park_other: "q \<notin> {exe, parked_artifact_path exe} \<Longrightarrow> us_files (fst (park x exe st)) q = us_files st q"
  using move_file_other [of q exe "parked_artifact_path exe"]
  by (auto simp: park_def try_then_def with_context_def Let_def case_prod_beta split: sum.splits)

lemma run_guarded_calls:
  assumes fresh: "\<And>exe. ux_exe x = Inr exe \<Longrightarrow> installer \<notin> {exe, parked_artifact_path exe}"
    and script: "us_files st installer = Some script"
  shows "us_calls (fst (run_guarded v x installer b st)) \<in> {us_calls st, us_calls st @ [RanInstaller script b]}"
proof -
  have run: "us_calls (fst (run_installer x installer b s)) = us_calls s @ [RanInstaller script b]"
    if "us_files s installer = Some script" for s
    using that by (simp add: run_installer_def case_prod_beta note_call_def)
  show ?thesis
  proof (cases "uv_windows v \<and> is_ok (ux_exe x)")
    case False
    then show ?thesis using run [OF script]
      by (auto simp: run_guarded_def with_context_def split: sum.splits)
  next
    case True
    then obtain exe where exe: "ux_exe x = Inr exe" by (cases "ux_exe x") simp_all
    obtain s r where park: "park x exe st = (s, r)" by fastforce
    have same: "us_files s installer = Some script" "us_calls s = us_calls st"
      using park_other [OF fresh [OF exe], of x st] park_calls [of x exe st] script park by simp_all
    obtain t q where ran: "run_installer x installer b s = (t, q)" by fastforce
    have "us_calls t = us_calls st @ [RanInstaller script b]" using run [OF same(1)] ran same(2) by simp
    then show ?thesis
      using True exe park ran same(2)
      by (cases r; cases q) (auto simp: run_guarded_def with_context_def split: sum.splits)
  qed
qed

definition verified :: "'v updater \<Rightarrow> up_env \<Rightarrow> string \<Rightarrow> string \<Rightarrow> bool" where
  "verified v x url content = (case ux_get x (url @ ''.sha256'') of
       Inl _ \<Rightarrow> False
     | Inr side \<Rightarrow> bd_status side = 404 \<or>
         (case parse_checksum_file (bd_received side) of None \<Rightarrow> False | Some hex \<Rightarrow> hash_matches v content hex))"

lemma verify_sidecar_ok:
  assumes "verify_sidecar v x p sidecar st = Inr ()" "us_files st p = Some content"
    "ux_get x (url @ ''.sha256'') = Inr b" "case sidecar of None \<Rightarrow> bd_status b = 404 | Some t \<Rightarrow> t = bd_received b"
  shows "verified v x url content"
  using assms
  by (auto simp: verify_sidecar_def verified_def verify_file_sha256_def read_file_def with_context_def
      split: option.splits sum.splits if_splits)

lemma supports_variants_ok:
  assumes "ensure_installer_supports_variants x p b st = Inr ()" "us_files st p = Some script"
  shows "b = Cuda \<Longrightarrow> contains_str script INSTALLER_ENV"
  using assms by (auto simp: ensure_installer_supports_variants_def read_file_def with_context_def
      split: sum.splits if_splits)

definition runs_verified :: "'v updater \<Rightarrow> up_env \<Rightarrow> update_host \<Rightarrow> github_release \<Rightarrow> string \<Rightarrow> variant \<Rightarrow> bool" where
  "runs_verified v x host rel script b =
     (\<exists>url body. resolve_installer_url v rel = Some url \<and> ux_get x url = Inr body \<and> script = bd_received body \<and>
        (bd_length body = None \<or> bd_length body = Some (length script)) \<and> verified v x url script \<and>
        b = vc_variant (choose_variant rel (uh_running host) (uh_target host) (uh_nvidia_driver host)) \<and>
        (b = Cuda \<longrightarrow> contains_str script INSTALLER_ENV))"

definition calls_fine :: "'v updater \<Rightarrow> (string \<Rightarrow> variant \<Rightarrow> bool) \<Rightarrow> up_state \<Rightarrow> up_state \<Rightarrow> bool" where
  "calls_fine v P st st' = (\<exists>ks. us_calls st' = us_calls st @ ks \<and>
     (\<forall>k \<in> set ks. case k of Requested u \<Rightarrow> trusted_url v u | RanInstaller script b \<Rightarrow> P script b))"

lemma only_requests_fine: "only_requests v st st' \<Longrightarrow> calls_fine v P st st'"
  by (fastforce simp: only_requests_def calls_fine_def)

lemma calls_fine_trans: "calls_fine v P a b \<Longrightarrow> calls_fine v P b c \<Longrightarrow> calls_fine v P a c"
  unfolding calls_fine_def by (metis UnE append_assoc set_append)

lemma try_then_fine:
  assumes "calls_fine v P st (fst m)" and "\<And>s a. m = (s, Inr a) \<Longrightarrow> calls_fine v P s (fst (f s a))"
  shows "calls_fine v P st (fst (try_then m f))"
  using assms by (cases m; cases "snd m") (auto intro: calls_fine_trans)

lemma drop_tempdir_fine [simp]: "calls_fine v P st (fst (drop_tempdir ps m)) = calls_fine v P st (fst m)"
  by (simp add: calls_fine_def)

lemma calls_fine_refl [simp]: "calls_fine v P st st"
  by (simp add: calls_fine_def)

lemma install_with_script_fine:
  assumes fresh: "\<And>tmp exe. ux_tempdir x = Inr tmp \<Longrightarrow> ux_exe x = Inr exe \<Longrightarrow>
    path_join tmp (installer_asset_name v) \<notin> {exe, parked_artifact_path exe}"
  shows "calls_fine v (runs_verified v x host rel) st (fst (install_with_script v x latest host rel st))"
proof (cases "resolve_installer_url v rel")
  case None
  then show ?thesis by (simp add: install_with_script_def)
next
  case (Some url)
  note url = this
  let ?b = "vc_variant (choose_variant rel (uh_running host) (uh_target host) (uh_nvidia_driver host))"
  show ?thesis
  proof (cases "ux_tempdir x")
    case (Inl e)
    then show ?thesis using url by (simp add: install_with_script_def with_context_def Let_def)
  next
    case (Inr tmp)
    let ?p = "path_join tmp (installer_asset_name v)"
    have "calls_fine v (runs_verified v x host rel) st (fst (
        try_then (download v x url ?p st) (\<lambda>st _.
        try_then (fetch_checksum v x (url @ ''.sha256'') st) (\<lambda>st sidecar.
        try_then (st, verify_sidecar v x ?p sidecar st) (\<lambda>st _.
        try_then (st, ensure_installer_supports_variants x ?p ?b st) (\<lambda>st _.
          run_guarded v x ?p ?b st))))))"
    proof (intro try_then_fine only_requests_fine [OF download_requests] only_requests_fine [OF checksum_requests];
        clarsimp)
      fix s1 s2 sidecar
      assume got: "download v x url ?p st = (s1, Inr ())"
        and sums: "fetch_checksum v x (url @ ''.sha256'') s1 = (s2, Inr sidecar)"
        and ok: "verify_sidecar v x ?p sidecar s2 = Inr ()"
        and sup: "ensure_installer_supports_variants x ?p ?b s2 = Inr ()"
      from download_ok [OF got] obtain body where body: "ux_get x url = Inr body"
        "us_files s1 ?p = Some (bd_received body)" "bd_length body = None \<or> bd_length body = Some (length (bd_received body))"
        by auto
      from fetch_checksum_ok [OF sums] body(2) obtain side where
        content: "us_files s2 ?p = Some (bd_received body)" and side: "ux_get x (url @ ''.sha256'') = Inr side"
        "case sidecar of None \<Rightarrow> bd_status side = 404 | Some t \<Rightarrow> t = bd_received side"
        by auto
      have "runs_verified v x host rel (bd_received body) ?b"
        using url body verify_sidecar_ok [OF ok content side] supports_variants_ok [OF sup content]
        by (auto simp: runs_verified_def)
      moreover have "\<And>exe. ux_exe x = Inr exe \<Longrightarrow> ?p \<notin> {exe, parked_artifact_path exe}" by (rule fresh [OF Inr])
      from run_guarded_calls [OF this content]
      have "us_calls (fst (run_guarded v x ?p ?b s2)) \<in> {us_calls s2, us_calls s2 @ [RanInstaller (bd_received body) ?b]}" .
      ultimately show "calls_fine v (runs_verified v x host rel) s2 (fst (run_guarded v x ?p ?b s2))"
        by (auto simp: calls_fine_def)
    qed
    then show ?thesis using url Inr by (simp add: install_with_script_def with_context_def Let_def)
  qed
qed


section \<open>What a self-install leaves\<close>

lemma length_path_join: "\<not> starts_with b ''/'' \<Longrightarrow> length a + length b \<le> length (path_join a b)"
  by (simp add: path_join_def)

lemma last_slash_None: "last_slash p = None \<Longrightarrow> CHR ''/'' \<notin> set p"
proof -
  assume none: "last_slash p = None"
  then have "length (takeWhile (\<lambda>c. c \<noteq> CHR ''/'') (rev p)) = length (rev p)"
    by (auto simp: last_slash_def Let_def split: if_splits)
  then have "takeWhile (\<lambda>c. c \<noteq> CHR ''/'') (rev p) = rev p" by (metis order_refl take_all takeWhile_eq_take)
  then show ?thesis by (metis (mono_tags, lifting) set_rev set_takeWhileD)
qed

lemma last_slash_Some:
  assumes "last_slash p = Some i"
  shows "i < length p" "CHR ''/'' \<notin> set (drop (Suc i) p)"
proof -
  let ?t = "takeWhile (\<lambda>c. c \<noteq> CHR ''/'') (rev p)"
  have k: "length ?t < length p" and i: "i = length p - length ?t - 1"
    using assms length_takeWhile_le [of "\<lambda>c. c \<noteq> CHR ''/''" "rev p"]
    by (auto simp: last_slash_def Let_def split: if_splits)
  then show "i < length p" by simp
  have "drop (Suc i) p = rev (take (length ?t) (rev p))"
    using k i by (simp add: rev_take Suc_diff_Suc)
  also have "take (length ?t) (rev p) = ?t" by (metis takeWhile_eq_take)
  finally show "CHR ''/'' \<notin> set (drop (Suc i) p)" by (auto dest: set_takeWhileD)
qed

lemma file_name_no_slash: "file_name p = Some n \<Longrightarrow> \<not> starts_with n ''/'' \<and> n \<noteq> []"
  using last_slash_None [of p] last_slash_Some(2) [of p]
  by (cases "last_slash p"; cases n) (auto simp: file_name_def Let_def starts_with_def split: if_splits)

lemma starts_slash_append: "n \<noteq> [] \<Longrightarrow> starts_with (n @ s) ''/'' = starts_with n ''/''"
  by (cases n) (simp_all add: starts_with_def)

lemma length_file_name: "file_name p = Some n \<Longrightarrow>
    length p \<le> length n + (case last_slash p of None \<Rightarrow> 0 | Some i \<Rightarrow> Suc i)"
  by (auto simp: file_name_def Let_def split: option.splits if_splits)

lemma parked_differs [simp]: "parked_artifact_path exe \<noteq> exe"
proof (cases "file_name exe")
  case None
  have "\<not> starts_with ''studio-worker.old'' ''/''" by (simp add: starts_with_def)
  then have longer: "length exe < length (path_join exe ''studio-worker.old'')"
    using length_path_join [of "''studio-worker.old''" exe] by simp
  then show ?thesis using None
    by (auto simp: parked_artifact_path_def with_file_name_def split: option.splits)
next
  case (Some n)
  then have n: "\<not> starts_with (n @ ''.old'') ''/''" using file_name_no_slash [OF Some] by (simp add: starts_slash_append)
  show ?thesis
  proof (cases "path_parent exe")
    case None
    then show ?thesis using n Some length_path_join [OF n, of exe]
      by (auto simp: parked_artifact_path_def with_file_name_def dest: arg_cong [where f = length])
  next
    case (Some d)
    have "length exe < length d + length n + 4"
      using Some \<open>file_name exe = Some n\<close> length_file_name [OF \<open>file_name exe = Some n\<close>] last_slash_Some(1) [of exe]
      by (auto simp: path_parent_def min_def split: option.splits if_splits nat.splits)
    then have "length exe < length (path_join d (n @ ''.old''))" using length_path_join [OF n, of d] by simp
    with Some \<open>file_name exe = Some n\<close> show ?thesis
      by (auto simp: parked_artifact_path_def with_file_name_def)
  qed
qed

text \<open>Steps that leave one file alone.\<close>

definition keeps_file :: "path \<Rightarrow> up_state \<Rightarrow> up_state \<Rightarrow> bool" where
  "keeps_file q st st' = (us_files st' q = us_files st q)"

lemma keeps_file_trans: "keeps_file q a b \<Longrightarrow> keeps_file q b c \<Longrightarrow> keeps_file q a c"
  by (simp add: keeps_file_def)

lemma keeps_file_simps [simp]:
  "keeps_file q st st" "p \<noteq> q \<Longrightarrow> keeps_file q st (put_file p s st)" "keeps_file q st (note_call k st)"
  by (simp_all add: keeps_file_def)

lemma try_then_keeps:
  assumes "keeps_file q st (fst m)" "\<And>s a. m = (s, Inr a) \<Longrightarrow> keeps_file q s (fst (f s a))"
  shows "keeps_file q st (fst (try_then m f))"
  using assms by (cases m; cases "snd m") (auto intro: keeps_file_trans)

lemma download_keeps: "dest \<noteq> q \<Longrightarrow> keeps_file q st (fst (download v x url dest st))"
  unfolding download_def by (intro try_then_keeps) (auto intro!: try_then_keeps)

lemma checksum_keeps: "keeps_file q st (fst (fetch_checksum v x url st))"
  unfolding fetch_checksum_def by (intro try_then_keeps) (auto intro!: try_then_keeps)

lemma extract_keeps: "dest \<noteq> q \<Longrightarrow> keeps_file q st (fst (extract_named_file v x archive n dest st))"
  unfolding extract_named_file_def
  by (intro try_then_keeps) (auto split: option.splits sum.splits intro!: try_then_keeps)

lemma drop_tempdir_files: "us_files (fst (drop_tempdir ps m)) q = (if q \<in> set ps then None else us_files (fst m) q)"
proof -
  have "us_files (foldr delete_file ps st) q = (if q \<in> set ps then None else us_files st q)" for st
    by (induction ps) auto
  then show ?thesis by (simp add: drop_tempdir_def case_prod_beta)
qed

lemma with_context_cases [simp]: "with_context c r = Inr a \<longleftrightarrow> r = Inr a"
  by (cases r) (simp_all add: with_context_def)

lemma park_ok:
  assumes "park x exe st = (s, Inr ())" "us_files st exe = Some old"
  shows "us_files s (parked_artifact_path exe) = Some old \<and> us_files s exe = None"
  using assms parked_differs [of exe]
  by (auto simp: park_def try_then_Inr move_file_def Let_def split: if_splits sum.splits option.splits prod.splits)

lemma park_err:
  assumes "park x exe st = (s, Inl e)"
  shows "us_files s exe = us_files st exe"
  using assms parked_differs [of exe] parked_differs [of exe, symmetric]
  by (auto simp: park_def try_then_def move_file_def with_context_def Let_def
      split: if_splits sum.splits option.splits prod.splits)

lemma place_other: "q \<noteq> exe \<Longrightarrow> us_files (fst (place_binary x p exe st)) q = us_files st q"
  by (auto simp: place_binary_def Let_def split: sum.splits option.splits)

lemma place_ok:
  assumes "place_binary x p exe st = (s, Inr ())" "us_files st p = Some new"
  shows "us_files s exe = Some new"
  using assms by (auto simp: place_binary_def read_file_def with_context_def Let_def
      split: sum.splits option.splits)

lemma swap_ok:
  assumes run: "swap_binary v x p exe st = (s, Inr ())" and old: "us_files st exe = Some old"
    and new: "us_files st p = Some new" and p: "p \<notin> {exe, parked_artifact_path exe}"
  shows "us_files s exe = Some new \<and> us_files s (parked_artifact_path exe) = Some old"
proof -
  from run obtain a where parked: "park x exe st = (a, Inr ())"
    by (auto simp: swap_binary_def try_then_Inr)
  obtain b t where step: "place_binary x p exe a = (b, t)" by fastforce
  then have placed: "place_binary x p exe a = (b, Inr ())" and s: "s = b"
    using run parked by (cases t; simp add: swap_binary_def)+
  have "us_files a p = Some new" using park_other [OF p, of x st] parked new by simp
  then show ?thesis
    using place_ok [OF placed] place_other [OF parked_differs, of x p exe a] placed park_ok [OF parked old] s by simp
qed

lemma swap_err:
  assumes run: "swap_binary v x p exe st = (s, Inl e)" and old: "us_files st exe = Some old"
    and back_ok: "ux_rename x (parked_artifact_path exe) = Inr ()" and mode: "uv_windows v \<or> ux_chmod x = Inr ()"
  shows "us_files s exe = Some old"
proof (cases "park x exe st")
  case (Pair a r)
  show ?thesis
  proof (cases r)
    case (Inl d)
    then show ?thesis using run Pair park_err [of x exe st] old by (auto simp: swap_binary_def)
  next
    case (Inr u)
    then have parked: "park x exe st = (a, Inr ())" using Pair by simp
    obtain b t where placed: "place_binary x p exe a = (b, t)" by fastforce
    have "us_files b (parked_artifact_path exe) = Some old"
      using place_other [OF parked_differs, of x p exe a] placed park_ok [OF parked old] by simp
    then show ?thesis using run parked placed back_ok mode
      by (cases t) (auto simp: swap_binary_def rollback_def move_file_def with_context_def Let_def
          split: if_splits sum.splits)
  qed
qed

lemma work_paths_differ: "path_join work (archive_asset_name t) \<noteq> path_join work (binary_name v)"
  by (auto simp: path_join_def archive_asset_name_def binary_name_def starts_with_def)

lemma extract_ok:
  assumes "extract_named_file v x archive n dest st = (st', Inr ())" "us_files st archive = Some content"
  shows "\<exists>entries p new. uv_unzip v content = Inr entries \<and> (p, Inr new) \<in> set entries \<and>
    Option.bind p file_name = Some n \<and> us_files st' dest = Some new"
proof -
  let ?is = "\<lambda>(q, _). Option.bind q file_name = Some n"
  from assms obtain entries where zip: "uv_unzip v content = Inr entries"
    by (auto simp: extract_named_file_def try_then_Inr read_file_def split: option.splits sum.splits)
  from assms zip obtain p entry where found: "find ?is entries = Some (p, entry)"
    by (auto simp: extract_named_file_def try_then_Inr read_file_def split: option.splits sum.splits)
  then have "(p, entry) \<in> set entries" "Option.bind p file_name = Some n"
    by (auto simp: find_Some_iff) (metis nth_mem)
  moreover obtain new where "entry = Inr new" "us_files st' dest = Some new"
    using assms zip found
    by (auto simp: extract_named_file_def try_then_Inr read_file_def with_context_def split: option.splits sum.splits)
  ultimately show ?thesis using zip by blast
qed

text \<open>What a successful self-install stands on.\<close>

definition came_verified :: "'v updater \<Rightarrow> up_env \<Rightarrow> github_release \<Rightarrow> string \<Rightarrow> string \<Rightarrow> bool" where
  "came_verified v x rel target new =
     (\<exists>url body side hex entries p. asset_url (archive_asset_name target) rel = Some url \<and> ux_get x url = Inr body \<and>
        ux_get x (url @ ''.sha256'') = Inr side \<and> parse_checksum_file (bd_received side) = Some hex \<and>
        hash_matches v (bd_received body) hex \<and> uv_unzip v (bd_received body) = Inr entries \<and>
        (p, Inr new) \<in> set entries \<and> Option.bind p file_name = Some (binary_name v))"

lemma verify_file_ok:
  "verify_file_sha256 v x p hex st = Inr () \<Longrightarrow> us_files st p = Some content \<Longrightarrow> hash_matches v content hex"
  by (auto simp: verify_file_sha256_def read_file_def split: sum.splits if_splits)

text \<open>The steps of a self-install, named as it takes them.\<close>

lemma self_install_cases:
  assumes run: "self_install v x rel target exe st = (st', r)"
    and fresh: "\<And>work n. ux_tempdir x = Inr work \<Longrightarrow> n \<in> {archive_asset_name target, binary_name v} \<Longrightarrow>
      path_join work n \<notin> {exe, parked_artifact_path exe}"
  shows "(\<exists>e. r = Inl e \<and> us_files st' exe = us_files st exe) \<or>
    (\<exists>work new s s'. ux_tempdir x = Inr work \<and> came_verified v x rel target new \<and>
       us_files s exe = us_files st exe \<and> us_files s (path_join work (binary_name v)) = Some new \<and>
       swap_binary v x (path_join work (binary_name v)) exe s = (s', r) \<and>
       us_files st' exe = us_files s' exe \<and>
       us_files st' (parked_artifact_path exe) = us_files s' (parked_artifact_path exe))"
proof (cases "asset_url (archive_asset_name target) rel")
  case None
  then show ?thesis using run by (auto simp: self_install_def bail_def)
next
  case (Some url)
  note url = this
  show ?thesis
  proof (cases "ux_tempdir x")
    case (Inl e)
    then show ?thesis using run url by (auto simp: self_install_def with_context_def)
  next
    case (Inr work)
    let ?a = "path_join work (archive_asset_name target)" and ?b = "path_join work (binary_name v)"
    have a: "?a \<notin> {exe, parked_artifact_path exe}" and b: "?b \<notin> {exe, parked_artifact_path exe}"
      using fresh [OF Inr] by blast+
    have kept: "us_files (fst (drop_tempdir [?a, ?b] m)) q = us_files (fst m) q"
      if "q \<in> {exe, parked_artifact_path exe}" for m :: "up_state \<times> (anyhow, unit) result" and q
      using that a b by (auto simp: drop_tempdir_files)
    obtain s1 r1 where s1: "download v x url ?a st = (s1, r1)" by fastforce
    have k1: "us_files s1 exe = us_files st exe"
      using download_keeps [of ?a exe st v x url] a s1 by (simp add: keeps_file_def)
    obtain s2 r2 where s2: "fetch_checksum v x (url @ ''.sha256'') s1 = (s2, r2)" by fastforce
    have k2: "us_files s2 exe = us_files s1 exe"
      using checksum_keeps [of exe s1 v x "url @ ''.sha256''"] s2 by (simp add: keeps_file_def)
    obtain s3 r3 where s3: "extract_named_file v x ?a (binary_name v) ?b s2 = (s3, r3)" by fastforce
    have k3: "us_files s3 exe = us_files s2 exe"
      using extract_keeps [of ?b exe s2 v x ?a "binary_name v"] b s3 by (simp add: keeps_file_def)
    obtain s4 r4 where s4: "swap_binary v x ?b exe s3 = (s4, r4)" by fastforce
    note steps = s1 s2 s3 s4
    show ?thesis
    proof (cases "\<exists>side hex. r1 = Inr () \<and> r2 = Inr (Some side) \<and> parse_checksum_file side = Some hex \<and>
        verify_file_sha256 v x ?a hex s2 = Inr () \<and> r3 = Inr ()")
      case True
      then obtain side hex where ok: "r1 = Inr ()" "r2 = Inr (Some side)" "parse_checksum_file side = Some hex"
        "verify_file_sha256 v x ?a hex s2 = Inr ()" "r3 = Inr ()" by blast
      from download_ok [of v x url ?a st s1] s1 ok(1) obtain body where
        body: "ux_get x url = Inr body" "us_files s1 ?a = Some (bd_received body)" by auto
      from fetch_checksum_ok [of v x "url @ ''.sha256''" s1 s2 "Some side"] s2 ok(2) body(2) obtain sd where
        sd: "ux_get x (url @ ''.sha256'') = Inr sd" "side = bd_received sd" "us_files s2 ?a = Some (bd_received body)"
        by auto
      from extract_ok [of v x ?a "binary_name v" ?b s2 s3, OF _ sd(3)] s3 ok(5) obtain entries p new where
        ex: "uv_unzip v (bd_received body) = Inr entries" "(p, Inr new) \<in> set entries"
        "Option.bind p file_name = Some (binary_name v)" "us_files s3 ?b = Some new" by auto
      have "came_verified v x rel target new"
        unfolding came_verified_def using url body(1) sd(1,2) ok(3) verify_file_ok [OF ok(4) sd(3)] ex(1-3) by blast
      moreover have dropped: "drop_tempdir [?a, ?b] (s4, r4) = (st', r)"
        using run url Inr steps ok by (simp add: self_install_def with_context_def Let_def)
      then have "r4 = r" by (simp add: drop_tempdir_def)
      moreover have "us_files st' q = us_files s4 q" if "q \<in> {exe, parked_artifact_path exe}" for q
        using kept [OF that, of "(s4, r4)"] dropped by simp
      ultimately show ?thesis using Inr s4 ex(4) k1 k2 k3
        by - (rule disjI2, rule exI [of _ work], rule exI [of _ new], rule exI [of _ s3], rule exI [of _ s4], simp)
    next
      case False
      have "\<exists>s e. drop_tempdir [?a, ?b] (s, Inl e) = (st', r) \<and> s \<in> {s1, s2, s3}"
      proof (cases r1)
        case (Inl e)
        then show ?thesis using run url Inr steps by (auto simp: self_install_def with_context_def Let_def)
      next
        case r1: (Inr u)
        show ?thesis
        proof (cases r2)
          case (Inl e)
          then show ?thesis using run url Inr steps r1 by (auto simp: self_install_def with_context_def Let_def)
        next
          case (Inr sidecar)
          with False r1 run url \<open>ux_tempdir x = Inr work\<close> steps show ?thesis
            by (cases sidecar; cases "parse_checksum_file (the sidecar)";
                cases "verify_file_sha256 v x ?a (the (parse_checksum_file (the sidecar))) s2"; cases r3)
              (auto simp: self_install_def with_context_def Let_def bail_def)
        qed
      qed
      then obtain s e where out: "drop_tempdir [?a, ?b] (s, Inl e) = (st', r)" and s: "s \<in> {s1, s2, s3}" by blast
      have "us_files s exe = us_files st exe" using s k1 k2 k3 by auto
      moreover have "us_files st' exe = us_files s exe" using kept [of exe "(s, Inl e)"] unfolding out by simp
      moreover have "r = Inl e" using out by (simp add: drop_tempdir_def)
      ultimately show ?thesis by simp
    qed
  qed
qed

text \<open>C17: a self-install verifies or refuses, and a failed one gives the old binary back.  When it succeeds,
  the executable is the entry of that name in the release's archive, the archive's SHA-256 hash is the one
  its sidecar publishes (a release without a readable sidecar is never installed), and the binary that was
  running is parked beside it.  When it fails, whatever the step, the executable is the one from before, if
  the parked file can be renamed back and, off Windows, the file mode could be set.\<close>

theorem self_install_verifies_or_refuses:
  assumes run: "self_install v x rel target exe st = (st', r)"
    and old: "us_files st exe = Some old"
    and fresh: "\<And>work n. ux_tempdir x = Inr work \<Longrightarrow> n \<in> {archive_asset_name target, binary_name v} \<Longrightarrow>
      path_join work n \<notin> {exe, parked_artifact_path exe}"
  shows "case r of
      Inr _ \<Rightarrow> us_files st' (parked_artifact_path exe) = Some old \<and>
        (\<exists>new url body side hex entries p. us_files st' exe = Some new \<and>
           asset_url (archive_asset_name target) rel = Some url \<and> ux_get x url = Inr body \<and>
           ux_get x (url @ ''.sha256'') = Inr side \<and> parse_checksum_file (bd_received side) = Some hex \<and>
           hash_matches v (bd_received body) hex \<and> uv_unzip v (bd_received body) = Inr entries \<and>
           (p, Inr new) \<in> set entries \<and> Option.bind p file_name = Some (binary_name v))
    | Inl _ \<Rightarrow> (uv_windows v \<or> ux_chmod x = Inr ()) \<and> ux_rename x (parked_artifact_path exe) = Inr () \<longrightarrow>
        us_files st' exe = Some old"
proof -
  have "(\<exists>e. r = Inl e \<and> us_files st' exe = us_files st exe) \<or>
    (\<exists>work new s s'. ux_tempdir x = Inr work \<and> came_verified v x rel target new \<and>
       us_files s exe = us_files st exe \<and> us_files s (path_join work (binary_name v)) = Some new \<and>
       swap_binary v x (path_join work (binary_name v)) exe s = (s', r) \<and>
       us_files st' exe = us_files s' exe \<and>
       us_files st' (parked_artifact_path exe) = us_files s' (parked_artifact_path exe))"
    by (rule self_install_cases [OF run]) (rule fresh)
  then show ?thesis
  proof (elim disjE exE conjE)
    fix e assume "r = Inl e" "us_files st' exe = us_files st exe"
    with old show ?thesis by simp
  next
    fix work new s s'
    assume tmp: "ux_tempdir x = Inr work" and came: "came_verified v x rel target new"
      and start: "us_files s exe = us_files st exe" "us_files s (path_join work (binary_name v)) = Some new"
      and swap: "swap_binary v x (path_join work (binary_name v)) exe s = (s', r)"
      and final: "us_files st' exe = us_files s' exe"
        "us_files st' (parked_artifact_path exe) = us_files s' (parked_artifact_path exe)"
    have old': "us_files s exe = Some old" using start old by simp
    have p: "path_join work (binary_name v) \<notin> {exe, parked_artifact_path exe}" using fresh [OF tmp] by blast
    show ?thesis
    proof (cases r)
      case (Inl e)
      then have "swap_binary v x (path_join work (binary_name v)) exe s = (s', Inl e)" using swap by simp
      from swap_err [OF this old'] Inl final show ?thesis by auto
    next
      case (Inr u)
      then have "swap_binary v x (path_join work (binary_name v)) exe s = (s', Inr ())" using swap by simp
      from swap_ok [OF this old' start(2) p] Inr final came show ?thesis by (auto simp: came_verified_def)
    qed
  qed
qed

text \<open>Off Windows, one failure is not rolled back: if the new binary is in place and its mode cannot be
  set, the self-install reports an error with the new binary left at the executable's path.\<close>

theorem failed_chmod_keeps_the_new_binary:
  assumes unix: "\<not> uv_windows v" and chmod: "ux_chmod x = Inl e" and copied: "ux_copy x = None"
    and renamed: "ux_rename x exe = Inr ()" "ux_read x p = Inr ()"
    and before: "us_files st exe = Some old" "us_files st p = Some new" "us_files st (parked_artifact_path exe) = None"
    and p: "p \<notin> {exe, parked_artifact_path exe}"
  shows "\<exists>st' err. swap_binary v x p exe st = (st', Inl err) \<and> us_files st' exe = Some new \<and>
    us_files st' (parked_artifact_path exe) = Some old"
proof -
  let ?a = "put_file (parked_artifact_path exe) old (delete_file exe st)"
  have parked: "park x exe st = (?a, Inr ())"
    using before renamed by (simp add: park_def move_file_def with_context_def Let_def)
  have "place_binary x p exe ?a = (put_file exe new ?a, Inr ())"
    using before renamed copied p
    by (simp add: place_binary_def read_file_def confirm_replaced_def with_context_def Let_def)
  with parked show ?thesis
    using unix chmod parked_differs [of exe] by (simp add: swap_binary_def with_context_def)
qed

section \<open>A sample release\<close>

definition sample_release :: github_release where
  "sample_release = \<lparr>gr_tag = ''studio-worker-v2'', gr_prerelease = False, gr_draft = False,
     gr_assets = [\<lparr>ga_name = ''studio-worker-installer.sh'', ga_url = ''https://github.com/i''\<rparr>,
       \<lparr>ga_name = ''studio-worker-t.zip'', ga_url = ''https://github.com/z''\<rparr>]\<rparr>"

definition sample_updater :: "nat updater" where
  "sample_updater = \<lparr>uv_parse = (\<lambda>s. if s = ''1'' then Some 1 else if s = ''2'' then Some 2 else None),
     uv_show = show_nat, uv_url = sample_urls, uv_debug = id, uv_status = (\<lambda>_. []),
     uv_status_error = (\<lambda>_ _. []), uv_sha256 = (\<lambda>_. replicate 32 0),
     uv_releases = (\<lambda>_. Some [sample_release]), uv_release = (\<lambda>_. Inl []),
     uv_unzip = (\<lambda>_. Inr [(Some ''studio-worker'', Inr ''new'')]), uv_windows = False\<rparr>"

definition sample_body :: "string \<Rightarrow> http_body" where
  "sample_body s = \<lparr>bd_status = 200, bd_length = None, bd_received = s, bd_end = Inr ()\<rparr>"

definition sample_up_env :: up_env where
  "sample_up_env = \<lparr>ux_feed = Inr (sample_body []),
     ux_get = (\<lambda>url. Inr (sample_body (if ends_with url ''.sha256'' then replicate 64 CHR ''0'' else ''script''))),
     ux_tempdir = Inr ''/t'', ux_create = (\<lambda>_. Inr ()), ux_read = (\<lambda>_. Inr ()), ux_remove = (\<lambda>_. Inr ()),
     ux_rename = (\<lambda>_. Inr ()), ux_copy = None, ux_chmod = Inr (), ux_exe = Inl [],
     ux_installer = (\<lambda>_ _ fs. (fs, Inr ()))\<rparr>"

lemma sample_runs:
  "us_calls (fst (apply_variant_with sample_updater sample_up_env ''f'' 2
      \<lparr>uh_running = Cpu, uh_target = None, uh_nvidia_driver = False, uh_self_install_exe = None\<rparr>
      \<lparr>us_files = Map.empty, us_calls = []\<rparr>)) =
   [Requested ''https://github.com/i'', Requested ''https://github.com/i.sha256'', RanInstaller ''script'' Cpu]"
  by code_simp

lemma sample_decides: "decide sample_updater [sample_release] 1 False = NewerAvailable 1 2"
  by code_simp

lemma sample_self_installs:
  "snd (self_install sample_updater sample_up_env sample_release ''t'' ''/b/w'' \<lparr>us_files = [''/b/w'' \<mapsto> ''old''], us_calls = []\<rparr>) = Inr ()"
  by code_simp

theorem decide_offers_the_newest_witness:
  "(1::nat) < 2 \<and> (\<exists>r \<in> {sample_release}. parse_tag sample_updater (gr_tag r) = Some 2)"
  using decide_offers_the_newest [of sample_updater "[sample_release]" 1 False 1 2] sample_decides by auto


theorem self_install_verifies_or_refuses_witness:
  "us_files (fst (self_install sample_updater sample_up_env sample_release ''t'' ''/b/w''
     \<lparr>us_files = [''/b/w'' \<mapsto> ''old''], us_calls = []\<rparr>)) ''/b/w.old'' = Some ''old''"
proof -
  let ?run = "self_install sample_updater sample_up_env sample_release ''t'' ''/b/w'' \<lparr>us_files = [''/b/w'' \<mapsto> ''old''], us_calls = []\<rparr>"
  have parked: "parked_artifact_path ''/b/w'' = ''/b/w.old''" by code_simp
  have run: "?run = (fst ?run, Inr ())" using sample_self_installs by (metis prod.collapse)
  have paths: "path_join work n \<notin> {''/b/w'', parked_artifact_path ''/b/w''}"
    if "ux_tempdir sample_up_env = Inr work" "n \<in> {archive_asset_name ''t'', binary_name sample_updater}" for work n
    using that by (auto simp: parked path_join_def starts_with_def archive_asset_name_def binary_name_def
        sample_updater_def sample_up_env_def)
  from self_install_verifies_or_refuses [OF run _ paths, of "''old''"] show ?thesis by (simp add: parked)
qed

theorem failed_chmod_keeps_the_new_binary_witness:
  "\<exists>st' err. swap_binary sample_updater (sample_up_env\<lparr>ux_chmod := Inl []\<rparr>) ''/t/n'' ''/b/w''
     \<lparr>us_files = [''/b/w'' \<mapsto> ''old'', ''/t/n'' \<mapsto> ''new''], us_calls = []\<rparr> = (st', Inl err) \<and>
     us_files st' ''/b/w'' = Some ''new''"
proof -
  have "parked_artifact_path ''/b/w'' = ''/b/w.old''" by code_simp
  then show ?thesis
    using failed_chmod_keeps_the_new_binary [of sample_updater "sample_up_env\<lparr>ux_chmod := Inl []\<rparr>" "[]" "''/b/w''" "''/t/n''"
        "\<lparr>us_files = [''/b/w'' \<mapsto> ''old'', ''/t/n'' \<mapsto> ''new''], us_calls = []\<rparr>" "''old''" "''new''"]
    by (auto simp: sample_updater_def sample_up_env_def)
qed

end
