(* ===== verification/AutoUpdate.thy ===== *)
theory AutoUpdate
  imports UpdateProperties Config WorkerLog JobGate
begin

text \<open>
  The auto-updater of \<^verbatim>\<open>src/src/runtime.rs\<close>: one check, how an update waits for the running job,
  and the loop that runs a check each interval.  What other parties do to the job gate while an
  update waits is given poll by poll.
\<close>

section \<open>Waiting for the running job\<close>

datatype auto_update_decision =
    AuDisabled | SkippedBusy | AuUpToDate | CheckError string | Updated | UpdateFailed string

record update_drain =
  dr_poll :: millis
  dr_limit :: millis

definition UPDATE_DRAIN_POLL :: millis where "UPDATE_DRAIN_POLL = 5000"
definition UPDATE_DRAIN_LIMIT :: millis where "UPDATE_DRAIN_LIMIT = 30 * 60 * 1000"

definition update_drain_new :: update_drain where
  "update_drain_new = \<lparr>dr_poll = UPDATE_DRAIN_POLL, dr_limit = UPDATE_DRAIN_LIMIT\<rparr>"

record au_state =
  au_gate :: job_gate
  au_pending :: bool
  au_logs :: worker_logs
  au_disk :: up_state

text \<open>Each try: the gate as the other parties have left it, and the time since the wait began.
  \<open>None\<close>: still waiting when the tries end; \<open>Some (g, None)\<close>: past the limit.\<close>

fun slot_loop :: "millis \<Rightarrow> (job_gate \<times> millis) list \<Rightarrow> (job_gate \<times> job_reservation option) option" where
  "slot_loop limit [] = None"
| "slot_loop limit ((g, elapsed) # tries) = (case try_reserve g of
       (g, Some slot) \<Rightarrow> Some (g, Some slot)
     | (g, None) \<Rightarrow> if limit \<le> elapsed then Some (g, None) else slot_loop limit tries)"

text \<open>The world while the slot is waited for, and the outcome.\<close>

definition wait_for_slot ::
  "update_drain \<Rightarrow> (job_gate \<times> millis) list \<Rightarrow> au_state \<Rightarrow> au_state \<times> (au_state \<times> job_reservation option) option" where
  "wait_for_slot d tries st =
     (let waiting = st\<lparr>au_pending := True\<rparr>
      in (waiting, case slot_loop (dr_limit d) tries of
            None \<Rightarrow> None
          | Some (g, slot) \<Rightarrow> Some (waiting\<lparr>au_gate := g, au_pending := False\<rparr>, slot)))"

section \<open>One check\<close>

text \<open>What a check meets: the clock's text for logs, the running version, the feed's first answer, the
  tries of a wait, and the installation's environment (with the feed's second answer).\<close>

record 'v au_env =
  ae_ts :: string
  ae_panic :: "string option"
  ae_current :: "(string, 'v) result"
  ae_feed :: "(anyhow, http_body) result"
  ae_tries :: "(job_gate \<times> millis) list"
  ae_up :: up_env
  ae_host :: update_host

definition au_log :: "'v au_env \<Rightarrow> string \<Rightarrow> string \<Rightarrow> au_state \<Rightarrow> au_state" where
  "au_log e level message st =
     st\<lparr>au_logs := push_log (ae_ts e) level ''auto-update'' message None (au_logs st)\<rparr>"

definition minutes :: "update_drain \<Rightarrow> string" where
  "minutes d = show_nat (dr_limit d div 1000 div 60)"

text \<open>The install, in the slot; the slot is dropped when the closure returns.\<close>

definition install_in_slot ::
  "'v updater \<Rightarrow> 'v au_env \<Rightarrow> string \<Rightarrow> 'v \<Rightarrow> 'v \<Rightarrow> job_reservation \<Rightarrow> au_state \<Rightarrow> au_state \<times> auto_update_decision" where
  "install_in_slot v e feed current latest slot st =
     (let st = au_log e ''info'' (''update available '' @ uv_show v current @ '' -> '' @ uv_show v latest @ ''; applying'') st;
          (disk, r) = apply_variant_with v (ae_up e) feed latest (ae_host e) (au_disk st);
          st = st\<lparr>au_disk := disk\<rparr>;
          (st, decision) = (case r of
              Inr _ \<Rightarrow> (au_log e ''info'' ''binary replaced; restart pending'' st, Updated)
            | Inl err \<Rightarrow> (au_log e ''error'' (describe_failure (uv_windows v) err) st, UpdateFailed (show_error err)))
      in (st\<lparr>au_gate := drop_reservation slot (au_gate st)\<rparr>, decision))"

definition found_newer ::
  "'v updater \<Rightarrow> 'v au_env \<Rightarrow> update_drain \<Rightarrow> string \<Rightarrow> 'v \<Rightarrow> 'v \<Rightarrow> au_state \<Rightarrow> (au_state \<times> auto_update_decision) option" where
  "found_newer v e d feed current latest st =
     (let move = uv_show v current @ '' -> '' @ uv_show v latest in
      case (case try_reserve (au_gate st) of
              (g, Some slot) \<Rightarrow> Some (st\<lparr>au_gate := g\<rparr>, Some slot)
            | (g, None) \<Rightarrow> snd (wait_for_slot d (ae_tries e) (au_log e ''info'' (''update '' @ move @
                '' waits for the running job to end; new offers are turned away until then (at most '' @ minutes d @
                '' min)'') st))) of
        None \<Rightarrow> None
      | Some (st, None) \<Rightarrow> Some (au_log e ''warn'' (''update '' @ move @ '' gave up waiting for the running job after '' @
          minutes d @ '' min; offers flow again, and the next check tries again'') st, SkippedBusy)
      | Some (st, Some slot) \<Rightarrow> Some (install_in_slot v e feed current latest slot st))"

text \<open>\<open>None\<close>: the check is still waiting for the slot.\<close>

definition auto_update_tick ::
  "('v::linorder) updater \<Rightarrow> config \<Rightarrow> update_drain \<Rightarrow> 'v au_env \<Rightarrow> au_state \<Rightarrow>
   (au_state \<times> auto_update_decision) option" where
  "auto_update_tick v cfg d e st =
     (if \<not> auto_update_enabled cfg then Some (st, AuDisabled)
      else case ae_panic e of
        Some text \<Rightarrow> Some (st, CheckError text)
      | None \<Rightarrow> (case ae_current e of
          Inl text \<Rightarrow> Some (st, CheckError text)
        | Inr current \<Rightarrow> (case check v (auto_update_feed cfg) (ae_feed e) current (auto_update_prerelease cfg) of
              Inl err \<Rightarrow> Some (au_log e ''warn'' (''check failed: '' @ show_error err) st, CheckError (show_error err))
            | Inr (UpToDate c) \<Rightarrow> Some (au_log e ''info'' (''up to date at '' @ uv_show v c) st, AuUpToDate)
            | Inr (NewerAvailable c latest) \<Rightarrow> found_newer v e d (auto_update_feed cfg) c latest st)))"

section \<open>The loop\<close>

text \<open>A turn: the stop flag before the wait and after it, the configuration then, what the check would
  meet, and the gate and the disk as the others left them.\<close>

record 'v au_turn =
  at_stop :: bool
  at_stop_after :: bool
  at_config :: config
  at_env :: "'v au_env"
  at_gate :: job_gate

datatype au_exit = UpdaterStopped | Restarting

text \<open>The state, the decisions of the checks made, and how the loop ended (\<open>None\<close>: it runs on).\<close>

fun auto_updater ::
  "('v::linorder) updater \<Rightarrow> millis \<Rightarrow> 'v au_turn list \<Rightarrow> millis \<Rightarrow> au_state \<Rightarrow>
   au_state \<times> auto_update_decision list \<times> au_exit option" where
  "auto_updater v tick_ms [] elapsed st = (st, [], None)"
| "auto_updater v tick_ms (t # ts) elapsed st =
     (if at_stop t \<or> at_stop_after t then (st, [], Some UpdaterStopped)
      else let elapsed = elapsed + tick_ms in
        if elapsed < unat (auto_update_interval_secs (at_config t)) * 1000 then auto_updater v tick_ms ts elapsed st
        else case auto_update_tick v (at_config t) update_drain_new (at_env t) (st\<lparr>au_gate := at_gate t\<rparr>) of
            None \<Rightarrow> (st, [], None)
          | Some (st, decision) \<Rightarrow>
              if decision = Updated then (st, [decision], Some Restarting)
              else case auto_updater v tick_ms ts 0 st of (st, ds, x) \<Rightarrow> (st, decision # ds, x))"

section \<open>Facts\<close>

lemma au_log_sel [simp]:
  "au_gate (au_log e l m st) = au_gate st" "au_pending (au_log e l m st) = au_pending st"
  "au_disk (au_log e l m st) = au_disk st"
  by (simp_all add: au_log_def)

lemma slot_loop_slot:
  "slot_loop limit tries = Some (g, Some slot) \<Longrightarrow> busy g \<and> (\<exists>t \<in> set tries. \<not> busy (fst t))"
  by (induction limit tries rule: slot_loop.induct) (auto simp: try_reserve_def split: if_splits)

lemma slot_loop_gives_up:
  "slot_loop limit tries = Some (g, None) \<Longrightarrow>
     busy g \<and> (\<exists>t. (g, t) \<in> set tries \<and> limit \<le> t)"
  by (induction limit tries rule: slot_loop.induct) (auto simp: try_reserve_def split: if_splits)

lemma install_in_slot_sel:
  assumes "install_in_slot v e feed c l slot st = (st', d)"
  shows "\<not> busy (au_gate st') \<and> au_pending st' = au_pending st \<and>
    au_disk st' = fst (apply_variant_with v (ae_up e) feed l (ae_host e) (au_disk st)) \<and>
    (d = Updated \<longleftrightarrow> snd (apply_variant_with v (ae_up e) feed l (ae_host e) (au_disk st)) = Inr ()) \<and>
    (\<exists>t. d = Updated \<or> d = UpdateFailed t)"
  using assms by (auto simp: install_in_slot_def drop_reservation_def Let_def split: prod.splits sum.splits)

definition got_slot :: "'v au_env \<Rightarrow> au_state \<Rightarrow> bool" where
  "got_slot e st = (\<not> busy (au_gate st) \<or> list_ex (\<lambda>t. \<not> busy (fst t)) (ae_tries e))"

lemma found_newer_cases:
  assumes "found_newer v e d feed c l st = Some (st', dec)"
  shows "(\<not> au_pending st \<longrightarrow> \<not> au_pending st') \<and>
    (if dec = SkippedBusy then au_disk st' = au_disk st \<and> busy (au_gate st') \<and> busy (au_gate st) \<and>
       (\<exists>g t. (g, t) \<in> set (ae_tries e) \<and> dr_limit d \<le> t)
     else got_slot e st \<and> \<not> busy (au_gate st') \<and>
       au_disk st' = fst (apply_variant_with v (ae_up e) feed l (ae_host e) (au_disk st)) \<and>
       (dec = Updated \<longleftrightarrow> snd (apply_variant_with v (ae_up e) feed l (ae_host e) (au_disk st)) = Inr ()) \<and>
       (\<exists>t. dec = Updated \<or> dec = UpdateFailed t))"
proof (cases "busy (au_gate st)")
  case False
  then obtain g slot where "try_reserve (au_gate st) = (g, Some slot)" by (simp add: try_reserve_def)
  with assms have "install_in_slot v e feed c l slot (st\<lparr>au_gate := g\<rparr>) = (st', dec)"
    by (simp add: found_newer_def Let_def)
  from install_in_slot_sel [OF this] False show ?thesis by (auto simp: got_slot_def)
next
  case True
  then have full: "try_reserve (au_gate st) = (au_gate st, None)" by (simp add: try_reserve_def)
  show ?thesis
  proof (cases "slot_loop (dr_limit d) (ae_tries e)")
    case None
    then show ?thesis using assms full by (simp add: found_newer_def wait_for_slot_def Let_def)
  next
    case (Some gs)
    obtain g r where gs: "gs = (g, r)" by fastforce
    show ?thesis
    proof (cases r)
      case None
      with Some gs assms full True slot_loop_gives_up [of "dr_limit d" "ae_tries e" g] show ?thesis
        by (auto simp: found_newer_def wait_for_slot_def Let_def)
    next
      case slot: (Some slot)
      obtain w where "install_in_slot v e feed c l slot w = (st', dec)" "\<not> au_pending w" "au_disk w = au_disk st"
        using Some gs slot assms full by (auto simp: found_newer_def wait_for_slot_def Let_def)
      moreover have "got_slot e st"
        using slot_loop_slot [of "dr_limit d" "ae_tries e" g slot] Some gs slot by (auto simp: got_slot_def list_ex_iff)
      ultimately show ?thesis using install_in_slot_sel by fastforce
    qed
  qed
qed


lemma slot_loop_ends:
  assumes "tries \<noteq> []" "limit \<le> snd (last tries)"
  shows "slot_loop limit tries \<noteq> None"
  using assms
  by (induction limit tries rule: slot_loop.induct) (auto simp: try_reserve_def split: if_splits)

text \<open>An update's wait for the running job ends.  With a pause of at least the poll time between
  tries, one try more than the limit has polls is enough, whoever holds the slot; with the worker's own
  timing that is 361 tries.  While it waits the pending flag turns offers away; when it ends, the flag is down.\<close>

theorem update_wait_ends:
  assumes paced: "\<And>k. k < length tries \<Longrightarrow> k * dr_poll d \<le> snd (tries ! k)"
    and enough: "tries \<noteq> []" "dr_limit d \<le> (length tries - 1) * dr_poll d"
  shows "au_pending (fst (wait_for_slot d tries st)) \<and>
    (\<exists>st' slot. snd (wait_for_slot d tries st) = Some (st', slot) \<and> \<not> au_pending st')"
proof -
  have "dr_limit d \<le> snd (last tries)"
    using enough paced [of "length tries - 1"] by (simp add: last_conv_nth)
  from slot_loop_ends [OF enough(1) this] show ?thesis
    by (auto simp: wait_for_slot_def Let_def)
qed

text \<open>Turns of one configuration's interval in which the loop neither stops nor updates.\<close>

definition uneventful :: "('v::linorder) updater \<Rightarrow> u64 \<Rightarrow> 'v au_turn \<Rightarrow> bool" where
  "uneventful v secs t = (\<not> at_stop t \<and> \<not> at_stop_after t \<and> auto_update_interval_secs (at_config t) = secs \<and>
     (\<forall>st. \<exists>st' dec. auto_update_tick v (at_config t) update_drain_new (at_env t) st = Some (st', dec) \<and> dec \<noteq> Updated))"

lemma turns_until_check:
  fixes m :: nat
  assumes "0 < tick"
  shows "(j + 1) * tick < m \<longleftrightarrow> j + 1 < max 1 ((m + tick - 1) div tick)"
proof -
  have "(j + 1) * tick < m \<longleftrightarrow> (j + 2) * tick \<le> m + tick - 1"
    using assms by (auto simp: algebra_simps)
  also have "\<dots> \<longleftrightarrow> j + 2 \<le> (m + tick - 1) div tick" using assms by (simp add: less_eq_div_iff_mult_less_eq)
  finally show ?thesis by auto
qed

lemma checks_of_turns:
  assumes "\<forall>t \<in> set ts. uneventful v secs t" "0 < tick"
    and k: "k = max 1 ((unat secs * 1000 + tick - 1) div tick)" and "j < k"
  shows "length (fst (snd (auto_updater v tick ts (j * tick) st))) = (j + length ts) div k \<and>
    snd (snd (auto_updater v tick ts (j * tick) st)) = None"
  using assms(1,4)
proof (induction ts arbitrary: j st)
  case Nil
  then show ?case by simp
next
  case (Cons t ts)
  then have t: "uneventful v secs t" by simp
  let ?n = "unat secs * 1000"
  have el: "j * tick + tick = (j + 1) * tick" by simp
  show ?case
  proof (cases "j + 1 < k")
    case True
    then have "(j + 1) * tick < ?n" using turns_until_check [OF assms(2), of j ?n] k by simp
    then have "auto_updater v tick (t # ts) (j * tick) st = auto_updater v tick ts ((j + 1) * tick) st"
      using t by (simp add: uneventful_def el)
    then show ?thesis using Cons.IH [of "j + 1" st] Cons.prems True by simp
  next
    case False
    then have now: "\<not> (j + 1) * tick < ?n" using turns_until_check [OF assms(2), of j ?n] k by simp
    have jk: "j + 1 = k" using False Cons.prems(2) by simp
    obtain s dec where step: "auto_update_tick v (at_config t) update_drain_new (at_env t) (st\<lparr>au_gate := at_gate t\<rparr>)
        = Some (s, dec)" "dec \<noteq> Updated"
      using t unfolding uneventful_def by blast
    obtain s' ds x where rest: "auto_updater v tick ts 0 s = (s', ds, x)" by (metis prod.exhaust)
    have "auto_updater v tick (t # ts) (j * tick) st = (s', dec # ds, x)"
      using t now step rest by (simp add: uneventful_def el)
    moreover have "0 < k" using k by simp
    moreover have "length ds = length ts div k \<and> x = None"
      using Cons.IH [of 0 s] Cons.prems(1) \<open>0 < k\<close> rest by simp
    moreover have "(j + length (t # ts)) div k = Suc (length ts div k)"
    proof -
      have "j + length (t # ts) = k + length ts" using jk by simp
      then show ?thesis using \<open>0 < k\<close> by (simp only: div_add_self1)
    qed
    ultimately show ?thesis by simp
  qed
qed

text \<open>The updater keeps the operator's interval, rounded up to whole turns: over any number of turns that
  neither stop nor update, it makes exactly one check every \<open>k\<close> turns, the first after \<open>k\<close> of them, where \<open>k\<close>
  turns are the fewest that last the interval (at least one).\<close>

theorem update_checks_keep_the_interval:
  assumes "\<forall>t \<in> set ts. uneventful v secs t" and "0 < tick"
    and "k = max 1 ((unat secs * 1000 + tick - 1) div tick)"
  shows "length (fst (snd (auto_updater v tick ts 0 st))) = length ts div k"
  using checks_of_turns [OF assms, of 0 st] assms(3) by simp

lemma tick_updated_frees:
  assumes "auto_update_tick v cfg d e st = Some (st', Updated)"
  shows "\<not> busy (au_gate st')"
proof -
  from assms obtain c l where newer: "found_newer v e d (auto_update_feed cfg) c l st = Some (st', Updated)"
    by (auto simp: auto_update_tick_def split: if_splits option.splits sum.splits check_outcome.splits)
  from found_newer_cases [OF newer] show ?thesis by simp
qed

text \<open>The restart into the new binary does not hold the job slot.  The reservation goes when the check
  returns, so whenever the loop goes on to restart, the slot is free and the next reservation, such as the one
  for an offer that arrives then, succeeds; the restart would kill that job.\<close>

theorem update_restarts_with_the_slot_free:
  assumes "auto_updater v tick ts elapsed st = (st', ds, Some Restarting)"
  shows "ds \<noteq> [] \<and> last ds = Updated \<and> try_reserve (au_gate st') = (\<lparr>busy = True\<rparr>, Some JobReservation)"
  using assms
proof (induction ts arbitrary: elapsed st ds)
  case Nil
  then show ?case by simp
next
  case (Cons t ts)
  let ?now = "auto_update_tick v (at_config t) update_drain_new (at_env t) (st\<lparr>au_gate := at_gate t\<rparr>)"
  have go: "\<not> at_stop t" "\<not> at_stop_after t" using Cons.prems by (auto split: if_splits)
  show ?case
  proof (cases "elapsed + tick < unat (auto_update_interval_secs (at_config t)) * 1000")
    case True
    with Cons.prems go have "auto_updater v tick ts (elapsed + tick) st = (st', ds, Some Restarting)" by simp
    then show ?thesis by (rule Cons.IH)
  next
    case False
    with Cons.prems go obtain s dec where now: "?now = Some (s, dec)" by (cases ?now) (auto simp: Let_def)
    show ?thesis
    proof (cases "dec = Updated")
      case True
      with Cons.prems go False now show ?thesis
        using tick_updated_frees [of v "at_config t" update_drain_new "at_env t" "st\<lparr>au_gate := at_gate t\<rparr>" s]
        by (auto simp: try_reserve_def)
    next
      case other: False
      obtain s' ds' x where rest: "auto_updater v tick ts 0 s = (s', ds', x)" by (metis prod.exhaust)
      with Cons.prems go False now other have "s' = st'" "x = Some Restarting" "ds = dec # ds'" by simp_all
      with Cons.IH [of 0 s ds'] rest show ?thesis by simp
    qed
  qed
qed

section \<open>A sample check\<close>

definition sample_au_env :: "nat au_env" where
  "sample_au_env = \<lparr>ae_ts = ''t'', ae_panic = None, ae_current = Inr 1, ae_feed = Inr (sample_body []),
     ae_tries = [(\<lparr>busy = True\<rparr>, 0), (\<lparr>busy = False\<rparr>, 5000)], ae_up = sample_up_env,
     ae_host = \<lparr>uh_running = Cpu, uh_target = None, uh_nvidia_driver = False, uh_self_install_exe = None\<rparr>\<rparr>"

definition sample_au_state :: au_state where
  "sample_au_state = \<lparr>au_gate = \<lparr>busy = True\<rparr>, au_pending = False,
     au_logs = \<lparr>wl_queue = [], wl_ring = ring_new\<rparr>,
     au_disk = \<lparr>us_files = Map.empty, us_calls = []\<rparr>\<rparr>"

definition sample_au_config :: config where
  "sample_au_config = (config_default ''/tmp'' None)\<lparr>auto_update_feed := ''f''\<rparr>"

lemma sample_check: "check sample_updater ''f'' (Inr (sample_body [])) 1 False = Inr (NewerAvailable 1 2)"
  by code_simp

lemma sample_applies:
  "snd (apply_variant_with sample_updater sample_up_env ''f'' 2 (ae_host sample_au_env) (au_disk sample_au_state)) = Inr ()"
  by code_simp

lemma sample_updates:
  "\<exists>st'. auto_update_tick sample_updater sample_au_config update_drain_new sample_au_env sample_au_state = Some (st', Updated)"
proof -
  obtain disk where applied: "apply_variant_with sample_updater sample_up_env ''f'' 2 (ae_host sample_au_env)
      (au_disk sample_au_state) = (disk, Inr ())"
    using sample_applies by (metis prod.collapse)
  have cfg: "auto_update_enabled sample_au_config" "auto_update_feed sample_au_config = ''f''"
    "\<not> auto_update_prerelease sample_au_config"
    by (simp_all add: sample_au_config_def config_default_def)
  have env: "ae_panic sample_au_env = None" "ae_current sample_au_env = Inr 1" "ae_feed sample_au_env = Inr (sample_body [])"
    "ae_tries sample_au_env = [(\<lparr>busy = True\<rparr>, 0), (\<lparr>busy = False\<rparr>, 5000)]" "ae_up sample_au_env = sample_up_env"
    by (simp_all add: sample_au_env_def)
  have gate: "try_reserve (au_gate sample_au_state) = (\<lparr>busy = True\<rparr>, None)"
    by (simp add: sample_au_state_def try_reserve_def)
  have slot: "slot_loop (dr_limit update_drain_new) (ae_tries sample_au_env) = Some (\<lparr>busy = True\<rparr>, Some JobReservation)"
    by (simp add: env try_reserve_def update_drain_new_def UPDATE_DRAIN_LIMIT_def)
  show ?thesis
    using cfg env(1-3,5) gate slot applied sample_check
    by (auto simp: auto_update_tick_def found_newer_def wait_for_slot_def install_in_slot_def Let_def)
qed

theorem update_wait_ends_witness:
  "\<exists>st' slot. snd (wait_for_slot update_drain_new (map (\<lambda>k. (\<lparr>busy = True\<rparr>, k * 5000)) [0..<361]) sample_au_state)
     = Some (st', slot) \<and> \<not> au_pending st'"
  using update_wait_ends [of "map (\<lambda>k. (\<lparr>busy = True\<rparr>, k * 5000)) [0..<361]" update_drain_new sample_au_state]
  by (simp add: update_drain_new_def UPDATE_DRAIN_POLL_def UPDATE_DRAIN_LIMIT_def)


definition sample_au_turn :: "nat au_turn" where
  "sample_au_turn = \<lparr>at_stop = False, at_stop_after = False, at_config = sample_au_config, at_env = sample_au_env,
     at_gate = \<lparr>busy = True\<rparr>\<rparr>"

theorem update_checks_keep_the_interval_witness:
  "length (fst (snd (auto_updater sample_updater 60000
     (replicate 75 (sample_au_turn\<lparr>at_config := sample_au_config\<lparr>auto_update_enabled := False\<rparr>\<rparr>)) 0 sample_au_state))) = 2"
  using update_checks_keep_the_interval
    [of "replicate 75 (sample_au_turn\<lparr>at_config := sample_au_config\<lparr>auto_update_enabled := False\<rparr>\<rparr>)"
      sample_updater default_auto_update_interval 60000 30 sample_au_state]
  by (simp add: uneventful_def sample_au_turn_def sample_au_config_def config_default_def auto_update_tick_def
      default_auto_update_interval_def)

theorem update_restarts_with_the_slot_free_witness:
  "\<exists>st' ds. auto_updater sample_updater 1800000 [sample_au_turn] 0 sample_au_state = (st', ds, Some Restarting) \<and>
     try_reserve (au_gate st') = (\<lparr>busy = True\<rparr>, Some JobReservation)"
proof -
  have same: "sample_au_state\<lparr>au_gate := \<lparr>busy = True\<rparr>\<rparr> = sample_au_state" by (simp add: sample_au_state_def)
  have "auto_update_interval_secs sample_au_config = 1800"
    by (simp add: sample_au_config_def config_default_def default_auto_update_interval_def)
  then obtain st' ds where run: "auto_updater sample_updater 1800000 [sample_au_turn] 0 sample_au_state = (st', ds, Some Restarting)"
    using sample_updates by (auto simp: sample_au_turn_def same Let_def)
  then show ?thesis using update_restarts_with_the_slot_free [OF run] by blast
qed

end
