(* ===== verification/LlmCore.thy ===== *)
theory LlmCore
  imports Types
begin

text \<open>
  \<^verbatim>\<open>src/src/engine/llm_core.rs\<close>: the rules of a chat that do not depend on the engine.  Token counts of
  type \<open>usize\<close> are naturals; the JSON printer is an argument.
\<close>

section \<open>Substrings\<close>

fun str_find :: "string \<Rightarrow> string \<Rightarrow> nat option" where
  "str_find p [] = (if p = [] then Some 0 else None)"
| "str_find p (x # xs) = (if starts_with (x # xs) p then Some 0 else map_option Suc (str_find p xs))"

definition split_str :: "string \<Rightarrow> string \<Rightarrow> (string \<times> string) option" where
  "split_str p s = map_option (\<lambda>i. (take i s, drop (i + length p) s)) (str_find p s)"

function trim_start_matches :: "string \<Rightarrow> string \<Rightarrow> string" where
  "trim_start_matches p s = (if p \<noteq> [] \<and> starts_with s p then trim_start_matches p (drop (length p) s) else s)"
  by pat_completeness auto
termination
proof (relation "measure (\<lambda>(p, s). length s)", goal_cases)
  case (2 p s)
  then show ?case by (cases s; cases p) (auto simp: starts_with_def)
qed simp

declare trim_start_matches.simps [simp del]

section \<open>Budgets and messages\<close>

definition DEFAULT_CONTEXT_SIZE :: u32 where "DEFAULT_CONTEXT_SIZE = 8192"

datatype finish = FinishStop | FinishLength

definition finish_str :: "finish \<Rightarrow> string" where
  "finish_str f = (case f of FinishStop \<Rightarrow> ''stop'' | FinishLength \<Rightarrow> ''length'')"

record context_overflow =
  co_prompt_tokens :: nat
  co_n_ctx :: u32

definition plan_budget :: "nat \<Rightarrow> u32 \<Rightarrow> u32 \<Rightarrow> (context_overflow, u32) result" where
  "plan_budget prompt_tokens max_tokens n_ctx =
     (if prompt_tokens \<le> unat n_ctx \<and> 0 < unat n_ctx - prompt_tokens
      then Inr (min (max max_tokens 1) (word_of_nat (min (unat n_ctx - prompt_tokens) (2 ^ 32 - 1))))
      else Inl \<lparr>co_prompt_tokens = prompt_tokens, co_n_ctx = n_ctx\<rparr>)"

definition effective_context :: "u32 option \<Rightarrow> u32 \<Rightarrow> u32" where
  "effective_context configured trained =
     (let wanted = (case configured of None \<Rightarrow> DEFAULT_CONTEXT_SIZE | Some c \<Rightarrow> c)
      in if 0 < trained then min wanted trained else wanted)"

definition chat_messages :: "llm_params \<Rightarrow> chat_message list" where
  "chat_messages p = (case lm_system p of None \<Rightarrow> [] | Some s \<Rightarrow> [\<lparr>msg_role = ''system'', msg_content = s\<rparr>]) @ lm_messages p"

definition should_add_bos :: "bool \<Rightarrow> string \<Rightarrow> string \<Rightarrow> bool" where
  "should_add_bos model_adds prompt bos = (model_adds \<and> (bos = [] \<or> \<not> starts_with prompt bos))"

definition finish_for :: "u32 \<Rightarrow> u32 \<Rightarrow> bool \<Rightarrow> finish" where
  "finish_for generated budget hit_end =
     (if \<not> hit_end \<and> budget \<le> generated then FinishLength else FinishStop)"

section \<open>The reasoning of a whole answer\<close>

definition THINK_OPEN :: string where "THINK_OPEN = ''<think>''"
definition THINK_CLOSE :: string where "THINK_CLOSE = ''</think>''"

definition split_reasoning :: "string \<Rightarrow> string \<times> string option" where
  "split_reasoning s = (case split_str THINK_CLOSE s of
       Some (thought, answer) \<Rightarrow> (trim answer, Some (trim (trim_start_matches THINK_OPEN (trim thought))))
     | None \<Rightarrow> (trim s, None))"

definition usage_json :: "nat \<Rightarrow> u32 \<Rightarrow> json" where
  "usage_json p c = JObj [(''prompt_tokens'', JNum (show_nat p)), (''completion_tokens'', JNum (show_nat (unat c))),
     (''total_tokens'', JNum (show_nat (p + unat c)))]"

definition completion_json :: "string \<Rightarrow> string \<Rightarrow> nat \<Rightarrow> u32 \<Rightarrow> finish \<Rightarrow> nat \<Rightarrow> json" where
  "completion_json model answer prompt_tokens completion_tokens f elapsed_ms =
     (let (content, reasoning) = split_reasoning answer;
          msg = [(''role'', JStr ''assistant''), (''content'', JStr content)] @
            (case reasoning of None \<Rightarrow> [] | Some r \<Rightarrow> [(''reasoning_content'', JStr r)])
      in JObj [(''object'', JStr ''chat.completion''), (''model'', JStr model),
          (''choices'', JArr [JObj [(''index'', JNum ''0''), (''message'', JObj msg), (''finish_reason'', JStr (finish_str f))]]),
          (''usage'', usage_json prompt_tokens completion_tokens), (''elapsed_ms'', JNum (show_nat elapsed_ms))])"

section \<open>Stop strings\<close>

record stop_hold =
  sh_stops :: "string list"
  sh_out :: string
  sh_emitted :: nat
  sh_stopped :: "nat option"

definition stop_hold_new :: "string list \<Rightarrow> stop_hold" where
  "stop_hold_new stops = \<lparr>sh_stops = filter (\<lambda>s. s \<noteq> []) stops, sh_out = [], sh_emitted = 0, sh_stopped = None\<rparr>"

text \<open>The longest pending suffix, from a character's start, that is a proper prefix of a stop.\<close>

definition held_suffix :: "stop_hold \<Rightarrow> nat" where
  "held_suffix h = (let pending = drop (sh_emitted h) (sh_out h) in
     case find (\<lambda>i. \<not> is_cont (pending ! i) \<and>
         list_ex (\<lambda>s. length (drop i pending) < length s \<and> starts_with s (drop i pending)) (sh_stops h))
       [0..<length pending] of
       Some i \<Rightarrow> length pending - i | None \<Rightarrow> 0)"

definition stop_release :: "nat \<Rightarrow> stop_hold \<Rightarrow> stop_hold \<times> string" where
  "stop_release upper h = (let upper = max upper (sh_emitted h) in
     (h\<lparr>sh_emitted := upper\<rparr>, take (upper - sh_emitted h) (drop (sh_emitted h) (sh_out h))))"

definition stop_hits :: "stop_hold \<Rightarrow> nat list" where
  "stop_hits h = List.map_filter (\<lambda>s. map_option (\<lambda>i. i + sh_emitted h) (str_find s (drop (sh_emitted h) (sh_out h)))) (sh_stops h)"

definition stop_push :: "string \<Rightarrow> stop_hold \<Rightarrow> stop_hold \<times> string" where
  "stop_push piece h =
     (if sh_stopped h \<noteq> None then (h, [])
      else
        let h = h\<lparr>sh_out := sh_out h @ piece\<rparr>; hits = stop_hits h in
        if hits \<noteq> [] then
          (let p = Min (set hits) in stop_release p (h\<lparr>sh_out := take p (sh_out h), sh_stopped := Some p\<rparr>))
        else stop_release (length (sh_out h) - held_suffix h) h)"

definition stop_finish :: "stop_hold \<Rightarrow> stop_hold \<times> string" where
  "stop_finish h = stop_release (length (sh_out h)) h"

section \<open>The reasoning of a streamed answer\<close>

datatype delta = Reasoning string | Content string

datatype think_state = Undecided | Thinking | Answering

record think_splitter =
  ts_state :: think_state
  ts_buf :: string

definition think_splitter_default :: think_splitter where
  "think_splitter_default = \<lparr>ts_state = Undecided, ts_buf = []\<rparr>"

text \<open>The loop of \<open>push\<close>, from each of its states.\<close>

definition think_answering :: "string \<Rightarrow> think_splitter \<times> delta list" where
  "think_answering buf = (\<lparr>ts_state = Answering, ts_buf = []\<rparr>, if buf = [] then [] else [Content buf])"

definition think_thinking :: "string \<Rightarrow> think_splitter \<times> delta list" where
  "think_thinking buf = (case str_find THINK_CLOSE buf of
       None \<Rightarrow> (\<lparr>ts_state = Thinking, ts_buf = buf\<rparr>, [])
     | Some i \<Rightarrow>
         let thought = trim (take i buf);
             (s, out) = think_answering (trim_start (drop (i + length THINK_CLOSE) buf))
         in (s, (if thought = [] then [] else [Reasoning thought]) @ out))"

definition think_undecided :: "string \<Rightarrow> think_splitter \<times> delta list" where
  "think_undecided buf = (let trimmed = trim_start buf in
     case strip_prefix THINK_OPEN trimmed of
       Some r \<Rightarrow> think_thinking r
     | None \<Rightarrow> if starts_with THINK_OPEN trimmed then (\<lparr>ts_state = Undecided, ts_buf = buf\<rparr>, [])
         else think_answering buf)"

definition think_push :: "string \<Rightarrow> think_splitter \<Rightarrow> think_splitter \<times> delta list" where
  "think_push piece s = (let buf = ts_buf s @ piece in case ts_state s of
       Undecided \<Rightarrow> think_undecided buf | Thinking \<Rightarrow> think_thinking buf | Answering \<Rightarrow> think_answering buf)"

definition think_finish :: "think_splitter \<Rightarrow> delta list" where
  "think_finish s = (let r = ts_buf s in
     if ts_state s = Thinking \<and> trim r \<noteq> [] then [Reasoning (trim r)]
     else if ts_state s \<noteq> Thinking \<and> r \<noteq> [] then [Content r] else [])"

section \<open>Frames\<close>

definition chunk_frame :: "string \<Rightarrow> delta \<Rightarrow> json" where
  "chunk_frame model d =
     (let d' = (case d of Content t \<Rightarrow> JObj [(''content'', JStr t)] | Reasoning t \<Rightarrow> JObj [(''reasoning_content'', JStr t)])
      in JObj [(''object'', JStr ''chat.completion.chunk''), (''model'', JStr model),
           (''choices'', JArr [JObj [(''index'', JNum ''0''), (''delta'', d'), (''finish_reason'', JNull)]])])"

definition final_frame :: "string \<Rightarrow> finish \<Rightarrow> nat \<Rightarrow> u32 \<Rightarrow> json" where
  "final_frame model f prompt_tokens completion_tokens =
     JObj [(''object'', JStr ''chat.completion.chunk''), (''model'', JStr model),
       (''choices'', JArr [JObj [(''index'', JNum ''0''), (''delta'', JObj []), (''finish_reason'', JStr (finish_str f))]]),
       (''usage'', usage_json prompt_tokens completion_tokens)]"

definition sse_event :: "(json \<Rightarrow> string) \<Rightarrow> json \<Rightarrow> string" where
  "sse_event show_json v = ''data: '' @ show_json v @ [CHR 0x0A, CHR 0x0A]"

definition SSE_DONE :: string where
  "SSE_DONE = ''data: [DONE]'' @ [CHR 0x0A, CHR 0x0A]"

section \<open>Facts on budgets\<close>

text \<open>A granted budget leaves room for the prompt: at least one token, never more than was asked for (one, if
  nothing was), and prompt and answer together fit the context; a prompt that leaves no room is refused.\<close>

theorem budget_fits_the_context:
  "case plan_budget prompt_tokens max_tokens n_ctx of
     Inr n \<Rightarrow> 1 \<le> unat n \<and> unat n \<le> max (unat max_tokens) 1 \<and> prompt_tokens + unat n \<le> unat n_ctx
   | Inl e \<Rightarrow> unat n_ctx \<le> prompt_tokens"
proof (cases "prompt_tokens \<le> unat n_ctx \<and> 0 < unat n_ctx - prompt_tokens")
  case True
  let ?room = "min (unat n_ctx - prompt_tokens) (2 ^ 32 - 1)"
  have small: "unat n_ctx < 2 ^ 32" using unsigned_less [of n_ctx] by simp
  then have room: "unat (word_of_nat ?room :: u32) = unat n_ctx - prompt_tokens"
    by (simp add: unat_of_nat take_bit_nat_eq_self)
  have unat_min: "unat (min a b) = min (unat a) (unat b)" for a b :: u32
    by (simp add: min_def word_le_nat_alt)
  have unat_max: "unat (max a b) = max (unat a) (unat b)" for a b :: u32
    by (simp add: max_def word_le_nat_alt)
  let ?n = "min (max max_tokens 1) (word_of_nat ?room) :: u32"
  have "unat ?n = min (max (unat max_tokens) 1) (unat n_ctx - prompt_tokens)"
    unfolding unat_min unat_max room by simp
  moreover have "prompt_tokens + min m (unat n_ctx - prompt_tokens) \<le> unat n_ctx" for m
    using True by linarith
  ultimately show ?thesis using True by (auto simp: plan_budget_def)
next
  case False
  then show ?thesis by (auto simp: plan_budget_def)
qed

section \<open>Facts on substrings\<close>

lemma str_find_iff: "p \<noteq> [] \<Longrightarrow> str_find p s = find (\<lambda>i. starts_with (drop i s) p) [0..<length s]"
proof (induction s)
  case (Cons x xs)
  have shift: "find (\<lambda>i. starts_with (drop i (x # xs)) p) (map Suc is) =
      map_option Suc (find (\<lambda>i. starts_with (drop i xs) p) is)" for "is"
    by (induction "is") auto
  have "[0..<length (x # xs)] = 0 # map Suc [0..<length xs]"
    by (metis map_Suc_upt upt_conv_Cons length_Cons zero_less_Suc)
  then show ?case using Cons shift [of "[0..<length xs]"] by simp
qed simp

lemma find_upt_Some: "find P [0..<n] = Some i \<longleftrightarrow> i < n \<and> P i \<and> (\<forall>j < i. \<not> P j)"
  by (auto simp: find_Some_iff)

lemma find_upt_None: "find P [0..<n] = None \<longleftrightarrow> (\<forall>i < n. \<not> P i)"
  by (auto simp: find_none_iff)

lemma str_find_Some: "p \<noteq> [] \<Longrightarrow> str_find p s = Some i \<longleftrightarrow> starts_with (drop i s) p \<and> (\<forall>j < i. \<not> starts_with (drop j s) p)"
  using find_upt_Some [of "\<lambda>i. starts_with (drop i s) p" "length s" i]
  by (auto simp: str_find_iff starts_with_def )

lemma str_find_None: "p \<noteq> [] \<Longrightarrow> str_find p s = None \<longleftrightarrow> (\<forall>i. \<not> starts_with (drop i s) p)"
  using find_upt_None [of "\<lambda>i. starts_with (drop i s) p" "length s"]
  by (auto simp: str_find_iff starts_with_def) (metis drop_all leI take_Nil)

section \<open>Stop strings, however the text is cut\<close>

text \<open>The reference: where the first stop string starts in the whole text.\<close>

definition stop_at :: "string list \<Rightarrow> string \<Rightarrow> nat option" where
  "stop_at stops s = find (\<lambda>i. list_ex (starts_with (drop i s)) stops) [0..<length s]"

fun stop_run :: "string list \<Rightarrow> stop_hold \<Rightarrow> stop_hold \<times> string" where
  "stop_run [] h = (h, [])"
| "stop_run (p # ps) h = (case stop_push p h of (h, a) \<Rightarrow> (case stop_run ps h of (h, b) \<Rightarrow> (h, a @ b)))"

text \<open>Stops as UTF-8 gives them: not empty, and not starting inside a character.\<close>

definition stops_ok :: "string list \<Rightarrow> bool" where
  "stops_ok stops = list_all (\<lambda>s. s \<noteq> [] \<and> \<not> is_cont (hd s)) stops"

lemma starts_with_longer: "starts_with (a @ b) p \<Longrightarrow> length p \<le> length a \<Longrightarrow> starts_with a p"
  by (simp add: starts_with_def)

lemma starts_with_len: "starts_with s p \<Longrightarrow> length p \<le> length s"
  by (metis starts_with_def length_take min.cobounded1)

lemma starts_with_shorter: "starts_with (a @ b) p \<Longrightarrow> length a \<le> length p \<Longrightarrow> starts_with p a"
proof -
  assume p: "starts_with (a @ b) p" and len: "length a \<le> length p"
  then have "take (length a) p = take (length a) (take (length p) (a @ b))" by (simp add: starts_with_def)
  then show "starts_with p a" using len by (simp add: starts_with_def min_def)
qed

lemma starts_with_prefix: "starts_with p (a @ b) \<Longrightarrow> starts_with p a"
proof -
  assume p: "starts_with p (a @ b)"
  have "take (length a) p = take (length a) (take (length (a @ b)) p)" by (simp add: min_def)
  also have "take (length (a @ b)) p = a @ b" using p unfolding starts_with_def .
  finally show "starts_with p a" by (simp add: starts_with_def)
qed

lemma in_map_filter: "x \<in> set (List.map_filter f xs) \<longleftrightarrow> (\<exists>y \<in> set xs. f y = Some x)"
  by (force simp: List.map_filter_def)

lemma stop_at_Some: "stops_ok stops \<Longrightarrow> stop_at stops s = Some i \<longleftrightarrow>
    (\<exists>p \<in> set stops. starts_with (drop i s) p) \<and> (\<forall>j < i. \<forall>p \<in> set stops. \<not> starts_with (drop j s) p)"
proof -
  assume ok: "stops_ok stops"
  have "i < length s" if "p \<in> set stops" "starts_with (drop i s) p" for p
    using that ok by (cases "i < length s") (auto simp: stops_ok_def list_all_iff starts_with_def)
  then show ?thesis unfolding stop_at_def find_upt_Some by (auto simp: list_ex_iff)
qed

lemma stop_at_None: "stops_ok stops \<Longrightarrow> stop_at stops s = None \<longleftrightarrow> (\<forall>i. \<forall>p \<in> set stops. \<not> starts_with (drop i s) p)"
proof -
  assume ok: "stops_ok stops"
  have "i < length s" if "p \<in> set stops" "starts_with (drop i s) p" for p i
    using that ok by (cases "i < length s") (auto simp: stops_ok_def list_all_iff starts_with_def)
  then show ?thesis unfolding stop_at_def find_upt_None by (auto simp: list_ex_iff)
qed

text \<open>While no stop has come: what is out is safe, for no stop starts in it.\<close>

definition live :: "string list \<Rightarrow> string \<Rightarrow> stop_hold \<Rightarrow> bool" where
  "live stops s h = (sh_stops h = stops \<and> sh_stopped h = None \<and> sh_out h = s \<and> sh_emitted h \<le> length s \<and>
     (\<forall>i. \<forall>p \<in> set stops. \<not> starts_with (drop i s) p) \<and>
     (\<forall>i < sh_emitted h. \<forall>p \<in> set stops. \<not> starts_with p (drop i s)))"

lemma none_before:
  assumes "live stops s h" "i < sh_emitted h" "p \<in> set stops"
  shows "\<not> starts_with (drop i (s @ piece)) p \<and> \<not> starts_with p (drop i (s @ piece))"
proof -
  have i: "i \<le> length s" and no: "\<not> starts_with (drop i s) p" "\<not> starts_with p (drop i s)"
    using assms by (auto simp: live_def)
  have cut: "drop i (s @ piece) = drop i s @ piece" using i by simp
  show ?thesis
    using no starts_with_longer [of "drop i s" piece p] starts_with_shorter [of "drop i s" piece p]
      starts_with_prefix [of p "drop i s" piece] unfolding cut by linarith
qed

lemma stop_hits_min:
  assumes ok: "stops_ok stops" and live: "live stops s h" and stops: "sh_stops h' = stops"
    and h': "sh_out h' = s @ piece" "sh_emitted h' = sh_emitted h"
  shows "case stop_at stops (s @ piece) of
    None \<Rightarrow> stop_hits h' = [] | Some p \<Rightarrow> stop_hits h' \<noteq> [] \<and> Min (set (stop_hits h')) = p \<and> sh_emitted h \<le> p"
proof -
  define t where "t = s @ piece"
  let ?e = "sh_emitted h"
  have ne: "p \<noteq> []" if "p \<in> set stops" for p using that ok by (auto simp: stops_ok_def list_all_iff)
  have hit: "i \<in> set (stop_hits h') \<longleftrightarrow> (\<exists>p \<in> set stops. \<exists>k. str_find p (drop ?e t) = Some k \<and> i = k + ?e)" for i
    by (auto simp: stop_hits_def stops h' in_map_filter t_def [symmetric])
  have early: "\<not> starts_with (drop i t) p" if "i < ?e" "p \<in> set stops" for i p
    using none_before [OF live that, of piece] by (simp add: t_def)
  have "case stop_at stops t of None \<Rightarrow> stop_hits h' = []
      | Some p \<Rightarrow> stop_hits h' \<noteq> [] \<and> Min (set (stop_hits h')) = p \<and> ?e \<le> p"
  proof (cases "stop_at stops t")
    case None
    then have "\<not> starts_with (drop i t) p" if "p \<in> set stops" for i p using that stop_at_None [OF ok] by blast
    then have "str_find p (drop ?e t) = None" if "p \<in> set stops" for p
      using that ne by (simp add: str_find_None)
    then have "i \<notin> set (stop_hits h')" for i using hit by force
    then have "stop_hits h' = []" by (cases "stop_hits h'") (metis list.set_intros(1))+
    then show ?thesis using None by simp
  next
    case (Some q)
    then obtain p where p: "p \<in> set stops" "starts_with (drop q t) p"
      and first: "\<And>j p. j < q \<Longrightarrow> p \<in> set stops \<Longrightarrow> \<not> starts_with (drop j t) p"
      using stop_at_Some [OF ok] by blast
    have q: "?e \<le> q" using early [OF _ p(1), of q] p(2) by (meson not_le)
    have "str_find p (drop ?e t) = Some (q - ?e)"
    proof (subst str_find_Some [OF ne [OF p(1)]], intro conjI allI impI)
      show "starts_with (drop (q - ?e) (drop ?e t)) p" using p(2) q by simp
    next
      fix j assume "j < q - ?e"
      then have "j + ?e < q" by simp
      from first [OF this p(1)] show "\<not> starts_with (drop j (drop ?e t)) p" by (simp add: add.commute)
    qed
    moreover have "q = (q - ?e) + ?e" using q by simp
    ultimately have in_hits: "q \<in> set (stop_hits h')" unfolding hit using p(1) by blast
    have "q \<le> i" if i: "i \<in> set (stop_hits h')" for i
    proof -
      obtain p k where p: "p \<in> set stops" "str_find p (drop ?e t) = Some k" "i = k + ?e" using i unfolding hit by blast
      have "starts_with (drop k (drop ?e t)) p" using str_find_Some [OF ne [OF p(1)], THEN iffD1, OF p(2)] by (rule conjunct1)
      then have "starts_with (drop i t) p" using p(3) by simp
      then show ?thesis using first p(1) by (meson not_le)
    qed
    then have "Min (set (stop_hits h')) = q" using in_hits by (intro Min_eqI) auto
    then show ?thesis using Some q in_hits by (cases "stop_hits h'") auto
  qed
  then show ?thesis by (simp add: t_def)
qed

lemma held_suffix_safe:
  assumes ok: "stops_ok stops" and h: "sh_stops h = stops" "sh_emitted h \<le> length (sh_out h)"
    and none: "\<forall>i. \<forall>p \<in> set stops. \<not> starts_with (drop i (sh_out h)) p"
  shows "held_suffix h \<le> length (sh_out h) - sh_emitted h"
    "\<And>i p. sh_emitted h \<le> i \<Longrightarrow> i < length (sh_out h) - held_suffix h \<Longrightarrow> p \<in> set stops \<Longrightarrow>
      \<not> starts_with p (drop i (sh_out h))"
proof -
  define pend where "pend = drop (sh_emitted h) (sh_out h)"
  define P where "P = (\<lambda>i. \<not> is_cont (pend ! i) \<and>
    list_ex (\<lambda>s. length (drop i pend) < length s \<and> starts_with s (drop i pend)) (sh_stops h))"
  have held: "held_suffix h = (case find P [0..<length pend] of Some i \<Rightarrow> length pend - i | None \<Rightarrow> 0)"
    by (simp only: held_suffix_def Let_def pend_def P_def)
  show "held_suffix h \<le> length (sh_out h) - sh_emitted h" unfolding held pend_def by (auto split: option.split)
  fix i p
  assume i: "sh_emitted h \<le> i" "i < length (sh_out h) - held_suffix h" and p: "p \<in> set stops"
  let ?k = "i - sh_emitted h"
  have k: "drop i (sh_out h) = drop ?k pend" "?k < length pend" using i h by (simp_all add: pend_def add.commute)
  have "\<not> P ?k"
  proof (cases "find P [0..<length pend]")
    case None
    then show ?thesis using k(2) unfolding find_upt_None by blast
  next
    case (Some j)
    then have "held_suffix h = length pend - j" unfolding held by simp
    moreover have "j < length pend" using Some unfolding find_upt_Some by blast
    ultimately have "?k < j" using i h k(2) by (simp add: pend_def)
    then show ?thesis using Some unfolding find_upt_Some by blast
  qed
  show "\<not> starts_with p (drop i (sh_out h))"
  proof
    assume pre: "starts_with p (drop i (sh_out h))"
    have tail: "drop ?k pend = pend ! ?k # drop (Suc ?k) pend" using k(2) by (simp add: Cons_nth_drop_Suc)
    have "length (drop ?k pend) \<le> length p" using pre k by (auto simp: starts_with_def) (metis length_take min.cobounded1 le_diff_conv length_drop)
    moreover have "length (drop ?k pend) \<noteq> length p"
      using pre none p unfolding k(1) by (auto simp: starts_with_def) (metis k(1) order_refl take_all)
    ultimately have "length (drop ?k pend) < length p" by simp
    moreover have "hd p = pend ! ?k" using pre tail unfolding k(1) by (cases p) (auto simp: starts_with_def)
    then have "\<not> is_cont (pend ! ?k)" using ok p by (auto simp: stops_ok_def list_all_iff)
    ultimately have "P ?k" using pre p h unfolding k(1) by (auto simp: list_ex_iff P_def)
    with \<open>\<not> P ?k\<close> show False by blast
  qed
qed


lemma live_new: "stops_ok stops \<Longrightarrow> live stops [] (stop_hold_new stops)"
  by (auto simp: live_def stop_hold_new_def stops_ok_def list_all_iff starts_with_def filter_id_conv)

lemma stop_push_none:
  assumes ok: "stops_ok stops" and live: "live stops s h" and none: "stop_at stops (s @ piece) = None"
  obtains h' a where "stop_push piece h = (h', a)" "live stops (s @ piece) h'"
    "take (sh_emitted h) s @ a = take (sh_emitted h') (s @ piece)"
proof -
  define t where "t = s @ piece"
  define g where "g = h\<lparr>sh_out := t\<rparr>"
  have g: "sh_stops g = stops" "sh_out g = t" "sh_emitted g = sh_emitted h" "sh_stopped g = None"
    using live by (auto simp: g_def live_def)
  have e: "sh_emitted h \<le> length s" "sh_emitted h \<le> length t" using live by (auto simp: live_def t_def)
  have no: "\<forall>i. \<forall>p \<in> set stops. \<not> starts_with (drop i t) p" using none stop_at_None [OF ok] t_def by blast
  have hits: "stop_hits g = []"
    using stop_hits_min [OF ok live g(1), of piece] g none by (simp add: t_def)
  define u where "u = length t - held_suffix g"
  have held: "held_suffix g \<le> length t - sh_emitted h"
    using held_suffix_safe(1) [OF ok g(1)] g no e by simp
  then have u: "sh_emitted h \<le> u" "u \<le> length t" using e by (auto simp: u_def)
  have safe: "\<not> starts_with p (drop i t)" if "sh_emitted h \<le> i" "i < u" "p \<in> set stops" for i p
    using held_suffix_safe(2) [OF ok g(1), of i p] g no e that by (simp add: u_def)
  have before: "\<not> starts_with p (drop i t)" if "i < sh_emitted h" "p \<in> set stops" for i p
    using none_before [OF live that, of piece] by (simp add: t_def)
  have "stop_push piece h = stop_release u g"
    using live hits by (simp add: stop_push_def live_def g_def t_def Let_def u_def)
  also have "\<dots> = (g\<lparr>sh_emitted := u\<rparr>, take (u - sh_emitted h) (drop (sh_emitted h) t))"
    using u g by (simp add: stop_release_def Let_def max_def)
  finally have push: "stop_push piece h = (g\<lparr>sh_emitted := u\<rparr>, take (u - sh_emitted h) (drop (sh_emitted h) t))" .
  have "live stops t (g\<lparr>sh_emitted := u\<rparr>)"
  proof -
    have "\<not> starts_with p (drop i t)" if "i < u" "p \<in> set stops" for i p
      using safe before that by (cases "i < sh_emitted h") auto
    then show ?thesis using g u no by (simp add: live_def)
  qed
  moreover have "take (sh_emitted h) s = take (sh_emitted h) t" using e by (simp add: t_def)
  then have "take (sh_emitted h) s @ take (u - sh_emitted h) (drop (sh_emitted h) t) = take u t"
    using u by (metis le_add_diff_inverse take_add)
  ultimately show thesis using that push by (simp add: t_def)
qed

lemma stop_push_hit:
  assumes ok: "stops_ok stops" and live: "live stops s h" and hit: "stop_at stops (s @ piece) = Some p"
  obtains h' a where "stop_push piece h = (h', a)" "sh_stopped h' = Some p"
    "sh_out h' = take p (s @ piece)" "sh_emitted h' = p" "take (sh_emitted h) s @ a = take p (s @ piece)"
proof -
  define t where "t = s @ piece"
  define g where "g = h\<lparr>sh_out := t\<rparr>"
  have g: "sh_stops g = stops" "sh_out g = t" "sh_emitted g = sh_emitted h"
    using live by (auto simp: g_def live_def)
  have hits: "stop_hits g \<noteq> []" "Min (set (stop_hits g)) = p" "sh_emitted h \<le> p"
    using stop_hits_min [OF ok live g(1), of piece] g hit by (simp_all add: t_def)
  have p: "p \<le> length t" using hit by (auto simp: stop_at_def find_upt_Some t_def)
  have e: "sh_emitted h \<le> length s" using live by (simp add: live_def)
  have "stop_push piece h = stop_release p (g\<lparr>sh_out := take p t, sh_stopped := Some p\<rparr>)"
    using live hits(1,2) by (simp add: stop_push_def live_def g_def t_def Let_def)
  also have "\<dots> = (g\<lparr>sh_out := take p t, sh_stopped := Some p, sh_emitted := p\<rparr>,
      take (p - sh_emitted h) (drop (sh_emitted h) (take p t)))"
    using hits(3) g by (simp add: stop_release_def Let_def max_def)
  finally have push: "stop_push piece h = \<dots>" .
  have "take (sh_emitted h) s = take (sh_emitted h) t" using e by (simp add: t_def)
  moreover have "take (p - sh_emitted h) (drop (sh_emitted h) (take p t)) = take (p - sh_emitted h) (drop (sh_emitted h) t)"
    by (simp add: drop_take)
  ultimately have "take (sh_emitted h) s @ take (p - sh_emitted h) (drop (sh_emitted h) (take p t)) = take p t"
    using hits(3) by (metis le_add_diff_inverse take_add)
  then show thesis using that push by (simp add: t_def)
qed

lemma stop_run_stopped: "sh_stopped h \<noteq> None \<Longrightarrow> stop_run ps h = (h, [])"
  by (induction ps) (auto simp: stop_push_def)

text \<open>No stop string lies strictly inside another.\<close>

definition unnested :: "string list \<Rightarrow> bool" where
  "unnested stops = list_all (\<lambda>s. list_all (\<lambda>t.
     list_all (\<lambda>k. k + length t < length s \<longrightarrow> \<not> starts_with (drop k s) t) [1..<length s]) stops) stops"

definition cut_text :: "string list \<Rightarrow> string \<Rightarrow> string" where
  "cut_text stops s = (case stop_at stops s of Some p \<Rightarrow> take p s | None \<Rightarrow> s)"

lemma starts_with_inside:
  assumes "starts_with (drop p a @ b) t" "starts_with (drop j (a @ b)) s"
    and "j < p" "p + length t \<le> length a" "length a < j + length s"
  shows "starts_with (drop (p - j) s) t"
proof -
  define w where "w = a @ b"
  have s: "s = take (length s) (drop j w)" using assms(2) unfolding starts_with_def w_def by (rule sym)
  have "drop (p - j) s = drop (p - j) (take (length s) (drop j w))" using s by (rule arg_cong)
  also have "\<dots> = take (length s - (p - j)) (drop p w)"
    using assms(3) by (simp add: drop_take)
  finally have "drop (p - j) s = take (length s - (p - j)) (drop p w)" .
  moreover have "length t \<le> length s - (p - j)" using assms(3-5) by linarith
  moreover have "take (length t) (drop p w) = t" using assms(1,4) by (simp add: starts_with_def w_def)
  ultimately show ?thesis by (simp add: starts_with_def min_def)
qed

lemma stop_at_extend:
  assumes ok: "stops_ok stops" and un: "unnested stops" and hit: "stop_at stops t = Some p"
  shows "stop_at stops (t @ r) = Some p"
proof -
  from hit obtain q where q: "q \<in> set stops" "starts_with (drop p t) q"
    and first: "\<And>j q. j < p \<Longrightarrow> q \<in> set stops \<Longrightarrow> \<not> starts_with (drop j t) q"
    using stop_at_Some [OF ok] by blast
  have p: "p < length t" using hit by (simp add: stop_at_def find_upt_Some)
  have len: "p + length q \<le> length t"
    using starts_with_len [OF q(2)] p by simp
  have here: "starts_with (drop p (t @ r)) q" using q(2) p len by (simp add: starts_with_def)
  have "\<not> starts_with (drop j (t @ r)) s" if j: "j < p" and s: "s \<in> set stops" for j s
  proof
    assume st: "starts_with (drop j (t @ r)) s"
    have "\<not> length s \<le> length (drop j t)"
      using first [OF j s] starts_with_longer [of "drop j t" r s] st j p by auto
    then have past: "length t < j + length s" by simp
    then have "starts_with (drop (p - j) s) q"
      using starts_with_inside [of p t r q j s] here p st j len by simp
    moreover have "p - j \<in> set [1..<length s]" "p - j + length q < length s" using j len past by auto
    ultimately show False using un s q(1) unfolding unnested_def list_all_iff by blast
  qed
  then show ?thesis using stop_at_Some [OF ok] here q(1) by blast
qed

lemma stop_run_cut:
  assumes ok: "stops_ok stops" and un: "unnested stops"
  shows "live stops s h \<Longrightarrow> stop_run ps h = (h', a) \<Longrightarrow>
    take (sh_emitted h) s @ a @ snd (stop_finish h') = cut_text stops (s @ concat ps) \<and>
    sh_stopped h' = stop_at stops (s @ concat ps)"
proof (induction ps arbitrary: s h a)
  case Nil
  have none: "stop_at stops s = None" using Nil(1) stop_at_None [OF ok] by (simp add: live_def)
  have "take (sh_emitted h) s @ take (length s - sh_emitted h) (drop (sh_emitted h) s) = s" by simp
  then show ?case using Nil none by (auto simp: live_def stop_finish_def stop_release_def Let_def cut_text_def)
next
  case (Cons p ps)
  show ?case
  proof (cases "stop_at stops (s @ p)")
    case None
    obtain g b where g: "stop_push p h = (g, b)" "live stops (s @ p) g"
      "take (sh_emitted h) s @ b = take (sh_emitted g) (s @ p)"
      using stop_push_none [OF ok Cons.prems(1) None] by blast
    obtain c where run: "stop_run ps g = (h', c)" "a = b @ c"
      using Cons.prems(2) g(1) by (auto split: prod.splits)
    show ?thesis using Cons.IH [OF g(2) run(1)] g(3) run(2) by (metis append.assoc concat.simps(2))
  next
    case (Some k)
    obtain g b where g: "stop_push p h = (g, b)" "sh_stopped g = Some k" "sh_out g = take k (s @ p)" "sh_emitted g = k"
      "take (sh_emitted h) s @ b = take k (s @ p)"
      using stop_push_hit [OF ok Cons.prems(1) Some] by blast
    have run: "h' = g" "a = b" using Cons.prems(2) g(1) stop_run_stopped [of g ps] g(2) by auto
    have k: "k \<le> length (s @ p)" using Some by (simp add: stop_at_def find_upt_Some)
    have ext: "stop_at stops ((s @ p) @ concat ps) = Some k" by (rule stop_at_extend [OF ok un Some])
    have "snd (stop_finish g) = []" using g(3,4) by (simp add: stop_finish_def stop_release_def Let_def)
    moreover have "take k ((s @ p) @ concat ps) = take k (s @ p)" using k by (subst take_append) simp
    ultimately show ?thesis using run g(2,5) ext by (simp add: cut_text_def)
  qed
qed



section \<open>The thought, however the text is cut\<close>

fun think_run :: "string list \<Rightarrow> think_splitter \<Rightarrow> think_splitter \<times> delta list" where
  "think_run [] s = (s, [])"
| "think_run (p # ps) s = (case think_push p s of (s, a) \<Rightarrow> (case think_run ps s of (s, b) \<Rightarrow> (s, a @ b)))"

definition delta_content :: "delta list \<Rightarrow> string" where
  "delta_content ds = concat (map (\<lambda>d. case d of Content t \<Rightarrow> t | Reasoning _ \<Rightarrow> []) ds)"

definition delta_reasoning :: "delta list \<Rightarrow> string" where
  "delta_reasoning ds = concat (map (\<lambda>d. case d of Content _ \<Rightarrow> [] | Reasoning t \<Rightarrow> t) ds)"

lemma delta_simps [simp]:
  "delta_content [] = []" "delta_reasoning [] = []"
  "delta_content (Content t # ds) = t @ delta_content ds" "delta_content (Reasoning t # ds) = delta_content ds"
  "delta_reasoning (Content t # ds) = delta_reasoning ds" "delta_reasoning (Reasoning t # ds) = t @ delta_reasoning ds"
  "delta_content (a @ b) = delta_content a @ delta_content b"
  "delta_reasoning (a @ b) = delta_reasoning a @ delta_reasoning b"
  by (simp_all add: delta_content_def delta_reasoning_def)

text \<open>The reference, on the whole text: the thought and the answer.\<close>

definition think_reference :: "string \<Rightarrow> string \<times> string" where
  "think_reference w = (case strip_prefix THINK_OPEN (trim_start w) of
       None \<Rightarrow> ([], w)
     | Some r \<Rightarrow> (case split_str THINK_CLOSE r of None \<Rightarrow> (trim r, []) | Some (t, a) \<Rightarrow> (trim t, a)))"

definition think_inv :: "string \<Rightarrow> think_splitter \<times> delta list \<Rightarrow> bool" where
  "think_inv w = (\<lambda>(s, out). case ts_state s of
     Undecided \<Rightarrow> ts_buf s = w \<and> out = [] \<and> strip_prefix THINK_OPEN (trim_start w) = None
   | Thinking \<Rightarrow> out = [] \<and> strip_prefix THINK_OPEN (trim_start w) = Some (ts_buf s) \<and> str_find THINK_CLOSE (ts_buf s) = None
   | Answering \<Rightarrow> ts_buf s = [] \<and> delta_reasoning out = fst (think_reference w) \<and>
       trim (delta_content out) = trim (snd (think_reference w)) \<and> 
       trim_start (delta_content out) = trim_start (snd (think_reference w)) \<and>
       (case strip_prefix THINK_OPEN (trim_start w) of
          None \<Rightarrow> trim_start w \<noteq> [] \<and> \<not> starts_with THINK_OPEN (trim_start w)
        | Some r \<Rightarrow> str_find THINK_CLOSE r \<noteq> None))"

lemma THINK_ne [simp]: "THINK_OPEN \<noteq> []" "THINK_CLOSE \<noteq> []" "[] \<noteq> THINK_OPEN"
  by (simp_all add: THINK_OPEN_def THINK_CLOSE_def)

lemma trim_start_Nil [simp]: "trim_start [] = []"
  by (simp add: trim_start_def)

lemma trim_start_append: "trim_start s \<noteq> [] \<Longrightarrow> trim_start (s @ t) = trim_start s @ t"
  by (induction s) (auto simp: trim_start_def)

lemma trim_start_append_trim: "trim_start (trim_start s @ t) = trim_start (s @ t)"
  by (induction s) (auto simp: trim_start_def)

lemma strip_prefix_longer: "strip_prefix p s = Some r \<Longrightarrow> strip_prefix p (s @ t) = Some (r @ t)"
  by (auto simp: strip_prefix_def split: if_splits dest: starts_with_len) 
    (metis starts_with_def append_eq_conv_conj append.assoc append_take_drop_id)

lemma strip_trim_append:
  "strip_prefix THINK_OPEN (trim_start w) = Some r \<Longrightarrow> strip_prefix THINK_OPEN (trim_start (w @ p)) = Some (r @ p)"
  using strip_prefix_longer [of THINK_OPEN "trim_start w" r p] trim_start_append [of w p]
  by (cases "trim_start w = []") (auto simp: strip_prefix_def starts_with_def)

lemma str_find_append: "p \<noteq> [] \<Longrightarrow> str_find p s = Some i \<Longrightarrow> str_find p (s @ r) = Some i"
  unfolding str_find_Some
proof (elim conjE, intro conjI allI impI)
  assume ne: "p \<noteq> []" and i: "starts_with (drop i s) p" and first: "\<forall>j<i. \<not> starts_with (drop j s) p"
  have len: "i + length p \<le> length s" using starts_with_len [OF i] ne by (cases "i \<le> length s") auto
  show "starts_with (drop i (s @ r)) p" using i len by (simp add: starts_with_def)
  fix j assume j: "j < i"
  then have "drop j (s @ r) = drop j s @ r" "length p \<le> length (drop j s)" using len by auto
  then show "\<not> starts_with (drop j (s @ r)) p" using first j starts_with_longer by metis
qed

lemma str_find_bound: "str_find p s = Some i \<Longrightarrow> i + length p \<le> length s"
  by (induction s arbitrary: i) (auto split: if_splits dest: starts_with_len)

lemma undecided_stays:
  assumes "strip_prefix THINK_OPEN t = None" "\<not> starts_with THINK_OPEN t"
  shows "strip_prefix THINK_OPEN (t @ p) = None" "\<not> starts_with THINK_OPEN (t @ p)"
  using assms starts_with_longer [of t p THINK_OPEN] starts_with_shorter [of t p THINK_OPEN]
    starts_with_prefix [of THINK_OPEN t p] linear [of "length t" "length THINK_OPEN"]
  by (auto simp: strip_prefix_def split: if_splits)

lemma trim_cong: "trim_start a = trim_start b \<Longrightarrow> trim a = trim b"
  by (simp add: trim_def)

lemma trim_start_idem: "trim_start (trim_start s) = trim_start s"
  by (simp add: trim_start_def)

lemma inv_thinking:
  assumes open_: "strip_prefix THINK_OPEN (trim_start w) = Some b"
  shows "think_inv w (think_thinking b)"
proof (cases "str_find THINK_CLOSE b")
  case None
  then show ?thesis using open_ by (simp add: think_inv_def think_thinking_def)
next
  case (Some i)
  then have ref: "think_reference w = (trim (take i b), drop (i + length THINK_CLOSE) b)"
    using open_ by (simp add: think_reference_def split_str_def)
  show ?thesis using Some open_
    by (auto simp: think_inv_def think_thinking_def think_answering_def ref Let_def trim_start_idem
        intro!: trim_cong)
qed

lemma inv_undecided: "think_inv w (think_undecided w)"
proof (cases "strip_prefix THINK_OPEN (trim_start w)")
  case (Some b)
  then show ?thesis using inv_thinking [OF Some] by (simp add: think_undecided_def)
next
  case None
  have "w \<noteq> []" if "\<not> starts_with THINK_OPEN (trim_start w)"
    using that by (auto simp: starts_with_def trim_start_def)
  moreover have "trim_start w \<noteq> []" if "\<not> starts_with THINK_OPEN (trim_start w)"
    using that by (auto simp: starts_with_def)
  ultimately show ?thesis using None
    by (auto simp: think_undecided_def think_inv_def think_answering_def think_reference_def Let_def)
qed

lemma reference_answering:
  assumes "think_inv w (s, out)" "ts_state s = Answering"
  shows "fst (think_reference (w @ p)) = fst (think_reference w)"
    "snd (think_reference (w @ p)) = snd (think_reference w) @ p"
    "case strip_prefix THINK_OPEN (trim_start (w @ p)) of
       None \<Rightarrow> trim_start (w @ p) \<noteq> [] \<and> \<not> starts_with THINK_OPEN (trim_start (w @ p))
     | Some r \<Rightarrow> str_find THINK_CLOSE r \<noteq> None"
proof -
  show "fst (think_reference (w @ p)) = fst (think_reference w)"
    "snd (think_reference (w @ p)) = snd (think_reference w) @ p"
    "case strip_prefix THINK_OPEN (trim_start (w @ p)) of
       None \<Rightarrow> trim_start (w @ p) \<noteq> [] \<and> \<not> starts_with THINK_OPEN (trim_start (w @ p))
     | Some r \<Rightarrow> str_find THINK_CLOSE r \<noteq> None"
  proof (atomize (full), cases "strip_prefix THINK_OPEN (trim_start w)")
    case None
    then have "trim_start w \<noteq> []" "\<not> starts_with THINK_OPEN (trim_start w)"
      using assms by (auto simp: think_inv_def)
    then show "fst (think_reference (w @ p)) = fst (think_reference w) \<and>
      snd (think_reference (w @ p)) = snd (think_reference w) @ p \<and>
      (case strip_prefix THINK_OPEN (trim_start (w @ p)) of
       None \<Rightarrow> trim_start (w @ p) \<noteq> [] \<and> \<not> starts_with THINK_OPEN (trim_start (w @ p))
     | Some r \<Rightarrow> str_find THINK_CLOSE r \<noteq> None)"
      using undecided_stays [OF None, of p] trim_start_append [of w p] None by (simp add: think_reference_def)
  next
    case (Some r)
    then obtain i where i: "str_find THINK_CLOSE r = Some i" using assms by (auto simp: think_inv_def)
    show "fst (think_reference (w @ p)) = fst (think_reference w) \<and>
      snd (think_reference (w @ p)) = snd (think_reference w) @ p \<and>
      (case strip_prefix THINK_OPEN (trim_start (w @ p)) of
       None \<Rightarrow> trim_start (w @ p) \<noteq> [] \<and> \<not> starts_with THINK_OPEN (trim_start (w @ p))
     | Some r \<Rightarrow> str_find THINK_CLOSE r \<noteq> None)"
      using str_find_bound [OF i] str_find_append [OF THINK_ne(2) i, of p] i Some strip_trim_append [OF Some, of p]
      by (simp add: think_reference_def split_str_def)
  qed
qed

lemma inv_push: "think_inv w (s, out) \<Longrightarrow> think_push p s = (s', d) \<Longrightarrow> think_inv (w @ p) (s', out @ d)"
proof -
  assume inv: "think_inv w (s, out)" and push: "think_push p s = (s', d)"
  show ?thesis
  proof (cases "ts_state s")
    case Undecided
    then have "think_undecided (w @ p) = (s', d)" "out = []"
      using inv push by (auto simp: think_inv_def think_push_def)
    then show ?thesis using inv_undecided [of "w @ p"] by simp
  next
    case Thinking
    then have "think_thinking (ts_buf s @ p) = (s', d)" "out = []"
      and "strip_prefix THINK_OPEN (trim_start w) = Some (ts_buf s)"
      using inv push by (auto simp: think_inv_def think_push_def)
    then show ?thesis using inv_thinking [OF strip_trim_append, of w "ts_buf s" p] by simp
  next
    case Answering
    then have s': "s' = \<lparr>ts_state = Answering, ts_buf = []\<rparr>" and d: "d = (if p = [] then [] else [Content p])"
      using inv push by (auto simp: think_inv_def think_push_def think_answering_def)
    have parts: "delta_content d = p" "delta_reasoning d = []" by (simp_all add: d)
    have start: "trim_start (delta_content out @ p) = trim_start (snd (think_reference w) @ p)"
      using inv Answering trim_start_append_trim by (simp add: think_inv_def) metis
    show ?thesis using reference_answering [OF inv Answering, of p] inv Answering start trim_cong [OF start]
      by (simp add: think_inv_def s' parts)
  qed
qed

lemma inv_run: "think_inv w (s, out) \<Longrightarrow> think_run ps s = (s', d) \<Longrightarrow> think_inv (w @ concat ps) (s', out @ d)"
proof (induction ps arbitrary: w s out d)
  case (Cons p ps)
  obtain s1 a b where "think_push p s = (s1, a)" "think_run ps s1 = (s', b)" "d = a @ b"
    using Cons.prems(2) by (auto split: prod.splits)
  then show ?case using Cons.IH [OF inv_push [OF Cons.prems(1)]] by force
qed simp

lemma inv_finish:
  assumes "think_inv w (s, out)"
  shows "delta_reasoning (out @ think_finish s) = fst (think_reference w) \<and>
    trim (delta_content (out @ think_finish s)) = trim (snd (think_reference w))"
  using assms
  by (cases "ts_state s") (auto simp: think_inv_def think_finish_def think_reference_def split_str_def Let_def)

text \<open>C29: however an answer is cut into pieces, the stream's thought and answer are those of the whole text that opens
  with a thought: the thought whole and trimmed, the answer up to the white space around it.\<close>

theorem think_splitter_ignores_the_cuts:
  "case think_run ps think_splitter_default of (s, ds) \<Rightarrow>
     delta_reasoning (ds @ think_finish s) = fst (think_reference (concat ps)) \<and>
     trim (delta_content (ds @ think_finish s)) = trim (snd (think_reference (concat ps)))"
proof -
  obtain s ds where run: "think_run ps think_splitter_default = (s, ds)" by (cases "think_run ps think_splitter_default")
  have "think_inv [] (think_splitter_default, [])" by (auto simp: think_inv_def think_splitter_default_def trim_start_def strip_prefix_def starts_with_def)
  from inv_finish [OF inv_run [OF this run]] show ?thesis by (simp add: run)
qed

end
