(* ===== verification/ModelFiles.thy ===== *)
theory ModelFiles
  imports UpdateProperties LlmCore
begin

text \<open>
  \<^verbatim>\<open>src/src/engine/download.rs\<close>: the files of a model, found on disk or downloaded into place.  What the network
  and the disk answer to one attempt is a record, and a download consumes one record per request; it answers \<open>None\<close>
  when it asks more often than it is answered.  SHA-256, the URL parser and base64 are arguments.
\<close>

section \<open>Names\<close>

definition dir_char :: "char \<Rightarrow> bool" where
  "dir_char c = (let n = of_char c :: nat in
     (48 \<le> n \<and> n \<le> 57) \<or> (65 \<le> n \<and> n \<le> 90) \<or> (97 \<le> n \<and> n \<le> 122) \<or> c = CHR ''.'' \<or> c = CHR ''_'' \<or> c = CHR ''-'')"

text \<open>By characters: the bytes that continue one go with its first byte.\<close>

definition sanitise_model_dir :: "string \<Rightarrow> string" where
  "sanitise_model_dir model_id =
     (let out = map (\<lambda>c. if dir_char c then c else CHR ''_'') (filter (\<lambda>c. \<not> is_cont c) model_id);
          out = (if out = [] then ''_'' else out)
      in if starts_with out ''.'' then CHR ''_'' # tl out else out)"

definition model_dir :: "path \<Rightarrow> string \<Rightarrow> path" where
  "model_dir models_root model_id = path_join models_root (sanitise_model_dir model_id)"

definition model_cache_path :: "(string \<Rightarrow> string) \<Rightarrow> path \<Rightarrow> string \<Rightarrow> (anyhow, path) result" where
  "model_cache_path show_debug dir filename =
     (if filename \<notin> {'''', ''.'', ''..''} \<and> CHR ''/'' \<notin> set filename \<and> CHR 0x5C \<notin> set filename
      then Inr (path_join dir filename)
      else bail (''model filename must be a plain file name: '' @ show_debug filename))"

text \<open>\<open>Path::extension\<close>, \<open>file_stem\<close> and \<open>with_extension\<close>.\<close>

definition stem_ext :: "string \<Rightarrow> string \<times> string option" where
  "stem_ext n = (case rsplit_once (CHR ''.'') n of
       Some (a, b) \<Rightarrow> if a = [] then (n, None) else (a, Some b) | None \<Rightarrow> (n, None))"

definition path_extension :: "path \<Rightarrow> string option" where
  "path_extension p = Option.bind (file_name p) (snd \<circ> stem_ext)"

definition with_extension :: "string \<Rightarrow> path \<Rightarrow> path" where
  "with_extension ext p = (case file_name p of
       None \<Rightarrow> p | Some n \<Rightarrow> with_file_name p (fst (stem_ext n) @ (if ext = [] then [] else CHR ''.'' # ext)))"

section \<open>Checks\<close>

definition check_disk_space :: "nat \<Rightarrow> u64 \<Rightarrow> string \<Rightarrow> (anyhow, unit) result" where
  "check_disk_space available approx_bytes filename =
     (let required = min (unat approx_bytes + unat approx_bytes div 10) (2 ^ 64 - 1) in
      if available < required
      then bail (''not enough disk space for '' @ filename @ '': need ~'' @ show_nat required @ '' bytes (declared '' @
        show_nat (unat approx_bytes) @ '' + 10% headroom) but only '' @ show_nat available @
        '' bytes are free on the models filesystem '' @ EM_DASH @ '' free up space or move models_root'')
      else Inr ())"

text \<open>\<open>space\<close>: what is free at the nearest directory that exists.\<close>

definition preflight_disk_space :: "('e, nat) result \<Rightarrow> string \<Rightarrow> u64 option \<Rightarrow> (anyhow, unit) result" where
  "preflight_disk_space space filename approx_bytes = (case approx_bytes of
       None \<Rightarrow> Inr ()
     | Some needed \<Rightarrow>
         if \<not> 0 < needed then Inr ()
         else (case space of Inr available \<Rightarrow> check_disk_space available needed filename | Inl _ \<Rightarrow> Inr ()))"

definition model_download_len :: "nat \<Rightarrow> nat option \<Rightarrow> (anyhow, unit) result" where
  "model_download_len copied expected = (case expected of
       Some n \<Rightarrow> if copied \<noteq> n
         then bail (''size mismatch: wrote '' @ show_nat copied @ '' bytes but the server declared Content-Length '' @
           show_nat n @ '' (download truncated or corrupt)'')
         else Inr ()
     | None \<Rightarrow> Inr ())"

definition verify_sha256 :: "string \<Rightarrow> string option \<Rightarrow> (anyhow, unit) result" where
  "verify_sha256 actual_hex expected = (case expected of
       Some e \<Rightarrow> if \<not> eq_ignore_ascii_case actual_hex (trim e)
         then bail (''sha256 mismatch: downloaded body hashes to '' @ actual_hex @ '' but the registry expects '' @ e @
           '' (corrupted or tampered download)'')
         else Inr ()
     | None \<Rightarrow> Inr ())"

definition content_range_start :: "string \<Rightarrow> nat option" where
  "content_range_start header = (case strip_prefix ''bytes '' (trim header) of
       None \<Rightarrow> None | Some r \<Rightarrow> parse_uint 64 (hd (split_on (CHR ''-'') r)))"

section \<open>Downloading\<close>

record dl_env =
  dx_url :: url_parser
  dx_debug :: "string \<Rightarrow> string"
  dx_status :: "u16 \<Rightarrow> string"
  dx_sha256 :: "string \<Rightarrow> bytes"

record dl_answer =
  da_mkdir :: "(anyhow, unit) result"
  da_client :: "(anyhow, unit) result"
  da_sent :: "(anyhow, http_body) result"
  da_range :: "string option"
  da_open_old :: "(anyhow, unit) result"
  da_read_old :: "(anyhow, unit) result"
  da_open :: "(anyhow, unit) result"
  da_removes :: bool
  da_rename :: "(anyhow, unit) result"

datatype dl_step = Restart | Ended "(anyhow, unit) result"

definition part_of :: "path \<Rightarrow> path" where
  "part_of dest = with_extension ''part'' dest"

definition part_len :: "files \<Rightarrow> path \<Rightarrow> nat" where
  "part_len fs part = (case fs part of None \<Rightarrow> 0 | Some s \<Rightarrow> length s)"

text \<open>Best effort.\<close>

definition remove_temp_file :: "bool \<Rightarrow> path \<Rightarrow> files \<Rightarrow> files" where
  "remove_temp_file removes p fs = (if removes then fs(p := None) else fs)"

definition and_also :: "('e, unit) result \<Rightarrow> ('e, 'a) result \<Rightarrow> ('e, 'a) result" where
  "and_also r s = (case r of Inl e \<Rightarrow> Inl e | Inr _ \<Rightarrow> s)"

definition open_part :: "dl_answer \<Rightarrow> path \<Rightarrow> bool \<Rightarrow> (anyhow, unit) result" where
  "open_part a part resuming =
     (if resuming then
        and_also (with_context (''opening partial download '' @ part) (da_open_old a))
          (and_also (with_context (''hashing partial download '' @ part) (da_read_old a))
            (with_context (''reopening '' @ part @ '' for append'') (da_open a)))
      else with_context (''creating '' @ part) (da_open a))"

definition resumed :: "bool \<Rightarrow> files \<Rightarrow> path \<Rightarrow> string" where
  "resumed resuming fs dest = (if resuming then (case fs (part_of dest) of None \<Rightarrow> [] | Some s \<Rightarrow> s) else [])"

text \<open>The body is appended to what is resumed, or to nothing, and the whole is hashed.\<close>

definition receive ::
  "dl_env \<Rightarrow> string \<Rightarrow> path \<Rightarrow> string option \<Rightarrow> dl_answer \<Rightarrow> http_body \<Rightarrow> bool \<Rightarrow> files \<Rightarrow> files \<times> (anyhow, unit) result" where
  "receive v url dest expected_sha256 a b resuming fs =
     (let part = part_of dest in
      case open_part a part resuming of
        Inl e \<Rightarrow> (fs, Inl e)
      | Inr _ \<Rightarrow>
          (let whole = resumed resuming fs dest @ bd_received b;
               fs = fs(part \<mapsto> whole) in
           case and_also (with_context ''streaming body'' (bd_end b))
                  (with_context (''downloading '' @ url) (and_also (model_download_len (length (bd_received b)) (bd_length b))
                    (verify_sha256 (sha256_hex (dx_sha256 v) whole) expected_sha256))) of
             Inl e \<Rightarrow> (remove_temp_file (da_removes a) part fs, Inl e)
           | Inr _ \<Rightarrow> (case with_context (''renaming '' @ part @ '' -> '' @ dest) (da_rename a) of
                Inl e \<Rightarrow> (fs, Inl e)
              | Inr _ \<Rightarrow> (fs(part := None, dest \<mapsto> whole), Inr ()))))"

definition download_attempt ::
  "dl_env \<Rightarrow> string \<Rightarrow> path \<Rightarrow> string option \<Rightarrow> dl_answer \<Rightarrow> files \<Rightarrow> files \<times> dl_step" where
  "download_attempt v url dest expected_sha256 a fs =
     (let part = part_of dest; resume_from = part_len fs part in
      case and_also (case validate_download_url (dx_url v) (dx_debug v) url ''model file'' of Inl e \<Rightarrow> bail e | Inr _ \<Rightarrow> Inr ())
             (and_also (case path_parent dest of None \<Rightarrow> Inr () | Some d \<Rightarrow> with_context (''creating '' @ d) (da_mkdir a))
               (and_also (da_client a) (with_context ''GET'' (da_sent a)))) of
        Inl e \<Rightarrow> (fs, Ended (Inl e))
      | Inr b \<Rightarrow>
          if 0 < resume_from \<and> bd_status b = 416 then (remove_temp_file (da_removes a) part fs, Restart)
          else if \<not> is_success (bd_status b) then (fs, Ended (bail (''GET '' @ url @ '' -> '' @ dx_status v (bd_status b))))
          else
            (let resuming = 0 < resume_from \<and> bd_status b = 206 in
             if resuming \<and> Option.bind (da_range a) content_range_start \<noteq> Some resume_from
             then (remove_temp_file (da_removes a) part fs, Restart)
             else map_prod id Ended (receive v url dest expected_sha256 a b resuming fs)))"

fun download_file_verified ::
  "dl_env \<Rightarrow> string \<Rightarrow> path \<Rightarrow> string option \<Rightarrow> dl_answer list \<Rightarrow> files \<Rightarrow> (files \<times> (anyhow, unit) result) option" where
  "download_file_verified v url dest expected_sha256 [] fs = None"
| "download_file_verified v url dest expected_sha256 (a # as) fs =
     (case download_attempt v url dest expected_sha256 a fs of
        (fs, Restart) \<Rightarrow> download_file_verified v url dest expected_sha256 as fs
      | (fs, Ended r) \<Rightarrow> Some (fs, r))"

section \<open>Finding or fetching a model's file\<close>

definition existing_copy :: "dl_env \<Rightarrow> path \<Rightarrow> path \<Rightarrow> model_file \<Rightarrow> files \<Rightarrow> (anyhow, path option) result" where
  "existing_copy v dir models_root f fs = (case model_cache_path (dx_debug v) dir (mf_filename f) of
       Inl e \<Rightarrow> Inl e
     | Inr cached \<Rightarrow>
         if fs cached \<noteq> None then Inr (Some cached)
         else (case model_cache_path (dx_debug v) models_root (mf_filename f) of
             Inl e \<Rightarrow> Inl e
           | Inr root_copy \<Rightarrow> Inr (case fs root_copy of
                 None \<Rightarrow> None
               | Some content \<Rightarrow> (case mf_approx_bytes f of
                     Some want \<Rightarrow> if unat want \<noteq> length content then None else Some root_copy
                   | None \<Rightarrow> Some root_copy))))"

text \<open>Fetch to \<open>target\<close>, whose checks of the name are done.\<close>

definition fetch_to ::
  "dl_env \<Rightarrow> ('e, nat) result \<Rightarrow> dl_answer list \<Rightarrow> path \<Rightarrow> model_file \<Rightarrow> files \<Rightarrow> (files \<times> (anyhow, path) result) option" where
  "fetch_to v space as target f fs = (case preflight_disk_space space (mf_filename f) (mf_approx_bytes f) of
       Inl e \<Rightarrow> Some (fs, Inl e)
     | Inr _ \<Rightarrow> map_option (\<lambda>(fs, r). (fs, case with_context (''downloading '' @ mf_filename f @ '' ('' @ mf_url f @ '') -> '' @ target) r of
           Inl e \<Rightarrow> Inl e | Inr _ \<Rightarrow> Inr target))
         (download_file_verified v (mf_url f) target (mf_sha256 f) as fs))"

definition ensure_file ::
  "dl_env \<Rightarrow> ('e, nat) result \<Rightarrow> dl_answer list \<Rightarrow> path \<Rightarrow> model_file \<Rightarrow> files \<Rightarrow> (files \<times> (anyhow, path) result) option" where
  "ensure_file v space as dir f fs = (case model_cache_path (dx_debug v) dir (mf_filename f) of
       Inl e \<Rightarrow> Some (fs, Inl e)
     | Inr local \<Rightarrow> if fs local \<noteq> None then Some (fs, Inr local) else fetch_to v space as local f fs)"

definition ensure_file_reusing ::
  "dl_env \<Rightarrow> ('e, nat) result \<Rightarrow> dl_answer list \<Rightarrow> path \<Rightarrow> path \<Rightarrow> model_file \<Rightarrow> files \<Rightarrow> (files \<times> (anyhow, path) result) option" where
  "ensure_file_reusing v space as dir models_root f fs = (case existing_copy v dir models_root f fs of
       Inl e \<Rightarrow> Some (fs, Inl e)
     | Inr (Some p) \<Rightarrow> Some (fs, Inr p)
     | Inr None \<Rightarrow> ensure_file v space as dir f fs)"

definition ensure_file_for_model ::
  "dl_env \<Rightarrow> ('e, nat) result \<Rightarrow> dl_answer list \<Rightarrow> path \<Rightarrow> string \<Rightarrow> model_file \<Rightarrow> files \<Rightarrow> (files \<times> (anyhow, path) result) option" where
  "ensure_file_for_model v space as models_root model_id f fs =
     (case model_cache_path (dx_debug v) (model_dir models_root model_id) (mf_filename f) of
       Inl e \<Rightarrow> Some (fs, Inl e)
     | Inr target \<Rightarrow>
         if fs target \<noteq> None then Some (fs, Inr target)
         else (case model_cache_path (dx_debug v) models_root (mf_filename f) of
             Inl e \<Rightarrow> Some (fs, Inl e)
           | Inr legacy \<Rightarrow>
               if fs legacy \<noteq> None then Some (fs, Inr legacy) else fetch_to v space as target f fs))"

section \<open>Input images\<close>

definition bytes_str :: "nat list \<Rightarrow> string" where
  "bytes_str ns = map char_of ns"

definition sniff_image_extension :: "string \<Rightarrow> string option" where
  "sniff_image_extension s =
     (if starts_with s (bytes_str [255, 216, 255]) then Some ''jpg''
      else if starts_with s (bytes_str [137] @ ''PNG'' @ bytes_str [13, 10, 26, 10]) then Some ''png''
      else if 12 \<le> length s \<and> take 4 s = ''RIFF'' \<and> take 4 (drop 8 s) = ''WEBP'' then Some ''webp''
      else if starts_with s ''GIF87a'' \<or> starts_with s ''GIF89a'' then Some ''gif''
      else if starts_with s ''BM'' then Some ''bmp''
      else if starts_with s (bytes_str [73, 73, 42, 0]) \<or> starts_with s (bytes_str [77, 77, 0, 42]) then Some ''tif''
      else None)"

definition image_ext_matches :: "path \<Rightarrow> string \<Rightarrow> bool" where
  "image_ext_matches p actual = (let current = map_option to_ascii_lowercase (path_extension p)
     in current = Some actual \<or> (actual = ''jpg'' \<and> current = Some ''jpeg''))"

text \<open>The header read gives up to 16 bytes.\<close>

definition ensure_correct_image_extension ::
  "(anyhow, unit) result \<Rightarrow> (anyhow, unit) result \<Rightarrow> (anyhow, unit) result \<Rightarrow> path \<Rightarrow> files \<Rightarrow> files \<times> (anyhow, path) result" where
  "ensure_correct_image_extension opens reads renames p fs = (case fs p of
       None \<Rightarrow> (fs, with_context (''opening input image '' @ p) (Inl not_found))
     | Some content \<Rightarrow> (case and_also (with_context (''opening input image '' @ p) opens)
             (with_context (''reading input image header '' @ p) reads) of
         Inl e \<Rightarrow> (fs, Inl e)
       | Inr _ \<Rightarrow> (case sniff_image_extension (take 16 content) of
             None \<Rightarrow> (fs, Inr p)
           | Some actual \<Rightarrow>
               if image_ext_matches p actual then (fs, Inr p)
               else
                 (let corrected = with_extension actual p in
                  case with_context (''renaming '' @ p @ '' -> '' @ corrected) renames of
                    Inl e \<Rightarrow> (fs, Inl e)
                  | Inr _ \<Rightarrow> (fs(p := None, corrected \<mapsto> content), Inr corrected)))))"

definition decode_image_data_url :: "(string \<Rightarrow> (anyhow, string) result) \<Rightarrow> string \<Rightarrow> (anyhow, string) result" where
  "decode_image_data_url base64 url = (case strip_prefix ''data:image/'' url of
       None \<Rightarrow> bail ''an inline input must be a data:image/... URL''
     | Some r \<Rightarrow> (case split_str '';base64,'' r of
           None \<Rightarrow> bail ''an inline input image must be base64: data:image/<type>;base64,<bytes>''
         | Some (_, payload) \<Rightarrow> (case with_context ''decoding the inline input image'' (base64 payload) of
               Inl e \<Rightarrow> Inl e
             | Inr b \<Rightarrow> if b = [] then bail ''the inline input image is empty'' else Inr b)))"

text \<open>A write that fails may have created the file and left a part of the bytes in it.\<close>

definition write_data_url ::
  "(string \<Rightarrow> (anyhow, string) result) \<Rightarrow> (anyhow, unit) result \<Rightarrow> (anyhow \<times> string option, unit) result \<Rightarrow> string \<Rightarrow> path \<Rightarrow>
   files \<Rightarrow> files \<times> (anyhow, unit) result" where
  "write_data_url base64 mkdir writes url dest fs = (case decode_image_data_url base64 url of
       Inl e \<Rightarrow> (fs, Inl e)
     | Inr b \<Rightarrow> (case (case path_parent dest of None \<Rightarrow> Inr () | Some d \<Rightarrow> with_context (''creating '' @ d) mkdir) of
           Inl e \<Rightarrow> (fs, Inl e)
         | Inr _ \<Rightarrow> (case writes of
               Inr _ \<Rightarrow> (fs(dest \<mapsto> b), Inr ())
             | Inl (e, left) \<Rightarrow>
                 ((case left of None \<Rightarrow> fs | Some s \<Rightarrow> fs(dest \<mapsto> s)), with_context (''writing '' @ dest) (Inl e)))))"

definition download_file ::
  "dl_env \<Rightarrow> (string \<Rightarrow> (anyhow, string) result) \<Rightarrow> (anyhow, unit) result \<Rightarrow> (anyhow \<times> string option, unit) result \<Rightarrow> dl_answer list \<Rightarrow>
   string \<Rightarrow> path \<Rightarrow> files \<Rightarrow> (files \<times> (anyhow, unit) result) option" where
  "download_file v base64 mkdir writes as url dest fs =
     (if starts_with url ''data:'' then Some (write_data_url base64 mkdir writes url dest fs)
      else download_file_verified v url dest None as fs)"

text \<open>A job's scratch files, removed when their guard is dropped; \<open>removes\<close> says which removals work.\<close>

type_synonym temp_file_guard = "path list"

definition guard_push :: "path \<Rightarrow> temp_file_guard \<Rightarrow> temp_file_guard" where
  "guard_push p g = g @ [p]"

definition guard_drop :: "(path \<Rightarrow> bool) \<Rightarrow> temp_file_guard \<Rightarrow> files \<Rightarrow> files" where
  "guard_drop removes g fs = fold (\<lambda>p. remove_temp_file (removes p) p) g fs"

section \<open>What a download leaves\<close>

lemma and_also_Inr [simp]: "and_also r s = Inr x \<longleftrightarrow> r = Inr () \<and> s = Inr x"
  by (auto simp: and_also_def split: sum.splits)

lemma with_context_Inr [simp]: "with_context m r = Inr x \<longleftrightarrow> r = Inr x"
  by (auto simp: with_context_def split: sum.splits)

lemma model_download_len_ok [simp]: "model_download_len n l = Inr () \<longleftrightarrow> l = None \<or> l = Some n"
  by (auto simp: model_download_len_def bail_def split: option.splits)

lemma verify_sha256_ok:
  "verify_sha256 h e = Inr () \<longleftrightarrow> (case e of None \<Rightarrow> True | Some e \<Rightarrow> eq_ignore_ascii_case h (trim e))"
  by (auto simp: verify_sha256_def bail_def split: option.splits)

definition url_allowed :: "dl_env \<Rightarrow> string \<Rightarrow> bool" where
  "url_allowed v url = is_ok (validate_download_url (dx_url v) (dx_debug v) url ''model file'')"

definition hash_agrees :: "dl_env \<Rightarrow> string option \<Rightarrow> string \<Rightarrow> bool" where
  "hash_agrees v sha content = (case sha of None \<Rightarrow> True
     | Some e \<Rightarrow> eq_ignore_ascii_case (sha256_hex (dx_sha256 v) content) (trim e))"

text \<open>The whole body came, of the declared length.\<close>

definition came_whole :: "http_body \<Rightarrow> bool" where
  "came_whole b = (is_success (bd_status b) \<and> bd_end b = Inr () \<and> (bd_length b = None \<or> bd_length b = Some (length (bd_received b))))"

lemma receive_cases:
  assumes "receive v url dest sha a b resuming fs = (fs', r)" "part_of dest \<noteq> dest" "is_success (bd_status b)"
  shows "(\<forall>p. p \<notin> {dest, part_of dest} \<longrightarrow> fs' p = fs p) \<and>
    (if r = Inr () then came_whole b \<and> hash_agrees v sha (resumed resuming fs dest @ bd_received b) \<and>
       fs' = fs(part_of dest := None, dest \<mapsto> resumed resuming fs dest @ bd_received b)
     else fs' dest = fs dest)"
  using assms
  by (auto simp: receive_def Let_def verify_sha256_ok came_whole_def hash_agrees_def remove_temp_file_def
      split: sum.splits if_splits)

lemma validated [simp]:
  "(case validate_download_url p d url w of Inl e \<Rightarrow> bail e | Inr _ \<Rightarrow> Inr ()) = Inr () \<longleftrightarrow>
     is_ok (validate_download_url p d url w)"
  by (auto simp: bail_def split: sum.splits)

lemma attempt_cases:
  assumes "download_attempt v url dest sha a fs = (fs', s)" "part_of dest \<noteq> dest"
  shows "(\<forall>p. p \<notin> {dest, part_of dest} \<longrightarrow> fs' p = fs p) \<and>
    (case s of Restart \<Rightarrow> fs' = remove_temp_file (da_removes a) (part_of dest) fs \<and> 0 < part_len fs (part_of dest)
     | Ended r \<Rightarrow>
         if r = Inr () then \<exists>b resuming. url_allowed v url \<and> da_sent a = Inr b \<and> came_whole b \<and>
           hash_agrees v sha (resumed resuming fs dest @ bd_received b) \<and>
           fs' = fs(part_of dest := None, dest \<mapsto> resumed resuming fs dest @ bd_received b)
         else fs' dest = fs dest)"
proof -
  have rec: "receive v url dest sha a b resuming fs = (fs', r) \<Longrightarrow> is_success (bd_status b) \<Longrightarrow> ?thesis"
    if "s = Ended r" "url_allowed v url" "da_sent a = Inr b" for b resuming r
    using receive_cases [of v url dest sha a b resuming fs fs' r] assms(2) that by auto
  show ?thesis
    using assms(1) rec
    by (fastforce simp: download_attempt_def Let_def url_allowed_def remove_temp_file_def bail_def map_prod_def
        split: sum.splits if_splits prod.splits)
qed


text \<open>C33: a download ends: when a stale part can be removed, two requests are enough, for the second has nothing to
  resume.\<close>

theorem download_asks_at_most_twice:
  assumes "da_removes a"
  shows "download_file_verified v url dest sha (a # b # as) fs \<noteq> None"
proof -
  obtain f s where at: "download_attempt v url dest sha a fs = (f, s)" by fastforce
  show ?thesis
  proof (cases s)
    case Restart
    then have "part_len f (part_of dest) = 0"
      using at assms
      by (auto simp: download_attempt_def Let_def remove_temp_file_def part_len_def map_prod_def split: sum.splits if_splits prod.splits)
    then have "\<exists>f' r. download_attempt v url dest sha b f = (f', Ended r)"
      by (auto simp: download_attempt_def Let_def map_prod_def split: sum.splits if_splits prod.splits)
    then show ?thesis using Restart at by auto
  next
    case (Ended r)
    then show ?thesis using at by simp
  qed
qed

text \<open>But when it cannot be removed and the server refuses its range, every request leads to the same one again.\<close>

theorem stuck_part_asks_for_ever:
  assumes "url_allowed v url" "0 < part_len fs (part_of dest)" "\<not> da_removes a" "da_mkdir a = Inr ()" "da_client a = Inr ()"
    and "da_sent a = Inr b" "bd_status b = 416"
  shows "download_file_verified v url dest sha (replicate n a) fs = None"
proof (induction n)
  case (Suc n)
  have "download_attempt v url dest sha a fs = (fs, Restart)"
    using assms by (auto simp: download_attempt_def Let_def and_also_def with_context_def remove_temp_file_def url_allowed_def
        split: sum.splits option.splits)
  then show ?case using Suc by simp
qed simp

section \<open>Resuming\<close>

text \<open>Nothing fails but what the server may answer.\<close>

definition smooth :: "dl_answer \<Rightarrow> bool" where
  "smooth a = (da_mkdir a = Inr () \<and> da_client a = Inr () \<and> da_open_old a = Inr () \<and> da_read_old a = Inr () \<and>
     da_open a = Inr () \<and> da_removes a \<and> da_rename a = Inr ())"

definition sends_whole :: "string \<Rightarrow> dl_answer \<Rightarrow> bool" where
  "sends_whole content a = (smooth a \<and> da_sent a = Inr \<lparr>bd_status = 200, bd_length = Some (length content), bd_received = content, bd_end = Inr ()\<rparr>)"

definition sends_from :: "nat \<Rightarrow> string \<Rightarrow> dl_answer \<Rightarrow> bool" where
  "sends_from k content a = (smooth a \<and> Option.bind (da_range a) content_range_start = Some k \<and>
     da_sent a = Inr \<lparr>bd_status = 206, bd_length = Some (length content - k), bd_received = drop k content, bd_end = Inr ()\<rparr>)"

definition refuses_range :: "dl_answer \<Rightarrow> bool" where
  "refuses_range a = (smooth a \<and> (\<exists>b. da_sent a = Inr b \<and> bd_status b = 416))"

lemma allowed_ok: "url_allowed v url \<Longrightarrow> validate_download_url (dx_url v) (dx_debug v) url ''model file'' = Inr ()"
  by (auto simp: url_allowed_def is_ok_def split: sum.splits)

lemma agreed: "hash_agrees v sha content \<Longrightarrow> verify_sha256 (sha256_hex (dx_sha256 v) content) sha = Inr ()"
  by (simp add: hash_agrees_def verify_sha256_ok split: option.splits)

lemma attempt_smooth:
  assumes "url_allowed v url" "smooth a" "da_sent a = Inr b"
  shows "download_attempt v url dest sha a fs =
    (let part = part_of dest; k = part_len fs part in
     if 0 < k \<and> bd_status b = 416 then (fs(part := None), Restart)
     else if \<not> is_success (bd_status b) then (fs, Ended (bail (''GET '' @ url @ '' -> '' @ dx_status v (bd_status b))))
     else let resuming = 0 < k \<and> bd_status b = 206 in
       if resuming \<and> Option.bind (da_range a) content_range_start \<noteq> Some k then (fs(part := None), Restart)
       else map_prod id Ended (receive v url dest sha a b resuming fs))"
  using assms allowed_ok [OF assms(1)]
  by (cases "path_parent dest") (simp_all add: download_attempt_def and_also_def with_context_def smooth_def remove_temp_file_def Let_def)

lemma receive_smooth:
  assumes "smooth a" "bd_end b = Inr ()" "bd_length b = Some (length (bd_received b))"
    and "hash_agrees v sha (resumed resuming fs dest @ bd_received b)"
  shows "receive v url dest sha a b resuming fs =
    (fs(part_of dest := None, dest \<mapsto> resumed resuming fs dest @ bd_received b), Inr ())"
  using assms(1-3) agreed [OF assms(4)]
  by (cases resuming) (simp_all add: receive_def open_part_def and_also_def with_context_def smooth_def model_download_len_def Let_def)

lemma attempt_whole:
  assumes "url_allowed v url" "hash_agrees v sha content" "sends_whole content a"
  shows "download_attempt v url dest sha a fs = (fs(part_of dest := None, dest \<mapsto> content), Ended (Inr ()))"
proof -
  let ?b = "\<lparr>bd_status = 200, bd_length = Some (length content), bd_received = content, bd_end = Inr ()\<rparr>"
  have a: "smooth a" "da_sent a = Inr ?b" using assms(3) by (simp_all add: sends_whole_def)
  have "receive v url dest sha a ?b False fs = (fs(part_of dest := None, dest \<mapsto> content), Inr ())"
    using receive_smooth [OF a(1), of ?b v sha False fs dest url] assms(2) by (simp add: resumed_def)
  then show ?thesis by (simp add: attempt_smooth [OF assms(1) a] is_success_def Let_def)
qed

lemma attempt_from:
  assumes "url_allowed v url" "hash_agrees v sha (old @ drop (length old) content)" "fs (part_of dest) = Some old" "old \<noteq> []"
    and "sends_from (length old) content a"
  shows "download_attempt v url dest sha a fs =
    (fs(part_of dest := None, dest \<mapsto> old @ drop (length old) content), Ended (Inr ()))"
proof -
  let ?b = "\<lparr>bd_status = 206, bd_length = Some (length content - length old), bd_received = drop (length old) content, bd_end = Inr ()\<rparr>"
  have a: "smooth a" "da_sent a = Inr ?b" "Option.bind (da_range a) content_range_start = Some (length old)"
    using assms(5) by (simp_all add: sends_from_def)
  have "receive v url dest sha a ?b True fs = (fs(part_of dest := None, dest \<mapsto> old @ drop (length old) content), Inr ())"
    using receive_smooth [OF a(1), of ?b v sha True fs dest url] assms(2,3) by (simp add: resumed_def)
  then show ?thesis using assms(3,4) a(3) by (simp add: attempt_smooth [OF assms(1) a(1,2)] is_success_def part_len_def Let_def)
qed

lemma attempt_refused:
  assumes "url_allowed v url" "0 < part_len fs (part_of dest)" "refuses_range a"
  shows "download_attempt v url dest sha a fs = (fs(part_of dest := None), Restart)"
  using assms attempt_smooth [OF assms(1)] by (auto simp: refuses_range_def Let_def)

text \<open>C32: resuming is as good as starting over.  When the part left by an interrupted download is a beginning of the
  file, the server may ignore the range, answer it, or refuse it (and is asked again): the result is the whole file at
  its place and no part, just as when nothing was left.\<close>

theorem resumed_download_is_whole:
  assumes "url_allowed v url" "hash_agrees v sha content" "fs (part_of dest) \<in> {None, Some (take k content)}"
    and "sends_whole content a \<or> sends_from (part_len fs (part_of dest)) content a \<and> 0 < part_len fs (part_of dest) \<or>
      refuses_range a \<and> 0 < part_len fs (part_of dest) \<and> sends_whole content b"
  shows "download_file_verified v url dest sha [a, b] fs = Some (fs(part_of dest := None, dest \<mapsto> content), Inr ())"
  using assms(4)
proof (elim disjE conjE)
  assume "sends_whole content a"
  then show ?thesis using attempt_whole [OF assms(1,2)] by simp
next
  assume a: "sends_from (part_len fs (part_of dest)) content a" "0 < part_len fs (part_of dest)"
  then obtain old where old: "fs (part_of dest) = Some old" "old \<noteq> []" by (auto simp: part_len_def split: option.splits)
  then have "old @ drop (length old) content = content" using assms(3) by (auto simp: min_def)
  then show ?thesis using attempt_from [of v url sha old content fs dest a] assms(1,2) a old by (simp add: part_len_def)
next
  assume "refuses_range a" "0 < part_len fs (part_of dest)" "sends_whole content b"
  then show ?thesis using attempt_refused [OF assms(1)] attempt_whole [OF assms(1,2)] by simp
qed

text \<open>But what is left need not be of this file: two files of a model with one stem share their part, and a download
  that knows no hash publishes whatever was left, followed by the rest of its own file.\<close>

theorem part_of_another_file_is_resumed:
  assumes "url_allowed v url" "fs ''/m/model.part'' = Some old" "old \<noteq> []" "sends_from (length old) content a"
  shows "part_of ''/m/model.safetensors'' = ''/m/model.part'' \<and> part_of ''/m/model.json'' = ''/m/model.part'' \<and>
    download_file_verified v url ''/m/model.json'' None [a] fs =
      Some (fs(''/m/model.part'' := None, ''/m/model.json'' \<mapsto> old @ drop (length old) content), Inr ())"
proof -
  have part: "part_of ''/m/model.safetensors'' = ''/m/model.part''" "part_of ''/m/model.json'' = ''/m/model.part''"
    by code_simp+
  then show ?thesis using attempt_from [of v url None old content fs "''/m/model.json''" a] assms
    by (simp add: hash_agrees_def)
qed

section \<open>Where files go\<close>

definition plain_segment :: "string \<Rightarrow> bool" where
  "plain_segment s = (s \<notin> {[], ''.'', ''..''} \<and> CHR ''/'' \<notin> set s \<and> CHR 0x5C \<notin> set s)"

lemma dir_char_no_sep: "\<not> dir_char (CHR ''/'')" "\<not> dir_char (CHR 0x5C)" "dir_char (CHR ''_'')"
  by (simp_all add: dir_char_def)

lemma sanitised_chars: "c \<in> set (sanitise_model_dir i) \<Longrightarrow> dir_char c"
proof -
  define out where "out = map (\<lambda>c. if dir_char c then c else CHR ''_'') (filter (\<lambda>c. \<not> is_cont c) i)"
  have "list_all dir_char out" by (auto simp: out_def list_all_iff dir_char_no_sep)
  moreover have "sanitise_model_dir i = (let out = if out = [] then ''_'' else out in if starts_with out ''.'' then CHR ''_'' # tl out else out)"
    by (simp add: sanitise_model_dir_def out_def Let_def)
  ultimately show "c \<in> set (sanitise_model_dir i) \<Longrightarrow> dir_char c"
    by (cases out) (auto simp: Let_def dir_char_no_sep starts_with_def list_all_iff split: if_splits)
qed

lemma sanitised_plain: "plain_segment (sanitise_model_dir i)"
proof -
  have "sanitise_model_dir i \<noteq> [] \<and> \<not> starts_with (sanitise_model_dir i) ''.''"
    by (auto simp: sanitise_model_dir_def Let_def starts_with_def)
  then show ?thesis using sanitised_chars [of _ i] dir_char_no_sep by (auto simp: plain_segment_def starts_with_def)
qed

lemma join_plain: "plain_segment s \<Longrightarrow> d \<noteq> [] \<Longrightarrow> \<not> ends_with d ''/'' \<Longrightarrow> path_join d s = d @ ''/'' @ s"
  by (cases s) (auto simp: path_join_def plain_segment_def starts_with_def)

lemma plain_no_slash_end: "plain_segment s \<Longrightarrow> \<not> ends_with (d @ ''/'' @ s) ''/''"
  by (cases s rule: rev_cases) (auto simp: plain_segment_def ends_with_def)


section \<open>Samples\<close>

definition sample_dl :: dl_env where
  "sample_dl = \<lparr>dx_url = sample_urls, dx_debug = id, dx_status = (\<lambda>_. []), dx_sha256 = (\<lambda>s. map (\<lambda>_. 0) s)\<rparr>"

definition sample_answer :: "string option \<Rightarrow> http_body \<Rightarrow> dl_answer" where
  "sample_answer rng b = \<lparr>da_mkdir = Inr (), da_client = Inr (), da_sent = Inr b, da_range = rng, da_open_old = Inr (),
     da_read_old = Inr (), da_open = Inr (), da_removes = True, da_rename = Inr ()\<rparr>"

definition sample_rest :: dl_answer where
  "sample_rest = sample_answer (Some ''bytes 2-3/4'') \<lparr>bd_status = 206, bd_length = Some 2, bd_received = ''cd'', bd_end = Inr ()\<rparr>"

lemma sample_allowed: "url_allowed sample_dl ''u''"
  by (simp add: url_allowed_def sample_dl_def sample_urls_def validate_download_url_def)

lemma sample_range: "content_range_start ''bytes 2-3/4'' = Some 2"
  by (simp add: content_range_start_def trim_def trim_start_def trim_end_def is_ws_def strip_prefix_def starts_with_def
      parse_uint_def digit_val_def Let_def)

lemma sample_sends: "sends_from 2 ''abcd'' sample_rest" "da_removes sample_rest"
  by (simp_all add: sends_from_def sample_rest_def sample_answer_def smooth_def sample_range)

lemma sample_part: "part_of ''/m/model.json'' = ''/m/model.part''"
  by code_simp

theorem resumed_download_is_whole_witness:
  "download_file_verified sample_dl ''u'' ''/m/model.json'' (Some '' 00000000 '') [sample_rest, sample_rest] [''/m/model.part'' \<mapsto> ''ab''] =
     Some ([''/m/model.part'' \<mapsto> ''ab''](''/m/model.part'' := None, ''/m/model.json'' \<mapsto> ''abcd''), Inr ())"
proof -
  have "hash_agrees sample_dl (Some '' 00000000 '') ''abcd''" by code_simp
  then show ?thesis
    using resumed_download_is_whole [of sample_dl "''u''" "Some '' 00000000 ''" "''abcd''" "[''/m/model.part'' \<mapsto> ''ab'']"
        "''/m/model.json''" 2 sample_rest sample_rest] sample_allowed sample_sends
    by (simp add: sample_part part_len_def numeral_2_eq_2)
qed


theorem download_asks_at_most_twice_witness:
  "download_file_verified sample_dl ''u'' ''/m/model.json'' None [sample_rest, sample_rest] [''/m/model.part'' \<mapsto> ''abc''] \<noteq> None"
  by (rule download_asks_at_most_twice [OF sample_sends(2)])


end
