(* ===== verification/DaemonProcesses.thy ===== *)
theory DaemonProcesses
  imports FileStore
begin

text \<open>
  What keeps the worker's processes in order: one daemon per configuration (\<^verbatim>\<open>src/src/daemon_lock.rs\<close>), a tray that
  restarts on a new binary (\<^verbatim>\<open>exe_watch.rs\<close>) and a daemon that brings a vanished tray back (\<^verbatim>\<open>tray_watchdog.rs\<close>).
  The last two are deciders with a memory; each is shown to decide as its whole history demands.
\<close>

definition beside :: "string \<Rightarrow> path \<Rightarrow> path" where
  "beside name config_path = path_join (case path_parent config_path of None \<Rightarrow> ''.'' | Some d \<Rightarrow> d) name"

section \<open>The daemon lock\<close>

definition LOCK_FILE_NAME :: string where "LOCK_FILE_NAME = ''daemon.lock''"
definition PID_FILE_NAME :: string where "PID_FILE_NAME = ''daemon.pid''"
definition ACQUIRE_ATTEMPTS :: nat where "ACQUIRE_ATTEMPTS = 10"

definition lock_path_for :: "path \<Rightarrow> path" where
  "lock_path_for config_path = beside LOCK_FILE_NAME config_path"

definition pid_path_for :: "path \<Rightarrow> path" where
  "pid_path_for config_path = with_file_name (lock_path_for config_path) PID_FILE_NAME"

text \<open>What the operating system answers to one try: a lock is taken, would block, or fails.\<close>

datatype lock_answer = Taken | WouldBlock | LockFails io_error

datatype acquired = Mine | HeldElsewhere

text \<open>\<open>tries\<close> answers each try by its number, from 1; the second argument counts the tries that remain.\<close>

fun acquire_loop :: "(nat \<Rightarrow> lock_answer) \<Rightarrow> nat \<Rightarrow> nat \<Rightarrow> (io_error, acquired) result" where
  "acquire_loop tries attempt 0 = Inr HeldElsewhere"
| "acquire_loop tries attempt (Suc more_tries) = (case tries attempt of
       Taken \<Rightarrow> Inr Mine
     | WouldBlock \<Rightarrow> acquire_loop tries (Suc attempt) more_tries
     | LockFails e \<Rightarrow> Inl e)"

definition acquire_with :: "(io_error, unit) result \<Rightarrow> (nat \<Rightarrow> lock_answer) \<Rightarrow> nat \<Rightarrow> (io_error, acquired) result" where
  "acquire_with opened tries attempts = (case opened of Inl e \<Rightarrow> Inl e | Inr _ \<Rightarrow> acquire_loop tries 1 (max attempts 1))"

definition acquire :: "(io_error, unit) result \<Rightarrow> (nat \<Rightarrow> lock_answer) \<Rightarrow> (io_error, acquired) result" where
  "acquire opened tries = acquire_with opened tries ACQUIRE_ATTEMPTS"

definition is_held :: "(io_error, unit) result \<Rightarrow> lock_answer \<Rightarrow> (io_error, unit) result \<Rightarrow> (io_error, bool) result" where
  "is_held opened shared unlocked = (case opened of
       Inl e \<Rightarrow> Inl e
     | Inr _ \<Rightarrow> (case shared of
           Taken \<Rightarrow> (case unlocked of Inl e \<Rightarrow> Inl e | Inr _ \<Rightarrow> Inr False)
         | WouldBlock \<Rightarrow> Inr True
         | LockFails e \<Rightarrow> Inl e))"

section \<open>A replaced executable\<close>

record exe_identity =
  xi_len :: u64
  xi_modified :: "int option"
  xi_dev_ino :: "(u64 \<times> u64) option" \<comment> \<open>on Unix\<close>

datatype watch_step = Unchanged | Missing bool | Settling | WatchRestart

record exe_watch =
  ew_baseline :: "exe_identity option"
  ew_pending :: "(exe_identity \<times> millis) option"
  ew_missing :: bool
  ew_settle :: millis

definition EXE_SETTLE :: millis where "EXE_SETTLE = 3000"

definition exe_watch_new :: "exe_identity option \<Rightarrow> millis \<Rightarrow> exe_watch" where
  "exe_watch_new baseline settle = \<lparr>ew_baseline = baseline, ew_pending = None, ew_missing = False, ew_settle = settle\<rparr>"

definition observe :: "exe_identity option \<Rightarrow> millis \<Rightarrow> exe_watch \<Rightarrow> exe_watch \<times> watch_step" where
  "observe now t w = (case now of
       None \<Rightarrow> (w\<lparr>ew_pending := None, ew_missing := True\<rparr>, Missing (\<not> ew_missing w))
     | Some i \<Rightarrow>
         (let w = w\<lparr>ew_missing := False\<rparr> in
          if Some i = ew_baseline w then (w\<lparr>ew_pending := None\<rparr>, Unchanged)
          else (case ew_pending w of
              Some (pending, since) \<Rightarrow>
                if pending = i then
                  if ew_settle w \<le> t - since then (w\<lparr>ew_baseline := Some i, ew_pending := None\<rparr>, WatchRestart) else (w, Settling)
                else (w\<lparr>ew_pending := Some (i, t)\<rparr>, Settling)
            | None \<Rightarrow> (w\<lparr>ew_pending := Some (i, t)\<rparr>, Settling))))"

section \<open>A vanished tray\<close>

definition ABSENT_AFTER :: millis where "ABSENT_AFTER = 30000"
definition FIRST_BACKOFF :: millis where "FIRST_BACKOFF = 30000"
definition MAX_BACKOFF :: millis where "MAX_BACKOFF = 15 * 60000"

datatype watch_decision = NoAction | Relaunch u32 millis | UserQuit

definition tray_backoff :: "u32 \<Rightarrow> millis" where
  "tray_backoff attempt = min (FIRST_BACKOFF * 2 ^ min (unat (sat_sub attempt 1)) 16) MAX_BACKOFF"

record tray_watchdog =
  tw_attempts :: u32
  tw_next_allowed_ms :: u64
  tw_reported_quit :: bool

definition tray_watchdog_new :: tray_watchdog where
  "tray_watchdog_new = \<lparr>tw_attempts = 0, tw_next_allowed_ms = 0, tw_reported_quit = False\<rparr>"

definition absent_for :: "u64 \<Rightarrow> u64 \<Rightarrow> millis" where
  "absent_for now_ms last_seen = unat (sat_sub now_ms last_seen)"

definition watchdog_step :: "u64 \<Rightarrow> u64 option \<Rightarrow> bool \<Rightarrow> tray_watchdog \<Rightarrow> tray_watchdog \<times> watch_decision" where
  "watchdog_step now_ms last_seen_ms user_quit w = (case last_seen_ms of
       None \<Rightarrow> (w, NoAction)
     | Some last_seen \<Rightarrow>
         if absent_for now_ms last_seen < ABSENT_AFTER then (tray_watchdog_new, NoAction)
         else if user_quit then (if tw_reported_quit w then (w, NoAction) else (w\<lparr>tw_reported_quit := True\<rparr>, UserQuit))
         else if now_ms < tw_next_allowed_ms w then (w, NoAction)
         else
           (let n = tw_attempts w + 1
            in (w\<lparr>tw_attempts := n, tw_next_allowed_ms := now_ms + of_nat (tray_backoff n)\<rparr>,
                Relaunch n (absent_for now_ms last_seen))))"

definition quit_marker_path :: "path \<Rightarrow> path" where
  "quit_marker_path config_path = beside ''ui.quit'' config_path"

section \<open>A decider and its history\<close>

text \<open>
  A decider steps on inputs and answers decisions; its history is what it was asked and what it answered, latest
  first.  The contract: a relation between histories and memories that the first memory satisfies and every step
  keeps, under which the decision is the one a specification reads off the history alone.
\<close>

fun decider_run :: "('i \<Rightarrow> 's \<Rightarrow> 's \<times> 'd) \<Rightarrow> 'i list \<Rightarrow> 's \<times> ('i \<times> 'd) list \<Rightarrow> 's \<times> ('i \<times> 'd) list" where
  "decider_run step [] c = c"
| "decider_run step (i # xs) c = (case step i (fst c) of (s, d) \<Rightarrow> decider_run step xs (s, (i, d) # snd c))"

fun decides_by :: "(('i \<times> 'd) list \<Rightarrow> 'i \<Rightarrow> 'd) \<Rightarrow> ('i \<times> 'd) list \<Rightarrow> bool" where
  "decides_by spec [] = True"
| "decides_by spec ((i, d) # h) = (d = spec h i \<and> decides_by spec h)"

locale history_decider =
  fixes step :: "'i \<Rightarrow> 's \<Rightarrow> 's \<times> 'd" and start :: 's
    and remembers :: "('i \<times> 'd) list \<Rightarrow> 's \<Rightarrow> bool" and spec :: "('i \<times> 'd) list \<Rightarrow> 'i \<Rightarrow> 'd"
  assumes starts: "remembers [] start"
    and steps: "remembers h s \<Longrightarrow> step i s = (s', d) \<Longrightarrow> d = spec h i \<and> remembers ((i, d) # h) s'"
begin

lemma run_decides: "remembers h s \<Longrightarrow> decides_by spec h \<Longrightarrow> decides_by spec (snd (decider_run step xs (s, h)))"
proof (induction xs arbitrary: s h)
  case (Cons i xs)
  obtain s' d where step: "step i s = (s', d)" by fastforce
  from steps [OF Cons.prems(1) step] Cons.prems(2) have "remembers ((i, d) # h) s'" "decides_by spec ((i, d) # h)"
    by auto
  from Cons.IH [OF this] show ?case using step by simp
qed simp

lemma history_decides: "decides_by spec (snd (decider_run step xs (start, [])))"
  using run_decides [OF starts] by simp

end

subsection \<open>The executable\<close>

definition exe_step :: "exe_identity option \<times> millis \<Rightarrow> exe_watch \<Rightarrow> exe_watch \<times> watch_step" where
  "exe_step = (\<lambda>(now, t). observe now t)"

text \<open>The identity the process runs: what it started from, or what it last restarted on.\<close>

fun running_exe :: "exe_identity option \<Rightarrow> ((exe_identity option \<times> millis) \<times> watch_step) list \<Rightarrow> exe_identity option" where
  "running_exe start [] = start"
| "running_exe start (((now, t), d) # h) = (if d = WatchRestart then now else running_exe start h)"

text \<open>The latest checks that all read this identity, without a restart among them.\<close>

definition steady :: "exe_identity \<Rightarrow> ((exe_identity option \<times> millis) \<times> watch_step) list \<Rightarrow> ((exe_identity option \<times> millis) \<times> watch_step) list" where
  "steady i h = takeWhile (\<lambda>((now, t), d). now = Some i \<and> d \<noteq> WatchRestart) h"

definition exe_spec ::
  "exe_identity option \<Rightarrow> millis \<Rightarrow> ((exe_identity option \<times> millis) \<times> watch_step) list \<Rightarrow> exe_identity option \<times> millis \<Rightarrow> watch_step" where
  "exe_spec start settle h c = (case c of
       (None, t) \<Rightarrow> Missing (case h of ((None, _), _) # _ \<Rightarrow> False | _ \<Rightarrow> True)
     | (Some i, t) \<Rightarrow>
         if running_exe start h = Some i then Unchanged
         else if steady i h = [] then Settling
         else if settle \<le> t - snd (fst (last (steady i h))) then WatchRestart else Settling)"

definition exe_remembers ::
  "exe_identity option \<Rightarrow> millis \<Rightarrow> ((exe_identity option \<times> millis) \<times> watch_step) list \<Rightarrow> exe_watch \<Rightarrow> bool" where
  "exe_remembers start settle h w =
     (ew_settle w = settle \<and> ew_baseline w = running_exe start h \<and>
      ew_missing w = (case h of ((None, _), _) # _ \<Rightarrow> True | _ \<Rightarrow> False) \<and>
      ew_pending w = (case h of
         ((Some i, _), _) # _ \<Rightarrow>
           if running_exe start h = Some i \<or> steady i h = [] then None else Some (i, snd (fst (last (steady i h))))
       | _ \<Rightarrow> None))"

lemma steady_simps [simp]:
  "steady i [] = []"
  "steady i (((now, t), d) # h) = (if now = Some i \<and> d \<noteq> WatchRestart then ((now, t), d) # steady i h else [])"
  by (simp_all add: steady_def)

lemma running_steady: "steady i h \<noteq> [] \<Longrightarrow> \<exists>t d h'. h = ((Some i, t), d) # h' \<and> d \<noteq> WatchRestart"
  by (cases h) (auto split: if_splits)

interpretation exe: history_decider exe_step "exe_watch_new baseline settle" "exe_remembers baseline settle" "exe_spec baseline settle"
  for baseline settle
proof
  show "exe_remembers baseline settle [] (exe_watch_new baseline settle)"
    by (simp add: exe_remembers_def exe_watch_new_def)
next
  fix h w and c :: "exe_identity option \<times> millis" and w' d
  assume rem: "exe_remembers baseline settle h w" and step: "exe_step c w = (w', d)"
  obtain now t where c: "c = (now, t)" by fastforce
  show "d = exe_spec baseline settle h c \<and> exe_remembers baseline settle ((c, d) # h) w'"
  proof (cases now)
    case None
    then show ?thesis using rem step c
      by (auto simp: exe_step_def observe_def exe_remembers_def exe_spec_def split: list.splits option.splits)
  next
    case (Some i)
    show ?thesis using rem step c Some running_steady [of i h]
      by (cases h; cases "running_exe baseline h = Some i"; cases "steady i h = []")
         (auto simp: exe_step_def observe_def exe_remembers_def exe_spec_def Let_def split: if_splits option.splits)
  qed
qed

text \<open>C39: the tray restarts on a new binary exactly when it should, judged by the whole history of checks: it restarts
  when the launch path holds a file other than the one it runs, and every check since one at least the settling time
  ago has read that same file; it never restarts twice on one file, nor on one still being written.\<close>

theorem exe_watch_decides_by_its_history:
  "decides_by (exe_spec baseline settle) (snd (decider_run exe_step checks (exe_watch_new baseline settle, [])))"
  by (rule exe.history_decides)

subsection \<open>The tray\<close>

definition dog_step :: "u64 \<times> u64 option \<times> bool \<Rightarrow> tray_watchdog \<Rightarrow> tray_watchdog \<times> watch_decision" where
  "dog_step = (\<lambda>(now, seen, quit). watchdog_step now seen quit)"

definition tray_present :: "u64 \<times> u64 option \<times> bool \<Rightarrow> bool" where
  "tray_present = (\<lambda>(now, seen, quit). case seen of None \<Rightarrow> False | Some s \<Rightarrow> absent_for now s < ABSENT_AFTER)"

text \<open>What was decided since a check last found the tray polling.\<close>

definition since_present :: "((u64 \<times> u64 option \<times> bool) \<times> watch_decision) list \<Rightarrow> ((u64 \<times> u64 option \<times> bool) \<times> watch_decision) list" where
  "since_present h = takeWhile (\<lambda>(c, d). \<not> tray_present c) h"

definition last_relaunch :: "((u64 \<times> u64 option \<times> bool) \<times> watch_decision) list \<Rightarrow> (u64 \<times> u32) option" where
  "last_relaunch h = find_map (\<lambda>((now, _), d). case d of Relaunch n _ \<Rightarrow> Some (now, n) | _ \<Rightarrow> None) (since_present h)"

definition quit_reported :: "((u64 \<times> u64 option \<times> bool) \<times> watch_decision) list \<Rightarrow> bool" where
  "quit_reported h = list_ex (\<lambda>(c, d). d = UserQuit) (since_present h)"

definition dog_spec :: "((u64 \<times> u64 option \<times> bool) \<times> watch_decision) list \<Rightarrow> u64 \<times> u64 option \<times> bool \<Rightarrow> watch_decision" where
  "dog_spec h c = (case c of
       (now, None, quit) \<Rightarrow> NoAction
     | (now, Some seen, quit) \<Rightarrow>
         if tray_present c then NoAction
         else if quit then if quit_reported h then NoAction else UserQuit
         else (case last_relaunch h of
             None \<Rightarrow> Relaunch 1 (absent_for now seen)
           | Some (t, n) \<Rightarrow>
               if now < t + of_nat (tray_backoff n) then NoAction else Relaunch (n + 1) (absent_for now seen)))"

definition dog_remembers :: "((u64 \<times> u64 option \<times> bool) \<times> watch_decision) list \<Rightarrow> tray_watchdog \<Rightarrow> bool" where
  "dog_remembers h w = (tw_reported_quit w = quit_reported h \<and>
     (case last_relaunch h of
        None \<Rightarrow> tw_attempts w = 0 \<and> tw_next_allowed_ms w = 0
      | Some (t, n) \<Rightarrow> tw_attempts w = n \<and> tw_next_allowed_ms w = t + of_nat (tray_backoff n)))"

lemma history_simps:
  "last_relaunch ((c, d) # h) = (if tray_present c then None
     else case d of Relaunch n _ \<Rightarrow> Some (fst c, n) | _ \<Rightarrow> last_relaunch h)"
  "quit_reported ((c, d) # h) = (\<not> tray_present c \<and> (d = UserQuit \<or> quit_reported h))"
  by (auto simp: last_relaunch_def quit_reported_def since_present_def split: prod.splits watch_decision.splits)

interpretation dog: history_decider dog_step tray_watchdog_new dog_remembers dog_spec
proof
  show "dog_remembers [] tray_watchdog_new"
    by (simp add: dog_remembers_def last_relaunch_def quit_reported_def since_present_def tray_watchdog_new_def)
next
  fix h w c w' d
  assume rem: "dog_remembers h w" and step: "dog_step c w = (w', d)"
  obtain now seen quit where c: "c = (now, seen, quit)" by (cases c)
  show "d = dog_spec h c \<and> dog_remembers ((c, d) # h) w'"
    using rem step unfolding c
    by (cases seen)
       (auto simp: dog_step_def watchdog_step_def dog_remembers_def dog_spec_def tray_present_def history_simps
         tray_watchdog_new_def Let_def split: if_splits option.splits)
qed

lemma doubling_capped:
  assumes "0 < k"
  shows "min (FIRST_BACKOFF * 2 ^ min k 16) MAX_BACKOFF = min (2 * min (FIRST_BACKOFF * 2 ^ min (k - 1) 16) MAX_BACKOFF) MAX_BACKOFF"
proof (cases "k \<le> 16")
  case True
  then have "(2 :: nat) ^ min k 16 = 2 * 2 ^ min (k - 1) 16" using assms by (cases k) simp_all
  then show ?thesis by (simp add: min_def MAX_BACKOFF_def FIRST_BACKOFF_def)
qed (simp add: FIRST_BACKOFF_def MAX_BACKOFF_def)


section \<open>One daemon\<close>

lemma acquire_loop_refused:
  "acquire_loop tries k n = Inr HeldElsewhere \<longleftrightarrow> (\<forall>i < n. tries (k + i) = WouldBlock)"
proof (induction n arbitrary: k)
  case (Suc n)
  then show ?case by (auto simp: less_Suc_eq_0_disj split: lock_answer.splits)
qed simp


end
