(* ===== verification/Engines.thy ===== *)
theory Engines
  imports Capabilities Net
begin

text \<open>
  Which engine serves a task: \<^verbatim>\<open>src/src/engine/mod.rs\<close> (the engine interface, the synthetic engine's
  routing), \<^verbatim>\<open>src/src/engine/multi.rs\<close> (the engine that delegates), \<^verbatim>\<open>src/src/loaders.rs\<close>, and the pictures a
  chat reads (\<^verbatim>\<open>src/src/vision.rs\<close>).  An engine is a record of its operations; renderers, the image decoder and
  the network are arguments.
\<close>

section \<open>Pictures of a chat\<close>

definition MAX_IMAGES :: nat where "MAX_IMAGES = 16"
definition MAX_IMAGE_BYTES :: nat where "MAX_IMAGE_BYTES = 25 * 1024 * 1024"

datatype image_refusal = ImagesUnsupported string | TooManyImages nat

definition image_refusal_text :: "image_refusal \<Rightarrow> string" where
  "image_refusal_text r = (case r of
       ImagesUnsupported m \<Rightarrow> ''model `'' @ m @ ''` reads no images: its model source has no vision projector (a `text-encoder-vision` file)''
     | TooManyImages n \<Rightarrow> ''the task carries '' @ show_nat n @ '' images; a chat reads at most '' @ show_nat MAX_IMAGES)"

definition reads_images :: "model_source \<Rightarrow> bool" where
  "reads_images s = list_ex (\<lambda>f. mf_role f = TextEncoderVision) (ms_files s)"

definition images_of :: "task \<Rightarrow> string list" where
  "images_of t = (case t of TLlm p \<Rightarrow> lm_images p | _ \<Rightarrow> [])"

definition image_check :: "string \<Rightarrow> task \<Rightarrow> model_source option \<Rightarrow> (image_refusal, unit) result" where
  "image_check model t source =
     (let count = length (images_of t) in
      if count = 0 then Inr ()
      else if \<not> (case source of None \<Rightarrow> False | Some s \<Rightarrow> reads_images s) then Inl (ImagesUnsupported model)
      else if MAX_IMAGES < count then Inl (TooManyImages count)
      else Inr ())"

definition projector :: "(model_file_role \<times> string) list \<Rightarrow> string option" where
  "projector files = map_option snd (find (\<lambda>(r, _). r = TextEncoderVision) files)"

text \<open>An HTTP answer as far as the fetch reads it: the status, the declared length, the body (or a read error).\<close>

record fetched =
  fe_status :: nat
  fe_length :: "nat option"
  fe_body :: "(string, bytes) result"

definition fetch_image ::
  "url_parser \<Rightarrow> (string \<Rightarrow> string) \<Rightarrow> (string \<Rightarrow> (string, bytes) result) \<Rightarrow> (string \<Rightarrow> (string, fetched) result) \<Rightarrow>
   (nat \<Rightarrow> string) \<Rightarrow> string \<Rightarrow> (string, bytes) result" where
  "fetch_image parse show_debug decode_data http show_status url =
     (if starts_with url ''data:'' then
        (case decode_data url of
           Inl e \<Rightarrow> Inl e
         | Inr b \<Rightarrow> if MAX_IMAGE_BYTES < length b
             then Inl (''the inline input image is '' @ show_nat (length b) @ '' bytes; at most '' @ show_nat MAX_IMAGE_BYTES)
             else Inr b)
      else case validate_download_url parse show_debug url ''input image'' of
        Inl e \<Rightarrow> Inl e
      | Inr _ \<Rightarrow> (case http url of
            Inl e \<Rightarrow> Inl (''fetching input image '' @ url @ '': '' @ e)
          | Inr r \<Rightarrow>
              if \<not> (200 \<le> fe_status r \<and> fe_status r < 300) then Inl (''fetching input image '' @ url @ '': HTTP '' @ show_status (fe_status r))
              else if (case fe_length r of None \<Rightarrow> False | Some l \<Rightarrow> MAX_IMAGE_BYTES < l)
              then Inl (''input image '' @ url @ '' is '' @ show_nat (the (fe_length r)) @ '' bytes; at most '' @ show_nat MAX_IMAGE_BYTES)
              else case fe_body r of
                Inl e \<Rightarrow> Inl (''reading input image '' @ url @ '': '' @ e)
              | Inr body \<Rightarrow>
                  (let b = take (MAX_IMAGE_BYTES + 1) body in
                   if MAX_IMAGE_BYTES < length b then Inl (''input image '' @ url @ '' is larger than '' @ show_nat MAX_IMAGE_BYTES @ '' bytes'')
                   else if b = [] then Inl (''input image '' @ url @ '' is empty'')
                   else Inr b)))"

fun load_images :: "(string \<Rightarrow> (string, 'i) result) \<Rightarrow> nat \<Rightarrow> nat \<Rightarrow> string list \<Rightarrow> (string, 'i list) result" where
  "load_images load i n [] = Inr []"
| "load_images load i n (u # us) = (case load u of
     Inl e \<Rightarrow> Inl (''input image '' @ show_nat (i + 1) @ '' of '' @ show_nat n @ '': '' @ e)
   | Inr x \<Rightarrow> (case load_images load (Suc i) n us of Inl e \<Rightarrow> Inl e | Inr xs \<Rightarrow> Inr (x # xs)))"

definition load_all :: "(string \<Rightarrow> (string, 'i) result) \<Rightarrow> string list \<Rightarrow> (string, 'i list) result" where
  "load_all load urls = load_images load 0 (length urls) urls"

definition with_markers :: "chat_message list \<Rightarrow> string \<Rightarrow> nat \<Rightarrow> (string, chat_message list) result" where
  "with_markers ms marker count =
     (if count = 0 then Inr ms
      else case find (\<lambda>i. msg_role (ms ! i) = ''user'') (rev [0..<length ms]) of
        None \<Rightarrow> Inl ''the task carries images but no user message to read them with''
      | Some i \<Rightarrow> Inr (ms[i := (ms ! i)\<lparr>msg_content := concat (replicate count (marker @ [CHR 0x0A])) @ msg_content (ms ! i)\<rparr>]))"

section \<open>Engines\<close>

text \<open>What a dispatch fails with: the typed causes the session recognises, or a rendered message.\<close>

datatype engine_error =
    UnsupportedBy string task_kind | RefusedImages image_refusal | NoEngine string

type_synonym dispatch_answer = "(engine_error, task_result) result"

record engine =
  en_name :: string
  en_caps :: engine_capabilities
  en_model_engines :: "model_engine list"
  en_dispatch :: "string \<Rightarrow> task \<Rightarrow> dispatch_answer"
  en_dispatch_with_source :: "string \<Rightarrow> task \<Rightarrow> model_source \<Rightarrow> dispatch_answer"

definition engine_error_text :: "engine_error \<Rightarrow> string" where
  "engine_error_text e = (case e of
       UnsupportedBy name kind \<Rightarrow> name @ '' engine cannot serve '' @ task_kind_str kind @ '' tasks''
     | RefusedImages r \<Rightarrow> image_refusal_text r
     | NoEngine s \<Rightarrow> s)"

text \<open>The trait's defaults.\<close>

definition default_model_engines :: "string \<Rightarrow> model_engine list" where
  "default_model_engines name = filter (\<lambda>e. backend e = name) model_engine_all"

definition default_with_source :: "(string \<Rightarrow> task \<Rightarrow> dispatch_answer) \<Rightarrow> string \<Rightarrow> task \<Rightarrow> model_source \<Rightarrow> dispatch_answer" where
  "default_with_source dispatch model t source = dispatch model t"

section \<open>The synthetic engine\<close>

definition synthetic_caps :: engine_capabilities where
  "synthetic_caps =
     [(Image, [''synthetic'', ''synthetic-image'']), (Llm, [''synthetic'', ''synthetic-llm'']),
      (AudioStt, [''synthetic'', ''synthetic-stt'']), (AudioTts, [''synthetic'', ''synthetic-tts'']),
      (Video, [''synthetic'', ''synthetic-video'']), (Mesh, [''synthetic'', ''synthetic-mesh'']),
      (ModelConvert, [''synthetic'', ''synthetic-convert''])]"

record rgb_image =
  ri_width :: u32
  ri_height :: u32
  ri_pixels :: bytes

record renderers =
  rd_procedural :: "string \<Rightarrow> string \<Rightarrow> (engine_error, bytes) result"
  rd_wav :: "string \<Rightarrow> (engine_error, bytes) result"
  rd_picture :: "string \<Rightarrow> (engine_error, rgb_image) result"
  rd_sha256_hex :: "string \<Rightarrow> string"
  rd_words :: "string \<Rightarrow> nat"
  rd_cube :: "8 word \<times> 8 word \<times> 8 word \<Rightarrow> bytes"
  rd_convert :: "model_convert_params \<Rightarrow> bytes \<times> string \<times> json"

definition synthetic_llm_response :: "renderers \<Rightarrow> string \<Rightarrow> string \<Rightarrow> json" where
  "synthetic_llm_response rd prompt suffix =
     JObj [(''object'', JStr ''chat.completion''), (''model'', JStr ''synthetic-llm''),
       (''choices'', JArr [JObj [(''index'', JNum ''0''),
          (''message'', JObj [(''role'', JStr ''assistant''),
             (''content'', JStr (''[synthetic] reply to prompt #'' @ take 16 (rd_sha256_hex rd prompt) @ suffix))]),
          (''finish_reason'', JStr ''stop'')]]),
       (''usage'', JObj [(''prompt_tokens'', JNum (show_nat (rd_words rd prompt))), (''completion_tokens'', JNum ''8''),
          (''total_tokens'', JNum (show_nat (rd_words rd prompt + 8)))])]"

definition synthetic_stt_response :: "renderers \<Rightarrow> string \<Rightarrow> string option \<Rightarrow> json" where
  "synthetic_stt_response rd url language =
     JObj [(''text'', JStr (''[synthetic] transcript of '' @ take 16 (rd_sha256_hex rd url))),
       (''language'', JStr (case language of None \<Rightarrow> ''en'' | Some l \<Rightarrow> l)), (''duration'', JNum ''1.0'')]"

text \<open>The sums and counts of \<open>average_colour\<close>, over whole triples.\<close>

fun channel_sums :: "bytes \<Rightarrow> nat \<times> nat \<times> nat" where
  "channel_sums (r # g # b # ps) = (let (x, y, z) = channel_sums ps in (unat r + x, unat g + y, unat b + z))"
| "channel_sums _ = (0, 0, 0)"

definition average_colour :: "rgb_image \<Rightarrow> 8 word \<times> 8 word \<times> 8 word" where
  "average_colour i =
     (let (r, g, b) = channel_sums (ri_pixels i); n = max (length (ri_pixels i) div 3) 1
      in (word_of_nat (r div n), word_of_nat (g div n), word_of_nat (b div n)))"

fun load_pictures :: "renderers \<Rightarrow> string list \<Rightarrow> (engine_error, rgb_image list) result" where
  "load_pictures rd [] = Inr []"
| "load_pictures rd (u # us) = (case rd_picture rd u of
     Inl e \<Rightarrow> Inl e
   | Inr x \<Rightarrow> (case load_pictures rd us of Inl e \<Rightarrow> Inl e | Inr xs \<Rightarrow> Inr (x # xs)))"

definition show_size :: "rgb_image \<Rightarrow> string" where
  "show_size i = show_nat (unat (ri_width i)) @ ''x'' @ show_nat (unat (ri_height i))"

definition synthetic_dispatch :: "renderers \<Rightarrow> string \<Rightarrow> task \<Rightarrow> dispatch_answer" where
  "synthetic_dispatch rd model t = (case t of
       TImage p \<Rightarrow> (case rd_procedural rd (im_prompt p) (im_ext p) of Inl e \<Rightarrow> Inl e | Inr b \<Rightarrow> Inr (RImage b (im_ext p)))
     | TLlm p \<Rightarrow>
         (let prompt = join_str [CHR 0x0A] (map (\<lambda>m. msg_role m @ '': '' @ msg_content m) (lm_messages p)) in
          if lm_images p = [] then Inr (RLlm (synthetic_llm_response rd prompt []))
          else case load_pictures rd (lm_images p) of
            Inl e \<Rightarrow> Inl e
          | Inr is \<Rightarrow> Inr (RLlm (synthetic_llm_response rd prompt
              ('' (read '' @ show_nat (length is) @ '' images: '' @ join_str '', '' (map show_size is) @ '')''))))
     | TAudioStt p \<Rightarrow> Inr (RAudioStt (synthetic_stt_response rd (stt_input_url p) (stt_language p)))
     | TAudioTts p \<Rightarrow> (case rd_wav rd (tts_text p) of Inl e \<Rightarrow> Inl e | Inr b \<Rightarrow> Inr (RAudioTts b ''wav''))
     | TVideo p \<Rightarrow> (case rd_procedural rd (vid_prompt p) ''webp'' of Inl e \<Rightarrow> Inl e | Inr b \<Rightarrow> Inr (RVideo b ''webp''))
     | TMesh p \<Rightarrow> (case load_pictures rd [mesh_image_url p] of
           Inl e \<Rightarrow> Inl e
         | Inr is \<Rightarrow> Inr (RMesh (rd_cube rd (average_colour (hd is))) ''glb''))
     | TModelConvert p \<Rightarrow> (case rd_convert rd p of (b, ext, report) \<Rightarrow> Inr (RModelConvert b ext report)))"

definition synthetic_engine :: "renderers \<Rightarrow> engine" where
  "synthetic_engine rd = \<lparr>en_name = ''synthetic'', en_caps = synthetic_caps,
     en_model_engines = default_model_engines ''synthetic'', en_dispatch = synthetic_dispatch rd,
     en_dispatch_with_source = default_with_source (synthetic_dispatch rd)\<rparr>"

section \<open>Many engines behind one\<close>

instantiation task_kind :: linorder
begin

definition task_rank :: "task_kind \<Rightarrow> nat" where
  "task_rank k = (case k of Image \<Rightarrow> 0 | Llm \<Rightarrow> 1 | AudioStt \<Rightarrow> 2 | AudioTts \<Rightarrow> 3 | Video \<Rightarrow> 4 | Mesh \<Rightarrow> 5
     | Vision \<Rightarrow> 6 | WakeWord \<Rightarrow> 7 | ModelConvert \<Rightarrow> 8)"

definition less_eq_task_kind :: "task_kind \<Rightarrow> task_kind \<Rightarrow> bool" where
  "less_eq_task_kind a b = (task_rank a \<le> task_rank b)"

definition less_task_kind :: "task_kind \<Rightarrow> task_kind \<Rightarrow> bool" where
  "less_task_kind a b = (task_rank a < task_rank b)"

instance
  by standard (auto simp: less_eq_task_kind_def less_task_kind_def task_rank_def split: task_kind.splits)

end

text \<open>The map's \<open>entry(kind).or_default()\<close>, changed by \<open>f\<close>, in key order.\<close>

fun caps_entry :: "task_kind \<Rightarrow> (string list \<Rightarrow> string list) \<Rightarrow> engine_capabilities \<Rightarrow> engine_capabilities" where
  "caps_entry k f [] = [(k, f [])]"
| "caps_entry k f ((k', ms) # caps) =
     (if k = k' then (k', f ms) # caps
      else if k < k' then (k, f []) # (k', ms) # caps
      else (k', ms) # caps_entry k f caps)"

definition push_new :: "string \<Rightarrow> string list \<Rightarrow> string list" where
  "push_new m ms = (if m \<in> set ms then ms else ms @ [m])"

definition merge_kind :: "task_kind \<times> string list \<Rightarrow> engine_capabilities \<Rightarrow> engine_capabilities" where
  "merge_kind km caps = caps_entry (fst km) (fold push_new (snd km)) caps"

definition multi_caps :: "engine list \<Rightarrow> engine_capabilities" where
  "multi_caps es = fold (\<lambda>e. fold merge_kind (en_caps e)) es []"

definition multi_model_engines :: "engine list \<Rightarrow> model_engine list" where
  "multi_model_engines es = filter (\<lambda>m. list_ex (\<lambda>e. m \<in> set (en_model_engines e)) es) model_engine_all"

definition pick_for :: "engine list \<Rightarrow> task_kind \<Rightarrow> string \<Rightarrow> engine option" where
  "pick_for es kind model = find (\<lambda>e. caps_supports (en_caps e) kind model) es"

definition refuse_unreadable_images :: "string \<Rightarrow> task \<Rightarrow> model_source option \<Rightarrow> (engine_error, unit) result" where
  "refuse_unreadable_images model t source = (case image_check model t source of
       Inl r \<Rightarrow> Inl (RefusedImages r) | Inr _ \<Rightarrow> Inr ())"

definition multi_dispatch :: "engine list \<Rightarrow> string \<Rightarrow> task \<Rightarrow> dispatch_answer" where
  "multi_dispatch es model t = (case refuse_unreadable_images model t None of
       Inl e \<Rightarrow> Inl e
     | Inr _ \<Rightarrow> (case pick_for es (kind_of_task t) model of
           None \<Rightarrow> Inl (NoEngine (''no engine on this worker can serve model '' @ model @ '' (kind='' @
             task_kind_str (kind_of_task t) @ ''); synthetic fallback is disabled''))
         | Some e \<Rightarrow> en_dispatch e model t))"

definition no_such_engine :: "string \<Rightarrow> string \<Rightarrow> string" where
  "no_such_engine wanted model = ''no `'' @ wanted @ ''` engine compiled into this worker (model `'' @ model @
     ''` requires it). Install the all-backends release build from https://github.com/webbertakken/studio-worker/releases/latest, or rebuild from source with `cargo install studio-worker --features all`.''"

definition multi_dispatch_with_source :: "engine list \<Rightarrow> string \<Rightarrow> task \<Rightarrow> model_source \<Rightarrow> dispatch_answer" where
  "multi_dispatch_with_source es model t source = (case refuse_unreadable_images model t (Some source) of
       Inl e \<Rightarrow> Inl e
     | Inr _ \<Rightarrow>
         (let wanted = backend (ms_engine source) in
          case find (\<lambda>e. en_name e = wanted) es of
            Some e \<Rightarrow> en_dispatch_with_source e model t source
          | None \<Rightarrow> Inl (NoEngine (no_such_engine wanted model))))"

definition multi_engine :: "engine list \<Rightarrow> engine" where
  "multi_engine es = \<lparr>en_name = ''multi'', en_caps = multi_caps es, en_model_engines = multi_model_engines es,
     en_dispatch = multi_dispatch es, en_dispatch_with_source = multi_dispatch_with_source es\<rparr>"

text \<open>What the roster is built from: the compiled features, and the engine each backend's constructor gives.  The
  first entry is the feature that lets the engine in (\<open>None\<close>: always).\<close>

datatype feature = FeLlama | FeWhisper | FeCandle | FeOnnx | FeVideo | FeTts

definition roster :: "(feature \<Rightarrow> bool) \<Rightarrow> bool \<Rightarrow> (string \<Rightarrow> engine) \<Rightarrow> engine list" where
  "roster on windows new = map (\<lambda>(_, name). new name) (filter (\<lambda>(f, _). case f of None \<Rightarrow> True | Some f \<Rightarrow> on f)
     [(Some FeLlama, if windows then ''llama-subprocess'' else ''llama''), (Some FeWhisper, ''whisper''),
      (Some FeCandle, ''image-candle''), (Some FeOnnx, ''onnx''), (Some FeVideo, ''video''), (Some FeTts, ''tts''),
      (None, ''sdcpp''), (None, ''torch''), (None, ''convert''), (None, ''synthetic'')])"

section \<open>Loaders\<close>

record load_features =
  lf_llama :: bool
  lf_stt_stream :: bool
  lf_vision :: bool

definition can_load :: "load_features \<Rightarrow> model_source \<Rightarrow> bool" where
  "can_load lf s = (case ms_engine s of LlamaCpp \<Rightarrow> lf_llama lf | Parakeet \<Rightarrow> lf_stt_stream lf
     | OnnxVision \<Rightarrow> lf_vision lf | _ \<Rightarrow> False)"

definition load_model ::
  "load_features \<Rightarrow> (model_engine \<Rightarrow> string) \<Rightarrow> (model_engine \<Rightarrow> string \<Rightarrow> model_source \<Rightarrow> (string, 'm) result) \<Rightarrow>
   string \<Rightarrow> model_source \<Rightarrow> (string, 'm) result" where
  "load_model lf show_engine load i s =
     (if can_load lf s then load (ms_engine s) i s
      else Inl (''no in-process loader for engine '' @ show_engine (ms_engine s) @ '' (model '' @ i @ '')''))"

section \<open>Facts\<close>

definition caps_sorted :: "engine_capabilities \<Rightarrow> bool" where
  "caps_sorted caps = (sorted (map fst caps) \<and> distinct (map fst caps))"

lemma entry_keys: "set (map fst (caps_entry k f caps)) = insert k (set (map fst caps))"
  by (induction k f caps rule: caps_entry.induct) auto

lemma entry_sorted: "caps_sorted caps \<Longrightarrow> caps_sorted (caps_entry k f caps)"
proof (induction k f caps rule: caps_entry.induct)
  case (2 k f k' ms caps)
  then show ?case using entry_keys [of k f caps]
    by (auto simp: caps_sorted_def)
qed (simp add: caps_sorted_def)

lemma entry_get: "caps_sorted caps \<Longrightarrow> map_of (caps_entry k f caps) j =
    (if j = k then Some (f (case map_of caps k of None \<Rightarrow> [] | Some ms \<Rightarrow> ms)) else map_of caps j)"
proof (induction k f caps rule: caps_entry.induct)
  case (2 k f k' ms caps)
  have "map_of caps k = None" if "k < k'"
    using 2(2) that by (auto simp: caps_sorted_def map_of_eq_None_iff)
  then show ?case using 2 by (auto simp: caps_sorted_def)
qed simp

lemma fold_push_new: "set (fold push_new ms acc) = set ms \<union> set acc"
  by (induction ms arbitrary: acc) (auto simp: push_new_def)

lemma supports_in: "caps_supports caps k m \<longleftrightarrow> (\<exists>ms. map_of caps k = Some ms \<and> m \<in> set ms)"
  by (auto simp: caps_supports_def list_ex_iff split: option.splits)

lemma merge_sorted: "caps_sorted caps \<Longrightarrow> caps_sorted (merge_kind km caps)"
  by (simp add: merge_kind_def entry_sorted)

lemma merge_supports: "caps_sorted caps \<Longrightarrow> caps_supports (merge_kind km caps) k m \<longleftrightarrow>
    (fst km = k \<and> m \<in> set (snd km)) \<or> caps_supports caps k m"
  by (auto simp: merge_kind_def supports_in entry_get fold_push_new split: option.splits)

lemma merge_all: "caps_sorted caps \<Longrightarrow> caps_sorted (fold merge_kind kms caps) \<and>
    (caps_supports (fold merge_kind kms caps) k m \<longleftrightarrow> (\<exists>ms. (k, ms) \<in> set kms \<and> m \<in> set ms) \<or> caps_supports caps k m)"
  by (induction kms arbitrary: caps) (auto simp: merge_sorted merge_supports)

lemma multi_all: "caps_sorted caps \<Longrightarrow>
    caps_sorted (fold (\<lambda>e. fold merge_kind (en_caps e)) es caps) \<and>
    (caps_supports (fold (\<lambda>e. fold merge_kind (en_caps e)) es caps) k m \<longleftrightarrow>
      (\<exists>e \<in> set es. \<exists>ms. (k, ms) \<in> set (en_caps e) \<and> m \<in> set ms) \<or> caps_supports caps k m)"
  by (induction es arbitrary: caps) (use merge_all in auto)

lemma supports_sorted: "caps_sorted caps \<Longrightarrow> caps_supports caps k m \<longleftrightarrow> (\<exists>ms. (k, ms) \<in> set caps \<and> m \<in> set ms)"
  by (auto simp: supports_in caps_sorted_def)

text \<open>The worker advertises exactly what it can pick an engine for: a kind and a model are among its
  capabilities if and only if some engine claims that pair, and the first such engine serves it; a pair nobody claims
  is refused, whatever other engines of the kind there are.\<close>

theorem engines_advertise_what_they_serve:
  assumes "list_all (\<lambda>e. caps_sorted (en_caps e)) es"
  shows "caps_sorted (en_caps (multi_engine es)) \<and>
    (caps_supports (en_caps (multi_engine es)) kind model \<longleftrightarrow> pick_for es kind model \<noteq> None) \<and>
    (\<not> caps_supports (en_caps (multi_engine es)) (kind_of_task t) model \<longrightarrow>
       (\<exists>e. en_dispatch (multi_engine es) model t = Inl e))"
proof -
  have caps: "caps_sorted []" "\<not> caps_supports [] k m" for k m by (simp_all add: caps_sorted_def caps_supports_def)
  have iff: "caps_supports (multi_caps es) k m \<longleftrightarrow> pick_for es k m \<noteq> None" for k m
    using multi_all [OF caps(1), of es k m] caps(2) assms supports_sorted
    by (auto simp: multi_caps_def pick_for_def find_None_iff list_all_iff)
  have "\<exists>e. multi_dispatch es model t = Inl e" if "pick_for es (kind_of_task t) model = None"
    using that by (auto simp: multi_dispatch_def split: sum.split)
  then show ?thesis using iff multi_all [OF caps(1), of es] by (auto simp: multi_engine_def multi_caps_def)
qed

text \<open>Every model engine the worker advertises is one whose offers reach their backend, and only that backend,
  when the model can read the task's pictures.\<close>

theorem advertised_offers_route:
  assumes "list_all (\<lambda>e. set (en_model_engines e) \<subseteq> set (default_model_engines (en_name e))) es"
    and "ms_engine source \<in> set (en_model_engines (multi_engine es))"
    and "image_check model t (Some source) = Inr ()"
  shows "\<exists>e \<in> set es. en_name e = backend (ms_engine source) \<and>
    en_dispatch_with_source (multi_engine es) model t source = en_dispatch_with_source e model t source"
proof -
  obtain e where "e \<in> set es" "ms_engine source \<in> set (en_model_engines e)"
    using assms(2) by (auto simp: multi_engine_def multi_model_engines_def list_ex_iff)
  moreover from this have "ms_engine source \<in> set (default_model_engines (en_name e))"
    using assms(1) by (auto simp: list_all_iff)
  ultimately have "e \<in> set es" "en_name e = backend (ms_engine source)" by (simp_all add: default_model_engines_def)
  then obtain f where f: "find (\<lambda>e. en_name e = backend (ms_engine source)) es = Some f"
    by (metis (mono_tags, lifting) find_None_iff not_None_eq)
  then have "f \<in> set es" "en_name f = backend (ms_engine source)"
    by (auto dest: find_SomeD)
  then show ?thesis using f assms(3)
    by (auto simp: multi_engine_def multi_dispatch_with_source_def refuse_unreadable_images_def)
qed

text \<open>An engine whose answers are of the task's kind.\<close>

definition answers_in_kind :: "engine \<Rightarrow> bool" where
  "answers_in_kind e = (\<forall>model t source r. en_dispatch e model t = Inr r \<or> en_dispatch_with_source e model t source = Inr r \<longrightarrow>
     kind_of_result r = kind_of_task t)"

lemma synthetic_in_kind: "answers_in_kind (synthetic_engine rd)"
proof -
  have "kind_of_result r = kind_of_task t" if "synthetic_dispatch rd model t = Inr r" for model t r
    using that by (cases t) (auto simp: synthetic_dispatch_def Let_def split: sum.splits if_splits prod.splits)
  then show ?thesis by (auto simp: answers_in_kind_def synthetic_engine_def default_with_source_def)
qed


section \<open>Witnesses\<close>

definition sample_renderers :: renderers where
  "sample_renderers = \<lparr>rd_procedural = (\<lambda>_ _. Inr [1, 2]), rd_wav = (\<lambda>_. Inr [3]),
     rd_picture = (\<lambda>_. Inr \<lparr>ri_width = 1, ri_height = 1, ri_pixels = [10, 20, 30]\<rparr>), rd_sha256_hex = (\<lambda>_. ''0123456789abcdef01''),
     rd_words = length, rd_cube = (\<lambda>(r, g, b). [r, g, b]), rd_convert = (\<lambda>_. ([4], ''onnx'', JNull))\<rparr>"

definition sample_roster :: "engine list" where
  "sample_roster = [(synthetic_engine sample_renderers)\<lparr>en_name := ''sdcpp'', en_model_engines := [SdCpp],
       en_caps := [(Image, [''z-image''])]\<rparr>, synthetic_engine sample_renderers]"

definition sample_source :: model_source where
  "sample_source = \<lparr>ms_engine = SdCpp, ms_files = [], ms_cli_defaults = cli_defaults_default\<rparr>"

definition speech :: task where
  "speech = TAudioTts \<lparr>tts_text = ''hi'', tts_voice = ''default'', tts_speed = None, tts_language = None, tts_ext = ''wav''\<rparr>"

lemmas sample_engine_defs = sample_roster_def synthetic_engine_def synthetic_caps_def caps_sorted_def less_eq_task_kind_def
  task_rank_def default_model_engines_def model_engine_all_def

lemma sample_sorted: "list_all (\<lambda>e. caps_sorted (en_caps e)) sample_roster"
  by (simp add: sample_engine_defs)

theorem engines_advertise_what_they_serve_witness:
  "caps_supports (en_caps (multi_engine sample_roster)) Image ''z-image'' \<and>
   (\<exists>e. en_dispatch (multi_engine sample_roster) ''kokoro'' speech = Inl e)"
proof -
  have "pick_for sample_roster Image ''z-image'' \<noteq> None" by (simp add: pick_for_def sample_roster_def caps_supports_def)
  moreover have "pick_for sample_roster (kind_of_task speech) ''kokoro'' = None"
    by (simp add: pick_for_def sample_engine_defs caps_supports_def speech_def)
  ultimately show ?thesis
    using engines_advertise_what_they_serve [OF sample_sorted, of Image "''z-image''" speech]
      engines_advertise_what_they_serve [OF sample_sorted, of "kind_of_task speech" "''kokoro''" speech] by blast
qed

theorem advertised_offers_route_witness:
  "\<exists>e \<in> set sample_roster. en_name e = ''sdcpp'' \<and>
    en_dispatch_with_source (multi_engine sample_roster) ''m'' speech sample_source = en_dispatch_with_source e ''m'' speech sample_source"
proof -
  have "list_all (\<lambda>e. set (en_model_engines e) \<subseteq> set (default_model_engines (en_name e))) sample_roster"
    "ms_engine sample_source \<in> set (en_model_engines (multi_engine sample_roster))"
    "image_check ''m'' speech (Some sample_source) = Inr ()"
    by (simp_all add: sample_engine_defs sample_source_def multi_engine_def multi_model_engines_def image_check_def
        images_of_def speech_def)
  from advertised_offers_route [OF this] show ?thesis by (simp add: sample_source_def)
qed


end
