(* ===== verification/LocalJobs.thy ===== *)
theory LocalJobs
  imports WsSession Engines LlmCore
begin

text \<open>
  \<^verbatim>\<open>src/src/local.rs\<close>: jobs of local clients.  A transient job is begun (resolved, admitted, recorded as
  active) and finished with what the engine answers; a chat on a lane likewise, between the points where the host
  gives and takes back the lane.  Deadlines and clocks are milliseconds.
\<close>

section \<open>Requests and errors\<close>

record local_image_request =
  li_prompt :: string
  li_model :: "string option"
  li_negative_prompt :: "string option"
  li_width :: "u32 option"
  li_height :: "u32 option"
  li_steps :: "u32 option"
  li_seed :: "u64 option"
  li_ext :: "string option"
  li_init_image_url :: "string option"
  li_ref_image_url :: "string option"
  li_mask_url :: "string option"
  li_denoise :: "f32 option"

datatype local_error =
    LeUnknownModel string | LeNoModelForKind task_kind | LeNoDefaultModel | LeNotImageModel string
  | LeWrongKind string task_kind task_kind | LeEngine string | LeBadInput string | LeDeadlineExceeded
  | LeInsufficientMemory refused

definition local_error_text :: "local_error \<Rightarrow> string" where
  "local_error_text e = (case e of
       LeUnknownModel i \<Rightarrow> ''unknown model '' @ [CHR 0x27] @ i @ [CHR 0x27] @ '' (not in the local catalog)''
     | LeNoModelForKind k \<Rightarrow> ''no '' @ task_kind_str k @ '' model configured in the local catalog''
     | LeNoDefaultModel \<Rightarrow> ''no image model configured in the local catalog''
     | LeNotImageModel i \<Rightarrow> ''model '' @ [CHR 0x27] @ i @ [CHR 0x27] @ '' is not an image model''
     | LeWrongKind i want got \<Rightarrow> ''model '' @ [CHR 0x27] @ i @ [CHR 0x27] @ '' is a '' @ task_kind_str got @ '' model, not '' @ task_kind_str want
     | LeEngine s \<Rightarrow> ''engine error: '' @ s
     | LeBadInput s \<Rightarrow> ''bad input: '' @ s
     | LeDeadlineExceeded \<Rightarrow> ''deadline passed: the caller stopped waiting''
     | LeInsufficientMemory r \<Rightarrow> show_refused r)"

definition inline_input :: "string \<Rightarrow> string option \<Rightarrow> (local_error, unit) result" where
  "inline_input name url = (case url of
       None \<Rightarrow> Inr ()
     | Some u \<Rightarrow> if starts_with u ''data:image/'' then Inr ()
         else Inl (LeBadInput (name @ '' must be a data:image/...;base64, URL'')))"

definition inline_inputs :: "local_image_request \<Rightarrow> (local_error, unit) result" where
  "inline_inputs r = (case inline_input ''initImageUrl'' (li_init_image_url r) of
       Inl e \<Rightarrow> Inl e
     | Inr _ \<Rightarrow> (case inline_input ''refImageUrl'' (li_ref_image_url r) of
           Inl e \<Rightarrow> Inl e | Inr _ \<Rightarrow> inline_input ''maskUrl'' (li_mask_url r)))"

definition DEADLINE_PASSED :: string where
  "DEADLINE_PASSED = ''deadline passed: the caller stopped waiting''"

definition deadline_passed :: "nat \<Rightarrow> nat option \<Rightarrow> bool" where
  "deadline_passed now deadline = (case deadline of None \<Rightarrow> False | Some d \<Rightarrow> d \<le> now)"

definition job_id_of :: "nat \<Rightarrow> nat \<Rightarrow> string" where
  "job_id_of now n = ''local-'' @ show_nat now @ ''-'' @ show_nat n"

definition outcome_of :: "('e \<Rightarrow> string) \<Rightarrow> ('e, task_result) result \<Rightarrow> job_outcome" where
  "outcome_of show r = (case r of Inr _ \<Rightarrow> Completed | Inl e \<Rightarrow> JobFailed (show e))"

section \<open>Which model\<close>

definition resolve_image :: "catalog \<Rightarrow> local_image_request \<Rightarrow> (local_error, catalog_model) result" where
  "resolve_image c r =
     (case (case li_model r of
              Some i \<Rightarrow> (case cat_get c i of Some m \<Rightarrow> Inr m | None \<Rightarrow> Inl (LeUnknownModel i))
            | None \<Rightarrow> (case default_image_model c of Some m \<Rightarrow> Inr m | None \<Rightarrow> Inl LeNoDefaultModel)) of
        Inl e \<Rightarrow> Inl e
      | Inr m \<Rightarrow> if cm_kind m \<noteq> Image then Inl (LeNotImageModel (cm_id m)) else Inr m)"

definition resolve_kind :: "catalog \<Rightarrow> task_kind \<Rightarrow> string option \<Rightarrow> (local_error, catalog_model) result" where
  "resolve_kind c kind i =
     (case (case i of
              Some i \<Rightarrow> (case cat_get c i of Some m \<Rightarrow> Inr m | None \<Rightarrow> Inl (LeUnknownModel i))
            | None \<Rightarrow> (case default_model_for kind c of Some m \<Rightarrow> Inr m | None \<Rightarrow> Inl (LeNoModelForKind kind))) of
        Inl e \<Rightarrow> Inl e
      | Inr m \<Rightarrow> if cm_kind m \<noteq> kind then Inl (LeWrongKind (cm_id m) kind (cm_kind m)) else Inr m)"

definition resolve_llm :: "catalog \<Rightarrow> string option \<Rightarrow> (local_error, catalog_model) result" where
  "resolve_llm c i = resolve_kind c Llm i"

definition or_else :: "'a option \<Rightarrow> 'a \<Rightarrow> 'a" where
  "or_else x d = (case x of Some v \<Rightarrow> v | None \<Rightarrow> d)"

definition image_task :: "local_image_request \<Rightarrow> catalog_model \<Rightarrow> image_params" where
  "image_task r m = (let d = ms_cli_defaults (cm_source m) in
     \<lparr>im_prompt = li_prompt r, im_negative_prompt = li_negative_prompt r, im_init_image_url = li_init_image_url r,
      im_mask_url = li_mask_url r, im_ref_image_url = li_ref_image_url r, im_denoise = li_denoise r,
      im_cfg_scale = Some (cd_cfg_scale d), im_sampling_method = cd_sampling_method d,
      im_width = max (or_else (li_width r) (cd_width d)) 1, im_height = max (or_else (li_height r) (cd_height d)) 1,
      im_steps = max (or_else (li_steps r) (cd_steps d)) 1, im_seed = li_seed r, im_ext = or_else (li_ext r) ''webp''\<rparr>)"

section \<open>Transient jobs\<close>

text \<open>The clock and counter behind a job id, and the host's readings.\<close>

record job_env =
  je_now :: nat
  je_counter :: nat
  je_host :: env
  je_png :: "bytes \<Rightarrow> nat list option"

record local_job =
  lj_job :: current_job
  lj_model :: catalog_model
  lj_task :: task

definition new_job :: "job_env \<Rightarrow> task_kind \<Rightarrow> string \<Rightarrow> string \<Rightarrow> job_source \<Rightarrow> current_job" where
  "new_job v kind model prompt source = \<lparr>cj_job_id = job_id_of (je_now v) (je_counter v), cj_kind = kind,
     cj_model = model, cj_prompt = truncate_prompt prompt, cj_started_at = je_now v, cj_source = source\<rparr>"

text \<open>\<open>dispatch_and_record\<close>, up to the engine's call and from its answer.\<close>

definition dispatch_begin ::
  "job_env \<Rightarrow> 'm host option \<Rightarrow> catalog_model \<Rightarrow> string \<Rightarrow> task \<Rightarrow> observers \<Rightarrow> observers \<times> (local_error, local_job) result" where
  "dispatch_begin v host m preview t ob =
     (case (case host of None \<Rightarrow> Inr ()
            | Some h \<Rightarrow> admit_transient (je_host v) (need_of (cm_vram_gb_estimate m) (cm_source m)) h) of
        Inl r \<Rightarrow> (ob, Inl (LeInsufficientMemory r))
      | Inr _ \<Rightarrow>
          (let j = new_job v (kind_of_task t) (cm_id m) preview Local
           in (run_begin j ob, Inr \<lparr>lj_job = j, lj_model = m, lj_task = t\<rparr>)))"

definition dispatch_finish ::
  "job_env \<Rightarrow> local_job \<Rightarrow> (string, task_result) result \<Rightarrow> observers \<Rightarrow> observers \<times> (local_error, task_result) result" where
  "dispatch_finish v lj answer ob =
     (let ob = (case answer of Inr r \<Rightarrow> keep_thumbnail (je_png v) r (lj_job lj) ob | Inl _ \<Rightarrow> ob);
          ob = run_finish (je_now v) (outcome_of id answer) (lj_job lj) ob
      in (ob, case answer of Inr r \<Rightarrow> Inr r | Inl e \<Rightarrow> Inl (LeEngine e)))"

definition run_image_begin ::
  "job_env \<Rightarrow> 'm host option \<Rightarrow> catalog \<Rightarrow> local_image_request \<Rightarrow> observers \<Rightarrow> observers \<times> (local_error, local_job) result" where
  "run_image_begin v host c r ob = (case resolve_image c r of
       Inl e \<Rightarrow> (ob, Inl e)
     | Inr m \<Rightarrow> (case inline_inputs r of
           Inl e \<Rightarrow> (ob, Inl e)
         | Inr _ \<Rightarrow> dispatch_begin v host m (li_prompt r) (TImage (image_task r m)) ob))"

definition run_kind_begin ::
  "job_env \<Rightarrow> 'm host option \<Rightarrow> catalog \<Rightarrow> task_kind \<Rightarrow> string option \<Rightarrow> string \<Rightarrow> task \<Rightarrow> observers \<Rightarrow>
   observers \<times> (local_error, local_job) result" where
  "run_kind_begin v host c kind i preview t ob = (case resolve_kind c kind i of
       Inl e \<Rightarrow> (ob, Inl e)
     | Inr m \<Rightarrow> dispatch_begin v host m preview t ob)"

section \<open>Chats on a lane\<close>

text \<open>Whether the request goes to a lane, and which model's.\<close>

definition lane_chat_model :: "catalog \<Rightarrow> string option \<Rightarrow> catalog_model option" where
  "lane_chat_model c i = (case (case i of Some i \<Rightarrow> cat_get c i | None \<Rightarrow> default_model_for Llm c) of
       None \<Rightarrow> None | Some m \<Rightarrow> if cm_kind m \<noteq> Llm then None else Some m)"

text \<open>With the lane: the run, and whether the deadline has passed before it starts.\<close>

definition lane_begin :: "job_env \<Rightarrow> string \<Rightarrow> string \<Rightarrow> observers \<Rightarrow> observers \<times> current_job" where
  "lane_begin v model preview ob = (let j = new_job v Llm model preview OnLane in (run_begin j ob, j))"

definition lane_start :: "nat \<Rightarrow> nat option \<Rightarrow> (string, unit) result" where
  "lane_start now deadline = (if deadline_passed now deadline then Inl DEADLINE_PASSED else Inr ())"

text \<open>The chat's answer, read at \<open>now\<close>, once the lane is given back.\<close>

definition lane_answer :: "nat \<Rightarrow> nat option \<Rightarrow> (string, json) result \<Rightarrow> (local_error, task_result) result" where
  "lane_answer now deadline r = (case r of
       Inr j \<Rightarrow> Inr (RLlm j)
     | Inl e \<Rightarrow> Inl (if deadline_passed now deadline then LeDeadlineExceeded else LeEngine e))"

definition lane_finish ::
  "job_env \<Rightarrow> nat option \<Rightarrow> current_job \<Rightarrow> (string, json) result \<Rightarrow> observers \<Rightarrow> observers \<times> (local_error, task_result) result" where
  "lane_finish v deadline j r ob =
     (let answer = lane_answer (je_now v) deadline r
      in (run_finish (je_now v) (outcome_of local_error_text answer) j ob, answer))"

section \<open>Streamed chats\<close>

text \<open>
  \<open>emit\<close> stops sending after the first send that fails.  \<open>sends\<close> answers the sends in order, and then
  for ever with its last answer.
\<close>

record emitter =
  em_gone :: bool
  em_sent :: "string list"

definition emit :: "(nat \<Rightarrow> bool) \<Rightarrow> string \<Rightarrow> emitter \<Rightarrow> emitter" where
  "emit sends b em =
     (if em_gone em then em
      else if sends (length (em_sent em)) then em\<lparr>em_sent := em_sent em @ [b]\<rparr>
      else em\<lparr>em_gone := True\<rparr>)"

definition emit_deltas :: "(json \<Rightarrow> string) \<Rightarrow> (nat \<Rightarrow> bool) \<Rightarrow> string \<Rightarrow> delta list \<Rightarrow> emitter \<Rightarrow> emitter" where
  "emit_deltas show_json sends model ds em = fold (\<lambda>d. emit sends (sse_event show_json (chunk_frame model d))) ds em"

fun stream_pieces ::
  "(json \<Rightarrow> string) \<Rightarrow> (nat \<Rightarrow> bool) \<Rightarrow> string \<Rightarrow> string list \<Rightarrow> think_splitter \<Rightarrow> emitter \<Rightarrow> think_splitter \<times> emitter" where
  "stream_pieces show_json sends model [] s em = (s, em)"
| "stream_pieces show_json sends model (p # ps) s em = (case think_push p s of
     (s, ds) \<Rightarrow> stream_pieces show_json sends model ps s (emit_deltas show_json sends model ds em))"

fun json_get :: "string \<Rightarrow> json \<Rightarrow> json" where
  "json_get k (JObj kvs) = (case map_of kvs k of Some v \<Rightarrow> v | None \<Rightarrow> JNull)"
| "json_get k _ = JNull"

fun json_at :: "nat \<Rightarrow> json \<Rightarrow> json" where
  "json_at i (JArr xs) = (if i < length xs then xs ! i else JNull)"
| "json_at i _ = JNull"

definition as_count :: "json \<Rightarrow> nat" where
  "as_count j = (case j of JNum s \<Rightarrow> (case parse_uint 64 s of Some n \<Rightarrow> n | None \<Rightarrow> 0) | _ \<Rightarrow> 0)"

definition last_frame :: "string \<Rightarrow> (string, json) result \<Rightarrow> json" where
  "last_frame model r = (case r of
       Inr j \<Rightarrow>
         (let f = (if json_get ''finish_reason'' (json_at 0 (json_get ''choices'' j)) = JStr ''length'' then FinishLength else FinishStop);
              usage = json_get ''usage'' j
          in final_frame model f (as_count (json_get ''prompt_tokens'' usage)) (word_of_nat (as_count (json_get ''completion_tokens'' usage))))
     | Inl e \<Rightarrow> JObj [(''error'', JObj [(''message'', JStr e)])])"

text \<open>The stream of a chat whose lane was given: the pieces it produced and how it ended.  \<open>Inl\<close> in \<open>served\<close>: the
  host gave no lane.\<close>

definition stream_result :: "nat \<Rightarrow> nat option \<Rightarrow> (string, json) result \<Rightarrow> (string, json) result" where
  "stream_result now deadline r = (case r of
       Inr j \<Rightarrow> Inr j | Inl e \<Rightarrow> Inl (if deadline_passed now deadline then DEADLINE_PASSED else e))"

definition stream_tail :: "(json \<Rightarrow> string) \<Rightarrow> (nat \<Rightarrow> bool) \<Rightarrow> string \<Rightarrow> (string, json) result \<Rightarrow> emitter \<Rightarrow> emitter" where
  "stream_tail show_json sends model r em =
     emit sends SSE_DONE (emit sends (sse_event show_json (last_frame model r)) em)"

definition stream_on_lane ::
  "(json \<Rightarrow> string) \<Rightarrow> (nat \<Rightarrow> bool) \<Rightarrow> nat \<Rightarrow> nat option \<Rightarrow> string \<Rightarrow> (host_error, string list \<times> (string, json) result) result \<Rightarrow>
   (host_error \<Rightarrow> string) \<Rightarrow> emitter \<times> (string, json) result option" where
  "stream_on_lane show_json sends now deadline model served show_host =
     (let em = \<lparr>em_gone = False, em_sent = []\<rparr> in
      case served of
        Inl e \<Rightarrow> (stream_tail show_json sends model (Inl (show_host e)) em, None)
      | Inr (pieces, r) \<Rightarrow>
          (let (s, em) = stream_pieces show_json sends model pieces think_splitter_default em;
               em = emit_deltas show_json sends model (think_finish s) em;
               r = stream_result now deadline r
           in (stream_tail show_json sends model r em, Some r)))"

definition tokenize_on_lane ::
  "('m \<Rightarrow> ('c) option) \<Rightarrow> ('c \<Rightarrow> string \<Rightarrow> bool \<Rightarrow> (string, int list) result) \<Rightarrow> string \<Rightarrow> string \<Rightarrow> bool \<Rightarrow> 'm \<Rightarrow> (string, int list) result" where
  "tokenize_on_lane as_chat tokenize model s special m = (case as_chat m of
       Some c \<Rightarrow> tokenize c s special
     | None \<Rightarrow> Inl (''model '' @ model @ '' is not a chat model''))"

end
