(* ===== verification/LocalHttp.thy ===== *)
theory LocalHttp
  imports LocalJobs
begin

text \<open>
  The HTTP side of \<^verbatim>\<open>src/src/local_api.rs\<close>: the gate every request passes, the routes, the bodies and their caps,
  and the replies.  A request's header values, and what the connection gives as its body, are fields.
\<close>

section \<open>Requests and replies\<close>

datatype http_method = MGet | MPost | MPut | MDelete | MOther string

record http_request =
  rq_method :: http_method
  rq_url :: string
  rq_headers :: "(string \<times> string) list"
  rq_length :: "nat option"
  rq_body :: "(string, string) result" \<comment> \<open>every byte the connection gives, or its error\<close>

datatype reply_body = BText string | BJson json | BBytes bytes | BEvents

record reply =
  rp_status :: nat
  rp_type :: string
  rp_body :: reply_body
  rp_retry_after :: bool

definition respond :: "nat \<Rightarrow> string \<Rightarrow> reply_body \<Rightarrow> reply" where
  "respond status ty b = \<lparr>rp_status = status, rp_type = ty, rp_body = b, rp_retry_after = False\<rparr>"

definition respond_text :: "nat \<Rightarrow> string \<Rightarrow> reply" where
  "respond_text status s = respond status ''text/plain'' (BText s)"

definition respond_json :: "nat \<Rightarrow> json \<Rightarrow> reply" where
  "respond_json status j = respond status ''application/json'' (BJson j)"

definition error_json :: "string \<Rightarrow> string \<Rightarrow> json" where
  "error_json code message = JObj [(''error'', JStr code), (''message'', JStr message)]"

definition respond_error :: "nat \<Rightarrow> string \<Rightarrow> string \<Rightarrow> reply" where
  "respond_error status code message = respond_json status (error_json code message)"

definition respond_busy :: reply where
  "respond_busy = (respond_text 503 ''worker is busy with another job (studio or local); retry shortly'')\<lparr>rp_retry_after := True\<rparr>"

definition respond_too_large_capped :: "nat \<Rightarrow> reply" where
  "respond_too_large_capped cap = respond_text 413 (''request body exceeds '' @ show_nat cap @ '' bytes'')"

definition local_status :: "local_error \<Rightarrow> nat" where
  "local_status e = (case e of LeEngine _ \<Rightarrow> 500 | LeDeadlineExceeded \<Rightarrow> 504 | LeInsufficientMemory _ \<Rightarrow> 409 | _ \<Rightarrow> 400)"

definition respond_local_err :: "local_error \<Rightarrow> reply" where
  "respond_local_err e = respond_text (local_status e) (local_error_text e)"

definition respond_llm :: "(local_error, task_result) result \<Rightarrow> reply" where
  "respond_llm r = (case r of
       Inr (RLlm j) \<Rightarrow> respond_json 200 j
     | Inr _ \<Rightarrow> respond_text 500 ''unexpected non-llm result''
     | Inl e \<Rightarrow> respond_local_err e)"

section \<open>The gate\<close>

datatype denial = DenyHost string | DenyOrigin string | DenyToken

definition loopback_host :: "string \<Rightarrow> bool" where
  "loopback_host host =
     (case (case strip_prefix ''['' host of
              Some r \<Rightarrow> map_option fst (Prelude.split_once (CHR 0x5D) r)
            | None \<Rightarrow> Some (case rsplit_once (CHR '':'') host of Some (h, _) \<Rightarrow> h | None \<Rightarrow> host)) of
        None \<Rightarrow> False
      | Some bare \<Rightarrow> eq_ignore_ascii_case bare ''localhost'' \<or> bare = ''127.0.0.1'' \<or> bare = ''::1'')"

definition loopback_origin :: "string \<Rightarrow> bool" where
  "loopback_origin origin =
     (case (case strip_prefix ''https://'' origin of Some h \<Rightarrow> Some h | None \<Rightarrow> strip_prefix ''http://'' origin) of
        Some h \<Rightarrow> loopback_host h | None \<Rightarrow> False)"

text \<open>The fold over the bytes, none skipped.\<close>

definition token_matches :: "string \<Rightarrow> string \<Rightarrow> bool" where
  "token_matches presented expected =
     (length presented = length expected \<and>
      fold (\<lambda>(x, y) acc. or acc (xor (of_char x) (of_char y))) (zip presented expected) (0 :: 8 word) = 0)"

definition bearer_presented :: "string option \<Rightarrow> string option" where
  "bearer_presented a = (case a of None \<Rightarrow> None | Some a \<Rightarrow>
     (case strip_prefix ''Bearer '' a of Some t \<Rightarrow> Some t | None \<Rightarrow> strip_prefix ''bearer '' a))"

definition deny_reason :: "string option \<Rightarrow> string option \<Rightarrow> string option \<Rightarrow> string \<Rightarrow> denial option" where
  "deny_reason host origin auth token =
     (if (case host of Some h \<Rightarrow> \<not> loopback_host h | None \<Rightarrow> False) then Some (DenyHost (the host))
      else if (case origin of Some org \<Rightarrow> \<not> loopback_origin org | None \<Rightarrow> False) then Some (DenyOrigin (the origin))
      else case bearer_presented auth of
        Some t \<Rightarrow> if token_matches t token then None else Some DenyToken
      | None \<Rightarrow> Some DenyToken)"

definition request_header :: "http_request \<Rightarrow> string \<Rightarrow> string option" where
  "request_header r name = map_option snd (find (\<lambda>(f, _). eq_ignore_ascii_case f name) (rq_headers r))"

definition deny_reply :: "(string \<Rightarrow> string) \<Rightarrow> denial \<Rightarrow> reply" where
  "deny_reply show_debug d = (case d of
       DenyHost h \<Rightarrow> respond_text 403 (''forbidden: non-loopback Host header '' @ show_debug h)
     | DenyOrigin org \<Rightarrow> respond_text 403 (''forbidden: cross-site request from Origin '' @ show_debug org)
     | DenyToken \<Rightarrow> respond_text 401 (''missing or invalid Authorization bearer token; local clients can read the current token from the local-api.json discovery file in the worker'' @ [CHR 0x27] @ ''s config directory''))"

section \<open>Bodies\<close>

definition MAX_BODY_BYTES :: nat where "MAX_BODY_BYTES = 1024 * 1024"
definition MAX_IMAGE_BODY_BYTES :: nat where "MAX_IMAGE_BODY_BYTES = 64 * 1024 * 1024"

text \<open>Whether the bytes are UTF-8 (\<open>str::from_utf8\<close>): no overlong form, no surrogate, at most U+10FFFF.\<close>

definition byte_in :: "nat \<Rightarrow> nat \<Rightarrow> char \<Rightarrow> bool" where
  "byte_in lo hi c = (lo \<le> of_char c \<and> of_char c \<le> hi)"

fun utf8_ok :: "string \<Rightarrow> bool" where
  "utf8_ok [] = True"
| "utf8_ok (a # s) =
     (if byte_in 0 127 a then utf8_ok s
      else if byte_in 194 223 a then (case s of b # s \<Rightarrow> is_cont b \<and> utf8_ok s | _ \<Rightarrow> False)
      else if byte_in 224 239 a then (case s of
          b # c # s \<Rightarrow> is_cont b \<and> is_cont c \<and> (of_char a = (224::nat) \<longrightarrow> byte_in 160 191 b) \<and>
            (of_char a = (237::nat) \<longrightarrow> byte_in 128 159 b) \<and> utf8_ok s
        | _ \<Rightarrow> False)
      else if byte_in 240 244 a then (case s of
          b # c # d # s \<Rightarrow> is_cont b \<and> is_cont c \<and> is_cont d \<and> (of_char a = (240::nat) \<longrightarrow> byte_in 144 191 b) \<and>
            (of_char a = (244::nat) \<longrightarrow> byte_in 128 143 b) \<and> utf8_ok s
        | _ \<Rightarrow> False)
      else False)"

datatype body_outcome = BodyOk string | BodyTooLarge

text \<open>\<open>Inl\<close>: reading failed, and the request is dropped without a reply of the code's own.  The reader ends at a
  declared length, and after one byte past the cap.\<close>

definition body_bytes :: "http_request \<Rightarrow> nat \<Rightarrow> (string, string) result" where
  "body_bytes r cap = (case rq_body r of
       Inl e \<Rightarrow> Inl e
     | Inr b \<Rightarrow> Inr (take (cap + 1) (case rq_length r of None \<Rightarrow> b | Some n \<Rightarrow> take n b)))"

definition read_body_capped :: "http_request \<Rightarrow> nat \<Rightarrow> (string, body_outcome) result" where
  "read_body_capped r cap =
     (if (case rq_length r of Some n \<Rightarrow> cap < n | None \<Rightarrow> False) then Inr BodyTooLarge
      else case body_bytes r cap of
        Inl e \<Rightarrow> Inl e
      | Inr b \<Rightarrow>
          if \<not> utf8_ok b then Inl ''stream did not contain valid UTF-8''
          else if cap < length b then Inr BodyTooLarge
          else Inr (BodyOk b))"

definition read_bytes_capped :: "http_request \<Rightarrow> nat \<Rightarrow> (string, string option) result" where
  "read_bytes_capped r cap =
     (if (case rq_length r of Some n \<Rightarrow> cap < n | None \<Rightarrow> False) then Inr None
      else case body_bytes r cap of
        Inl e \<Rightarrow> Inl e
      | Inr b \<Rightarrow> Inr (if length b \<le> cap then Some b else None))"

section \<open>Routes\<close>

datatype vision_route = VDetect | VClassify | VSpecies

definition vision_route_of :: "string \<Rightarrow> vision_route option" where
  "vision_route_of p = (if p = ''/vision/detect'' then Some VDetect else if p = ''/vision/classify'' then Some VClassify
     else if p = ''/vision/species'' then Some VSpecies else None)"

definition plain_id :: "string \<Rightarrow> string option" where
  "plain_id i = (if i \<noteq> [] \<and> CHR ''/'' \<notin> set i then Some i else None)"

definition id_route :: "string \<Rightarrow> string \<Rightarrow> string \<Rightarrow> string option" where
  "id_route prefix path suffix = (case strip_prefix prefix path of None \<Rightarrow> None
     | Some r \<Rightarrow> (case strip_suffix suffix r of None \<Rightarrow> None | Some i \<Rightarrow> plain_id i))"

definition lifecycle_route :: "string \<Rightarrow> string \<Rightarrow> string option" where
  "lifecycle_route path suffix = id_route ''/models/'' path suffix"

definition job_route :: "string \<Rightarrow> string \<Rightarrow> string option" where
  "job_route path suffix = id_route ''/jobs/'' path suffix"

definition is_voice_route :: "string \<Rightarrow> bool" where
  "is_voice_route p = (p = ''/voice-sample-tokens'' \<or> p = ''/voice-samples'' \<or> starts_with p ''/voice-samples/'')"

definition is_wake_word_route :: "string \<Rightarrow> bool" where
  "is_wake_word_route p = (p = ''/wake-words'' \<or> starts_with p ''/wake-words/'')"

definition url_param :: "string \<Rightarrow> string \<Rightarrow> string option" where
  "url_param url name = (case Prelude.split_once (CHR ''?'') url of None \<Rightarrow> None
     | Some (_, q) \<Rightarrow> find_map (\<lambda>pair. case strip_prefix name pair of None \<Rightarrow> None | Some r \<Rightarrow> strip_prefix ''='' r) (split_on (CHR ''&'') q))"

definition url_path :: "string \<Rightarrow> string" where
  "url_path url = hd (split_on (CHR ''?'') url)"

datatype route =
    RHealthz | RtImage | RtChat | RtTokenize | RtTts | RtStt | RtVideo | RtMesh | RtListModels | RtAddModel | RtJobs | RtStreamToken
  | RtVoice | RtWakeWords | RtVision vision_route | RtDaemon | RtJobLog string | RtJobThumbnail string
  | RtState string | RtLoad string | RtUnload string | RtDelete string | RtNotFound

text \<open>The arms of the match, in order.\<close>

definition fixed_routes :: "((http_method \<times> string) \<times> route) list" where
  "fixed_routes =
     [((MGet, ''/healthz''), RHealthz), ((MPost, ''/image''), RtImage), ((MPost, ''/v1/chat/completions''), RtChat),
      ((MPost, ''/tokenize''), RtTokenize), ((MPost, ''/tts''), RtTts), ((MPost, ''/stt''), RtStt),
      ((MPost, ''/video''), RtVideo), ((MPost, ''/mesh''), RtMesh), ((MGet, ''/models''), RtListModels),
      ((MPost, ''/models''), RtAddModel), ((MGet, ''/jobs''), RtJobs), ((MPost, ''/stream-tokens''), RtStreamToken)]"

definition route_of :: "http_method \<Rightarrow> string \<Rightarrow> route" where
  "route_of m p = (case map_of fixed_routes (m, p) of
       Some r \<Rightarrow> r
     | None \<Rightarrow>
        if is_voice_route p then RtVoice
        else if is_wake_word_route p then RtWakeWords
        else if m = MPost \<and> vision_route_of p \<noteq> None then RtVision (the (vision_route_of p))
        else if starts_with p ''/daemon/'' then RtDaemon
        else if m = MGet \<and> job_route p ''/log'' \<noteq> None then RtJobLog (the (job_route p ''/log''))
        else if m = MGet \<and> job_route p ''/thumbnail'' \<noteq> None then RtJobThumbnail (the (job_route p ''/thumbnail''))
        else if m = MGet \<and> lifecycle_route p ''/state'' \<noteq> None then RtState (the (lifecycle_route p ''/state''))
        else if m = MPost \<and> lifecycle_route p ''/load'' \<noteq> None then RtLoad (the (lifecycle_route p ''/load''))
        else if m = MPost \<and> lifecycle_route p ''/unload'' \<noteq> None then RtUnload (the (lifecycle_route p ''/unload''))
        else if m = MDelete \<and> starts_with p ''/models/'' then RtDelete (trim_start_matches ''/models/'' p)
        else RtNotFound)"

definition is_open_route :: "http_request \<Rightarrow> bool" where
  "is_open_route r = (rq_method r = MGet \<and> url_path (rq_url r) = ''/healthz'')"

definition gate_check :: "string \<Rightarrow> http_request \<Rightarrow> denial option" where
  "gate_check token r = (if is_open_route r then None
     else deny_reason (request_header r ''host'') (request_header r ''origin'') (request_header r ''authorization'') token)"

end
