(* ===== verification/Vad.thy ===== *)
theory Vad
  imports Float32
begin

text \<open>
  \<^verbatim>\<open>src/src/stt_stream/vad.rs\<close>: energy voice-activity detection.  The root mean square of a window
  is computed in single precision exactly as the code does, square root included.
\<close>

section \<open>Single-precision products, quotients and roots\<close>

definition f32_is_neg :: "f32 \<Rightarrow> bool" where
  "f32_is_neg x = (case x of NaN \<Rightarrow> False | Inf s \<Rightarrow> s | Fin n \<Rightarrow> n < 0)"

fun f32_mul :: "f32 \<Rightarrow> f32 \<Rightarrow> f32" where
  "f32_mul (Fin a) (Fin b) = f32_pack (a * b < 0) (rnd_frac (nat \<bar>a * b\<bar>) (2 ^ 149))"
| "f32_mul NaN y = NaN"
| "f32_mul x NaN = NaN"
| "f32_mul x y = (if x = Fin 0 \<or> y = Fin 0 then NaN else Inf (f32_is_neg x \<noteq> f32_is_neg y))"

fun f32_div :: "f32 \<Rightarrow> f32 \<Rightarrow> f32" where
  "f32_div (Fin a) (Fin b) =
     (if b = 0 then (if a = 0 then NaN else Inf (a < 0))
      else f32_pack ((a < 0) \<noteq> (b < 0)) (rnd_frac (nat \<bar>a\<bar> * 2 ^ 149) (nat \<bar>b\<bar>)))"
| "f32_div NaN y = NaN"
| "f32_div x NaN = NaN"
| "f32_div (Inf s) (Inf t) = NaN"
| "f32_div (Inf s) (Fin b) = Inf (s \<noteq> (b < 0))"
| "f32_div (Fin a) (Inf t) = Fin 0"

fun isqrt :: "nat \<Rightarrow> nat" where
  "isqrt n = (if n = 0 then 0
     else let r = 2 * isqrt (n div 4) in if (r + 1) * (r + 1) \<le> n then r + 1 else r)"

declare isqrt.simps [simp del]

text \<open>The root of \<open>n\<close> units is that of \<open>n * 2 ^ 149\<close>; a root that is no integer lies strictly between two,
  which one more bit says for the rounding.\<close>

definition rnd_sqrt :: "nat \<Rightarrow> nat" where
  "rnd_sqrt n = (let s = isqrt n; m = 2 * s + (if s * s = n then 0 else 1); e = bits_of s - 24
     in rhe m (2 * 2 ^ e) * 2 ^ e)"

definition f32_sqrt :: "f32 \<Rightarrow> f32" where
  "f32_sqrt x = (case x of
       Fin n \<Rightarrow> if n < 0 then NaN else f32_pack False (rnd_sqrt (nat n * 2 ^ 149))
     | Inf s \<Rightarrow> if s then NaN else Inf False
     | NaN \<Rightarrow> NaN)"

section \<open>The detector\<close>

definition SAMPLE_RATE :: nat where "SAMPLE_RATE = 16000"
definition VAD_WINDOW_MS :: nat where "VAD_WINDOW_MS = 200"
definition VAD_THRESHOLD :: f32 where "VAD_THRESHOLD = f32_lit 18 1000"
definition VAD_SILENCE_MS :: nat where "VAD_SILENCE_MS = 1500"
definition WINDOW :: nat where "WINDOW = SAMPLE_RATE * VAD_WINDOW_MS div 1000"

record vad =
  vd_carry :: "f32 list"
  vd_speech_ms :: nat
  vd_silence_ms :: nat
  vd_ends_after_ms :: nat

definition with_silence_ms :: "nat \<Rightarrow> vad" where
  "with_silence_ms ms = \<lparr>vd_carry = [], vd_speech_ms = 0, vd_silence_ms = 0, vd_ends_after_ms = ms\<rparr>"

definition vad_default :: vad where
  "vad_default = with_silence_ms VAD_SILENCE_MS"

definition window_rms :: "f32 list \<Rightarrow> f32" where
  "window_rms w = f32_sqrt (f32_div (f32_sum (map (\<lambda>x. f32_mul x x) w)) (f32_of_nat WINDOW))"

definition hear_window :: "f32 list \<Rightarrow> vad \<Rightarrow> vad" where
  "hear_window w v =
     (if f32_le VAD_THRESHOLD (window_rms w)
      then v\<lparr>vd_speech_ms := vd_speech_ms v + VAD_WINDOW_MS, vd_silence_ms := 0\<rparr>
      else if 0 < vd_speech_ms v then v\<lparr>vd_silence_ms := vd_silence_ms v + VAD_WINDOW_MS\<rparr>
      else v)"

text \<open>\<open>chunks(n)\<close> of a slice whose length is a multiple of \<open>n\<close>.\<close>

fun chunks_of :: "nat \<Rightarrow> 'a list \<Rightarrow> 'a list list" where
  "chunks_of n xs = (if xs = [] \<or> n = 0 then [] else take n xs # chunks_of n (drop n xs))"

declare chunks_of.simps [simp del]

definition vad_feed :: "f32 list \<Rightarrow> vad \<Rightarrow> vad \<times> bool" where
  "vad_feed samples v =
     (let carry = vd_carry v @ samples; whole = length carry div WINDOW * WINDOW;
          v = fold hear_window (chunks_of WINDOW (take whole carry)) v;
          v = v\<lparr>vd_carry := drop whole carry\<rparr>
      in (v, 0 < vd_speech_ms v \<and> vd_ends_after_ms v \<le> vd_silence_ms v))"

section \<open>Facts\<close>

lemma isqrt_bounds: "isqrt n * isqrt n \<le> n \<and> n < (isqrt n + 1) * (isqrt n + 1)"
proof (induction n rule: isqrt.induct)
  case (1 n)
  show ?case
  proof (cases "n = 0")
    case True
    then show ?thesis by (simp add: isqrt.simps)
  next
    case False
    let ?q = "isqrt (n div 4)"
    from 1 [OF False] have lo: "?q * ?q \<le> n div 4" and hi: "n div 4 < (?q + 1) * (?q + 1)" by blast+
    have "4 * (?q * ?q) \<le> n" using lo by linarith
    moreover have "n < 4 * ((?q + 1) * (?q + 1))" using hi by linarith
    ultimately show ?thesis using False
      by (subst isqrt.simps, subst (2) isqrt.simps, subst (3) isqrt.simps, subst (4) isqrt.simps)
        (auto simp: Let_def algebra_simps)
  qed
qed

lemma chunks_of_Nil [simp]: "chunks_of n [] = []"
  by (simp add: chunks_of.simps)

lemma chunks_of_take: "0 < n \<Longrightarrow> n \<le> length xs \<Longrightarrow> chunks_of n xs = take n xs # chunks_of n (drop n xs)"
  by (subst chunks_of.simps) auto

lemma chunks_of_append:
  assumes "0 < n" "n dvd length xs"
  shows "chunks_of n (xs @ ys) = chunks_of n xs @ chunks_of n ys"
  using assms
proof (induction n xs rule: chunks_of.induct)
  case (1 n xs)
  show ?case
  proof (cases "xs = []")
    case False
    then have len: "n \<le> length xs" using 1(3) by (simp add: dvd_imp_le)
    then have "n dvd length (drop n xs)" using 1(3) by simp
    then have "chunks_of n (drop n xs @ ys) = chunks_of n (drop n xs) @ chunks_of n ys"
      using 1 False by auto
    with len 1(2) False show ?thesis by (simp add: chunks_of_take)
  qed simp
qed

text \<open>The whole chunks of a list, and what is left: cut anywhere, the same chunks come out.\<close>

definition whole :: "nat \<Rightarrow> 'a list \<Rightarrow> 'a list list" where
  "whole n xs = chunks_of n (take (length xs div n * n) xs)"

definition rest :: "nat \<Rightarrow> 'a list \<Rightarrow> 'a list" where
  "rest n xs = drop (length xs div n * n) xs"

lemma whole_rest_append:
  assumes "0 < n"
  shows "whole n (xs @ ys) = whole n xs @ whole n (rest n xs @ ys)" "rest n (xs @ ys) = rest n (rest n xs @ ys)"
proof -
  define k where "k = length xs div n * n"
  have k: "k \<le> length xs" "n dvd k" by (simp_all add: k_def)
  have split: "length (xs @ ys) div n * n = k + (length (rest n xs @ ys)) div n * n"
  proof -
    have "length (xs @ ys) = k + length (rest n xs @ ys)" using k(1) unfolding rest_def k_def [symmetric] by simp
    moreover have "(k + j) div n * n = k + j div n * n" for j
      using k(2) assms by (auto elim!: dvdE simp: algebra_simps)
    ultimately show ?thesis by (simp only:)
  qed
  have cut: "take k (xs @ ys) = take k xs" "drop k (xs @ ys) = rest n xs @ ys"
    using k(1) unfolding rest_def k_def [symmetric] by simp_all
  have "take (k + j) (xs @ ys) = take k xs @ take j (rest n xs @ ys)" for j
    by (simp only: take_add cut)
  then have "take (length (xs @ ys) div n * n) (xs @ ys) =
      take k xs @ take (length (rest n xs @ ys) div n * n) (rest n xs @ ys)"
    unfolding split .
  then show "whole n (xs @ ys) = whole n xs @ whole n (rest n xs @ ys)"
    using chunks_of_append [OF assms, of "take k xs"] k by (simp add: whole_def k_def)
  have "drop (k + j) (xs @ ys) = drop j (rest n xs @ ys)" for j
    by (simp only: cut(2) [symmetric] drop_drop add.commute)
  then show "rest n (xs @ ys) = rest n (rest n xs @ ys)" unfolding rest_def [of n "xs @ ys"] split by (simp add: rest_def)
qed

lemma hear_windows_carry: "vd_carry (fold hear_window ws v) = vd_carry v"
  by (induction ws arbitrary: v) (auto simp: hear_window_def)

lemma hear_window_set_carry: "hear_window w (v\<lparr>vd_carry := c\<rparr>) = (hear_window w v)\<lparr>vd_carry := c\<rparr>"
  by (simp add: hear_window_def)

lemma hear_windows_set_carry: "fold hear_window ws (v\<lparr>vd_carry := c\<rparr>) = (fold hear_window ws v)\<lparr>vd_carry := c\<rparr>"
  by (induction ws arbitrary: v) (simp_all add: hear_window_set_carry)

lemma WINDOW_pos: "0 < WINDOW"
  by (simp add: WINDOW_def SAMPLE_RATE_def VAD_WINDOW_MS_def)

lemma vad_feed_state:
  "fst (vad_feed xs v) = (fold hear_window (whole WINDOW (vd_carry v @ xs)) v)\<lparr>vd_carry := rest WINDOW (vd_carry v @ xs)\<rparr>"
  by (simp add: vad_feed_def whole_def rest_def Let_def)

lemma vad_feed_ends: "snd (vad_feed xs v) = (0 < vd_speech_ms (fst (vad_feed xs v)) \<and>
    vd_ends_after_ms (fst (vad_feed xs v)) \<le> vd_silence_ms (fst (vad_feed xs v)))"
  by (simp add: vad_feed_def Let_def)

lemma vad_feed_append: "vad_feed ys (fst (vad_feed xs v)) = vad_feed (xs @ ys) v"
proof -
  have "fst (vad_feed ys (fst (vad_feed xs v))) = fst (vad_feed (xs @ ys) v)"
    using whole_rest_append [OF WINDOW_pos, of "vd_carry v @ xs" ys]
    by (simp add: vad_feed_state hear_windows_set_carry)
  then show ?thesis by (intro prod_eqI) (simp_all only: vad_feed_ends)
qed

text \<open>What the detector hears, window by window: has any been loud, and how many quiet ones have come since.\<close>

definition loud :: "f32 list \<Rightarrow> bool" where
  "loud w = f32_le VAD_THRESHOLD (window_rms w)"

definition quiet_tail :: "f32 list list \<Rightarrow> f32 list list" where
  "quiet_tail ws = takeWhile (\<lambda>w. \<not> loud w) (rev ws)"

lemma hear_windows:
  fixes ws :: "f32 list list"
  shows "vd_ends_after_ms (fold hear_window ws (with_silence_ms ms)) = ms"
    "0 < vd_speech_ms (fold hear_window ws (with_silence_ms ms)) \<longleftrightarrow> (\<exists>w \<in> set ws. loud w)"
    "(\<exists>w \<in> set ws. loud w) \<longrightarrow>
      vd_silence_ms (fold hear_window ws (with_silence_ms ms)) = 200 * length (quiet_tail ws)"
  by (induction ws rule: rev_induct)
    (auto simp: hear_window_def with_silence_ms_def quiet_tail_def loud_def VAD_WINDOW_MS_def)

text \<open>Fed an utterance in any pieces, the detector calls it over exactly when some 200 ms window of it was
  loud and the quiet windows since the last loud one make up the pause: it never ends on silence alone,
  and never waits longer than the pause and a window.\<close>

theorem vad_ends_after_the_pause:
  "snd (vad_feed ys (fold (\<lambda>xs v. fst (vad_feed xs v)) xss (with_silence_ms ms))) \<longleftrightarrow>
     (\<exists>w \<in> set (whole WINDOW (concat xss @ ys)). loud w) \<and>
     ms \<le> 200 * length (takeWhile (\<lambda>w. \<not> loud w) (rev (whole WINDOW (concat xss @ ys))))"
proof -
  have fed: "fold (\<lambda>xs v. fst (vad_feed xs v)) yss v = fst (vad_feed (concat yss) v)" if "vd_carry v = []" for yss v
    using that
  proof (induction yss rule: rev_induct)
    case Nil
    then show ?case by (simp add: vad_feed_state whole_def rest_def)
  next
    case (snoc ys yss)
    then show ?case by (simp add: vad_feed_append)
  qed
  let ?v = "with_silence_ms ms" and ?ws = "whole WINDOW (concat xss @ ys)"
  have start: "vd_carry ?v = []" by (simp add: with_silence_ms_def)
  have state: "fst (vad_feed (concat xss @ ys) ?v) =
      (fold hear_window ?ws ?v)\<lparr>vd_carry := rest WINDOW (concat xss @ ys)\<rparr>"
    by (simp add: vad_feed_state start)
  show ?thesis
    unfolding fed [OF start] vad_feed_append vad_feed_ends state
    using hear_windows [of ?ws ms] by (auto simp: quiet_tail_def)
qed

end
