(* ===== verification/SttStream.thy ===== *)
theory SttStream
  imports Vad Types
begin

text \<open>
  \<^verbatim>\<open>src/src/stt_stream/session.rs\<close>: one streaming speech-to-text utterance.  The speech model is an
  argument: a state, a step that takes one chunk and answers the text it adds (or an error), the size
  of a chunk and a reset.  White space is ASCII, as in Prelude.
\<close>

section \<open>Frames\<close>

definition FLUSH_SILENCE_MS :: nat where "FLUSH_SILENCE_MS = 1500"
definition CLIENT_SILENCE_CEILING_MS :: nat where "CLIENT_SILENCE_CEILING_MS = 30000"

datatype endpointing = EndpointServer | EndpointClient

definition endpointing_parse :: "string option \<Rightarrow> endpointing option" where
  "endpointing_parse value = (case value of
       None \<Rightarrow> Some EndpointServer
     | Some s \<Rightarrow> if s = ''server'' then Some EndpointServer
         else if s = ''client'' then Some EndpointClient else None)"

definition endpointing_vad :: "endpointing \<Rightarrow> vad" where
  "endpointing_vad e = (case e of
       EndpointServer \<Rightarrow> vad_default | EndpointClient \<Rightarrow> with_silence_ms CLIENT_SILENCE_CEILING_MS)"

datatype client_frame = Audio bytes | EndFrame | CancelFrame

definition client_frame_from_text :: "string \<Rightarrow> client_frame option" where
  "client_frame_from_text s =
     (if trim s = ''end'' then Some EndFrame else if trim s = ''cancel'' then Some CancelFrame else None)"

datatype server_frame = PartialText string | FinalText string | ErrorText string

datatype frame_next = Continue | Close

text \<open>\<open>split_whitespace\<close>, and the SentencePiece word marker U+2581 in UTF-8.\<close>

lemma length_after_word: "trim_start s \<noteq> [] \<Longrightarrow> length (dropWhile (\<lambda>c. \<not> is_ws c) (trim_start s)) < length s"
proof -
  assume "trim_start s \<noteq> []"
  then obtain c t where t: "trim_start s = c # t" "\<not> is_ws c"
    by (metis trim_start_def dropWhile_eq_Cons_conv list.exhaust)
  then have "length (dropWhile (\<lambda>c. \<not> is_ws c) (trim_start s)) \<le> length t" by (simp add: length_dropWhile_le)
  also have "length t < length s"
    using t length_dropWhile_le [of is_ws s] by (simp add: trim_start_def)
  finally show ?thesis .
qed

function split_ws :: "string \<Rightarrow> string list" where
  "split_ws s = (let t = trim_start s in
     if t = [] then [] else takeWhile (\<lambda>c. \<not> is_ws c) t # split_ws (dropWhile (\<lambda>c. \<not> is_ws c) t))"
  by pat_completeness auto
termination by (relation "measure length") (auto simp: length_after_word)

declare split_ws.simps [simp del]

fun replace_marker :: "string \<Rightarrow> string" where
  "replace_marker (a # b # c # s) =
     (if a = CHR 0xE2 \<and> b = CHR 0x96 \<and> c = CHR 0x81 then CHR '' '' # replace_marker s
      else a # replace_marker (b # c # s))"
| "replace_marker s = s"

definition normalise :: "string \<Rightarrow> string" where
  "normalise raw = join_str '' '' (split_ws (replace_marker raw))"

section \<open>The session\<close>

record 't transcriber =
  tr_chunk_samples :: nat
  tr_step :: "'t \<Rightarrow> f32 list \<Rightarrow> 't \<times> (string, string) result"
  tr_reset :: "'t \<Rightarrow> 't"

record 't stream_session =
  sn_model :: 't
  sn_pending :: "f32 list"
  sn_odd_byte :: "8 word option"
  sn_raw :: string
  sn_sent :: string
  sn_vad :: vad

definition session_with_endpointing :: "'t transcriber \<Rightarrow> 't \<Rightarrow> endpointing \<Rightarrow> 't stream_session" where
  "session_with_endpointing m t e = \<lparr>sn_model = tr_reset m t, sn_pending = [], sn_odd_byte = None,
     sn_raw = [], sn_sent = [], sn_vad = endpointing_vad e\<rparr>"

definition failure :: "string \<Rightarrow> server_frame" where
  "failure err = ErrorText (''transcription failed: '' @ err)"

text \<open>A little-endian 16-bit sample as a fraction of 32768: exact in single precision.\<close>

definition sample_of :: "8 word \<Rightarrow> 8 word \<Rightarrow> f32" where
  "sample_of lo hi = (let w = (ucast lo :: 16 word) + 256 * ucast hi in Fin (sint w * 2 ^ 134))"

fun samples_of :: "bytes \<Rightarrow> f32 list" where
  "samples_of (lo # hi # bs) = sample_of lo hi # samples_of bs"
| "samples_of bs = []"

definition decode_pcm :: "bytes \<Rightarrow> 't stream_session \<Rightarrow> 't stream_session \<times> f32 list" where
  "decode_pcm bs s =
     (let joined = (case sn_odd_byte s of None \<Rightarrow> [] | Some b \<Rightarrow> [b]) @ bs;
          (joined, odd) = (if length joined mod 2 = 1 then (butlast joined, Some (last joined)) else (joined, None))
      in (s\<lparr>sn_odd_byte := odd\<rparr>, samples_of joined))"

definition chunk_size :: "'t transcriber \<Rightarrow> nat" where
  "chunk_size m = max (tr_chunk_samples m) 1"

text \<open>\<open>drain\<close>: the frames pushed, and the model's error if a step failed.\<close>

function drain ::
  "'t transcriber \<Rightarrow> bool \<Rightarrow> 't stream_session \<Rightarrow> 't stream_session \<times> server_frame list \<times> string option" where
  "drain m partials s =
     (let chunk = chunk_size m in
      if length (sn_pending s) < chunk then (s, [], None)
      else
        let piece = take chunk (sn_pending s); s = s\<lparr>sn_pending := drop chunk (sn_pending s)\<rparr> in
        case tr_step m (sn_model s) piece of
          (t, Inl err) \<Rightarrow> (s\<lparr>sn_model := t\<rparr>, [], Some err)
        | (t, Inr added) \<Rightarrow>
            let s = s\<lparr>sn_model := t, sn_raw := sn_raw s @ added\<rparr>; now = normalise (sn_raw s) in
            if partials \<and> now \<noteq> sn_sent s
            then (case drain m partials (s\<lparr>sn_sent := now\<rparr>) of (s, out, err) \<Rightarrow> (s, PartialText now # out, err))
            else drain m partials s)"
  by pat_completeness auto
termination
  by (relation "measure (\<lambda>(_, _, s). length (sn_pending s))") (auto simp: chunk_size_def not_less)

declare drain.simps [simp del]

definition finish :: "'t transcriber \<Rightarrow> server_frame list \<Rightarrow> 't stream_session \<Rightarrow>
    't stream_session \<times> server_frame list \<times> frame_next" where
  "finish m out s =
     (let chunk = chunk_size m; flush = SAMPLE_RATE * FLUSH_SILENCE_MS div 1000; n = length (sn_pending s) + flush;
          target = (n + chunk - 1) div chunk * chunk;
          s = s\<lparr>sn_pending := sn_pending s @ replicate (target - length (sn_pending s)) (Fin 0)\<rparr>
      in case drain m False s of
           (s, out', None) \<Rightarrow> (s, out @ out' @ [FinalText (normalise (sn_raw s))], Close)
         | (s, out', Some err) \<Rightarrow> (s, out @ out' @ [failure err], Close))"

definition handle_frame :: "'t transcriber \<Rightarrow> client_frame \<Rightarrow> 't stream_session \<Rightarrow>
    't stream_session \<times> server_frame list \<times> frame_next" where
  "handle_frame m f s = (case f of
       Audio bs \<Rightarrow>
         (let (s, samples) = decode_pcm bs s; (v, ended) = vad_feed samples (sn_vad s);
              s = s\<lparr>sn_vad := v, sn_pending := sn_pending s @ samples\<rparr>
          in case drain m True s of
               (s, out, Some err) \<Rightarrow> (s, out @ [failure err], Close)
             | (s, out, None) \<Rightarrow> if ended then finish m out s else (s, out, Continue))
     | EndFrame \<Rightarrow> finish m [] s
     | CancelFrame \<Rightarrow> (s, [], Close))"

text \<open>Frames one after the other, until one closes.\<close>

fun handle_frames :: "'t transcriber \<Rightarrow> client_frame list \<Rightarrow> 't stream_session \<Rightarrow>
    't stream_session \<times> server_frame list \<times> frame_next" where
  "handle_frames m [] s = (s, [], Continue)"
| "handle_frames m (f # fs) s = (case handle_frame m f s of
       (s, out, Close) \<Rightarrow> (s, out, Close)
     | (s, out, Continue) \<Rightarrow> (case handle_frames m fs s of (s, out', n) \<Rightarrow> (s, out @ out', n)))"

section \<open>The reference: the whole utterance at once\<close>

text \<open>Feed chunks one by one; the text so far, and the error that stopped it.\<close>

fun transcribe :: "'t transcriber \<Rightarrow> f32 list list \<Rightarrow> 't \<Rightarrow> string \<Rightarrow> 't \<times> (string, string) result" where
  "transcribe m [] t raw = (t, Inr raw)"
| "transcribe m (c # cs) t raw = (case tr_step m t c of
       (t, Inl err) \<Rightarrow> (t, Inl err)
     | (t, Inr added) \<Rightarrow> transcribe m cs t (raw @ added))"

text \<open>All samples of all the bytes, then at least the flush of silence, in whole chunks.\<close>

definition utterance_chunks :: "'t transcriber \<Rightarrow> bytes \<Rightarrow> f32 list list" where
  "utterance_chunks m bs =
     (let samples = samples_of bs; chunk = chunk_size m;
          target = (length samples + SAMPLE_RATE * FLUSH_SILENCE_MS div 1000 + chunk - 1) div chunk * chunk
      in whole chunk (samples @ replicate (target - length samples) (Fin 0)))"

section \<open>Facts\<close>

lemma chunk_pos [simp]: "0 < chunk_size m"
  by (simp add: chunk_size_def)

lemma whole_step:
  assumes "0 < n" "n \<le> length xs"
  shows "whole n xs = take n xs # whole n (drop n xs)" "rest n xs = rest n (drop n xs)"
proof -
  have xs: "xs = take n xs @ drop n xs" and len: "length (take n xs) = n" using assms by simp_all
  have one: "whole n (take n xs) = [take n xs]" "rest n (take n xs) = []"
    using assms len by (simp_all add: whole_def rest_def chunks_of_take)
  show "whole n xs = take n xs # whole n (drop n xs)"
    using whole_rest_append(1) [OF assms(1), of "take n xs" "drop n xs"] one by simp
  show "rest n xs = rest n (drop n xs)"
    using whole_rest_append(2) [OF assms(1), of "take n xs" "drop n xs"] one by simp
qed

lemma whole_short: "length xs < n \<Longrightarrow> whole n xs = [] \<and> rest n xs = xs"
  by (simp add: whole_def rest_def)

definition only_partials :: "server_frame list \<Rightarrow> bool" where
  "only_partials out = list_all (\<lambda>f. case f of PartialText _ \<Rightarrow> True | _ \<Rightarrow> False) out"

lemma only_partials_simps [simp]:
  "only_partials []" "only_partials (PartialText t # out) = only_partials out"
  "only_partials (a @ b) = (only_partials a \<and> only_partials b)"
  by (simp_all add: only_partials_def)

text \<open>What \<open>drain\<close> does, over the chunks it takes.\<close>

definition drained :: "'t transcriber \<Rightarrow> bool \<Rightarrow> 't stream_session \<Rightarrow> bool" where
  "drained m p s = (case transcribe m (whole (chunk_size m) (sn_pending s)) (sn_model s) (sn_raw s) of
     (t, Inr raw) \<Rightarrow> \<exists>out sent. drain m p s = (s\<lparr>sn_model := t, sn_raw := raw,
         sn_pending := rest (chunk_size m) (sn_pending s), sn_sent := sent\<rparr>, out, None) \<and> only_partials out
   | (t, Inl err) \<Rightarrow> \<exists>s' out. drain m p s = (s', out, Some err) \<and> only_partials out)"

lemma drain_transcribes: "drained m p s"
proof (induction "length (sn_pending s)" arbitrary: s rule: less_induct)
  case less
  let ?n = "chunk_size m"
  show ?case
  proof (cases "length (sn_pending s) < ?n")
    case True
    then have "drain m p s = (s, [], None)" by (subst drain.simps) (simp add: Let_def)
    then show ?thesis using whole_short [OF True]
      by (auto simp: drained_def intro!: exI [of _ "sn_sent s"])
  next
    case False
    then have n: "0 < ?n" "?n \<le> length (sn_pending s)" by simp_all
    obtain t r where step: "tr_step m (sn_model s) (take ?n (sn_pending s)) = (t, r)" by fastforce
    show ?thesis
    proof (cases r)
      case (Inl err)
      then show ?thesis using False step
        by (subst drained_def, subst drain.simps) (simp add: whole_step [OF n] Let_def)
    next
      case (Inr added)
      let ?now = "normalise (sn_raw s @ added)"
      define s1 where "s1 = s\<lparr>sn_pending := drop ?n (sn_pending s), sn_model := t, sn_raw := sn_raw s @ added\<rparr>"
      have smaller: "length (sn_pending s1) < length (sn_pending s)" "length (sn_pending (s1\<lparr>sn_sent := ?now\<rparr>)) < length (sn_pending s)"
        using n(2) chunk_pos [of m] by (simp_all add: s1_def del: chunk_pos)
      show ?thesis
      proof (cases "p \<and> ?now \<noteq> sn_sent s")
        case True
        have d: "drain m p s = (case drain m p (s1\<lparr>sn_sent := ?now\<rparr>) of (s, out, err) \<Rightarrow> (s, PartialText ?now # out, err))"
          using True False step Inr by (subst drain.simps) (simp add: Let_def s1_def)
        show ?thesis using less [OF smaller(2)] unfolding drained_def d whole_step(1) [OF n] whole_step(2) [OF n]
          by (auto simp: step Inr s1_def split: prod.splits sum.splits)
      next
        case skip: False
        have d: "drain m p s = drain m p s1"
          using skip False step Inr by (subst drain.simps) (auto simp: Let_def s1_def)
        show ?thesis using less [OF smaller(1)] unfolding drained_def d whole_step(1) [OF n] whole_step(2) [OF n]
          by (auto simp: step Inr s1_def split: prod.splits sum.splits)
      qed
    qed
  qed
qed

lemma drain_silent: "fst (snd (drain m False s)) = []"
proof (induction "length (sn_pending s)" arbitrary: s rule: less_induct)
  case less
  show ?case
  proof (cases "length (sn_pending s) < chunk_size m")
    case True
    then show ?thesis by (subst drain.simps) (simp add: Let_def)
  next
    case False
    then have "length (drop (chunk_size m) (sn_pending s)) < length (sn_pending s)"
      using chunk_pos [of m] by (simp del: chunk_pos)
    then show ?thesis using False less
      by (subst drain.simps) (auto simp: Let_def split: prod.splits sum.splits)
  qed
qed

lemma transcribe_append:
  "transcribe m (xs @ ys) t raw = (case transcribe m xs t raw of
     (t, Inl e) \<Rightarrow> (t, Inl e) | (t, Inr raw) \<Rightarrow> transcribe m ys t raw)"
  by (induction xs arbitrary: t raw) (auto split: prod.splits sum.splits)

lemma samples_of_append: "even (length a) \<Longrightarrow> samples_of (a @ b) = samples_of a @ samples_of b"
  by (induction a rule: samples_of.induct) auto

lemma samples_of_odd: "odd (length a) \<Longrightarrow> samples_of (butlast a) = samples_of a"
  by (induction a rule: samples_of.induct) (auto simp: butlast_append)

definition odd_byte :: "bytes \<Rightarrow> 8 word option" where
  "odd_byte bs = (if odd (length bs) then Some (last bs) else None)"

lemma decode_parity:
  "decode_pcm bs s = (let joined = (case sn_odd_byte s of None \<Rightarrow> [] | Some b \<Rightarrow> [b]) @ bs in
     if odd (length joined) then (s\<lparr>sn_odd_byte := Some (last joined)\<rparr>, samples_of (butlast joined))
     else (s\<lparr>sn_odd_byte := None\<rparr>, samples_of joined))"
  by (simp add: decode_pcm_def odd_iff_mod_2_eq_one Let_def)

lemma decode_step:
  assumes "sn_odd_byte s = odd_byte bs"
  shows "\<exists>ys. decode_pcm b s = (s\<lparr>sn_odd_byte := odd_byte (bs @ b)\<rparr>, ys) \<and> samples_of (bs @ b) = samples_of bs @ ys"
proof (cases "odd (length bs)")
  case True
  then have bs: "bs = butlast bs @ [last bs]" by (cases bs rule: rev_cases) auto
  have even: "even (length (butlast bs))" using True by simp
  let ?j = "last bs # b"
  have all: "samples_of (bs @ b) = samples_of bs @ samples_of ?j"
    using samples_of_append [OF even, of ?j] samples_of_odd [OF True] bs by (metis append_Cons append_Nil append_assoc)
  show ?thesis
  proof (cases "odd (length ?j)")
    case odd: True
    then have "odd_byte (bs @ b) = Some (last ?j)" using True bs
      by (cases "b = []") (auto simp: odd_byte_def)
    then show ?thesis using assms True odd all samples_of_odd [OF odd]
      by (simp add: decode_parity odd_byte_def Let_def)
  next
    case False
    then show ?thesis using assms True all by (auto simp: decode_parity odd_byte_def Let_def)
  qed
next
  case False
  then have all: "samples_of (bs @ b) = samples_of bs @ samples_of b" by (simp add: samples_of_append)
  show ?thesis
  proof (cases "odd (length b)")
    case odd: True
    then have "odd_byte (bs @ b) = Some (last b)" using False by (cases "b = []") (auto simp: odd_byte_def)
    then show ?thesis using assms False odd all samples_of_odd [OF odd]
      by (simp add: decode_parity odd_byte_def Let_def)
  next
    case even: False
    then show ?thesis using assms False all by (auto simp: decode_parity odd_byte_def Let_def)
  qed
qed

section \<open>A session is its utterance\<close>

text \<open>The session after the bytes \<open>bs\<close>, however they were cut into frames.\<close>

definition heard :: "'t transcriber \<Rightarrow> 't \<Rightarrow> endpointing \<Rightarrow> bytes \<Rightarrow> 't stream_session \<Rightarrow> bool" where
  "heard m t e bs s \<longleftrightarrow> sn_odd_byte s = odd_byte bs \<and>
     sn_vad s = fst (vad_feed (samples_of bs) (endpointing_vad e)) \<and>
     sn_pending s = rest (chunk_size m) (samples_of bs) \<and>
     transcribe m (whole (chunk_size m) (samples_of bs)) (tr_reset m t) [] = (sn_model s, Inr (sn_raw s))"

definition vad_ended :: "endpointing \<Rightarrow> bytes \<Rightarrow> bool" where
  "vad_ended e bs = snd (vad_feed (samples_of bs) (endpointing_vad e))"

definition verdict_frame :: "'t transcriber \<Rightarrow> 't \<Rightarrow> bytes \<Rightarrow> server_frame" where
  "verdict_frame m t bs = (case snd (transcribe m (utterance_chunks m bs) (tr_reset m t) []) of
       Inr raw \<Rightarrow> FinalText (normalise raw) | Inl err \<Rightarrow> failure err)"

lemma whole_rest_Nil [simp]: "0 < n \<Longrightarrow> whole n [] = []" "rest n [] = []"
  by (simp_all add: whole_def rest_def)

lemma heard_start: "heard m t e [] (session_with_endpointing m t e)"
proof -
  have "fst (vad_feed [] (endpointing_vad e)) = endpointing_vad e"
    using WINDOW_pos by (simp add: vad_feed_state endpointing_vad_def vad_default_def with_silence_ms_def split: endpointing.splits)
  then show ?thesis by (simp add: heard_def session_with_endpointing_def odd_byte_def)
qed

lemma heard_audio:
  assumes "heard m t e bs s"
  shows "case transcribe m (whole (chunk_size m) (samples_of (bs @ b))) (tr_reset m t) [] of
      (_, Inr _) \<Rightarrow> \<exists>s' out. only_partials out \<and> heard m t e (bs @ b) s' \<and>
        handle_frame m (Audio b) s = (if vad_ended e (bs @ b) then finish m out s' else (s', out, Continue))
    | (_, Inl err) \<Rightarrow> \<exists>s' out. only_partials out \<and> handle_frame m (Audio b) s = (s', out @ [failure err], Close)"
proof -
  let ?n = "chunk_size m"
  from assms have odd: "sn_odd_byte s = odd_byte bs" and vad: "sn_vad s = fst (vad_feed (samples_of bs) (endpointing_vad e))"
    and pend: "sn_pending s = rest ?n (samples_of bs)"
    and said: "transcribe m (whole ?n (samples_of bs)) (tr_reset m t) [] = (sn_model s, Inr (sn_raw s))"
    by (simp_all add: heard_def)
  from decode_step [OF odd, of b] obtain ys where dec: "decode_pcm b s = (s\<lparr>sn_odd_byte := odd_byte (bs @ b)\<rparr>, ys)"
    and ys: "samples_of (bs @ b) = samples_of bs @ ys" by blast
  obtain v ended where fed: "vad_feed ys (sn_vad s) = (v, ended)" by fastforce
  then have v: "v = fst (vad_feed (samples_of (bs @ b)) (endpointing_vad e))" and ended: "ended = vad_ended e (bs @ b)"
    unfolding vad_ended_def ys vad_feed_append [symmetric] vad [symmetric] by simp_all
  define s1 where "s1 = s\<lparr>sn_odd_byte := odd_byte (bs @ b), sn_vad := v, sn_pending := sn_pending s @ ys\<rparr>"
  have wr: "whole ?n (samples_of (bs @ b)) = whole ?n (samples_of bs) @ whole ?n (sn_pending s1)"
    "rest ?n (samples_of (bs @ b)) = rest ?n (sn_pending s1)"
    using whole_rest_append [of ?n "samples_of bs" ys] by (simp_all add: ys pend s1_def)
  have all: "transcribe m (whole ?n (samples_of (bs @ b))) (tr_reset m t) [] =
      transcribe m (whole ?n (sn_pending s1)) (sn_model s1) (sn_raw s1)"
    by (simp add: wr transcribe_append said s1_def)
  have run: "handle_frame m (Audio b) s = (case drain m True s1 of
      (s, out, Some err) \<Rightarrow> (s, out @ [failure err], Close)
    | (s, out, None) \<Rightarrow> if ended then finish m out s else (s, out, Continue))"
    by (simp add: handle_frame_def dec fed s1_def)
  show ?thesis
  proof (cases "transcribe m (whole ?n (sn_pending s1)) (sn_model s1) (sn_raw s1)")
    case (Pair t' r)
    show ?thesis
    proof (cases r)
      case (Inl err)
      then obtain s' out where "drain m True s1 = (s', out, Some err)" "only_partials out"
        using drain_transcribes [of m True s1] Pair by (auto simp: drained_def)
      then show ?thesis using run all Pair Inl by auto
    next
      case (Inr raw)
      then obtain out sent where d: "drain m True s1 = (s1\<lparr>sn_model := t', sn_raw := raw,
          sn_pending := rest ?n (sn_pending s1), sn_sent := sent\<rparr>, out, None)" "only_partials out"
        using drain_transcribes [of m True s1] Pair by (auto simp: drained_def)
      let ?s = "s1\<lparr>sn_model := t', sn_raw := raw, sn_pending := rest ?n (sn_pending s1), sn_sent := sent\<rparr>"
      have "heard m t e (bs @ b) ?s"
        unfolding heard_def using all Pair Inr wr(2) v by (simp add: s1_def)
      then show ?thesis using run all Pair Inr d ended by auto
    qed
  qed
qed

lemma heard_finish:
  assumes "heard m t e bs s"
  shows "\<exists>s'. finish m out s = (s', out @ [verdict_frame m t bs], Close)"
proof -
  let ?n = "chunk_size m" and ?f = "SAMPLE_RATE * FLUSH_SILENCE_MS div 1000"
  define L where "L = length (samples_of bs)"
  define k where "k = L div ?n * ?n"
  from assms have pend: "sn_pending s = rest ?n (samples_of bs)"
    and said: "transcribe m (whole ?n (samples_of bs)) (tr_reset m t) [] = (sn_model s, Inr (sn_raw s))"
    by (simp_all add: heard_def)
  have len: "length (sn_pending s) = L - k" "k \<le> L" by (simp_all add: pend rest_def L_def k_def)
  have "(L + ?f + ?n - 1) div ?n * ?n = k + (L - k + ?f + ?n - 1) div ?n * ?n"
  proof -
    have "L + ?f + ?n - 1 = k + (L - k + ?f + ?n - 1)" using len(2) chunk_pos [of m] by linarith
    moreover have "(k + j) div ?n * ?n = k + j div ?n * ?n" for j by (simp add: k_def algebra_simps)
    ultimately show ?thesis by (simp only:)
  qed
  moreover have "k + y - L = y - (L - k)" for y using len(2) by linarith
  ultimately have pad: "(L + ?f + ?n - 1) div ?n * ?n - L = (L - k + ?f + ?n - 1) div ?n * ?n - (L - k)"
    by (simp only:)
  define z where "z = replicate ((L + ?f + ?n - 1) div ?n * ?n - L) (Fin 0)"
  define s1 where "s1 = s\<lparr>sn_pending := sn_pending s @ z\<rparr>"
  have fin: "finish m out s = (case drain m False s1 of
       (s, out', None) \<Rightarrow> (s, out @ out' @ [FinalText (normalise (sn_raw s))], Close)
     | (s, out', Some err) \<Rightarrow> (s, out @ out' @ [failure err], Close))"
    unfolding finish_def s1_def z_def pad by (simp add: len(1) Let_def)
  have chunks: "utterance_chunks m bs = whole ?n (samples_of bs) @ whole ?n (sn_pending s1)"
    using whole_rest_append(1) [of ?n "samples_of bs" z]
    by (simp add: utterance_chunks_def s1_def pend z_def L_def Let_def)
  have all: "transcribe m (utterance_chunks m bs) (tr_reset m t) [] =
      transcribe m (whole ?n (sn_pending s1)) (sn_model s1) (sn_raw s1)"
    by (simp add: chunks transcribe_append said s1_def)
  show ?thesis
    using drain_transcribes [of m False s1] drain_silent [of m s1] all
    by (auto simp: drained_def fin verdict_frame_def split: prod.splits sum.splits)
qed

lemma samples_prefix: "\<exists>ys. samples_of (a @ b) = samples_of a @ ys"
proof (cases "odd (length a)")
  case True
  then have a: "a = butlast a @ [last a]" and "even (length (butlast a))" by (cases a rule: rev_cases; simp)+
  then show ?thesis using samples_of_append [of "butlast a" "last a # b"] samples_of_odd [OF True]
    by (metis append_Cons append_Nil append_assoc)
qed (simp add: samples_of_append)

lemma early_error:
  assumes "transcribe m (whole (chunk_size m) (samples_of a)) (tr_reset m t) [] = (t', Inl err)"
  shows "verdict_frame m t (a @ b) = failure err"
proof -
  obtain ys where "samples_of (a @ b) = samples_of a @ ys" using samples_prefix by blast
  then obtain cs where "utterance_chunks m (a @ b) = whole (chunk_size m) (samples_of a) @ cs"
    using whole_rest_append(1) [of "chunk_size m" "samples_of a"] by (simp add: utterance_chunks_def Let_def)
  then show ?thesis using assms by (simp add: verdict_frame_def transcribe_append)
qed

lemma frames_from:
  assumes "heard m t e bs s"
    and "\<forall>k. 0 < k \<and> k < length bss \<longrightarrow> \<not> vad_ended e (bs @ concat (take k bss))"
    and "(bss \<noteq> [] \<and> vad_ended e (bs @ concat bss)) \<or> (\<exists>fs. tail = EndFrame # fs)"
  shows "\<exists>s' out. handle_frames m (map Audio bss @ tail) s =
    (s', out @ [verdict_frame m t (bs @ concat bss)], Close) \<and> only_partials out"
  using assms
proof (induction bss arbitrary: bs s)
  case Nil
  then obtain fs where "tail = EndFrame # fs" by blast
  then show ?case using heard_finish [OF Nil(1), of "[]"] by (auto simp: handle_frame_def)
next
  case (Cons b bss)
  let ?c = "chunk_size m"
  show ?case
  proof (cases "transcribe m (whole ?c (samples_of (bs @ b))) (tr_reset m t) []")
    case (Pair t' r)
    show ?thesis
    proof (cases r)
      case (Inl err)
      then have "verdict_frame m t (bs @ concat (b # bss)) = failure err"
        using early_error [of m "bs @ b" t t' err "concat bss"] Pair by simp
      then show ?thesis using heard_audio [OF Cons.prems(1), of b] Pair Inl by auto
    next
      case (Inr raw)
      then obtain s' out where out: "only_partials out" and h: "heard m t e (bs @ b) s'"
        and run: "handle_frame m (Audio b) s = (if vad_ended e (bs @ b) then finish m out s' else (s', out, Continue))"
        using heard_audio [OF Cons.prems(1), of b] Pair by auto
      show ?thesis
      proof (cases "vad_ended e (bs @ b)")
        case True
        have "bss = []"
        proof (rule ccontr)
          assume "bss \<noteq> []"
          then have "\<not> vad_ended e (bs @ concat (take 1 (b # bss)))" using Cons.prems(2) [rule_format, of 1] by simp
          with True show False by simp
        qed
        then show ?thesis using run True heard_finish [OF h, of out] out by auto
      next
        case False
        have quiet: "\<forall>k. 0 < k \<and> k < length bss \<longrightarrow> \<not> vad_ended e ((bs @ b) @ concat (take k bss))"
        proof (intro allI impI)
          fix k assume "0 < k \<and> k < length bss"
          then show "\<not> vad_ended e ((bs @ b) @ concat (take k bss))" using Cons.prems(2) [rule_format, of "Suc k"] by simp
        qed
        have "(bss \<noteq> [] \<and> vad_ended e ((bs @ b) @ concat bss)) \<or> (\<exists>fs. tail = EndFrame # fs)"
          using Cons.prems(3) False by (cases "bss = []") auto
        from Cons.IH [OF h quiet this] obtain s2 out2 where
          "handle_frames m (map Audio bss @ tail) s' = (s2, out2 @ [verdict_frame m t ((bs @ b) @ concat bss)], Close)"
          "only_partials out2" by blast
        then show ?thesis using run False out by (auto intro!: exI [of _ "out @ out2"])
      qed
    qed
  qed
qed

text \<open>How the audio was cut into frames does not matter.  Whatever the cuts, odd bytes included, a session
  that the client ends, or that the detector ends with the last frame, answers partial transcripts only and
  then exactly one verdict: the transcript of the whole utterance, all its samples in order followed by at
  least the flush of silence, in whole chunks; or the error at which the model stopped on that.\<close>

lemma session_verdict:
  assumes quiet: "\<forall>k. k < length bss \<longrightarrow> \<not> vad_ended e (concat (take k bss))"
    and ends: "vad_ended e (concat bss) \<or> (\<exists>fs. tail = EndFrame # fs)"
  shows "\<exists>s' out. handle_frames m (map Audio bss @ tail) (session_with_endpointing m t e) =
      (s', out @ [case snd (transcribe m (utterance_chunks m (concat bss)) (tr_reset m t) []) of
         Inr raw \<Rightarrow> FinalText (normalise raw) | Inl err \<Rightarrow> failure err], Close) \<and>
    list_all (\<lambda>f. case f of PartialText _ \<Rightarrow> True | _ \<Rightarrow> False) out"
proof -
  have "\<not> vad_ended e []"
    using heard_start [of _ _ e] WINDOW_pos
    by (simp add: vad_ended_def vad_feed_ends vad_feed_state endpointing_vad_def vad_default_def with_silence_ms_def
        split: endpointing.splits)
  then have "(bss \<noteq> [] \<and> vad_ended e ([] @ concat bss)) \<or> (\<exists>fs. tail = EndFrame # fs)"
    using ends by (cases "bss = []") auto
  from frames_from [OF heard_start _ this, of m t] quiet show ?thesis
    unfolding verdict_frame_def only_partials_def by simp
qed

end
