(* ===== verification/StreamTokens.thy ===== *)
theory StreamTokens
  imports Secrets
begin

text \<open>
  \<^verbatim>\<open>src/src/stt_stream/tokens.rs\<close>: the short-lived tokens a client presents to open a stream.  Instants and
  lifetimes are whole milliseconds; a lifetime may be negative before it is clamped.  The random bytes
  of each mint and the hash are arguments.
\<close>

type_synonym instant = int

definition MIN_TTL :: int where "MIN_TTL = 30 * 1000"
definition MAX_TTL :: int where "MAX_TTL = 60 * 60 * 1000"

record stream_grant =
  sg_token :: string
  sg_model :: string
  sg_expires_at :: instant

datatype token_rejection = UnknownToken | ExpiredToken

definition rejection_text :: "token_rejection \<Rightarrow> string" where
  "rejection_text r = (case r of
       UnknownToken \<Rightarrow> ''unknown stream token'' | ExpiredToken \<Rightarrow> ''stream token expired'')"

record grant =
  gr_model :: string
  gr_expires_at :: instant

type_synonym stream_tokens = "string \<rightharpoonup> grant"
type_synonym hasher = "string \<Rightarrow> bytes"

definition clamp_ttl :: "int \<Rightarrow> int" where
  "clamp_ttl ttl = (if ttl < MIN_TTL then MIN_TTL else if MAX_TTL < ttl then MAX_TTL else ttl)"

definition retain_live :: "instant \<Rightarrow> stream_tokens \<Rightarrow> stream_tokens" where
  "retain_live now ts = (\<lambda>k. case ts k of Some g \<Rightarrow> if now < gr_expires_at g then Some g else None | None \<Rightarrow> None)"

definition mint :: "hasher \<Rightarrow> bytes \<Rightarrow> string \<Rightarrow> int \<Rightarrow> instant \<Rightarrow> stream_tokens \<Rightarrow> stream_tokens \<times> stream_grant" where
  "mint sha256 entropy model ttl now ts =
     (let token = new_secret_hex entropy; expires = now + clamp_ttl ttl;
          ts = retain_live now ts
      in (ts(sha256_hex sha256 token \<mapsto> \<lparr>gr_model = model, gr_expires_at = expires\<rparr>),
          \<lparr>sg_token = token, sg_model = model, sg_expires_at = expires\<rparr>))"

definition token_check :: "hasher \<Rightarrow> string \<Rightarrow> instant \<Rightarrow> stream_tokens \<Rightarrow> (token_rejection, string) result" where
  "token_check sha256 token now ts = (case ts (sha256_hex sha256 token) of
       None \<Rightarrow> Inl UnknownToken
     | Some g \<Rightarrow> if gr_expires_at g \<le> now then Inl ExpiredToken else Inr (gr_model g))"

section \<open>Every mint of a store\<close>

record mint_call =
  mc_entropy :: bytes
  mc_model :: string
  mc_ttl :: int
  mc_now :: instant

definition mint_step :: "hasher \<Rightarrow> mint_call \<Rightarrow> stream_tokens \<Rightarrow> stream_tokens" where
  "mint_step sha256 m ts = fst (mint sha256 (mc_entropy m) (mc_model m) (mc_ttl m) (mc_now m) ts)"

definition minted :: "hasher \<Rightarrow> mint_call list \<Rightarrow> stream_tokens" where
  "minted sha256 ms = fold (mint_step sha256) ms Map.empty"

definition mint_token :: "mint_call \<Rightarrow> string" where
  "mint_token m = new_secret_hex (mc_entropy m)"

text \<open>The abstract view of a store: which mint a token now stands for, if any.\<close>

definition stands :: "mint_call list \<Rightarrow> string \<Rightarrow> mint_call \<Rightarrow> bool" where
  "stands ms token m = (\<exists>older newer. ms = older @ m # newer \<and> mint_token m = token \<and>
     (\<forall>n \<in> set newer. mint_token n \<noteq> token \<and> mc_now n < mc_now m + clamp_ttl (mc_ttl m)))"

lemma stands_Nil [simp]: "\<not> stands [] token m"
  by (simp add: stands_def)

lemma stands_snoc:
  "stands (ms @ [n]) token m \<longleftrightarrow>
     (if mint_token n = token then m = n
      else stands ms token m \<and> mc_now n < mc_now m + clamp_ttl (mc_ttl m))"
proof
  assume "stands (ms @ [n]) token m"
  then obtain older newer where split: "ms @ [n] = older @ m # newer" and tok: "mint_token m = token"
    and new: "\<forall>n \<in> set newer. mint_token n \<noteq> token \<and> mc_now n < mc_now m + clamp_ttl (mc_ttl m)"
    unfolding stands_def by blast
  show "if mint_token n = token then m = n
      else stands ms token m \<and> mc_now n < mc_now m + clamp_ttl (mc_ttl m)"
  proof (cases newer rule: rev_cases)
    case Nil
    then show ?thesis using split tok by simp
  next
    case (snoc xs x)
    then have "ms = older @ m # xs" "x = n" using split by simp_all
    then show ?thesis using tok new snoc unfolding stands_def by auto
  qed
next
  assume r: "if mint_token n = token then m = n
      else stands ms token m \<and> mc_now n < mc_now m + clamp_ttl (mc_ttl m)"
  show "stands (ms @ [n]) token m"
  proof (cases "mint_token n = token")
    case True
    then show ?thesis using r unfolding stands_def by (intro exI [of _ ms] exI [of _ "[]"]) simp
  next
    case False
    then obtain older newer where "ms = older @ m # newer" "mint_token m = token"
      "\<forall>n \<in> set newer. mint_token n \<noteq> token \<and> mc_now n < mc_now m + clamp_ttl (mc_ttl m)"
      using r unfolding stands_def by auto
    then show ?thesis using r False unfolding stands_def
      by (intro exI [of _ older] exI [of _ "newer @ [n]"]) auto
  qed
qed

definition grant_of_mint :: "mint_call \<Rightarrow> grant" where
  "grant_of_mint m = \<lparr>gr_model = mc_model m, gr_expires_at = mc_now m + clamp_ttl (mc_ttl m)\<rparr>"

lemma minted_snoc: "minted sha256 (ms @ [n]) =
  (retain_live (mc_now n) (minted sha256 ms))(sha256_hex sha256 (mint_token n) \<mapsto> grant_of_mint n)"
  by (simp add: minted_def mint_step_def mint_def mint_token_def grant_of_mint_def Let_def)

lemma minted_stands:
  assumes "\<forall>m \<in> set ms. sha256_hex sha256 (mint_token m) = sha256_hex sha256 token \<longrightarrow> mint_token m = token"
  shows "minted sha256 ms (sha256_hex sha256 token) = Some g \<longleftrightarrow> (\<exists>m. stands ms token m \<and> g = grant_of_mint m)"
  using assms
proof (induction ms arbitrary: g rule: rev_induct)
  case Nil
  then show ?case by (simp add: minted_def)
next
  case (snoc n ms)
  then have IH: "minted sha256 ms (sha256_hex sha256 token) = Some g \<longleftrightarrow> (\<exists>m. stands ms token m \<and> g = grant_of_mint m)" for g
    by simp
  show ?case
  proof (cases "mint_token n = token")
    case True
    then show ?thesis by (auto simp: minted_snoc stands_snoc)
  next
    case False
    then have "sha256_hex sha256 (mint_token n) \<noteq> sha256_hex sha256 token" using snoc.prems by auto
    then have "minted sha256 (ms @ [n]) (sha256_hex sha256 token) = Some g \<longleftrightarrow>
        minted sha256 ms (sha256_hex sha256 token) = Some g \<and> mc_now n < gr_expires_at g"
      by (auto simp: minted_snoc retain_live_def split: option.splits)
    then show ?thesis using False unfolding IH by (auto simp: stands_snoc grant_of_mint_def)
  qed
qed

lemma clamp_ttl_bounds: "MIN_TTL \<le> clamp_ttl ttl \<and> clamp_ttl ttl \<le> MAX_TTL"
  by (simp add: clamp_ttl_def MIN_TTL_def MAX_TTL_def)

text \<open>A token opens a model exactly when the newest mint of that token was for that model and is still
  live: its lifetime (asked for, but at least half a minute and at most an hour) has not passed, neither
  now nor at a later mint, which prunes.  Provided no minted token has the hash of the one presented
  without being it.\<close>

lemma token_opens:
  assumes "\<forall>m \<in> set ms. sha256_hex sha256 (mint_token m) = sha256_hex sha256 token \<longrightarrow> mint_token m = token"
  shows "token_check sha256 token now (minted sha256 ms) = Inr model \<longleftrightarrow>
    (\<exists>older m newer life. ms = older @ m # newer \<and> mint_token m = token \<and> mc_model m = model \<and>
       life = max 30000 (min 3600000 (mc_ttl m)) \<and> now < mc_now m + life \<and>
       (\<forall>n \<in> set newer. mint_token n \<noteq> token \<and> mc_now n < mc_now m + life))"
proof -
  have life: "max 30000 (min 3600000 ttl) = clamp_ttl ttl" for ttl
    by (auto simp: clamp_ttl_def MIN_TTL_def MAX_TTL_def)
  have "token_check sha256 token now (minted sha256 ms) = Inr model \<longleftrightarrow>
      (\<exists>g. minted sha256 ms (sha256_hex sha256 token) = Some g \<and> now < gr_expires_at g \<and> gr_model g = model)"
    by (auto simp: token_check_def split: option.splits)
  also have "\<dots> \<longleftrightarrow> (\<exists>m. stands ms token m \<and> now < mc_now m + clamp_ttl (mc_ttl m) \<and> mc_model m = model)"
    using minted_stands [OF assms] by (auto simp: grant_of_mint_def)
  finally show ?thesis unfolding life stands_def by auto
qed

definition sample_hash :: hasher where
  "sample_hash s = map (\<lambda>c. word_of_nat (of_char c)) s"

definition sample_mints :: "mint_call list" where
  "sample_mints =
     [\<lparr>mc_entropy = [17], mc_model = ''parakeet'', mc_ttl = 5, mc_now = 0\<rparr>,
      \<lparr>mc_entropy = [18], mc_model = ''whisper'', mc_ttl = 60000, mc_now = 20000\<rparr>]"

end
