(* ===== verification/SttServer.thy ===== *)
theory SttServer
  imports SttStream StreamTokens Net WorkerLog ModelHost
begin

text \<open>
  \<^verbatim>\<open>src/src/stt_stream/server.rs\<close>: the listener's handshake, the loop that serves one session on a loaded
  model's lane, and the job it is recorded as.  What the socket yields, whether the lane was
  cancelled before each read, and the printer of \<open>{:?}\<close> are arguments; what is sent is recorded.
\<close>

section \<open>The handshake\<close>

definition STREAM_PATH :: string where "STREAM_PATH = ''/transcribe''"

text \<open>The request as \<^verbatim>\<open>tungstenite\<close> parses it; a header value is bytes.\<close>

record upgrade_request =
  ur_path :: string
  ur_query :: "string option"
  ur_authorization :: "string option"

definition query_param :: "string option \<Rightarrow> string \<Rightarrow> string option" where
  "query_param query name = (case query of
       None \<Rightarrow> None
     | Some q \<Rightarrow> map_option snd (find (\<lambda>(k, _). k = name) (List.map_filter (split_once CHR ''='') (split_on CHR ''&'' q))))"

text \<open>\<open>HeaderValue::to_str\<close>: visible ASCII and tabs only.\<close>

definition header_text :: "string \<Rightarrow> string option" where
  "header_text v = (if list_all (\<lambda>c. let n = of_char c :: nat in (32 \<le> n \<and> n < 127) \<or> n = 9) v then Some v else None)"

definition bearer_of :: "string \<Rightarrow> string option" where
  "bearer_of v = (case split_once CHR '' '' v of
       None \<Rightarrow> None
     | Some (scheme, tail) \<Rightarrow>
         let token = trim tail in if eq_ignore_ascii_case scheme ''bearer'' \<and> token \<noteq> [] then Some token else None)"

definition bearer :: "upgrade_request \<Rightarrow> string option" where
  "bearer r = Option.bind (Option.bind (ur_authorization r) header_text) bearer_of"

definition on_request :: "hasher \<Rightarrow> instant \<Rightarrow> stream_tokens \<Rightarrow> upgrade_request \<Rightarrow>
    (nat \<times> string, string \<times> endpointing) result" where
  "on_request sha256 now tokens r =
     (if ur_path r \<noteq> STREAM_PATH then Inl (404, ''not found; stream to /transcribe'')
      else if query_param (ur_query r) ''token'' \<noteq> None
      then Inl (400, ''a stream token in the URL is refused; send Authorization: Bearer <token>'')
      else case endpointing_parse (query_param (ur_query r) ''endpoint'') of
        None \<Rightarrow> Inl (400, ''endpoint must be server or client'')
      | Some e \<Rightarrow>
          case map_option (\<lambda>t. token_check sha256 t now tokens) (bearer r) of
            Some (Inr m) \<Rightarrow> Inr (m, e)
          | Some (Inl rejection) \<Rightarrow> Inl (401, rejection_text rejection)
          | None \<Rightarrow> Inl (401, ''missing stream token; send Authorization: Bearer <token>''))"

section \<open>One session\<close>

record stream_summary =
  sm_audio_bytes :: nat
  sm_final_text :: "string option"
  sm_error :: "string option"

definition summary_default :: stream_summary where
  "summary_default = \<lparr>sm_audio_bytes = 0, sm_final_text = None, sm_error = None\<rparr>"

datatype stream_read =
    ReadBinary bytes
  | ReadText string
  | ReadClose
  | ReadOther
  | ReadTimeout
  | ReadBreaks string

datatype stream_send = SendFrame server_frame | SendClose

definition fail_stream :: "stream_summary \<Rightarrow> string \<Rightarrow> stream_send list \<times> stream_summary" where
  "fail_stream sm err = ([SendFrame (ErrorText err), SendClose], sm\<lparr>sm_error := Some err\<rparr>)"

definition note_frame :: "server_frame \<Rightarrow> stream_summary \<Rightarrow> stream_summary" where
  "note_frame f sm = (case f of
       FinalText text' \<Rightarrow> sm\<lparr>sm_final_text := Some text'\<rparr>
     | ErrorText e \<Rightarrow> sm\<lparr>sm_error := Some e\<rparr>
     | PartialText _ \<Rightarrow> sm)"

definition unknown_frame :: "(string \<Rightarrow> string) \<Rightarrow> string \<Rightarrow> server_frame" where
  "unknown_frame debug s = ErrorText (''unknown frame '' @ debug s @ ''; send audio, end or cancel'')"

text \<open>What one read means: a frame for the session (and the audio it counts), nothing, or the end.\<close>

datatype read_outcome = Feed client_frame nat | Reply server_frame | Skip | Leave string

definition read_outcome :: "(string \<Rightarrow> string) \<Rightarrow> stream_read \<Rightarrow> read_outcome" where
  "read_outcome debug r = (case r of
       ReadBinary bs \<Rightarrow> Feed (Audio bs) (length bs)
     | ReadText s \<Rightarrow> (case client_frame_from_text s of Some f \<Rightarrow> Feed f 0 | None \<Rightarrow> Reply (unknown_frame debug s))
     | ReadClose \<Rightarrow> Leave ''client left before the final''
     | ReadOther \<Rightarrow> Skip
     | ReadTimeout \<Rightarrow> Skip
     | ReadBreaks e \<Rightarrow> Leave (''stream broke: '' @ e))"

text \<open>The loop, over whether the lane was cancelled and what the read gives; \<open>None\<close>: still reading.\<close>

fun run_loop :: "(string \<Rightarrow> string) \<Rightarrow> 't transcriber \<Rightarrow> 't stream_session \<Rightarrow> stream_summary \<Rightarrow>
    (bool \<times> stream_read) list \<Rightarrow> stream_send list \<times> stream_summary option" where
  "run_loop debug m s sm [] = ([], None)"
| "run_loop debug m s sm ((cancelled, r) # rs) =
     (if cancelled then (case fail_stream sm ''model unloaded'' of (sent, sm) \<Rightarrow> (sent, Some sm))
      else case read_outcome debug r of
        Skip \<Rightarrow> run_loop debug m s sm rs
      | Reply f \<Rightarrow> (case run_loop debug m s sm rs of (sent, end') \<Rightarrow> (SendFrame f # sent, end'))
      | Leave why \<Rightarrow> ([], Some (sm\<lparr>sm_error := Some why\<rparr>))
      | Feed f n \<Rightarrow>
          let sm = sm\<lparr>sm_audio_bytes := sm_audio_bytes sm + n\<rparr> in
          case handle_frame m f s of (s, frames, nxt) \<Rightarrow>
            let sm = fold note_frame frames sm in
            if nxt = Close then (map SendFrame frames @ [SendClose], Some sm)
            else (case run_loop debug m s sm rs of (sent, end') \<Rightarrow> (map SendFrame frames @ sent, end')))"

text \<open>\<open>as_stream\<close> and \<open>open\<close> of the loaded model.\<close>

datatype 't stream_open = NotStreaming | OpenFails string | Opens 't

definition run_stream :: "(string \<Rightarrow> string) \<Rightarrow> 't transcriber \<Rightarrow> 't stream_open \<Rightarrow> endpointing \<Rightarrow>
    (bool \<times> stream_read) list \<Rightarrow> stream_send list \<times> stream_summary option" where
  "run_stream debug m opened e rs = (case opened of
       NotStreaming \<Rightarrow>
         (case fail_stream summary_default ''model is not a streaming speech model'' of (sent, sm) \<Rightarrow> (sent, Some sm))
     | OpenFails err \<Rightarrow>
         (case fail_stream summary_default (''could not open a stream: '' @ err) of (sent, sm) \<Rightarrow> (sent, Some sm))
     | Opens t \<Rightarrow> run_loop debug m (session_with_endpointing m t e) summary_default rs)"

section \<open>The job of a session\<close>

definition stream_job :: "string \<Rightarrow> string \<Rightarrow> nat \<Rightarrow> current_job" where
  "stream_job job_id model started = \<lparr>cj_job_id = job_id, cj_kind = AudioStt, cj_model = model, cj_prompt = [],
     cj_started_at = started, cj_source = OnStream\<rparr>"

definition stream_outcome :: "stream_summary \<Rightarrow> job_outcome" where
  "stream_outcome sm = (case sm_error sm of Some reason \<Rightarrow> JobFailed reason | None \<Rightarrow> Completed)"

definition finish_stream :: "nat \<Rightarrow> current_job \<Rightarrow> stream_summary \<Rightarrow> observers \<Rightarrow> observers" where
  "finish_stream now j sm ob =
     run_finish now (stream_outcome sm)
       (run_set_prompt (case sm_final_text sm of Some s \<Rightarrow> s | None \<Rightarrow> []) j) ob"

definition show_host_error :: "(io_error \<Rightarrow> string) \<Rightarrow> host_error \<Rightarrow> string" where
  "show_host_error show_io e = (case e of
       UnknownModel i \<Rightarrow> ''unknown model: '' @ i
     | Disabled i \<Rightarrow> ''model is disabled: '' @ i
     | Refused r \<Rightarrow> show_refused r
     | NotLoaded i s \<Rightarrow> ''model '' @ i @ '' is not loaded ('' @ s @ '')''
     | LaneBusy i \<Rightarrow> ''model '' @ i @ '' is busy serving another request''
     | Persist io \<Rightarrow> ''could not persist residency: '' @ show_io io)"

text \<open>After the handshake: the lane taken and the job begun, or the refusal sent.\<close>

definition open_stream :: "env \<Rightarrow> (host_error \<Rightarrow> string) \<Rightarrow> string \<Rightarrow> nat \<Rightarrow> string \<Rightarrow> 'm host \<Rightarrow> observers \<Rightarrow>
    'm host \<times> observers \<times> (stream_send list, current_job) result" where
  "open_stream v show job_id started model h ob = (case try_with_lane v model h of
       (h, Inl err) \<Rightarrow> (h, ob, Inl [SendFrame (ErrorText (show err)), SendClose])
     | (h, Inr _) \<Rightarrow> (let j = stream_job job_id model started in (h, run_begin j ob, Inr j)))"

section \<open>Facts\<close>

text \<open>The frames the reads amount to.\<close>

definition read_frame :: "stream_read \<Rightarrow> client_frame option" where
  "read_frame r = (case r of
       ReadBinary bs \<Rightarrow> Some (Audio bs) | ReadText s \<Rightarrow> client_frame_from_text s | _ \<Rightarrow> None)"

definition frames_read :: "(bool \<times> stream_read) list \<Rightarrow> client_frame list" where
  "frames_read rs = List.map_filter (\<lambda>(_, r). read_frame r) rs"

lemma frames_read_simps [simp]:
  "frames_read [] = []"
  "frames_read ((c, r) # rs) = (case read_frame r of None \<Rightarrow> frames_read rs | Some f \<Rightarrow> f # frames_read rs)"
  by (simp_all add: frames_read_def List.map_filter_simps split: option.splits)

definition uninterrupted :: "(bool \<times> stream_read) list \<Rightarrow> bool" where
  "uninterrupted rs = list_all (\<lambda>(cancelled, r). \<not> cancelled \<and>
     (case r of ReadClose \<Rightarrow> False | ReadBreaks _ \<Rightarrow> False | _ \<Rightarrow> True)) rs"

text \<open>What was sent, without the replies to unknown frames.\<close>

definition answers :: "stream_send list \<Rightarrow> stream_send list" where
  "answers sent = filter (\<lambda>x. case x of SendFrame (ErrorText e) \<Rightarrow> \<not> starts_with e ''unknown frame '' | _ \<Rightarrow> True) sent"

definition known_frames :: "server_frame list \<Rightarrow> bool" where
  "known_frames fs = list_all (\<lambda>f. case f of ErrorText e \<Rightarrow> starts_with e ''transcription failed'' | _ \<Rightarrow> True) fs"

lemma known_frames_simps [simp]:
  "known_frames []" "known_frames (a @ b) = (known_frames a \<and> known_frames b)"
  "known_frames (PartialText t # fs) = known_frames fs" "known_frames (FinalText t # fs) = known_frames fs"
  "known_frames (failure e # fs) = known_frames fs"
  by (simp_all add: known_frames_def failure_def starts_with_def)

lemma only_partials_known: "only_partials fs \<Longrightarrow> known_frames fs"
  by (auto simp: only_partials_def known_frames_def list_all_iff split: server_frame.splits)

lemma starts_with_Cons: "starts_with e (c # p) \<Longrightarrow> \<exists>t. e = c # t"
  by (cases e) (auto simp: starts_with_def)

lemma starts_with_self: "starts_with (p @ x) p"
  by (simp add: starts_with_def)

lemma answers_simps [simp]:
  "answers [] = []" "answers (a @ b) = answers a @ answers b" "answers (SendClose # xs) = SendClose # answers xs"
  "answers (SendFrame (unknown_frame debug s) # xs) = answers xs"
  using starts_with_self [of "''unknown frame ''"] by (simp_all add: answers_def unknown_frame_def)

lemma answers_known: "known_frames fs \<Longrightarrow> answers (map SendFrame fs) = map SendFrame fs"
proof (induction fs)
  case (Cons f fs)
  have "starts_with e ''transcription failed'' \<Longrightarrow> \<not> starts_with e ''unknown frame ''" for e
    by (auto dest!: starts_with_Cons)
  then show ?case using Cons by (auto simp: known_frames_def answers_def split: server_frame.splits)
qed simp

lemma drain_partials: "drain m p s = (s', out, err) \<Longrightarrow> only_partials out"
  using drain_transcribes [of m p s] by (auto simp: drained_def split: prod.splits sum.splits)

lemma finish_known: "known_frames out \<Longrightarrow> finish m out s = (s', fs, nxt) \<Longrightarrow> known_frames fs"
  by (auto simp: finish_def Let_def split: prod.splits option.splits dest!: drain_partials only_partials_known)

lemma handle_known: "handle_frame m f s = (s', fs, nxt) \<Longrightarrow> known_frames fs"
  by (auto simp: handle_frame_def Let_def split: client_frame.splits prod.splits option.splits if_splits
      dest!: drain_partials only_partials_known elim!: finish_known [rotated])

lemma note_frames_audio:
  "(fold note_frame fs sm)\<lparr>sm_audio_bytes := n\<rparr> = fold note_frame fs (sm\<lparr>sm_audio_bytes := n\<rparr>)"
proof (induction fs arbitrary: sm)
  case (Cons f fs)
  have "(note_frame f sm)\<lparr>sm_audio_bytes := n\<rparr> = note_frame f (sm\<lparr>sm_audio_bytes := n\<rparr>)"
    by (cases sm) (simp add: note_frame_def split: server_frame.splits)
  then show ?case using Cons by simp
qed simp

text \<open>An uninterrupted run is the session on the frames read.\<close>

lemma run_loop_frames:
  assumes "uninterrupted rs"
  shows "\<exists>s' fs nxt. handle_frames m (frames_read rs) s = (s', fs, nxt) \<and> known_frames fs \<and>
    answers (fst (run_loop debug m s sm rs)) = map SendFrame fs @ (if nxt = Close then [SendClose] else []) \<and>
    (case snd (run_loop debug m s sm rs) of
       None \<Rightarrow> nxt = Continue
     | Some sm' \<Rightarrow> nxt = Close \<and> (\<exists>n. sm' = fold note_frame fs (sm\<lparr>sm_audio_bytes := n\<rparr>)))"
  using assms
proof (induction rs arbitrary: s sm)
  case Nil
  then show ?case by simp
next
  case (Cons cr rs)
  obtain c r where cr: "cr = (c, r)" by fastforce
  with Cons.prems have go: "\<not> c" "uninterrupted rs" by (simp_all add: uninterrupted_def)
  consider (skip) "read_outcome debug r = Skip" "frames_read (cr # rs) = frames_read rs"
    | (reply) t where "read_outcome debug r = Reply (unknown_frame debug t)" "frames_read (cr # rs) = frames_read rs"
    | (feed) f n where "read_outcome debug r = Feed f n" "frames_read (cr # rs) = f # frames_read rs"
    using Cons.prems unfolding cr
    by (cases r; cases "read_frame r") (simp_all add: read_outcome_def read_frame_def uninterrupted_def)
  then show ?case
  proof cases
    case skip
    then show ?thesis using Cons.IH [OF go(2), of s sm] go(1) cr by simp
  next
    case reply
    then show ?thesis using Cons.IH [OF go(2), of s sm] go(1)
      unfolding cr by (cases "run_loop debug m s sm rs") simp
  next
    case (feed f n)
    obtain s1 fs1 nxt where h: "handle_frame m f s = (s1, fs1, nxt)" by (cases "handle_frame m f s") auto
    have known: "known_frames fs1" using handle_known [OF h] .
    let ?sm = "sm\<lparr>sm_audio_bytes := sm_audio_bytes sm + n\<rparr>"
    show ?thesis
    proof (cases nxt)
      case Close
      then show ?thesis using feed h go(1) cr known by (auto simp: answers_known Let_def)
    next
      case Continue
      let ?run = "run_loop debug m s1 (fold note_frame fs1 ?sm) rs"
      have step: "run_loop debug m s sm ((False, r) # rs) = (map SendFrame fs1 @ fst ?run, snd ?run)"
        using Continue feed(1) h by (simp add: Let_def split: prod.splits)
      have audio: "sm\<lparr>sm_audio_bytes := k, sm_audio_bytes := n\<rparr> = sm\<lparr>sm_audio_bytes := n\<rparr>" for k n
        by simp
      from Cons.IH [OF go(2), of s1 "fold note_frame fs1 ?sm"]
      show ?thesis using Continue feed(2) h go(1) known unfolding cr
        by (cases "snd ?run") (auto simp: step answers_known note_frames_audio simp del: run_loop.simps)
    qed
  qed
qed

lemma note_partials: "only_partials fs \<Longrightarrow> fold note_frame fs sm = sm"
  by (induction fs arbitrary: sm) (auto simp: only_partials_def note_frame_def split: server_frame.splits)

text \<open>C22: whatever pings, read timeouts and unknown text frames come in between, and however the audio is cut
  into frames, a session on a streaming model that the client ends, or the detector ends with the last
  audio, sends partial transcripts and then exactly one verdict (unknown frames get a reply of their
  own), closes, and is recorded with that verdict: the transcript of the whole utterance, all its samples
  in order and the flush of silence in whole chunks, or the error at which the model stopped on it.\<close>

theorem stream_session_answers_the_utterance:
  assumes "uninterrupted rs" and read: "frames_read rs = map Audio bss @ tail"
    and quiet: "\<forall>k. k < length bss \<longrightarrow> \<not> vad_ended e (concat (take k bss))"
    and ends: "vad_ended e (concat bss) \<or> (\<exists>fs. tail = EndFrame # fs)"
  shows "\<exists>sent sm out. run_stream debug m (Opens t) e rs = (sent, Some sm) \<and>
    list_all (\<lambda>f. case f of PartialText _ \<Rightarrow> True | _ \<Rightarrow> False) out \<and>
    (case snd (transcribe m (utterance_chunks m (concat bss)) (tr_reset m t) []) of
       Inr raw \<Rightarrow> answers sent = map SendFrame (out @ [FinalText (normalise raw)]) @ [SendClose] \<and>
         sm_final_text sm = Some (normalise raw) \<and> stream_outcome sm = Completed
     | Inl err \<Rightarrow> answers sent = map SendFrame (out @ [failure err]) @ [SendClose] \<and>
         sm_final_text sm = None \<and> stream_outcome sm = JobFailed (''transcription failed: '' @ err))"
proof -
  let ?s = "session_with_endpointing m t e"
  let ?v = "case snd (transcribe m (utterance_chunks m (concat bss)) (tr_reset m t) []) of
      Inr raw \<Rightarrow> FinalText (normalise raw) | Inl err \<Rightarrow> failure err"
  obtain s' out where run: "handle_frames m (frames_read rs) ?s = (s', out @ [?v], Close)"
    and out: "list_all (\<lambda>f. case f of PartialText _ \<Rightarrow> True | _ \<Rightarrow> False) out"
    using session_verdict [OF quiet ends, of m t] unfolding read by blast
  then obtain sm n where sent: "answers (fst (run_loop debug m ?s summary_default rs)) = map SendFrame (out @ [?v]) @ [SendClose]"
    and sm: "snd (run_loop debug m ?s summary_default rs) = Some sm"
      "sm = fold note_frame (out @ [?v]) (summary_default\<lparr>sm_audio_bytes := n\<rparr>)"
    using run_loop_frames [OF assms(1), of m ?s debug summary_default] by (auto split: option.splits)
  have "sm = note_frame ?v (summary_default\<lparr>sm_audio_bytes := n\<rparr>)"
    using sm(2) note_partials out by (simp add: only_partials_def)
  then show ?thesis using sent sm(1) out
    by (intro exI [of _ "fst (run_loop debug m ?s summary_default rs)"] exI [of _ sm] exI [of _ out])
      (cases "snd (transcribe m (utterance_chunks m (concat bss)) (tr_reset m t) [])",
        auto simp: run_stream_def note_frame_def failure_def stream_outcome_def summary_default_def prod_eq_iff)
qed

text \<open>A model that answers a letter per chunk, and fails on none.\<close>

definition sample_transcriber :: "nat transcriber" where
  "sample_transcriber = \<lparr>tr_chunk_samples = 24002, tr_step = (\<lambda>t c. (t + 1, Inr ''a'')), tr_reset = (\<lambda>_. 0)\<rparr>"

definition sample_reads :: "(bool \<times> stream_read) list" where
  "sample_reads = [(False, ReadBinary [1]), (False, ReadTimeout), (False, ReadBinary [2, 3]),
     (False, ReadText ''pause''), (False, ReadBinary [4]), (False, ReadText ''end''), (False, ReadOther)]"

theorem stream_session_answers_the_utterance_witness:
  "\<exists>sent sm out. run_stream id sample_transcriber (Opens 9) EndpointServer sample_reads = (sent, Some sm) \<and>
    answers sent = map SendFrame (out @ [FinalText ''a'']) @ [SendClose] \<and> sm_final_text sm = Some ''a''"
proof -
  have short: "\<not> vad_ended e bs" if "length (samples_of bs) < 3200" for e bs
  proof -
    have "whole WINDOW (samples_of bs) = []"
      using that by (simp add: whole_def WINDOW_def SAMPLE_RATE_def VAD_WINDOW_MS_def)
    then show ?thesis
      by (simp add: vad_ended_def vad_feed_ends vad_feed_state endpointing_vad_def vad_default_def with_silence_ms_def
          split: endpointing.splits)
  qed
  have quiet: "\<forall>k. k < length [[1::8 word], [2, 3], [4]] \<longrightarrow> \<not> vad_ended EndpointServer (concat (take k [[1], [2, 3], [4]]))"
    by (intro allI impI short) (auto simp: less_Suc_eq numeral_3_eq_3)
  have one: "whole n xs = [xs]" if "length xs = n" "0 < n" for n and xs :: "f32 list"
    using whole_step(1) [of n xs] that by (simp add: whole_def)
  have samples: "samples_of [1, 2, 3, 4] = [sample_of 1 2, sample_of 3 4]" by simp
  have chunk: "chunk_size sample_transcriber = 24002" by (simp add: chunk_size_def sample_transcriber_def)
  have "utterance_chunks sample_transcriber [1, 2, 3, 4] =
      whole 24002 ([sample_of 1 2, sample_of 3 4] @ replicate 24000 (Fin 0))"
    unfolding utterance_chunks_def samples chunk Let_def by (simp add: SAMPLE_RATE_def FLUSH_SILENCE_MS_def)
  then have "\<exists>c. utterance_chunks sample_transcriber [1, 2, 3, 4] = [c]"
    using one [of "[sample_of 1 2, sample_of 3 4] @ replicate 24000 (Fin 0)" 24002] by simp
  then have "snd (transcribe sample_transcriber (utterance_chunks sample_transcriber (concat [[1], [2, 3], [4]]))
      (tr_reset sample_transcriber 9) []) = Inr ''a''"
    by (auto simp: sample_transcriber_def)
  moreover have "normalise ''a'' = ''a''" by code_simp
  moreover have "uninterrupted sample_reads" by (simp add: uninterrupted_def sample_reads_def)
  moreover have "frames_read sample_reads = map Audio [[1], [2, 3], [4]] @ [EndFrame]" by code_simp
  ultimately show ?thesis
    using stream_session_answers_the_utterance [OF _ _ quiet, of sample_reads "[EndFrame]" id sample_transcriber 9] by auto
qed

text \<open>The handshake opens a session on a model exactly for a request to \<open>/transcribe\<close> that names no token in
  its URL and a known endpoint mode, and whose bearer token was last minted for that model and is live:
  the lifetime asked for (at least half a minute, at most an hour) has passed neither now nor at a later
  mint.  Provided no minted token has the hash of the one presented without being it.\<close>

theorem stream_opens_for_a_live_grant:
  assumes "\<forall>token m. bearer r = Some token \<and> m \<in> set ms \<and>
    sha256_hex sha256 (mint_token m) = sha256_hex sha256 token \<longrightarrow> mint_token m = token"
  shows "on_request sha256 now (minted sha256 ms) r = Inr (model, e) \<longleftrightarrow>
    ur_path r = ''/transcribe'' \<and> query_param (ur_query r) ''token'' = None \<and>
    endpointing_parse (query_param (ur_query r) ''endpoint'') = Some e \<and>
    (\<exists>token older m newer life. bearer r = Some token \<and> ms = older @ m # newer \<and>
       mint_token m = token \<and> mc_model m = model \<and>
       life = max 30000 (min 3600000 (mc_ttl m)) \<and> now < mc_now m + life \<and>
       (\<forall>n \<in> set newer. mint_token n \<noteq> token \<and> mc_now n < mc_now m + life))"
proof (cases "bearer r")
  case None
  then show ?thesis by (auto simp: on_request_def split: option.splits)
next
  case (Some token)
  then have "\<forall>m \<in> set ms. sha256_hex sha256 (mint_token m) = sha256_hex sha256 token \<longrightarrow> mint_token m = token"
    using assms by blast
  note live = token_opens [OF this, of now model]
  have "on_request sha256 now (minted sha256 ms) r = Inr (model, e) \<longleftrightarrow>
      ur_path r = ''/transcribe'' \<and> query_param (ur_query r) ''token'' = None \<and>
      endpointing_parse (query_param (ur_query r) ''endpoint'') = Some e \<and>
      token_check sha256 token now (minted sha256 ms) = Inr model"
    using Some by (auto simp: on_request_def STREAM_PATH_def split: option.splits sum.splits)
  then show ?thesis unfolding live using Some by simp
qed

definition sample_upgrade :: upgrade_request where
  "sample_upgrade = \<lparr>ur_path = ''/transcribe'', ur_query = Some ''lang=en&endpoint=client'',
     ur_authorization = Some ''bearer 11 ''\<rparr>"

theorem stream_opens_for_a_live_grant_witness:
  "on_request sample_hash 29999 (minted sample_hash sample_mints) sample_upgrade = Inr (''parakeet'', EndpointClient)"
proof -
  have tokens: "map mint_token sample_mints = [''11'', ''12'']" by code_simp
  have "bearer sample_upgrade = Some ''11''" by code_simp
  moreover have "\<forall>m \<in> set sample_mints. sha256_hex sample_hash (mint_token m) = sha256_hex sample_hash ''11'' \<longrightarrow> mint_token m = ''11''"
    by code_simp
  ultimately have "\<forall>token m. bearer sample_upgrade = Some token \<and> m \<in> set sample_mints \<and>
      sha256_hex sample_hash (mint_token m) = sha256_hex sample_hash token \<longrightarrow> mint_token m = token"
    by simp
  note opens = stream_opens_for_a_live_grant [OF this, of 29999 "''parakeet''" EndpointClient]
  have "ur_path sample_upgrade = ''/transcribe'' \<and> query_param (ur_query sample_upgrade) ''token'' = None \<and>
      endpointing_parse (query_param (ur_query sample_upgrade) ''endpoint'') = Some EndpointClient"
    by code_simp
  then show ?thesis using tokens \<open>bearer sample_upgrade = Some ''11''\<close> unfolding opens
    by (intro conjI exI [of _ "''11''"] exI [of _ "[]"] exI [of _ "hd sample_mints"] exI [of _ "tl sample_mints"])
      (auto simp: sample_mints_def)
qed

end
