(* ===== verification/VoiceTakes.thy ===== *)
theory VoiceTakes
  imports Complex_Main Secrets
begin

text \<open>
  \<^verbatim>\<open>src/src/voice_samples/take.rs\<close>: what a recorded take is called, and whether its audio is a take.
  The printers of \<open>{:?}\<close> and of a fraction with a number of decimals are arguments.
\<close>

section \<open>Names\<close>

definition MAX_SET_CHARS :: nat where "MAX_SET_CHARS = 64"
definition MAX_NUMBER_DIGITS :: nat where "MAX_NUMBER_DIGITS = 4"

datatype take_kind = Positive | NearMiss | Speech

definition take_kind_all :: "take_kind list" where
  "take_kind_all = [Positive, NearMiss, Speech]"

definition take_kind_str :: "take_kind \<Rightarrow> string" where
  "take_kind_str k = (case k of Positive \<Rightarrow> ''positive'' | NearMiss \<Rightarrow> ''near_miss'' | Speech \<Rightarrow> ''speech'')"

definition take_kind_parse :: "string \<Rightarrow> take_kind option" where
  "take_kind_parse s = find (\<lambda>k. take_kind_str k = s) take_kind_all"

record voice_take =
  tk_kind :: take_kind
  tk_number :: nat
  tk_phrase :: "string option"

text \<open>\<open>{:03}\<close>.\<close>

definition pad3 :: "nat \<Rightarrow> string" where
  "pad3 n = replicate (3 - length (show_nat n)) CHR ''0'' @ show_nat n"

definition stem :: "voice_take \<Rightarrow> string" where
  "stem t = (case tk_phrase t of
       Some phrase \<Rightarrow> phrase @ ''-'' @ pad3 (tk_number t) | None \<Rightarrow> pad3 (tk_number t))"

definition ascii_digit :: "char \<Rightarrow> bool" where
  "ascii_digit c = (let n = of_char c :: nat in 48 \<le> n \<and> n \<le> 57)"

definition ascii_lowercase :: "char \<Rightarrow> bool" where
  "ascii_lowercase c = (let n = of_char c :: nat in 97 \<le> n \<and> n \<le> 122)"

definition lower_or_digit :: "char \<Rightarrow> bool" where
  "lower_or_digit c = (ascii_lowercase c \<or> ascii_digit c)"

definition digits_of :: "string \<Rightarrow> nat option" where
  "digits_of s =
     (if s \<noteq> [] \<and> length s \<le> MAX_NUMBER_DIGITS \<and> list_all ascii_digit s then parse_uint 32 s else None)"

definition is_slug :: "string \<Rightarrow> bool" where
  "is_slug s = (s \<noteq> [] \<and> list_all (\<lambda>part. part \<noteq> [] \<and> list_all lower_or_digit part) (split_on CHR ''_'' s))"

definition set_char :: "char \<Rightarrow> bool" where
  "set_char c = (lower_or_digit c \<or> c = CHR ''_'' \<or> c = CHR ''-'')"

definition check_set :: "(string \<Rightarrow> string) \<Rightarrow> string \<Rightarrow> (string, unit) result" where
  "check_set debug s =
     (let first_ok = (case s of c # _ \<Rightarrow> lower_or_digit c | [] \<Rightarrow> False); rest_ok = list_all set_char (tl s) in
      if \<not> (first_ok \<and> rest_ok \<and> length s \<le> MAX_SET_CHARS)
      then Inl (''set '' @ debug s @ '': 1 to '' @ show_nat MAX_SET_CHARS @
        '' of a-z, 0-9, _ and -, starting with a letter or digit'')
      else Inr ())"

definition parse_take :: "(string \<Rightarrow> string) \<Rightarrow> take_kind \<Rightarrow> string \<Rightarrow> (string, voice_take) result" where
  "parse_take debug kind name =
     (let refuse = (\<lambda>rule. Inl (''take '' @ debug name @ '' of '' @ take_kind_str kind @ '': '' @ rule)) in
      if kind = NearMiss
      then (case rsplit_once CHR ''-'' name of
          None \<Rightarrow> refuse ''the near miss's slug and its number, e.g. hey_luna-002''
        | Some (phrase, number) \<Rightarrow>
            (case digits_of number of
               Some n \<Rightarrow>
                 if is_slug phrase then Inr \<lparr>tk_kind = kind, tk_number = n, tk_phrase = Some phrase\<rparr>
                 else refuse ''the near miss's slug and its number, e.g. hey_luna-002''
             | None \<Rightarrow> refuse ''the near miss's slug and its number, e.g. hey_luna-002''))
      else (case digits_of name of
          Some n \<Rightarrow> Inr \<lparr>tk_kind = kind, tk_number = n, tk_phrase = None\<rparr>
        | None \<Rightarrow> refuse ''its number, 1 to 4 digits''))"

definition parse_path :: "(string \<Rightarrow> string) \<Rightarrow> string \<Rightarrow> (string, string \<times> voice_take) result" where
  "parse_path debug p =
     (case (case strip_prefix ''/voice-samples/'' p of Some tail \<Rightarrow> split_on CHR ''/'' tail | None \<Rightarrow> []) of
        [s, k, f] \<Rightarrow>
          (case check_set debug s of
             Inl e \<Rightarrow> Inl e
           | Inr _ \<Rightarrow>
               (case take_kind_parse k of
                  None \<Rightarrow> Inl (''kind '' @ debug k @ '': one of positive, near_miss, speech'')
                | Some kind \<Rightarrow>
                    (case strip_suffix ''.wav'' f of
                       None \<Rightarrow> Inl (''take '' @ debug f @ '': a .wav file'')
                     | Some name \<Rightarrow>
                         (case parse_take debug kind name of Inl e \<Rightarrow> Inl e | Inr t \<Rightarrow> Inr (s, t)))))
      | _ \<Rightarrow> Inl (debug p @ '' is not /voice-samples/<set>/<kind>/<take>.wav''))"

section \<open>Audio\<close>

definition MAX_TAKE_SECONDS :: rat where "MAX_TAKE_SECONDS = 31"
definition MIN_TAKE_SECONDS :: rat where "MIN_TAKE_SECONDS = 1 / 4"
definition MAX_TAKE_BYTES :: nat where "MAX_TAKE_BYTES = 1024 * 1024"
definition TAKE_SAMPLE_RATE :: nat where "TAKE_SAMPLE_RATE = 16000"

text \<open>A byte string literal; little-endian integers at an offset, when the bytes are there.\<close>

definition ascii :: "string \<Rightarrow> bytes" where
  "ascii s = map of_char s"

definition u16_at :: "bytes \<Rightarrow> nat \<Rightarrow> nat option" where
  "u16_at bs i = (if i + 2 \<le> length bs then Some (unat (bs ! i) + 256 * unat (bs ! (i + 1))) else None)"

definition u32_at :: "bytes \<Rightarrow> nat \<Rightarrow> nat option" where
  "u32_at bs i = (if i + 4 \<le> length bs
     then Some (unat (bs ! i) + 256 * unat (bs ! (i + 1)) + 65536 * unat (bs ! (i + 2)) + 16777216 * unat (bs ! (i + 3)))
     else None)"

type_synonym wav_format = "nat option \<times> nat option \<times> nat option \<times> nat option"

text \<open>The walk over the chunks; offsets do not overflow, \<open>usize\<close> has 64 bits.\<close>

function scan_chunks :: "bytes \<Rightarrow> nat \<Rightarrow> wav_format option \<Rightarrow> nat option \<Rightarrow>
    (string, wav_format option \<times> nat option) result" where
  "scan_chunks bs pos format data =
     (if pos + 8 \<le> length bs then
        let cid = slice pos (pos + 4) bs; size = the (u32_at bs (pos + 4)); body = pos + 8;
            nxt = body + size + size mod 2 in
        if cid = ascii ''fmt ''
        then scan_chunks bs nxt (Some (u16_at bs body, u16_at bs (body + 2), u32_at bs (body + 4), u16_at bs (body + 14))) data
        else if cid = ascii ''data'' then
          (if length bs < body + size
           then Inl (''its data chunk says '' @ show_nat size @ '' bytes, the file holds '' @ show_nat (length bs - body))
           else scan_chunks bs nxt format (Some (min size (length bs - body))))
        else scan_chunks bs nxt format data
      else Inr (format, data))"
  by pat_completeness auto
termination by (relation "measure (\<lambda>(bs, pos, _). length bs - pos)") (auto simp: Let_def)

declare scan_chunks.simps [simp del]

definition debug_opt :: "nat option \<Rightarrow> string" where
  "debug_opt x = (case x of None \<Rightarrow> ''None'' | Some n \<Rightarrow> ''Some('' @ show_nat n @ '')'')"

text \<open>The verdict on what the chunks hold.  Seconds are exact; the code's \<open>f64\<close> quotient is the nearest
  double, and as both bounds are doubles the comparisons agree.\<close>

definition wav_verdict :: "(nat \<Rightarrow> rat \<Rightarrow> string) \<Rightarrow> wav_format option \<Rightarrow> nat option \<Rightarrow> (string, rat) result" where
  "wav_verdict show_secs format data = (case format of
       None \<Rightarrow> Inl ''no fmt chunk''
     | Some (encoding, channels, rate, bits) \<Rightarrow>
         if encoding \<noteq> Some 1 \<or> bits \<noteq> Some 16
         then Inl (''not 16-bit PCM (format '' @ debug_opt encoding @ '', '' @ debug_opt bits @ '' bits)'')
         else if channels \<noteq> Some 1 then Inl (''not mono ('' @ debug_opt channels @ '' channels)'')
         else if rate \<noteq> Some TAKE_SAMPLE_RATE then Inl (''not 16 kHz ('' @ debug_opt rate @ '' Hz)'')
         else (case data of
             None \<Rightarrow> Inl ''no data chunk''
           | Some n \<Rightarrow>
               let seconds = of_nat n / (of_nat TAKE_SAMPLE_RATE * 2) in
               if seconds < MIN_TAKE_SECONDS then Inl (show_secs 2 seconds @ '' s is shorter than 0.25 s'')
               else if MAX_TAKE_SECONDS < seconds then Inl (show_secs 1 seconds @ '' s is longer than 31 s'')
               else Inr seconds))"

definition check_wav :: "(nat \<Rightarrow> rat \<Rightarrow> string) \<Rightarrow> bytes \<Rightarrow> (string, rat) result" where
  "check_wav show_secs bs =
     (if slice 0 4 bs \<noteq> ascii ''RIFF'' \<or> slice 8 12 bs \<noteq> ascii ''WAVE''
      then Inl ''not a WAV file (no RIFF/WAVE header)''
      else case scan_chunks bs 12 None None of
          Inl e \<Rightarrow> Inl e
        | Inr (format, data) \<Rightarrow> wav_verdict show_secs format data)"

section \<open>Facts on names\<close>

lemma digits_val_bound: "digits_val a s = Some n \<Longrightarrow> n < (a + 1) * 10 ^ length s"
proof (induction s arbitrary: a)
  case (Cons c s)
  then obtain d where d: "digit_val c = Some d" "digits_val (a * 10 + d) s = Some n" by (auto split: option.splits)
  then have "d \<le> 9" by (auto simp: digit_val_def Let_def split: if_splits)
  from Cons.IH [OF d(2)] have "n < (a * 10 + d + 1) * 10 ^ length s" .
  also have "\<dots> \<le> ((a + 1) * 10) * 10 ^ length s" using \<open>d \<le> 9\<close> by (intro mult_right_mono) auto
  finally show ?case by (simp add: algebra_simps)
qed simp

lemma digits_of_bound: "digits_of s = Some n \<Longrightarrow> n \<le> 9999"
proof -
  assume d: "digits_of s = Some n"
  then have len: "length s \<le> 4" and all: "list_all ascii_digit s" and "parse_uint 32 s = Some n"
    by (auto simp: digits_of_def MAX_NUMBER_DIGITS_def split: if_splits)
  moreover have "\<not> ascii_digit CHR ''+''" by code_simp
  ultimately have "digits_val 0 s = Some n"
    by (auto simp: parse_uint_def Let_def split: if_splits list.splits option.splits)
  from digits_val_bound [OF this] have "n < 10 ^ length s" by simp
  also have "(10::nat) ^ length s \<le> 10 ^ 4" using len by (intro power_increasing) auto
  finally show ?thesis by simp
qed

lemma length_show_nat: "0 < k \<Longrightarrow> n < 10 ^ k \<Longrightarrow> length (show_nat n) \<le> k"
proof (induction n arbitrary: k rule: show_nat.induct)
  case (1 n)
  show ?case
  proof (cases "n < 10")
    case True
    then show ?thesis using 1(2) by (subst show_nat.simps) simp
  next
    case False
    then obtain j where k: "k = Suc j" "0 < j" using 1(2,3) by (cases k; cases "k = 1") auto
    then have "n div 10 < 10 ^ j" using 1(3) by (simp add: less_mult_imp_div_less mult.commute)
    from 1(1) [OF False k(2) this] show ?thesis using False k by (subst show_nat.simps) simp
  qed
qed

lemma ascii_digit_digit: "d < 10 \<Longrightarrow> ascii_digit (digit d)"
  by (simp add: ascii_digit_def digit_def)

lemma show_nat_digits: "list_all ascii_digit (show_nat n)"
proof (induction n rule: show_nat.induct)
  case (1 n)
  then show ?case by (subst show_nat.simps) (auto simp: ascii_digit_digit)
qed

lemma pad3_digits: "list_all ascii_digit (pad3 n)"
proof -
  have "ascii_digit CHR ''0''" by code_simp
  then show ?thesis using show_nat_digits [of n] by (auto simp: pad3_def list_all_iff)
qed

lemma digits_of_pad3: "n \<le> 9999 \<Longrightarrow> digits_of (pad3 n) = Some n"
proof -
  assume n: "n \<le> 9999"
  then have "length (show_nat n) \<le> 4" by (intro length_show_nat) auto
  then have len: "length (pad3 n) \<le> MAX_NUMBER_DIGITS" "pad3 n \<noteq> []"
    using show_nat_nonempty [of n] by (auto simp: pad3_def MAX_NUMBER_DIGITS_def)
  have zeros: "digits_val 0 (replicate k CHR ''0'' @ s) = digits_val 0 s" for k s
    by (induction k) (simp_all add: digit_val_def)
  have "\<not> ascii_digit CHR ''+''" by code_simp
  then have "(case pad3 n of c # cs \<Rightarrow> if c = CHR ''+'' then cs else pad3 n | [] \<Rightarrow> pad3 n) = pad3 n"
    using pad3_digits [of n] by (auto split: list.splits)
  moreover have "digits_val 0 (pad3 n) = Some n" by (simp add: pad3_def zeros digits_val_show_nat)
  ultimately have "parse_uint 32 (pad3 n) = Some n" using n len by (simp add: parse_uint_def Let_def)
  then show ?thesis using len pad3_digits by (simp add: digits_of_def)
qed

text \<open>What a name may hold: nothing that leaves its directory.\<close>

lemma set_char_no_slash: "set_char c \<Longrightarrow> c \<noteq> CHR ''/'' \<and> c \<noteq> CHR ''.''"
  by (auto simp: set_char_def lower_or_digit_def ascii_lowercase_def ascii_digit_def)

lemma digit_set_char: "ascii_digit c \<Longrightarrow> set_char c" "lower_or_digit c \<Longrightarrow> set_char c"
  by (simp_all add: set_char_def lower_or_digit_def)

lemma join_chars: "list_all (list_all P) ps \<Longrightarrow> P c \<Longrightarrow> list_all P (join_str [c] ps)"
  by (induction "[c]" ps rule: join_str.induct) auto

lemma slug_chars: "is_slug s \<Longrightarrow> list_all set_char s"
proof -
  assume s: "is_slug s"
  have "list_all (list_all set_char) (split_on CHR ''_'' s)"
    using s by (auto simp: is_slug_def list_all_iff digit_set_char)
  from join_chars [OF this, of "CHR ''_''"] show ?thesis by (simp add: split_on_join set_char_def)
qed

definition take_ok :: "voice_take \<Rightarrow> bool" where
  "take_ok t = (tk_number t \<le> 9999 \<and> (case tk_phrase t of
     None \<Rightarrow> tk_kind t \<noteq> NearMiss | Some phrase \<Rightarrow> tk_kind t = NearMiss \<and> is_slug phrase))"

lemma parse_take_ok: "parse_take debug kind name = Inr t \<Longrightarrow> take_ok t \<and> tk_kind t = kind"
  using digits_of_bound by (force simp: parse_take_def take_ok_def Let_def split: if_splits option.splits)

lemma parse_take_stem: "take_ok t \<Longrightarrow> parse_take debug (tk_kind t) (stem t) = Inr t"
proof -
  assume ok: "take_ok t"
  have "CHR ''-'' \<notin> set (pad3 n)" for n
    using pad3_digits [of n] by (auto simp: list_all_iff ascii_digit_def)
  then show ?thesis using ok
    by (cases t; cases "tk_phrase t")
      (auto simp: take_ok_def parse_take_def stem_def digits_of_pad3 rsplit_once_append Let_def)
qed

lemma stem_chars: "take_ok t \<Longrightarrow> list_all set_char (stem t)"
proof -
  assume "take_ok t"
  moreover have "list_all set_char (pad3 (tk_number t))"
    using pad3_digits [of "tk_number t"] by (simp add: list_all_iff digit_set_char)
  moreover have "set_char CHR ''-''" by (simp add: set_char_def)
  ultimately show ?thesis using slug_chars by (auto simp: stem_def take_ok_def split: option.splits)
qed

lemma take_kind_parse_str: "take_kind_parse k = Some kind \<longleftrightarrow> k = take_kind_str kind"
  by (cases kind) (auto simp: take_kind_parse_def take_kind_all_def take_kind_str_def)

lemma check_set_chars: "check_set debug s = Inr () \<Longrightarrow> s \<noteq> [] \<and> list_all set_char s"
  by (auto simp: check_set_def Let_def digit_set_char split: list.splits if_splits)

definition take_path :: "string \<Rightarrow> voice_take \<Rightarrow> string" where
  "take_path s t = ''/voice-samples/'' @ s @ ''/'' @ take_kind_str (tk_kind t) @ ''/'' @ stem t @ ''.wav''"

lemma strip_prefix_append [simp]: "strip_prefix p (p @ s) = Some s"
  by (simp add: strip_prefix_def starts_with_def)

lemma strip_suffix_append [simp]: "strip_suffix p (s @ p) = Some s"
  by (simp add: strip_suffix_def ends_with_def)

lemma parse_take_path:
  assumes "check_set debug s = Inr ()" "take_ok t"
  shows "parse_path debug (take_path s t) = Inr (s, t)"
proof -
  have free: "CHR ''/'' \<notin> set s" "CHR ''/'' \<notin> set (stem t @ ''.wav'')" "CHR ''/'' \<notin> set (take_kind_str (tk_kind t))"
    using check_set_chars [OF assms(1)] stem_chars [OF assms(2)] set_char_no_slash
    by (auto simp: list_all_iff take_kind_str_def split: take_kind.splits)
  have "strip_prefix ''/voice-samples/'' (take_path s t) =
      Some (s @ CHR ''/'' # take_kind_str (tk_kind t) @ CHR ''/'' # stem t @ ''.wav'')"
    unfolding take_path_def strip_prefix_append by simp
  then show ?thesis using free assms(1) take_kind_parse_str [of "take_kind_str (tk_kind t)" "tk_kind t"]
      parse_take_stem [OF assms(2), of debug]
    by (simp add: parse_path_def split_on_append split_on_atom del: append_Cons)
qed

text \<open>A path that is accepted names one place inside the store: the take is stored under the set, the
  kind and its stem, none of which holds a slash or a dot, and the path of that place reads back as the
  same set and take; so two takes share a file only if they are the same take.\<close>

theorem take_path_roundtrip:
  assumes "parse_path debug p = Inr (s, t)"
  shows "parse_path debug (take_path s t) = Inr (s, t) \<and> s \<noteq> [] \<and> stem t \<noteq> [] \<and>
    (\<forall>c. c \<in> set s \<or> c \<in> set (stem t) \<longrightarrow> c \<noteq> CHR ''/'' \<and> c \<noteq> CHR ''.'')"
proof -
  have ok: "check_set debug s = Inr ()" "take_ok t"
    using assms parse_take_ok
    by (auto simp: parse_path_def split: list.splits option.splits sum.splits)
  have "stem t \<noteq> []" using show_nat_nonempty by (simp add: stem_def pad3_def split: option.splits)
  then show ?thesis
    using parse_take_path [OF ok] check_set_chars [OF ok(1)] stem_chars [OF ok(2)] set_char_no_slash
    by (auto simp: list_all_iff)
qed

lemmas name_eval = parse_path_def strip_prefix_def strip_suffix_def starts_with_def ends_with_def check_set_def
  set_char_def lower_or_digit_def ascii_lowercase_def ascii_digit_def MAX_SET_CHARS_def take_kind_parse_def
  take_kind_all_def take_kind_str_def parse_take_def rsplit_once_def digits_of_def MAX_NUMBER_DIGITS_def
  parse_uint_def digit_val_def is_slug_def

theorem take_path_roundtrip_witness:
  "parse_path id (take_path ''s1'' \<lparr>tk_kind = NearMiss, tk_number = 2, tk_phrase = Some ''hey_luna''\<rparr>) =
     Inr (''s1'', \<lparr>tk_kind = NearMiss, tk_number = 2, tk_phrase = Some ''hey_luna''\<rparr>)"
proof -
  have "parse_path id ''/voice-samples/s1/near_miss/hey_luna-2.wav'' =
      Inr (''s1'', \<lparr>tk_kind = NearMiss, tk_number = 2, tk_phrase = Some ''hey_luna''\<rparr>)"
    by (simp add: name_eval)
  from take_path_roundtrip [OF this] show ?thesis by blast
qed

section \<open>Facts on audio\<close>

text \<open>A RIFF file from its chunks: each its name, its size, its bytes and a pad to an even length.\<close>

definition le32 :: "nat \<Rightarrow> bytes" where
  "le32 n = [word_of_nat n, word_of_nat (n div 256), word_of_nat (n div 65536), word_of_nat (n div 16777216)]"

definition chunk_bytes :: "bytes \<times> bytes \<Rightarrow> bytes" where
  "chunk_bytes c = (case c of (cid, body) \<Rightarrow>
     cid @ le32 (length body) @ body @ replicate (length body mod 2) 0)"

definition wav_of :: "bytes \<Rightarrow> (bytes \<times> bytes) list \<Rightarrow> bytes" where
  "wav_of sz cs = ascii ''RIFF'' @ sz @ ascii ''WAVE'' @ concat (map chunk_bytes cs)"

definition chunk_ok :: "bytes \<times> bytes \<Rightarrow> bool" where
  "chunk_ok c = (case c of (cid, body) \<Rightarrow> length cid = 4 \<and> length body < 2 ^ 32 \<and>
     (cid = ascii ''fmt '' \<longrightarrow> 16 \<le> length body))"

definition last_chunk :: "string \<Rightarrow> (bytes \<times> bytes) list \<Rightarrow> bytes option" where
  "last_chunk cid cs = map_option snd (find (\<lambda>c. fst c = ascii cid) (rev cs))"

definition fmt_fields :: "bytes \<Rightarrow> wav_format" where
  "fmt_fields b = (u16_at b 0, u16_at b 2, u32_at b 4, u16_at b 14)"

lemma nth_mid: "i < length b \<Longrightarrow> (a @ b @ c) ! (length a + i) = b ! i"
  by (simp add: nth_append)

lemma u16_at_mid: "i + 2 \<le> length b \<Longrightarrow> u16_at (a @ b @ c) (length a + i) = u16_at b i"
  using nth_mid [of i b a c] nth_mid [of "i + 1" b a c] by (simp add: u16_at_def add.assoc)

lemma u32_at_mid: "i + 4 \<le> length b \<Longrightarrow> u32_at (a @ b @ c) (length a + i) = u32_at b i"
  using nth_mid [of i b a c] nth_mid [of "i + 1" b a c] nth_mid [of "i + 2" b a c] nth_mid [of "i + 3" b a c]
  by (simp add: u32_at_def add.assoc)

lemma length_le32 [simp]: "length (le32 n) = 4"
  by (simp add: le32_def)

lemma u32_at_le32: "n < 2 ^ 32 \<Longrightarrow> u32_at (le32 n) 0 = Some n"
proof -
  assume n: "n < 2 ^ 32"
  have digits: "x mod 256 + 256 * (x div 256) = x" for x :: nat by simp
  have twice: "n div 65536 = n div 256 div 256" "n div 16777216 = n div 256 div 256 div 256"
    by (simp_all add: div_mult2_eq [symmetric])
  have "n div 256 div 256 div 256 < 256" using n by (simp add: div_mult2_eq [symmetric] less_mult_imp_div_less)
  then have "n div 256 div 256 div 256 mod 256 = n div 256 div 256 div 256" by (rule mod_less)
  then have "n mod 256 + 256 * (n div 256 mod 256) + 65536 * (n div 256 div 256 mod 256) +
      16777216 * (n div 256 div 256 div 256 mod 256) = n"
    using digits [of n] digits [of "n div 256"] digits [of "n div 256 div 256"] by linarith
  then show ?thesis unfolding u32_at_def le32_def twice by (simp add: unat_of_nat take_bit_eq_mod)
qed

lemma scan_chunk:
  assumes "chunk_ok (cid, body)"
  shows "scan_chunks (a @ chunk_bytes (cid, body) @ b) (length a) f d =
    scan_chunks (a @ chunk_bytes (cid, body) @ b) (length (a @ chunk_bytes (cid, body)))
      (if cid = ascii ''fmt '' then Some (fmt_fields body) else f)
      (if cid = ascii ''data'' then Some (length body) else d)"
proof -
  define bs where "bs = a @ chunk_bytes (cid, body) @ b"
  let ?p = "length a"
  have ok: "length cid = 4" "length body < 2 ^ 32" "cid = ascii ''fmt '' \<Longrightarrow> 16 \<le> length body"
    using assms by (auto simp: chunk_ok_def)
  have bs: "bs = a @ cid @ le32 (length body) @ body @ replicate (length body mod 2) 0 @ b"
    by (simp add: bs_def chunk_bytes_def)
  have go: "?p + 8 \<le> length bs" using ok(1) by (simp add: bs)
  have cid: "slice ?p (?p + 4) bs = cid" using ok(1) by (simp add: bs slice_def)
  have sz: "u32_at bs (?p + 4) = Some (length body)"
    using u32_at_mid [of 0 "le32 (length body)" "a @ cid" "body @ replicate (length body mod 2) 0 @ b"]
      u32_at_le32 [OF ok(2)] ok(1) by (simp add: bs)
  have fits: "?p + 8 + length body \<le> length bs" using ok(1) by (simp add: bs)
  have fmt: "fmt_fields body = (u16_at bs (?p + 8), u16_at bs (?p + 8 + 2), u32_at bs (?p + 8 + 4), u16_at bs (?p + 8 + 14))"
    if "cid = ascii ''fmt ''"
  proof -
    let ?a = "a @ cid @ le32 (length body)" and ?c = "replicate (length body mod 2) 0 @ b"
    have "bs = ?a @ body @ ?c" "length ?a = ?p + 8" using ok(1) by (simp_all add: bs)
    then show ?thesis using ok(3) [OF that] u16_at_mid [of 0 body ?a ?c] u16_at_mid [of 2 body ?a ?c]
        u32_at_mid [of 4 body ?a ?c] u16_at_mid [of 14 body ?a ?c]
      by (simp add: fmt_fields_def add.commute add.left_commute)
  qed
  have nxt: "?p + 8 + length body + length body mod 2 = length (a @ chunk_bytes (cid, body))"
    using ok(1) by (simp add: chunk_bytes_def)
  have ids: "ascii ''fmt '' \<noteq> ascii ''data''" by (simp add: ascii_def)
  have data: "min (length body) (length bs - (?p + 8)) = length body" "\<not> length bs < ?p + 8 + length body"
    using fits by simp_all
  have step: "scan_chunks bs ?p f d = (let nxt = ?p + 8 + length body + length body mod 2 in
      if cid = ascii ''fmt '' then scan_chunks bs nxt
        (Some (u16_at bs (?p + 8), u16_at bs (?p + 8 + 2), u32_at bs (?p + 8 + 4), u16_at bs (?p + 8 + 14))) d
      else if cid = ascii ''data'' then scan_chunks bs nxt f (Some (length body)) else scan_chunks bs nxt f d)"
    by (subst scan_chunks.simps) (simp only: go cid sz data Let_def option.sel if_True if_False)
  show ?thesis unfolding nxt [symmetric] bs_def [symmetric] step Let_def
    using fmt ids by (cases "cid = ascii ''fmt ''"; cases "cid = ascii ''data''") simp_all
qed

lemma scan_all:
  assumes "list_all chunk_ok cs"
  shows "scan_chunks (a @ concat (map chunk_bytes cs)) (length a) f d =
    Inr (case last_chunk ''fmt '' cs of Some b \<Rightarrow> Some (fmt_fields b) | None \<Rightarrow> f,
      case last_chunk ''data'' cs of Some b \<Rightarrow> Some (length b) | None \<Rightarrow> d)"
  using assms
proof (induction cs arbitrary: a f d)
  case Nil
  show ?case by (subst scan_chunks.simps) (simp add: last_chunk_def)
next
  case (Cons c cs)
  obtain cid body where c: "c = (cid, body)" by fastforce
  have ids: "ascii ''fmt '' \<noteq> ascii ''data''" by (simp add: ascii_def)
  have last: "last_chunk i (c # cs) = (case last_chunk i cs of Some b \<Rightarrow> Some b
      | None \<Rightarrow> if cid = ascii i then Some body else None)" for i
    by (simp add: last_chunk_def find_append c split: option.splits)
  show ?case
  proof -
    have ok: "chunk_ok (cid, body)" "list_all chunk_ok cs" using Cons.prems by (simp_all add: c)
    have at: "a @ concat (map chunk_bytes (c # cs)) = a @ chunk_bytes (cid, body) @ concat (map chunk_bytes cs)"
      by (simp add: c)
    have split: "a @ chunk_bytes (cid, body) @ concat (map chunk_bytes cs) =
        (a @ chunk_bytes (cid, body)) @ concat (map chunk_bytes cs)" by simp
    show ?thesis
      unfolding at scan_chunk [OF ok(1)] unfolding split Cons.IH [OF ok(2)] last
      by (auto split: option.splits)
  qed
qed

lemma check_wav_chunks:
  assumes "list_all chunk_ok cs" "length sz = 4"
  shows "check_wav show_secs (wav_of sz cs) =
    wav_verdict show_secs (map_option fmt_fields (last_chunk ''fmt '' cs)) (map_option length (last_chunk ''data'' cs))"
proof -
  let ?head = "ascii ''RIFF'' @ sz @ ascii ''WAVE''"
  have head: "slice 0 4 (wav_of sz cs) = ascii ''RIFF''" "slice 8 12 (wav_of sz cs) = ascii ''WAVE''"
    "length ?head = 12" "wav_of sz cs = ?head @ concat (map chunk_bytes cs)"
    using assms(2) by (simp_all add: wav_of_def slice_def ascii_def)
  have "scan_chunks (wav_of sz cs) 12 None None =
      Inr (map_option fmt_fields (last_chunk ''fmt '' cs), map_option length (last_chunk ''data'' cs))"
    using scan_all [OF assms(1), of ?head None None] head(3) unfolding head(4)
    by (simp add: map_option_case)
  then show ?thesis using head(1,2) by (simp add: check_wav_def)
qed

text \<open>For any WAV file, whatever chunks it has and in whatever order, the take is accepted exactly when its
  last format chunk says 16-bit mono PCM at 16 kHz and its last data chunk holds a quarter of a second to
  31 seconds of it; and that length is what is answered.\<close>

theorem wav_accepted_by_its_chunks:
  assumes "list_all chunk_ok cs" "length sz = 4"
  shows "check_wav show_secs (wav_of sz cs) = Inr secs \<longleftrightarrow>
    (\<exists>f d. last_chunk ''fmt '' cs = Some f \<and> last_chunk ''data'' cs = Some d \<and>
       u16_at f 0 = Some 1 \<and> u16_at f 2 = Some 1 \<and> u32_at f 4 = Some 16000 \<and> u16_at f 14 = Some 16 \<and>
       8000 \<le> length d \<and> length d \<le> 992000 \<and> secs = of_nat (length d) / 32000)"
proof -
  have "(of_nat n / 32000 :: rat) < 1 / 4 \<longleftrightarrow> n < 8000" "31 < (of_nat n / 32000 :: rat) \<longleftrightarrow> 992000 < n" for n :: nat
  proof -
    have "(of_nat n :: rat) < 8000 \<longleftrightarrow> n < 8000" "(992000 :: rat) < of_nat n \<longleftrightarrow> 992000 < n"
      using of_nat_less_iff [of n 8000, where 'a = rat] of_nat_less_iff [of 992000 n, where 'a = rat] by simp_all
    then show "(of_nat n / 32000 :: rat) < 1 / 4 \<longleftrightarrow> n < 8000" "31 < (of_nat n / 32000 :: rat) \<longleftrightarrow> 992000 < n"
      by (simp_all add: field_simps)
  qed
  then show ?thesis unfolding check_wav_chunks [OF assms]
    by (auto simp: wav_verdict_def fmt_fields_def TAKE_SAMPLE_RATE_def MIN_TAKE_SECONDS_def MAX_TAKE_SECONDS_def Let_def
        split: option.splits)
qed

definition sample_chunks :: "(bytes \<times> bytes) list" where
  "sample_chunks = [(ascii ''LIST'', [1, 2, 3]), (ascii ''fmt '', [1, 0, 1, 0, 128, 62, 0, 0, 0, 125, 0, 0, 2, 0, 16, 0]),
     (ascii ''data'', replicate 32000 0)]"

theorem wav_accepted_by_its_chunks_witness:
  "check_wav (\<lambda>_ _. []) (wav_of [0, 0, 0, 0] sample_chunks) = Inr 1"
proof -
  have ok: "list_all chunk_ok sample_chunks"
    by (simp add: sample_chunks_def chunk_ok_def ascii_def)
  have "last_chunk ''fmt '' sample_chunks = Some [1, 0, 1, 0, 128, 62, 0, 0, 0, 125, 0, 0, 2, 0, 16, 0]"
    "last_chunk ''data'' sample_chunks = Some (replicate 32000 0)"
    by (simp_all add: last_chunk_def sample_chunks_def ascii_def)
  then show ?thesis
    using wav_accepted_by_its_chunks [OF ok, of "[0, 0, 0, 0]" "\<lambda>_ _. []" 1]
    by (simp add: u16_at_def u32_at_def)
qed

end
