(* ===== verification/VoiceStore.thy ===== *)
theory VoiceStore
  imports VoiceTakes "HOL-Library.List_Lexorder" "HOL-Library.Char_ord" "HOL-Library.Option_ord"
    "HOL-Library.Product_Lexorder"
begin

text \<open>
  \<^verbatim>\<open>src/src/voice_samples/store.rs\<close>: the operator's takes on disk, and the holds of trainings on their
  sets.  The store's directory is the list of its sets, each with one directory per kind, each the list
  of its files in the order \<open>read_dir\<close> gives them; which operations fail, and what a failed one leaves
  behind, is an argument.  One lock orders the operations, so each is one step.
\<close>

section \<open>The disk\<close>

type_synonym kind_dir = "(string \<times> bytes) list"
type_synonym set_dir = "take_kind \<Rightarrow> kind_dir option"
type_synonym take_tree = "(string \<times> set_dir) list option"

record voice_store =
  vs_root :: take_tree
  vs_held :: "string \<rightharpoonup> nat"

record take_faults =
  tf_root_dir :: "string option"
  tf_set_dir :: "string option"
  tf_kind_dir :: "string option"
  tf_read :: "string \<Rightarrow> take_kind \<Rightarrow> string \<Rightarrow> string option"
  tf_list :: "string \<Rightarrow> take_kind \<Rightarrow> string option"
  tf_write :: "(string \<times> bytes option) option" \<comment> \<open>the error, and the partial file it leaves\<close>
  tf_remove :: "string \<Rightarrow> (string \<times> set_dir) option" \<comment> \<open>the error, and what is left of the set\<close>

definition no_take_faults :: take_faults where
  "no_take_faults = \<lparr>tf_root_dir = None, tf_set_dir = None, tf_kind_dir = None, tf_read = (\<lambda>_ _ _. None),
     tf_list = (\<lambda>_ _. None), tf_write = None, tf_remove = (\<lambda>_. None)\<rparr>"

datatype store_error = BadWav string | InTraining string | UnknownSet string | StoreIo string

definition store_error_text :: "store_error \<Rightarrow> string" where
  "store_error_text e = (case e of
       BadWav why \<Rightarrow> why | InTraining s \<Rightarrow> ''a training holds set '' @ s
     | UnknownSet s \<Rightarrow> ''no set named '' @ s | StoreIo why \<Rightarrow> why)"

record stored =
  sd_created :: bool
  sd_seconds :: rat
  sd_bytes :: nat

fun upsert_entry :: "'k \<Rightarrow> 'v \<Rightarrow> ('k \<times> 'v) list \<Rightarrow> ('k \<times> 'v) list" where
  "upsert_entry k v [] = [(k, v)]"
| "upsert_entry k v ((k', v') # es) = (if k' = k then (k, v) # es else (k', v') # upsert_entry k v es)"

definition set_dir_of :: "take_tree \<Rightarrow> string \<Rightarrow> set_dir option" where
  "set_dir_of tree s = (case tree of None \<Rightarrow> None | Some es \<Rightarrow> map_of es s)"

definition put_set_dir :: "string \<Rightarrow> set_dir \<Rightarrow> take_tree \<Rightarrow> take_tree" where
  "put_set_dir s d tree = Some (upsert_entry s d (case tree of None \<Rightarrow> [] | Some es \<Rightarrow> es))"

text \<open>\<open>private_dir\<close> of the root, a set and a kind: there afterwards, with what it held.\<close>

definition make_root :: "take_tree \<Rightarrow> take_tree" where
  "make_root tree = Some (case tree of None \<Rightarrow> [] | Some es \<Rightarrow> es)"

definition make_set :: "string \<Rightarrow> take_tree \<Rightarrow> take_tree" where
  "make_set s tree = put_set_dir s (case set_dir_of tree s of None \<Rightarrow> (\<lambda>_. None) | Some d \<Rightarrow> d) tree"

definition make_kind :: "string \<Rightarrow> take_kind \<Rightarrow> take_tree \<Rightarrow> take_tree" where
  "make_kind s k tree = (let d = the (set_dir_of tree s) in
     put_set_dir s (d(k := Some (case d k of None \<Rightarrow> [] | Some fs \<Rightarrow> fs))) tree)"

definition kind_files :: "string \<Rightarrow> take_kind \<Rightarrow> take_tree \<Rightarrow> kind_dir option" where
  "kind_files s k tree = Option.bind (set_dir_of tree s) (\<lambda>d. d k)"

definition set_kind_files :: "string \<Rightarrow> take_kind \<Rightarrow> kind_dir \<Rightarrow> take_tree \<Rightarrow> take_tree" where
  "set_kind_files s k fs tree = put_set_dir s ((the (set_dir_of tree s))(k := Some fs)) tree"

text \<open>\<open>private_write\<close>: through a partial file, renamed over the take.\<close>

definition private_write ::
  "take_faults \<Rightarrow> string \<Rightarrow> bytes \<Rightarrow> kind_dir \<Rightarrow> kind_dir \<times> (string, unit) result" where
  "private_write flt name bs fs =
     (let partial = name @ ''.partial''; file = name @ ''.wav'' in
      case tf_write flt of
        Some (e, left) \<Rightarrow>
          ((case left of None \<Rightarrow> fs | Some part \<Rightarrow> upsert_entry partial part fs), Inl e)
      | None \<Rightarrow> (upsert_entry file bs (filter (\<lambda>(n, _). n \<noteq> partial) fs), Inr ()))"

section \<open>Uploads\<close>

definition store_put :: "(nat \<Rightarrow> rat \<Rightarrow> string) \<Rightarrow> take_faults \<Rightarrow> string \<Rightarrow> voice_take \<Rightarrow> bytes \<Rightarrow> voice_store \<Rightarrow>
    voice_store \<times> (store_error, stored) result" where
  "store_put show_secs flt s t bs vs = (case check_wav show_secs bs of
       Inl why \<Rightarrow> (vs, Inl (BadWav why))
     | Inr secs \<Rightarrow>
         if vs_held vs s \<noteq> None then (vs, Inl (InTraining s))
         else case tf_root_dir flt of Some e \<Rightarrow> (vs, Inl (StoreIo (''creating the store: '' @ e))) | None \<Rightarrow>
           let tree = make_root (vs_root vs) in
           case tf_set_dir flt of
             Some e \<Rightarrow> (vs\<lparr>vs_root := tree\<rparr>, Inl (StoreIo (''creating the set: '' @ e)))
           | None \<Rightarrow>
           let tree = make_set s tree in
           case tf_kind_dir flt of
             Some e \<Rightarrow> (vs\<lparr>vs_root := tree\<rparr>, Inl (StoreIo (''creating the kind: '' @ e)))
           | None \<Rightarrow>
           let tree = make_kind s (tk_kind t) tree;
               files = the (kind_files s (tk_kind t) tree);
               previous = (if tf_read flt s (tk_kind t) (stem t @ ''.wav'') = None
                 then map_of files (stem t @ ''.wav'') else None);
               ok = \<lparr>sd_created = (previous = None), sd_seconds = secs, sd_bytes = length bs\<rparr>
           in if previous = Some bs then (vs\<lparr>vs_root := tree\<rparr>, Inr ok)
              else case private_write flt (stem t) bs files of
                  (files, Inl e) \<Rightarrow>
                    (vs\<lparr>vs_root := set_kind_files s (tk_kind t) files tree\<rparr>, Inl (StoreIo (''writing the take: '' @ e)))
                | (files, Inr _) \<Rightarrow> (vs\<lparr>vs_root := set_kind_files s (tk_kind t) files tree\<rparr>, Inr ok))"

section \<open>Listing\<close>

record take_file =
  tff_set :: string
  tff_kind :: take_kind
  tff_number :: nat
  tff_phrase :: "string option"
  tff_name :: string
  tff_sha256 :: string

instantiation take_kind :: linorder
begin

definition kind_rank :: "take_kind \<Rightarrow> nat" where
  "kind_rank k = (case k of Positive \<Rightarrow> 0 | NearMiss \<Rightarrow> 1 | Speech \<Rightarrow> 2)"

definition less_eq_take_kind :: "take_kind \<Rightarrow> take_kind \<Rightarrow> bool" where
  "less_eq_take_kind a b = (kind_rank a \<le> kind_rank b)"

definition less_take_kind :: "take_kind \<Rightarrow> take_kind \<Rightarrow> bool" where
  "less_take_kind a b = (kind_rank a < kind_rank b)"

instance
  by standard (auto simp: less_eq_take_kind_def less_take_kind_def kind_rank_def split: take_kind.splits)

end

definition takes_in :: "string \<Rightarrow> take_kind \<Rightarrow> kind_dir \<Rightarrow> take_file list" where
  "takes_in s k fs = List.map_filter (\<lambda>(n, _).
     case strip_suffix ''.wav'' n of None \<Rightarrow> None
     | Some name \<Rightarrow> (case parse_take id k name of
         Inl _ \<Rightarrow> None
       | Inr t \<Rightarrow> Some \<lparr>tff_set = s, tff_kind = k, tff_number = tk_number t, tff_phrase = tk_phrase t,
           tff_name = n, tff_sha256 = []\<rparr>)) fs"

fun takes_of_kinds :: "take_faults \<Rightarrow> take_tree \<Rightarrow> string \<Rightarrow> take_kind list \<Rightarrow> (store_error, take_file list) result" where
  "takes_of_kinds flt tree s [] = Inr []"
| "takes_of_kinds flt tree s (k # ks) = (case kind_files s k tree of
       None \<Rightarrow> takes_of_kinds flt tree s ks
     | Some fs \<Rightarrow> (case tf_list flt s k of
           Some e \<Rightarrow> Inl (StoreIo (''reading '' @ s @ ''/'' @ take_kind_str k @ '': '' @ e))
         | None \<Rightarrow> (case takes_of_kinds flt tree s ks of
             Inl e \<Rightarrow> Inl e | Inr later \<Rightarrow> Inr (takes_in s k fs @ later))))"

definition takes_of :: "take_faults \<Rightarrow> take_tree \<Rightarrow> string \<Rightarrow> (store_error, take_file list) result" where
  "takes_of flt tree s = (case takes_of_kinds flt tree s take_kind_all of
       Inl e \<Rightarrow> Inl e
     | Inr ts \<Rightarrow> Inr (sort_key (\<lambda>t. (tff_kind t, tff_phrase t, tff_number t)) ts))"

definition set_names :: "take_tree \<Rightarrow> string list" where
  "set_names tree = (case tree of None \<Rightarrow> []
     | Some es \<Rightarrow> sort (filter (\<lambda>n. is_ok (check_set id n)) (map fst es)))"

section \<open>Deleting\<close>

definition remove_set :: "string \<Rightarrow> take_tree \<Rightarrow> take_tree" where
  "remove_set s tree = map_option (filter (\<lambda>(n, _). n \<noteq> s)) tree"

fun remove_sets :: "take_faults \<Rightarrow> string list \<Rightarrow> take_tree \<Rightarrow> take_tree \<times> (store_error, unit) result" where
  "remove_sets flt [] tree = (tree, Inr ())"
| "remove_sets flt (s # ss) tree = (case tf_remove flt s of
       Some (e, left) \<Rightarrow> (put_set_dir s left tree, Inl (StoreIo (''deleting the set: '' @ e)))
     | None \<Rightarrow> remove_sets flt ss (remove_set s tree))"

definition store_delete :: "take_faults \<Rightarrow> string option \<Rightarrow> voice_store \<Rightarrow>
    voice_store \<times> (store_error, string list) result" where
  "store_delete flt which vs =
     (case (case which of
         Some s \<Rightarrow> if set_dir_of (vs_root vs) s = None then Inl (UnknownSet s) else Inr [s]
       | None \<Rightarrow> Inr (set_names (vs_root vs))) of
        Inl e \<Rightarrow> (vs, Inl e)
      | Inr sets \<Rightarrow> (case find (\<lambda>s. vs_held vs s \<noteq> None) sets of
            Some held \<Rightarrow> (vs, Inl (InTraining held))
          | None \<Rightarrow> (case remove_sets flt sets (vs_root vs) of
              (tree, Inl e) \<Rightarrow> (vs\<lparr>vs_root := tree\<rparr>, Inl e)
            | (tree, Inr _) \<Rightarrow> (vs\<lparr>vs_root := tree\<rparr>, Inr sets))))"

section \<open>Holds\<close>

record held =
  hd_takes :: "take_file list"
  hd_sets :: "string list"

fun read_takes_of :: "take_faults \<Rightarrow> (bytes \<Rightarrow> bytes) \<Rightarrow> take_tree \<Rightarrow> take_file list \<Rightarrow>
    (store_error, take_file list) result" where
  "read_takes_of flt sha tree [] = Inr []"
| "read_takes_of flt sha tree (t # ts) =
     (case tf_read flt (tff_set t) (tff_kind t) (tff_name t) of
        Some e \<Rightarrow> Inl (StoreIo (''reading a take: '' @ e))
      | None \<Rightarrow>
          let bs = the (map_of (the (kind_files (tff_set t) (tff_kind t) tree)) (tff_name t)) in
          case read_takes_of flt sha tree ts of
            Inl e \<Rightarrow> Inl e
          | Inr later \<Rightarrow> Inr (t\<lparr>tff_sha256 := hex_of_bytes (sha bs)\<rparr> # later))"

fun read_takes :: "take_faults \<Rightarrow> (bytes \<Rightarrow> bytes) \<Rightarrow> take_tree \<Rightarrow> string list \<Rightarrow> (store_error, take_file list) result" where
  "read_takes flt sha tree [] = Inr []"
| "read_takes flt sha tree (s # ss) =
     (if set_dir_of tree s = None then Inl (UnknownSet s)
      else case takes_of flt tree s of
          Inl e \<Rightarrow> Inl e
        | Inr ts \<Rightarrow> (case read_takes_of flt sha tree ts of
              Inl e \<Rightarrow> Inl e
            | Inr ts \<Rightarrow> (case read_takes flt sha tree ss of Inl e \<Rightarrow> Inl e | Inr later \<Rightarrow> Inr (ts @ later))))"

definition count_hold :: "string \<Rightarrow> (string \<rightharpoonup> nat) \<Rightarrow> (string \<rightharpoonup> nat)" where
  "count_hold s h = h(s \<mapsto> (case h s of None \<Rightarrow> 0 | Some n \<Rightarrow> n) + 1)"

definition store_hold :: "take_faults \<Rightarrow> (bytes \<Rightarrow> bytes) \<Rightarrow> string list \<Rightarrow> voice_store \<Rightarrow>
    voice_store \<times> (store_error, held) result" where
  "store_hold flt sha sets vs = (case read_takes flt sha (vs_root vs) sets of
       Inl e \<Rightarrow> (vs, Inl e)
     | Inr ts \<Rightarrow> (vs\<lparr>vs_held := fold count_hold sets (vs_held vs)\<rparr>, Inr \<lparr>hd_takes = ts, hd_sets = sets\<rparr>))"

text \<open>\<open>Drop for Held\<close>.\<close>

definition release_set :: "string \<Rightarrow> (string \<rightharpoonup> nat) \<Rightarrow> (string \<rightharpoonup> nat)" where
  "release_set s h = (case h s of
       None \<Rightarrow> h | Some n \<Rightarrow> if n - 1 = 0 then h(s := None) else h(s \<mapsto> n - 1))"

definition store_release :: "held \<Rightarrow> voice_store \<Rightarrow> voice_store" where
  "store_release h vs = vs\<lparr>vs_held := fold release_set (hd_sets h) (vs_held vs)\<rparr>"

section \<open>Steps\<close>

text \<open>The store and the trainings' live holds, under any order of uploads, deletes, holds and their ends.\<close>

datatype store_op =
    OpPut take_faults string voice_take bytes
  | OpDelete take_faults "string option"
  | OpHold take_faults "string list"
  | OpRelease held

type_synonym store_world = "voice_store \<times> held list"

fun store_step :: "(nat \<Rightarrow> rat \<Rightarrow> string) \<Rightarrow> (bytes \<Rightarrow> bytes) \<Rightarrow> store_op \<Rightarrow> store_world \<Rightarrow> store_world" where
  "store_step show_secs sha (OpPut flt s t bs) (vs, hs) = (fst (store_put show_secs flt s t bs vs), hs)"
| "store_step show_secs sha (OpDelete flt which) (vs, hs) = (fst (store_delete flt which vs), hs)"
| "store_step show_secs sha (OpHold flt sets) (vs, hs) = (case store_hold flt sha sets vs of
     (vs, Inl _) \<Rightarrow> (vs, hs) | (vs, Inr h) \<Rightarrow> (vs, h # hs))"
| "store_step show_secs sha (OpRelease h) (vs, hs) =
     (if h \<in> set hs then (store_release h vs, remove1 h hs) else (vs, hs))"

definition store_new :: "take_tree \<Rightarrow> voice_store" where
  "store_new tree = \<lparr>vs_root = tree, vs_held = Map.empty\<rparr>"

section \<open>Facts\<close>

lemma map_of_upsert [simp]: "map_of (upsert_entry k v es) = (map_of es)(k \<mapsto> v)"
  by (induction es) auto

lemma set_dir_put [simp]: "set_dir_of (put_set_dir s d tree) i = (if i = s then Some d else set_dir_of tree i)"
  by (auto simp: set_dir_of_def put_set_dir_def split: option.splits)

lemma set_dir_make_root [simp]: "set_dir_of (make_root tree) i = set_dir_of tree i"
  by (auto simp: set_dir_of_def make_root_def split: option.splits)

lemma map_of_filter_key: "i \<noteq> s \<Longrightarrow> map_of (filter (\<lambda>(n, _). n \<noteq> s) es) i = map_of es i"
  by (induction es) auto

lemma set_dir_remove: "i \<noteq> s \<Longrightarrow> set_dir_of (remove_set s tree) i = set_dir_of tree i"
  by (auto simp: set_dir_of_def remove_set_def map_of_filter_key split: option.splits)

lemma remove_sets_other: "i \<notin> set ss \<Longrightarrow> set_dir_of (fst (remove_sets flt ss tree)) i = set_dir_of tree i"
  by (induction ss arbitrary: tree) (auto simp: set_dir_remove split: option.splits)

lemma put_other:
  assumes "vs_held vs i \<noteq> None"
  shows "set_dir_of (vs_root (fst (store_put show_secs flt s t bs vs))) i = set_dir_of (vs_root vs) i"
proof (cases "s = i")
  case True
  then show ?thesis using assms by (auto simp: store_put_def split: sum.splits)
next
  case False
  then show ?thesis
    by (auto simp: store_put_def make_set_def make_kind_def set_kind_files_def Let_def split: sum.splits option.splits prod.splits)
qed

lemma put_held [simp]: "vs_held (fst (store_put show_secs flt s t bs vs)) = vs_held vs"
  by (auto simp: store_put_def Let_def split: sum.splits option.splits prod.splits)

lemma delete_other:
  assumes "vs_held vs i \<noteq> None"
  shows "set_dir_of (vs_root (fst (store_delete flt which vs))) i = set_dir_of (vs_root vs) i"
proof -
  have "i \<notin> set sets" if "find (\<lambda>s. vs_held vs s \<noteq> None) sets = None" for sets
    using that assms by (auto simp: find_none_iff)
  then have "set_dir_of (vs_root (fst (case find (\<lambda>s. vs_held vs s \<noteq> None) sets of
        Some held \<Rightarrow> (vs, Inl (InTraining held))
      | None \<Rightarrow> (case remove_sets flt sets (vs_root vs) of
          (tree, Inl e) \<Rightarrow> (vs\<lparr>vs_root := tree\<rparr>, Inl e)
        | (tree, Inr _) \<Rightarrow> (vs\<lparr>vs_root := tree\<rparr>, Inr sets))))) i = set_dir_of (vs_root vs) i" for sets
    using remove_sets_other [of i sets flt "vs_root vs"]
    by (cases "remove_sets flt sets (vs_root vs)") (auto split: option.splits sum.splits)
  then show ?thesis unfolding store_delete_def by (simp split: sum.split)
qed

lemma delete_held [simp]: "vs_held (fst (store_delete flt which vs)) = vs_held vs"
  by (auto simp: store_delete_def split: sum.splits option.splits prod.splits)

text \<open>What a hold reads depends on its sets' directories only.\<close>

lemma takes_of_cong: "set_dir_of tree s = set_dir_of tree' s \<Longrightarrow> takes_of flt tree s = takes_of flt tree' s"
proof -
  assume eq: "set_dir_of tree s = set_dir_of tree' s"
  have "takes_of_kinds flt tree s ks = takes_of_kinds flt tree' s ks" for ks
    by (induction ks) (simp_all add: kind_files_def eq cong: option.case_cong)
  then show ?thesis by (simp add: takes_of_def)
qed

lemma takes_in_set: "t \<in> set (takes_in s k fs) \<Longrightarrow> tff_set t = s"
  by (auto simp: takes_in_def List.map_filter_def split: option.splits sum.splits)

lemma takes_of_set: "takes_of flt tree s = Inr ts \<Longrightarrow> t \<in> set ts \<Longrightarrow> tff_set t = s"
proof -
  have "takes_of_kinds flt tree s ks = Inr ts \<Longrightarrow> t \<in> set ts \<Longrightarrow> tff_set t = s" for ks ts
    by (induction ks arbitrary: ts) (auto dest: takes_in_set split: option.splits sum.splits)
  then show "takes_of flt tree s = Inr ts \<Longrightarrow> t \<in> set ts \<Longrightarrow> tff_set t = s"
    by (auto simp: takes_of_def split: sum.splits)
qed

lemma read_takes_of_cong:
  assumes "\<forall>t \<in> set ts. set_dir_of tree (tff_set t) = set_dir_of tree' (tff_set t)"
  shows "read_takes_of flt sha tree ts = read_takes_of flt sha tree' ts"
  using assms by (induction ts) (simp_all add: kind_files_def cong: option.case_cong)

lemma read_takes_cong:
  assumes "\<forall>s \<in> set ss. set_dir_of tree s = set_dir_of tree' s"
  shows "read_takes flt sha tree ss = read_takes flt sha tree' ss"
  using assms
proof (induction ss)
  case (Cons s ss)
  then have eq: "set_dir_of tree s = set_dir_of tree' s" and IH: "read_takes flt sha tree ss = read_takes flt sha tree' ss"
    by simp_all
  have "read_takes_of flt sha tree ts = read_takes_of flt sha tree' ts" if "takes_of flt tree' s = Inr ts" for ts
    using takes_of_set [OF that] eq by (intro read_takes_of_cong) auto
  then show ?case using eq IH takes_of_cong [OF eq, of flt] by (simp split: sum.splits)
qed simp

text \<open>A hold that succeeded read what is there.\<close>

lemma takes_of_clean: "takes_of flt tree s = Inr ts \<Longrightarrow> takes_of no_take_faults tree s = Inr ts"
proof -
  have "takes_of_kinds flt tree s ks = Inr ts \<Longrightarrow> takes_of_kinds no_take_faults tree s ks = Inr ts" for ks ts
    by (induction ks arbitrary: ts) (auto simp: no_take_faults_def split: option.splits sum.splits)
  then show "takes_of flt tree s = Inr ts \<Longrightarrow> takes_of no_take_faults tree s = Inr ts"
    by (auto simp: takes_of_def split: sum.splits)
qed

lemma read_takes_of_clean: "read_takes_of flt sha tree ts = Inr us \<Longrightarrow> read_takes_of no_take_faults sha tree ts = Inr us"
  by (induction ts arbitrary: us) (auto simp: no_take_faults_def Let_def split: option.splits sum.splits)

lemma read_takes_clean: "read_takes flt sha tree ss = Inr ts \<Longrightarrow> read_takes no_take_faults sha tree ss = Inr ts"
proof (induction ss arbitrary: ts)
  case (Cons s ss)
  then obtain us vs ws where "set_dir_of tree s \<noteq> None" "takes_of flt tree s = Inr us"
    "read_takes_of flt sha tree us = Inr vs" "read_takes flt sha tree ss = Inr ws" "ts = vs @ ws"
    by (auto split: if_splits sum.splits)
  then show ?case using Cons.IH takes_of_clean read_takes_of_clean by (simp add: takes_of_clean)
qed simp

section \<open>Holds and the disk\<close>

definition hold_count :: "held list \<Rightarrow> string \<Rightarrow> nat" where
  "hold_count hs s = sum_list (map (\<lambda>h. count_list (hd_sets h) s) hs)"

definition count_in :: "(string \<rightharpoonup> nat) \<Rightarrow> string \<Rightarrow> nat" where
  "count_in h s = (case h s of None \<Rightarrow> 0 | Some n \<Rightarrow> n)"

definition no_zero :: "(string \<rightharpoonup> nat) \<Rightarrow> bool" where
  "no_zero h = (\<forall>s. h s \<noteq> Some 0)"

lemma no_zero_held: "no_zero h \<Longrightarrow> h s = None \<longleftrightarrow> count_in h s = 0"
proof (cases "h s")
  case (Some n)
  moreover assume "no_zero h"
  ultimately have "n \<noteq> 0" by (metis no_zero_def)
  with Some show ?thesis by (simp add: count_in_def)
qed (simp add: count_in_def)

lemma count_hold_fold:
  "no_zero h \<Longrightarrow> no_zero (fold count_hold ss h) \<and> (\<forall>s. count_in (fold count_hold ss h) s = count_in h s + count_list ss s)"
proof (induction ss arbitrary: h)
  case (Cons a ss)
  have "no_zero (count_hold a h)" using Cons.prems by (auto simp: no_zero_def count_hold_def)
  moreover have "count_in (count_hold a h) s = count_in h s + (if a = s then 1 else 0)" for s
    by (simp add: count_in_def count_hold_def)
  ultimately show ?case using Cons.IH [of "count_hold a h"] by simp
qed simp

lemma release_fold:
  "no_zero h \<Longrightarrow> no_zero (fold release_set ss h) \<and> (\<forall>s. count_in (fold release_set ss h) s = count_in h s - count_list ss s)"
proof (induction ss arbitrary: h)
  case (Cons a ss)
  have "no_zero (release_set a h)" using Cons.prems by (auto simp: no_zero_def release_set_def split: option.splits)
  moreover have "count_in (release_set a h) s = count_in h s - (if a = s then 1 else 0)" for s
    by (auto simp: count_in_def release_set_def split: option.splits)
  ultimately show ?case using Cons.IH [of "release_set a h"] by simp
qed simp

lemma hold_count_remove: "h \<in> set hs \<Longrightarrow> hold_count hs s = hold_count (remove1 h hs) s + count_list (hd_sets h) s"
  by (induction hs) (auto simp: hold_count_def)

lemma hold_count_held: "h \<in> set hs \<Longrightarrow> s \<in> set (hd_sets h) \<Longrightarrow> 0 < hold_count hs s"
  using hold_count_remove [of h hs s] count_list_0_iff [of "hd_sets h" s] by linarith

text \<open>Every live hold is counted, and reads the same takes as when it was taken.\<close>

definition holds_ok :: "(bytes \<Rightarrow> bytes) \<Rightarrow> store_world \<Rightarrow> bool" where
  "holds_ok sha w = (case w of (vs, hs) \<Rightarrow> no_zero (vs_held vs) \<and>
     (\<forall>s. count_in (vs_held vs) s = hold_count hs s) \<and>
     (\<forall>h \<in> set hs. read_takes no_take_faults sha (vs_root vs) (hd_sets h) = Inr (hd_takes h)))"

lemma holds_ok_disk:
  assumes "holds_ok sha (vs, hs)" and held: "vs_held vs' = vs_held vs"
    and disk: "\<And>s. vs_held vs s \<noteq> None \<Longrightarrow> set_dir_of (vs_root vs') s = set_dir_of (vs_root vs) s"
  shows "holds_ok sha (vs', hs)"
proof -
  have ok: "no_zero (vs_held vs)" "\<And>s. count_in (vs_held vs) s = hold_count hs s"
    "\<And>h. h \<in> set hs \<Longrightarrow> read_takes no_take_faults sha (vs_root vs) (hd_sets h) = Inr (hd_takes h)"
    using assms(1) by (simp_all add: holds_ok_def)
  have "read_takes no_take_faults sha (vs_root vs') (hd_sets h) = Inr (hd_takes h)" if h: "h \<in> set hs" for h
  proof -
    have "vs_held vs s \<noteq> None" if "s \<in> set (hd_sets h)" for s
      using hold_count_held [OF h that] no_zero_held [OF ok(1)] ok(2) by simp
    then show ?thesis
      using read_takes_cong [of "hd_sets h" "vs_root vs'" "vs_root vs"] disk ok(3) [OF h] by simp
  qed
  then show ?thesis using ok held by (simp add: holds_ok_def)
qed

lemma store_step_ok: "holds_ok sha w \<Longrightarrow> holds_ok sha (store_step show_secs sha p w)"
proof (cases w)
  case (Pair vs hs)
  assume ok: "holds_ok sha w"
  show ?thesis
  proof (cases p)
    case (OpPut flt s t bs)
    then show ?thesis using ok put_other unfolding Pair by (auto intro!: holds_ok_disk [of sha vs hs])
  next
    case (OpDelete flt which)
    then show ?thesis using ok delete_other unfolding Pair by (auto intro!: holds_ok_disk [of sha vs hs])
  next
    case (OpHold flt sets)
    show ?thesis
    proof (cases "read_takes flt sha (vs_root vs) sets")
      case (Inl e)
      then show ?thesis using ok OpHold Pair by (simp add: store_hold_def)
    next
      case (Inr ts)
      then show ?thesis using ok OpHold Pair read_takes_clean [OF Inr] count_hold_fold [of "vs_held vs" sets]
        by (auto simp: store_hold_def holds_ok_def hold_count_def)
    qed
  next
    case (OpRelease h)
    then show ?thesis using ok Pair release_fold [of "vs_held vs" "hd_sets h"] hold_count_remove [of h hs]
      by (auto simp: store_release_def holds_ok_def dest: notin_set_remove1)
  qed
qed

interpretation take_store: op_invariant "store_step show_secs sha" "\<lambda>_. True" "holds_ok sha" for show_secs sha
  by unfold_locales (rule store_step_ok)

text \<open>C24: a training's takes stay as it read them.  Whatever uploads, deletes, other holds and failures of the
  disk come between, in any order, as long as a hold lives its sets still read as the very takes it was
  given, hashes included; and a set is refused to uploads and deletes exactly while some live hold names it.\<close>

theorem held_takes_stay:
  assumes "fold (store_step show_secs sha) ps (store_new tree, []) = (vs, hs)"
  shows "(\<forall>h \<in> set hs. read_takes no_take_faults sha (vs_root vs) (hd_sets h) = Inr (hd_takes h)) \<and>
    (\<forall>s. vs_held vs s \<noteq> None \<longleftrightarrow> (\<exists>h \<in> set hs. s \<in> set (hd_sets h)))"
proof -
  have "holds_ok sha (store_new tree, [])"
    by (simp add: holds_ok_def store_new_def no_zero_def count_in_def hold_count_def)
  then have ok: "holds_ok sha (vs, hs)"
    using take_store.run_keeps [of ps sha "(store_new tree, [])" show_secs] assms by (simp add: list_all_iff)
  then have "vs_held vs s = None \<longleftrightarrow> hold_count hs s = 0" for s
    using no_zero_held [of "vs_held vs" s] by (simp add: holds_ok_def)
  moreover have "hold_count hs s = 0 \<longleftrightarrow> (\<forall>h \<in> set hs. s \<notin> set (hd_sets h))" for s
    by (auto simp: hold_count_def count_list_0_iff)
  ultimately show ?thesis using ok by (auto simp: holds_ok_def)
qed

definition sample_tree :: take_tree where
  "sample_tree = Some [(''s1'', (\<lambda>k. if k = Positive then Some [(''002.wav'', [7]), (''junk'', []), (''001.wav'', [9])] else None))]"

theorem held_takes_stay_witness:
  "\<exists>vs h. fold (store_step (\<lambda>_ _. []) id) [OpHold no_take_faults [''s1''], OpDelete no_take_faults None]
      (store_new sample_tree, []) = (vs, [h]) \<and> map tff_name (hd_takes h) = [''001.wav'', ''002.wav''] \<and>
    read_takes no_take_faults id (vs_root vs) [''s1''] = Inr (hd_takes h)"
proof -
  let ?d = "\<lambda>k. if k = Positive then Some [(''002.wav'', [7 :: 8 word]), (''junk'', []), (''001.wav'', [9])] else None"
  let ?w = "fold (store_step (\<lambda>_ _. []) id) [OpHold no_take_faults [''s1''], OpDelete no_take_faults None] (store_new sample_tree, [])"
  have dir: "set_dir_of sample_tree ''s1'' = Some ?d" by (simp add: set_dir_of_def sample_tree_def)
  have takes: "parse_take id Positive ''002'' = Inr \<lparr>tk_kind = Positive, tk_number = 2, tk_phrase = None\<rparr>"
    "parse_take id Positive ''001'' = Inr \<lparr>tk_kind = Positive, tk_number = 1, tk_phrase = None\<rparr>"
    by (simp_all add: name_eval)
  have "strip_suffix ''.wav'' ''002.wav'' = Some ''002''" "strip_suffix ''.wav'' ''junk'' = None"
    "strip_suffix ''.wav'' ''001.wav'' = Some ''001''" by (simp_all add: strip_suffix_def ends_with_def)
  then have "\<exists>a b. takes_of no_take_faults sample_tree ''s1'' = Inr [a, b] \<and> tff_name a = ''001.wav'' \<and> tff_name b = ''002.wav''"
    by (simp add: takes_of_def take_kind_all_def kind_files_def dir takes_in_def takes no_take_faults_def List.map_filter_simps)
  then obtain a b where ab: "takes_of no_take_faults sample_tree ''s1'' = Inr [a, b]"
    "tff_name a = ''001.wav''" "tff_name b = ''002.wav''" by blast
  then obtain ts where ts: "read_takes no_take_faults id sample_tree [''s1''] = Inr ts" "map tff_name ts = [''001.wav'', ''002.wav'']"
    by (simp add: dir no_take_faults_def Let_def)
  have "set_names sample_tree = [''s1'']" by (simp add: set_names_def sample_tree_def name_eval)
  then have run: "\<exists>vs. ?w = (vs, [\<lparr>hd_takes = ts, hd_sets = [''s1'']\<rparr>])"
    using ts(1) by (simp add: store_hold_def store_new_def store_delete_def count_hold_def)
  then obtain vs where w: "?w = (vs, [\<lparr>hd_takes = ts, hd_sets = [''s1'']\<rparr>])" by blast
  from held_takes_stay [OF w] ts(2) show ?thesis unfolding w by simp
qed

end
