(* ===== verification/VoiceUpload.thy ===== *)
theory VoiceUpload
  imports VoiceStore SttServer
begin

text \<open>
  \<^verbatim>\<open>src/src/voice_samples/upload.rs\<close>: takes that arrive over the LAN listener, and (from
  \<^verbatim>\<open>stt_stream/server.rs\<close>) how the listener tells them from streams.  What the client sends is a
  list of reads that ends when it closes; the printers are arguments.
\<close>

section \<open>The request head\<close>

definition MAX_HEAD_BYTES :: nat where "MAX_HEAD_BYTES = 16 * 1024"

record http_head =
  hh_method :: string
  hh_path :: string
  hh_query :: "string option"
  hh_headers :: "(string \<times> string) list"

definition head_header :: "http_head \<Rightarrow> string \<Rightarrow> string option" where
  "head_header h name = map_option snd (find (\<lambda>(n, _). n = name) (hh_headers h))"

definition head_bearer :: "http_head \<Rightarrow> string option" where
  "head_bearer h = Option.bind (head_header h ''authorization'') bearer_of"

text \<open>\<open>str::from_utf8\<close>.\<close>

definition cont_byte :: "nat \<Rightarrow> nat \<Rightarrow> 8 word \<Rightarrow> bool" where
  "cont_byte lo hi b = (lo \<le> unat b \<and> unat b \<le> hi)"

fun utf8_valid :: "bytes \<Rightarrow> bool" where
  "utf8_valid [] = True"
| "utf8_valid (a # bs) =
     (if unat a < 128 then utf8_valid bs
      else if cont_byte 0xC2 0xDF a then
        (case bs of b # bs \<Rightarrow> cont_byte 0x80 0xBF b \<and> utf8_valid bs | _ \<Rightarrow> False)
      else if cont_byte 0xE0 0xEF a then
        (case bs of b # c # bs \<Rightarrow>
           cont_byte (if a = 0xE0 then 0xA0 else 0x80) (if a = 0xED then 0x9F else 0xBF) b \<and>
           cont_byte 0x80 0xBF c \<and> utf8_valid bs
         | _ \<Rightarrow> False)
      else if cont_byte 0xF0 0xF4 a then
        (case bs of b # c # d # bs \<Rightarrow>
           cont_byte (if a = 0xF0 then 0x90 else 0x80) (if a = 0xF4 then 0x8F else 0xBF) b \<and>
           cont_byte 0x80 0xBF c \<and> cont_byte 0x80 0xBF d \<and> utf8_valid bs
         | _ \<Rightarrow> False)
      else False)"

definition text_of :: "bytes \<Rightarrow> string" where
  "text_of bs = map (\<lambda>b. char_of (unat b)) bs"

text \<open>\<open>split\<close> on a carriage return and a line feed.\<close>

fun split_crlf :: "string \<Rightarrow> string list" where
  "split_crlf (a # b # s) =
     (if a = CHR 0x0D \<and> b = CHR 0x0A then [] # split_crlf s
      else (case split_crlf (b # s) of [] \<Rightarrow> [[a]] | p # ps \<Rightarrow> (a # p) # ps))"
| "split_crlf s = [s]"

fun parse_headers :: "(string \<Rightarrow> string) \<Rightarrow> string list \<Rightarrow> (string, (string \<times> string) list) result" where
  "parse_headers debug [] = Inr []"
| "parse_headers debug (l # ls) = (case split_once CHR '':'' l of
       None \<Rightarrow> Inl (''not a header: '' @ debug l)
     | Some (name, v) \<Rightarrow> (case parse_headers debug ls of
         Inl e \<Rightarrow> Inl e
       | Inr hs \<Rightarrow> Inr ((to_ascii_lowercase (trim name), trim v) # hs)))"

definition parse_head :: "(string \<Rightarrow> string) \<Rightarrow> bytes \<Rightarrow> (string, http_head) result" where
  "parse_head debug bs =
     (if \<not> utf8_valid bs then Inl ''the request head is not UTF-8''
      else let lines = split_crlf (text_of bs); line = hd lines in
        case split_on CHR '' '' line of
          [meth, target, version] \<Rightarrow>
            (if \<not> starts_with version ''HTTP/1.'' then Inl (''not HTTP/1.x: '' @ debug version)
             else let (p, q) = (case split_once CHR ''?'' target of
                      Some (p, q) \<Rightarrow> (p, Some q) | None \<Rightarrow> (target, None)) in
               case parse_headers debug (filter (\<lambda>l. l \<noteq> []) (tl lines)) of
                 Inl e \<Rightarrow> Inl e
               | Inr hs \<Rightarrow> Inr \<lparr>hh_method = meth, hh_path = p, hh_query = q, hh_headers = hs\<rparr>)
        | _ \<Rightarrow> Inl (''not a request line: '' @ debug line))"

text \<open>The first blank line.\<close>

fun head_end :: "bytes \<Rightarrow> nat option" where
  "head_end (a # bs) = (if take 4 (a # bs) = [13, 10, 13, 10] then Some 0 else map_option Suc (head_end bs))"
| "head_end [] = None"

record read_head =
  rh_head :: http_head
  rh_consumed :: bytes
  rh_body_start :: nat

text \<open>Reads until a blank line; an empty read is the end of the stream.  Answers what is left to read too.\<close>

fun read_head_from :: "(string \<Rightarrow> string) \<Rightarrow> bytes \<Rightarrow> bytes list \<Rightarrow> (string, read_head \<times> bytes list) result" where
  "read_head_from debug buffer reads = (case head_end buffer of
       Some n \<Rightarrow> (case parse_head debug (take n buffer) of
           Inl e \<Rightarrow> Inl e
         | Inr h \<Rightarrow> Inr (\<lparr>rh_head = h, rh_consumed = buffer, rh_body_start = n + 4\<rparr>, reads))
     | None \<Rightarrow>
         if MAX_HEAD_BYTES < length buffer then Inl ''the request head is too long''
         else (case reads of
             [] \<Rightarrow> Inl ''unexpected end of file''
           | r # rs \<Rightarrow> if r = [] then Inl ''unexpected end of file'' else read_head_from debug (buffer @ r) rs))"

declare read_head_from.simps [simp del]

section \<open>Answers\<close>

definition VOICE_PATH :: string where "VOICE_PATH = ''/voice-samples''"

definition is_upload_path :: "string \<Rightarrow> bool" where
  "is_upload_path p = (p = VOICE_PATH \<or> starts_with p ''/voice-samples/'')"

definition refusal :: "nat \<Rightarrow> string \<Rightarrow> string \<Rightarrow> nat \<times> json" where
  "refusal status err msg = (status, JObj [(''error'', JStr err), (''message'', JStr msg)])"

text \<open>\<open>str::replace\<close> of the one occurrence the rejections have.\<close>

definition recording_rejection :: "token_rejection \<Rightarrow> string" where
  "recording_rejection r = (case r of
       UnknownToken \<Rightarrow> ''unknown recording token'' | ExpiredToken \<Rightarrow> ''recording token expired'')"

definition content_length :: "http_head \<Rightarrow> nat option" where
  "content_length h = Option.bind (head_header h ''content-length'') (parse_uint 64)"

record upload_env =
  ue_debug :: "string \<Rightarrow> string"
  ue_secs :: "nat \<Rightarrow> rat \<Rightarrow> string"
  ue_json_num :: "rat \<Rightarrow> string"
  ue_sha256 :: hasher
  ue_now :: instant
  ue_faults :: take_faults

definition precheck :: "upload_env \<Rightarrow> http_head \<Rightarrow> stream_tokens \<Rightarrow> voice_store option \<Rightarrow> (nat \<times> json, nat) result" where
  "precheck v h tokens store =
     (if hh_method h \<noteq> ''PUT'' then Inl (refusal 405 ''method_not_allowed'' ''upload a take with PUT'')
      else case map_option (\<lambda>t. token_check (ue_sha256 v) t (ue_now v) tokens) (head_bearer h) of
        Some (Inl rejection) \<Rightarrow> Inl (refusal 401 ''unauthorized'' (recording_rejection rejection))
      | None \<Rightarrow> Inl (refusal 401 ''unauthorized'' ''missing recording token; send Authorization: Bearer <token>'')
      | Some (Inr _) \<Rightarrow>
          if store = None then Inl (refusal 503 ''voice_samples_unavailable'' ''this worker keeps no takes'')
          else case parse_path (ue_debug v) (hh_path h) of
            Inl e \<Rightarrow> Inl (refusal 400 ''bad_name'' e)
          | Inr _ \<Rightarrow>
              if (case head_header h ''transfer-encoding'' of
                    Some e \<Rightarrow> \<not> eq_ignore_ascii_case e ''identity'' | None \<Rightarrow> False)
              then Inl (refusal 411 ''length_required'' ''send Content-Length; chunked bodies are refused'')
              else case content_length h of
                None \<Rightarrow> Inl (refusal 411 ''length_required'' ''send Content-Length'')
              | Some n \<Rightarrow>
                  if MAX_TAKE_BYTES < n
                  then Inl (refusal 413 ''too_large'' (show_nat n @ '' bytes is over the '' @
                    show_nat MAX_TAKE_BYTES @ '' a take may be''))
                  else Inr n)"

text \<open>\<open>None\<close>: the \<open>expect\<close> of a name that \<open>precheck\<close> has read fails.\<close>

definition store_take :: "upload_env \<Rightarrow> http_head \<Rightarrow> voice_store \<Rightarrow> bytes \<Rightarrow> voice_store \<times> (nat \<times> json) option" where
  "store_take v h vs body = (case parse_path (ue_debug v) (hh_path h) of
       Inl _ \<Rightarrow> (vs, None)
     | Inr (s, t) \<Rightarrow> (case store_put (ue_secs v) (ue_faults v) s t body vs of
           (vs, Inr ok) \<Rightarrow> (vs, Some (if sd_created ok then 201 else 200,
             JObj [(''set'', JStr s), (''kind'', JStr (take_kind_str (tk_kind t))), (''take'', JStr (stem t)),
               (''number'', JNum (show_nat (tk_number t))),
               (''phrase'', case tk_phrase t of None \<Rightarrow> JNull | Some p \<Rightarrow> JStr p),
               (''seconds'', JNum (ue_json_num v (sd_seconds ok))), (''bytes'', JNum (show_nat (sd_bytes ok))),
               (''created'', JBool (sd_created ok))]))
         | (vs, Inl (BadWav why)) \<Rightarrow> (vs, Some (refusal 400 ''bad_wav'' why))
         | (vs, Inl (InTraining held)) \<Rightarrow> (vs, Some (refusal 409 ''set_in_training''
             (''a training holds set '' @ held @ ''; upload once it ends'')))
         | (vs, Inl e) \<Rightarrow> (vs, Some (refusal 500 ''not_stored'' (store_error_text e)))))"

text \<open>\<open>serve\<close>, with the bytes the client still sends before it closes: whether it was told to continue, and
  the answer.\<close>

datatype upload_reply = BrokeOff | Panicked | Replied bool "nat \<times> json"

definition serve_upload :: "upload_env \<Rightarrow> http_head \<Rightarrow> bytes \<Rightarrow> bytes \<Rightarrow> stream_tokens \<Rightarrow> voice_store option \<Rightarrow>
    voice_store option \<times> upload_reply" where
  "serve_upload v h already inner tokens store = (case precheck v h tokens store of
       Inl answer \<Rightarrow> (store, Replied False answer)
     | Inr n \<Rightarrow>
         let goes_on = (case head_header h ''expect'' of
               Some e \<Rightarrow> eq_ignore_ascii_case e ''100-continue'' | None \<Rightarrow> False);
             body = take n already; missing = n - length body in
         if length inner < missing then (store, BrokeOff)
         else (case store_take v h (the store) (body @ take missing inner) of
             (vs, None) \<Rightarrow> (Some vs, Panicked) | (vs, Some answer) \<Rightarrow> (Some vs, Replied goes_on answer)))"

text \<open>The listener's \<open>session\<close>, once TLS is up: an upload is answered here, anything else goes on to the
  WebSocket handshake, which reads the same bytes again.\<close>

datatype listener_turn = HeadRefused string | Upload upload_reply | ToWebSocket bytes

definition listener_session :: "upload_env \<Rightarrow> bytes list \<Rightarrow> stream_tokens \<Rightarrow> voice_store option \<Rightarrow>
    voice_store option \<times> listener_turn" where
  "listener_session v reads tokens store = (case read_head_from (ue_debug v) [] reads of
       Inl e \<Rightarrow> (store, HeadRefused e)
     | Inr (rh, left) \<Rightarrow>
         if is_upload_path (hh_path (rh_head rh))
         then (case serve_upload v (rh_head rh) (drop (rh_body_start rh) (rh_consumed rh)) (concat left) tokens store of
             (store, reply) \<Rightarrow> (store, Upload reply))
         else (store, ToWebSocket (rh_consumed rh @ concat left)))"

section \<open>Facts\<close>

lemma head_end_append: "head_end b = Some n \<Longrightarrow> head_end (b @ r) = Some n \<and> n + 4 \<le> length b"
proof (induction b arbitrary: n)
  case (Cons a bs)
  show ?case
  proof (cases "take 4 (a # bs) = [13, 10, 13, 10]")
    case True
    then have "length (take 4 (a # bs)) = 4" by simp
    then have len: "4 \<le> length (a # bs)" by simp
    then have "take 4 (a # bs @ r) = take 4 (a # bs)" by (simp add: take_Cons')
    then show ?thesis using Cons.prems True len by simp
  next
    case False
    then obtain m where m: "head_end bs = Some m" "n = Suc m" using Cons.prems by (auto split: if_splits)
    then have IH: "head_end (bs @ r) = Some m" "m + 4 \<le> length bs" using Cons.IH by simp_all
    then have "take 4 (a # bs @ r) = take 4 (a # bs)" by (simp add: take_Cons')
    then show ?thesis using False IH m by simp
  qed
qed simp

text \<open>The head is that of the whole stream, and no byte of the stream is lost, however it was cut.\<close>

lemma read_head_stream:
  assumes "read_head_from debug buf reads = Inr (rh, left)"
  shows "\<exists>n. head_end (buf @ concat reads) = Some n \<and>
    parse_head debug (take n (buf @ concat reads)) = Inr (rh_head rh) \<and>
    rh_consumed rh @ concat left = buf @ concat reads \<and> rh_body_start rh = n + 4 \<and> n + 4 \<le> length (rh_consumed rh)"
  using assms
proof (induction reads arbitrary: buf)
  case Nil
  then show ?case using head_end_append [of buf]
    by (subst (asm) read_head_from.simps) (auto split: option.splits sum.splits if_splits)
next
  case (Cons r rs)
  show ?case
  proof (cases "head_end buf")
    case None
    then have "read_head_from debug (buf @ r) rs = Inr (rh, left)"
      using Cons.prems by (subst (asm) read_head_from.simps) (auto split: if_splits)
    from Cons.IH [OF this] show ?thesis by simp
  next
    case (Some n)
    then show ?thesis using Cons.prems head_end_append [OF Some, of "concat (r # rs)"]
      by (subst (asm) read_head_from.simps) (auto split: sum.splits)
  qed
qed

lemma serve_upload_split: "serve_upload v h a i tokens store = serve_upload v h [] (a @ i) tokens store"
proof -
  have "take n a @ take (n - length (take n a)) i = take n (a @ i)" for n
    by (cases "length a \<le> n") (simp_all add: min_def)
  moreover have "length i < n - length (take n a) \<longleftrightarrow> length (a @ i) < n" for n by auto
  ultimately show ?thesis
    by (cases "precheck v h tokens store") (simp_all add: serve_upload_def Let_def del: length_take)
qed

text \<open>The takes on disk: the files named \<open>.wav\<close>.\<close>

definition takes_on_disk :: "take_tree \<Rightarrow> (string \<times> take_kind \<times> string) \<rightharpoonup> bytes" where
  "takes_on_disk tree = (\<lambda>(s, k, n). if ends_with n ''.wav''
     then Option.bind (kind_files s k tree) (\<lambda>fs. map_of fs n) else None)"

lemma kind_files_make_root [simp]: "kind_files i k (make_root tree) = kind_files i k tree"
  by (simp add: kind_files_def)

lemma kind_files_make_set [simp]: "kind_files i k (make_set s tree) = kind_files i k tree"
  by (auto simp: kind_files_def make_set_def split: option.splits)

lemma set_dir_make_set: "set_dir_of (make_set s tree) s \<noteq> None"
  by (simp add: make_set_def)

lemma kind_files_make_kind:
  "set_dir_of tree s \<noteq> None \<Longrightarrow> kind_files i k' (make_kind s k tree) =
    (if i = s \<and> k' = k then Some (case kind_files s k tree of None \<Rightarrow> [] | Some fs \<Rightarrow> fs) else kind_files i k' tree)"
  by (auto simp: kind_files_def make_kind_def Let_def)

lemma kind_files_set:
  "set_dir_of tree s \<noteq> None \<Longrightarrow> kind_files i k' (set_kind_files s k fs tree) =
    (if i = s \<and> k' = k then Some fs else kind_files i k' tree)"
  by (auto simp: kind_files_def set_kind_files_def)

lemma disk_make_root [simp]: "takes_on_disk (make_root tree) = takes_on_disk tree"
  by (simp add: takes_on_disk_def fun_eq_iff)

lemma disk_make_set [simp]: "takes_on_disk (make_set s tree) = takes_on_disk tree"
  by (simp add: takes_on_disk_def fun_eq_iff)

lemma disk_make_kind: "set_dir_of tree s \<noteq> None \<Longrightarrow> takes_on_disk (make_kind s k tree) = takes_on_disk tree"
  by (auto simp: takes_on_disk_def kind_files_make_kind fun_eq_iff split: option.splits)

lemma partial_not_wav: "\<not> ends_with (n @ ''.partial'') ''.wav''"
proof
  assume "ends_with (n @ ''.partial'') ''.wav''"
  then have "drop (length n + 4) (n @ ''.partial'') = ''.wav''" by (simp add: ends_with_def)
  then show False by simp
qed

lemma wav_is_wav [simp]: "ends_with (n @ ''.wav'') ''.wav''"
  by (simp add: ends_with_def)

lemma disk_write:
  assumes "set_dir_of tree s \<noteq> None" "kind_files s k tree = Some fs"
  shows "case private_write flt name bs fs of
      (fs', Inl _) \<Rightarrow> takes_on_disk (set_kind_files s k fs' tree) = takes_on_disk tree
    | (fs', Inr _) \<Rightarrow> takes_on_disk (set_kind_files s k fs' tree) = (takes_on_disk tree)((s, k, name @ ''.wav'') \<mapsto> bs)"
proof -
  have "n \<noteq> name @ ''.partial''" if "ends_with n ''.wav''" for n using that partial_not_wav by blast
  then show ?thesis using assms
    by (auto simp: private_write_def Let_def takes_on_disk_def kind_files_set fun_eq_iff map_of_filter_key split: option.splits)
qed

lemma store_put_disk:
  "case store_put show_secs flt s t bs vs of
     (vs', Inl _) \<Rightarrow> takes_on_disk (vs_root vs') = takes_on_disk (vs_root vs)
   | (vs', Inr ok) \<Rightarrow> check_wav show_secs bs = Inr (sd_seconds ok) \<and> vs_held vs s = None \<and>
       takes_on_disk (vs_root vs') = (takes_on_disk (vs_root vs))((s, tk_kind t, stem t @ ''.wav'') \<mapsto> bs)"
proof -
  let ?tree = "make_kind s (tk_kind t) (make_set s (make_root (vs_root vs)))"
  have dir: "set_dir_of (make_set s (make_root (vs_root vs))) s \<noteq> None" by (rule set_dir_make_set)
  obtain fs where files: "kind_files s (tk_kind t) ?tree = Some fs"
    using kind_files_make_kind [OF dir, of s "tk_kind t" "tk_kind t"] by simp
  have there: "set_dir_of ?tree s \<noteq> None" by (simp add: make_kind_def Let_def)
  have same: "takes_on_disk ?tree = takes_on_disk (vs_root vs)" using disk_make_kind [OF dir] by simp
  have kept: "takes_on_disk (vs_root vs) = (takes_on_disk (vs_root vs))((s, tk_kind t, stem t @ ''.wav'') \<mapsto> bs)"
    if "map_of fs (stem t @ ''.wav'') = Some bs"
  proof -
    have "takes_on_disk ?tree (s, tk_kind t, stem t @ ''.wav'') = Some bs"
      using that by (simp add: takes_on_disk_def files)
    then have "takes_on_disk (vs_root vs) (s, tk_kind t, stem t @ ''.wav'') = Some bs"
      unfolding same .
    then show ?thesis by (rule fun_upd_idem [symmetric])
  qed
  show ?thesis
    using disk_write [OF there files, where flt = flt and name = "stem t" and bs = bs] same kept
    by (auto simp: store_put_def Let_def files split: sum.splits option.splits prod.splits if_splits)
qed

lemma precheck_ok:
  assumes "precheck v h tokens (Some vs) = Inr len"
  shows "\<exists>s t token model. hh_method h = ''PUT'' \<and> head_bearer h = Some token \<and>
    token_check (ue_sha256 v) token (ue_now v) tokens = Inr model \<and>
    parse_path (ue_debug v) (hh_path h) = Inr (s, t) \<and> content_length h = Some len \<and> len \<le> 1048576"
  using assms by (auto simp: precheck_def MAX_TAKE_BYTES_def split: if_splits option.splits sum.splits)

lemma refused_status: "precheck v h tokens store = Inl (status, j) \<Longrightarrow> status \<noteq> 200 \<and> status \<noteq> 201"
  by (auto simp: precheck_def refusal_def split: if_splits option.splits sum.splits)

lemma store_take_disk:
  assumes path: "parse_path (ue_debug v) (hh_path h) = Inr (s, t)" and run: "store_take v h vs body = (vs', reply)"
  shows "case reply of None \<Rightarrow> False | Some (status, j) \<Rightarrow>
     if status = 200 \<or> status = 201
     then vs_held vs s = None \<and> (\<exists>secs. check_wav (ue_secs v) body = Inr secs) \<and>
       takes_on_disk (vs_root vs') = (takes_on_disk (vs_root vs))((s, tk_kind t, stem t @ ''.wav'') \<mapsto> body)
     else takes_on_disk (vs_root vs') = takes_on_disk (vs_root vs)"
  using store_put_disk [where show_secs = "ue_secs v" and flt = "ue_faults v" and s = s and t = t and bs = body and vs = vs] run path
  by (auto simp: store_take_def refusal_def split: prod.splits sum.splits store_error.splits)

lemma serve_disk:
  assumes "serve_upload v h [] inner tokens (Some vs) = (Some vs', reply)"
  shows "case reply of
      Replied c (status, j) \<Rightarrow>
        if status = 200 \<or> status = 201
        then \<exists>len s t token model secs. hh_method h = ''PUT'' \<and> head_bearer h = Some token \<and>
          token_check (ue_sha256 v) token (ue_now v) tokens = Inr model \<and>
          parse_path (ue_debug v) (hh_path h) = Inr (s, t) \<and> vs_held vs s = None \<and>
          content_length h = Some len \<and> len \<le> 1048576 \<and> len \<le> length inner \<and>
          check_wav (ue_secs v) (take len inner) = Inr secs \<and>
          takes_on_disk (vs_root vs') = (takes_on_disk (vs_root vs))((s, tk_kind t, stem t @ ''.wav'') \<mapsto> take len inner)
        else takes_on_disk (vs_root vs') = takes_on_disk (vs_root vs)
    | Panicked \<Rightarrow> False
    | BrokeOff \<Rightarrow> takes_on_disk (vs_root vs') = takes_on_disk (vs_root vs)"
proof (cases "precheck v h tokens (Some vs)")
  case (Inl answer)
  then show ?thesis using assms refused_status by (cases answer) (auto simp: serve_upload_def)
next
  case (Inr len)
  from precheck_ok [OF Inr] obtain s t token model where ok: "hh_method h = ''PUT''" "head_bearer h = Some token"
    "token_check (ue_sha256 v) token (ue_now v) tokens = Inr model"
    "parse_path (ue_debug v) (hh_path h) = Inr (s, t)" "content_length h = Some len" "len \<le> 1048576" by blast
  show ?thesis
  proof (cases "length inner < len")
    case True
    then show ?thesis using assms Inr by (auto simp: serve_upload_def)
  next
    case False
    obtain vs2 r where run: "store_take v h vs (take len inner) = (vs2, r)" by (cases "store_take v h vs (take len inner)")
    from store_take_disk [OF ok(4) run] obtain status j where r: "r = Some (status, j)" by (auto split: option.splits)
    have "vs2 = vs'" "\<exists>c. reply = Replied c (status, j)"
      using assms Inr False run r by (auto simp: serve_upload_def Let_def)
    then show ?thesis using store_take_disk [OF ok(4) run] r ok False by (auto simp del: fun_upd_apply)
  qed
qed

text \<open>C23: an upload is all or nothing, however the client cuts what it sends.  Answered 200 or 201, the disk has the
  take named by the path, and it holds exactly the bytes after the head, as many as the request announced,
  which are a valid take of an allowed length; the token was live, the set not in training, and no other
  take changed.  Any other end (a refusal, a failed write, a client that leaves early, a request that is
  no upload) leaves every take as it was, and no path panics.\<close>

theorem upload_stores_the_body_or_nothing:
  assumes "listener_session v reads tokens (Some vs) = (Some vs', turn)"
  shows "case turn of
      Upload (Replied c (status, j)) \<Rightarrow>
        if status = 200 \<or> status = 201
        then \<exists>h n len s t token model secs. head_end (concat reads) = Some n \<and>
          parse_head (ue_debug v) (take n (concat reads)) = Inr h \<and> hh_method h = ''PUT'' \<and>
          head_bearer h = Some token \<and> token_check (ue_sha256 v) token (ue_now v) tokens = Inr model \<and>
          parse_path (ue_debug v) (hh_path h) = Inr (s, t) \<and> vs_held vs s = None \<and>
          content_length h = Some len \<and> len \<le> 1048576 \<and> n + 4 + len \<le> length (concat reads) \<and>
          check_wav (ue_secs v) (take len (drop (n + 4) (concat reads))) = Inr secs \<and>
          takes_on_disk (vs_root vs') =
            (takes_on_disk (vs_root vs))((s, tk_kind t, stem t @ ''.wav'') \<mapsto> take len (drop (n + 4) (concat reads)))
        else takes_on_disk (vs_root vs') = takes_on_disk (vs_root vs)
    | Upload Panicked \<Rightarrow> False
    | _ \<Rightarrow> takes_on_disk (vs_root vs') = takes_on_disk (vs_root vs)"
proof -
  show ?thesis
  proof (cases "read_head_from (ue_debug v) [] reads")
    case (Inl e)
    then show ?thesis using assms by (auto simp: listener_session_def)
  next
    case (Inr a)
    then obtain rh left where head: "read_head_from (ue_debug v) [] reads = Inr (rh, left)" by (cases a) auto
    from read_head_stream [OF head] obtain n where n: "head_end (concat reads) = Some n"
      "parse_head (ue_debug v) (take n (concat reads)) = Inr (rh_head rh)"
      and whole: "rh_consumed rh @ concat left = concat reads" and body: "rh_body_start rh = n + 4" "n + 4 \<le> length (rh_consumed rh)"
      by auto
    let ?h = "rh_head rh" and ?rest = "drop (n + 4) (concat reads)"
    have rest: "drop (rh_body_start rh) (rh_consumed rh) @ concat left = ?rest"
      using body unfolding whole [symmetric] by simp
    show ?thesis
    proof (cases "is_upload_path (hh_path ?h)")
      case False
      then show ?thesis using assms head by (auto simp: listener_session_def)
    next
      case True
      obtain reply where serve: "serve_upload v ?h [] ?rest tokens (Some vs) = (Some vs', reply)" "turn = Upload reply"
        using assms head True serve_upload_split [of v ?h "drop (rh_body_start rh) (rh_consumed rh)" "concat left" tokens "Some vs"]
        unfolding rest by (auto simp: listener_session_def split: prod.splits)
      have len: "n + 4 \<le> length (concat reads)" using body unfolding whole [symmetric] by simp
      show ?thesis using serve_disk [OF serve(1)] n len unfolding serve(2)
        by (auto split: upload_reply.splits if_splits)
    qed
  qed
qed

definition sample_head :: bytes where
  "sample_head = ascii (''PUT /voice-samples/s1/positive/7.wav HTTP/1.1'' @ [CHR 0x0D, CHR 0x0A] @
     ''Authorization: Bearer 11'' @ [CHR 0x0D, CHR 0x0A] @ ''Content-Length: 8044'' @
     [CHR 0x0D, CHR 0x0A, CHR 0x0D, CHR 0x0A])"

definition sample_body :: bytes where
  "sample_body = wav_of [0, 0, 0, 0] [(ascii ''fmt '', [1, 0, 1, 0, 128, 62, 0, 0, 0, 125, 0, 0, 2, 0, 16, 0]),
     (ascii ''data'', replicate 8000 0)]"

definition sample_upload_env :: upload_env where
  "sample_upload_env = \<lparr>ue_debug = id, ue_secs = (\<lambda>_ _. []), ue_json_num = (\<lambda>_. []), ue_sha256 = sample_hash,
     ue_now = 29999, ue_faults = no_take_faults\<rparr>"

theorem upload_stores_the_body_or_nothing_witness:
  "\<exists>vs' j. listener_session sample_upload_env [sample_head @ sample_body] (minted sample_hash sample_mints)
      (Some (store_new None)) = (Some vs', Upload (Replied False (201, j))) \<and>
    takes_on_disk (vs_root vs') (''s1'', Positive, ''007.wav'') = Some sample_body"
proof -
  let ?h = "\<lparr>hh_method = ''PUT'', hh_path = ''/voice-samples/s1/positive/7.wav'', hh_query = None,
    hh_headers = [(''authorization'', ''Bearer 11''), (''content-length'', ''8044'')]\<rparr>"
  let ?t = "\<lparr>tk_kind = Positive, tk_number = 7, tk_phrase = None\<rparr>"
  have head: "head_end sample_head = Some 93" by code_simp
  have len: "length sample_head = 97" by code_simp
  have parsed: "parse_head id (take 93 sample_head) = Inr ?h" by code_simp
  have read: "read_head_from id [] [sample_head @ sample_body] =
      Inr (\<lparr>rh_head = ?h, rh_consumed = sample_head @ sample_body, rh_body_start = 97\<rparr>, [])"
    using head_end_append [OF head, of sample_body] parsed len
    by (subst read_head_from.simps, simp, subst read_head_from.simps) (auto simp: MAX_HEAD_BYTES_def sample_head_def ascii_def)
  have path: "parse_path id ''/voice-samples/s1/positive/7.wav'' = Inr (''s1'', ?t)" by (simp add: name_eval)
  have "token_check sample_hash ''11'' 29999 (minted sample_hash sample_mints) = Inr ''parakeet''" by code_simp
  moreover have "head_bearer ?h = Some ''11''" by code_simp
  moreover have "content_length ?h = Some 8044"
    by (simp add: content_length_def head_header_def parse_uint_def digit_val_def)
  ultimately have pre: "precheck sample_upload_env ?h (minted sample_hash sample_mints) (Some (store_new None)) = Inr 8044"
    using path by (simp add: precheck_def sample_upload_env_def head_header_def MAX_TAKE_BYTES_def)
  have body: "length sample_body = 8044" by (simp add: sample_body_def wav_of_def chunk_bytes_def ascii_def)
  have check: "check_wav (\<lambda>_ _. []) sample_body = Inr (1 / 4)"
  proof -
    let ?f = "[1, 0, 1, 0, 128, 62, 0, 0, 0, 125, 0, 0, 2, 0, 16, 0] :: bytes"
    let ?cs = "[(ascii ''fmt '', ?f), (ascii ''data'', replicate 8000 0)]"
    have cs: "list_all chunk_ok ?cs" by (simp add: chunk_ok_def ascii_def)
    have "last_chunk ''fmt '' ?cs = Some ?f" "last_chunk ''data'' ?cs = Some (replicate 8000 0)"
      by (simp_all add: last_chunk_def ascii_def)
    moreover have "fmt_fields ?f = (Some 1, Some 1, Some 16000, Some 16)" by (simp add: fmt_fields_def u16_at_def u32_at_def)
    ultimately show ?thesis unfolding sample_body_def
      using check_wav_chunks [OF cs, of "[0, 0, 0, 0]" "\<lambda>_ _. []"]
      by (simp add: wav_verdict_def TAKE_SAMPLE_RATE_def MIN_TAKE_SECONDS_def MAX_TAKE_SECONDS_def)
  qed
  obtain vs' r where put: "store_put (\<lambda>_ _. []) no_take_faults ''s1'' ?t sample_body (store_new None) = (vs', r)"
    by (cases "store_put (\<lambda>_ _. []) no_take_faults ''s1'' ?t sample_body (store_new None)")
  have "\<exists>ok. r = Inr ok \<and> sd_created ok"
    using put by (simp add: store_put_def check store_new_def no_take_faults_def private_write_def Let_def
        make_kind_def make_set_def kind_files_def set_dir_of_def [of None] split: if_splits) auto
  then obtain ok where ok: "r = Inr ok" "sd_created ok" by blast
  have run: "\<exists>j. listener_session sample_upload_env [sample_head @ sample_body] (minted sample_hash sample_mints)
      (Some (store_new None)) = (Some vs', Upload (Replied False (201, j)))"
    using read pre put ok body path len
    by (simp add: listener_session_def sample_upload_env_def serve_upload_def store_take_def is_upload_path_def
        VOICE_PATH_def starts_with_def head_header_def)
  then obtain j where run: "listener_session sample_upload_env [sample_head @ sample_body] (minted sample_hash sample_mints)
      (Some (store_new None)) = (Some vs', Upload (Replied False (201, j)))" by blast
  from upload_stores_the_body_or_nothing [OF run] obtain h n l s t where
    "head_end (sample_head @ sample_body) = Some n" "parse_head id (take n (sample_head @ sample_body)) = Inr h"
    "parse_path id (hh_path h) = Inr (s, t)" "content_length h = Some l"
    "takes_on_disk (vs_root vs') = (takes_on_disk (vs_root (store_new None)))
      ((s, tk_kind t, stem t @ ''.wav'') \<mapsto> take l (drop (n + 4) (sample_head @ sample_body)))"
    by (auto simp: sample_upload_env_def)
  moreover have "stem ?t = ''007''" by code_simp
  ultimately have "takes_on_disk (vs_root vs') (''s1'', Positive, ''007.wav'') = Some sample_body"
    using head_end_append [OF head, of sample_body] parsed len body path
    by (auto simp: content_length_def head_header_def parse_uint_def digit_val_def)
  with run show ?thesis by blast
qed

end
