(* ===== verification/LocalApi.thy ===== *)
theory LocalApi
  imports LocalHttp Control SttServer VoiceUpload
begin

text \<open>
  \<^verbatim>\<open>src/src/local_api.rs\<close> and \<^verbatim>\<open>src/src/local_api/voice_samples.rs\<close>: the handlers over one world, which the API shares
  with the model host, the studio session and the updater.  A handler runs in one step up to the point where it
  waits (for the engine, for a lane, between two locks), and goes on in a later step.  The vision, mesh and wake-word
  handlers and the list of recordings are left out.  JSON parsing and printing are arguments.
\<close>

section \<open>State\<close>

record chat_body =
  cb_model :: "string option"
  cb_messages :: "chat_message list"
  cb_max_tokens :: "u32 option"
  cb_temperature :: "f32 option"
  cb_top_p :: "f32 option"
  cb_stop :: "string list option"
  cb_chat_template_kwargs :: "(string \<times> json) list option"
  cb_stream :: bool
  cb_deadline_ms :: "u64 option"
  cb_images :: "string list"
  cb_response_format :: "json option"

record tokenize_body =
  tb_content :: string
  tb_model :: "string option"
  tb_add_special :: bool

record tts_body =
  sb_text :: string
  sb_model :: "string option"
  sb_voice :: "string option"
  sb_speed :: "f32 option"
  sb_language :: "string option"
  sb_ext :: "string option"

record stt_body =
  rb_input_url :: string
  rb_model :: "string option"
  rb_language :: "string option"

record video_body =
  vb_prompt :: string
  vb_model :: "string option"
  vb_negative_prompt :: "string option"
  vb_seconds :: "f32 option"
  vb_width :: "u32 option"
  vb_height :: "u32 option"
  vb_ext :: "string option"

record stream_token_body =
  xb_model :: string
  xb_ttl_secs :: "int option"

type_synonym 'a parser = "string \<Rightarrow> (string, 'a) result"

record bodies =
  ps_image :: "local_image_request parser"
  ps_chat :: "chat_body parser"
  ps_tokenize :: "tokenize_body parser"
  ps_tts :: "tts_body parser"
  ps_stt :: "stt_body parser"
  ps_video :: "video_body parser"
  ps_model :: "catalog_model parser"
  ps_stream_token :: "stream_token_body parser"
  ps_voice_token :: "int option parser"
  ps_config :: "editable_config parser"

record stream_endpoint =
  se_port :: u16
  se_cert_sha256 :: string
  se_cert_pem :: string

text \<open>The clock, the readings and the printers of one step.\<close>

record 'm local_env =
  lv_job :: job_env
  lv_parse :: bodies
  lv_show_debug :: "string \<Rightarrow> string"
  lv_show_f32 :: "f32 \<Rightarrow> string"
  lv_show_time :: "int \<Rightarrow> string"
  lv_show_io :: "io_error \<Rightarrow> string"
  lv_show_json :: "json \<Rightarrow> string"
  lv_show_method :: "http_method \<Rightarrow> string"
  lv_show_catalog :: "catalog \<Rightarrow> string"
  lv_show_config :: "editable_config \<Rightarrow> json"
  lv_show_status :: "json daemon_status \<Rightarrow> json"
  lv_show_log :: "log_entry \<Rightarrow> json"
  lv_show_line :: "job_log_line \<Rightarrow> json"
  lv_model_json :: "catalog_model \<Rightarrow> (string \<times> json) list"
  lv_features :: load_features
  lv_as_chat :: "'m \<Rightarrow> bool"
  lv_entropy :: bytes
  lv_sha256 :: hasher
  lv_lan :: "string option"
  lv_free_bytes :: "nat option"
  lv_take_faults :: take_faults
  lv_url :: url_parser
  lv_reg :: reg_env

record local_config =
  lc_token :: string
  lc_catalog_path :: "path option"
  lc_models_root :: "string option"
  lc_engine_name :: string
  lc_version :: string
  lc_pid :: nat
  lc_config_path :: path

record chat_work =
  cw_catalog :: catalog
  cw_model :: "string option"
  cw_preview :: string
  cw_params :: llm_params
  cw_deadline :: "nat option"

datatype lane_work =
    LwChat chat_work
  | LwTokens string bool
  | LwStream string llm_params "nat option" \<comment> \<open>preview, parameters, deadline\<close>

text \<open>Where a request stands: the engine runs (the reservation held); a lane is waited for, or held; a deletion has
  unloaded its model and not yet removed it; a streaming thread has been spawned.\<close>

datatype 'm stage =
    Working task_kind local_job
  | LaneWait string 'm lane_ref lane_work
  | LaneServe string 'm lane_ref lane_work "current_job option"
  | Deleting string
  | Spawned string string llm_params "nat option"

record 'm local_world =
  lw_host :: "'m host"
  lw_gate :: job_gate
  lw_others :: nat \<comment> \<open>reservations of the session, the updater and the trainings\<close>
  lw_obs :: observers
  lw_logs :: worker_logs
  lw_job_logs :: "job_log_entry list"
  lw_gpu :: "json option"
  lw_tokens :: stream_tokens
  lw_voice_tokens :: stream_tokens
  lw_endpoint :: "stream_endpoint option"
  lw_voice :: "voice_store option"
  lw_control :: "(daemon_control \<times> reg_world) option"
  lw_ceilings :: "memory_ceiling list"
  lw_workers :: nat \<comment> \<open>pool threads still serving\<close>
  lw_stages :: "(nat \<times> 'm stage) list"
  lw_replies :: "(nat \<times> reply) list"
  lw_streams :: "(nat \<times> string list) list"

datatype 'm outcome = Replied reply | Dropped string | Panicked | Goes "'m stage" | GoesStreaming "'m stage" | NotModelled

type_synonym 'm answer = "'m local_world \<times> 'm outcome"

definition DEFAULT_STREAM_TOKEN_TTL_SECS :: int where "DEFAULT_STREAM_TOKEN_TTL_SECS = 600"
definition DEFAULT_TOKEN_TTL_SECS :: int where "DEFAULT_TOKEN_TTL_SECS = 600"
definition POOL_WORKERS :: nat where "POOL_WORKERS = 8"

definition bad_json :: "string \<Rightarrow> reply" where
  "bad_json err = respond_text 400 (''bad json: '' @ err)"

text \<open>A body of text parsed by \<open>parse\<close>; \<open>bad\<close> answers what does not parse, \<open>big\<close> what is too large.\<close>

definition with_body ::
  "http_request \<Rightarrow> nat \<Rightarrow> 'a parser \<Rightarrow> reply \<Rightarrow> (string \<Rightarrow> reply) \<Rightarrow> 'm local_world \<Rightarrow> ('a \<Rightarrow> 'm answer) \<Rightarrow> 'm answer" where
  "with_body r cap parse big bad w k = (case read_body_capped r cap of
       Inl e \<Rightarrow> (w, Dropped e)
     | Inr BodyTooLarge \<Rightarrow> (w, Replied big)
     | Inr (BodyOk b) \<Rightarrow> (case parse b of Inl e \<Rightarrow> (w, Replied (bad e)) | Inr x \<Rightarrow> k x))"

section \<open>Jobs\<close>

definition reply_for :: "task_kind \<Rightarrow> (local_error, task_result) result \<Rightarrow> reply" where
  "reply_for kind r = (case r of
       Inl e \<Rightarrow> respond_local_err e
     | Inr res \<Rightarrow> (case (kind, res) of
           (Image, RImage b ext) \<Rightarrow> respond 200 (mime_for_ext ext) (BBytes b)
         | (Image, _) \<Rightarrow> respond_text 500 ''unexpected non-image result''
         | (Llm, _) \<Rightarrow> respond_llm r
         | (AudioTts, RAudioTts b ext) \<Rightarrow> respond 200 (mime_for_ext ext) (BBytes b)
         | (AudioTts, _) \<Rightarrow> respond_text 500 ''unexpected non-audio result''
         | (AudioStt, RAudioStt j) \<Rightarrow> respond_json 200 j
         | (AudioStt, _) \<Rightarrow> respond_text 500 ''unexpected non-transcript result''
         | (Video, RVideo b ext) \<Rightarrow> respond 200 (mime_for_ext ext) (BBytes b)
         | (Video, _) \<Rightarrow> respond_text 500 ''unexpected non-video result''
         | _ \<Rightarrow> respond_text 404 ''not found''))"

text \<open>Reserve the slot, begin the job, and give the slot back if it does not begin.\<close>

definition transient ::
  "task_kind \<Rightarrow> (catalog \<Rightarrow> observers \<Rightarrow> observers \<times> (local_error, local_job) result) \<Rightarrow> 'm local_world \<Rightarrow> 'm answer" where
  "transient kind begin_job w = (case try_reserve (lw_gate w) of
       (g, None) \<Rightarrow> (w\<lparr>lw_gate := g\<rparr>, Replied respond_busy)
     | (g, Some reservation) \<Rightarrow>
         (case begin_job (h_catalog (lw_host w)) (lw_obs w) of
            (ob, Inl e) \<Rightarrow> (w\<lparr>lw_gate := drop_reservation reservation g, lw_obs := ob\<rparr>, Replied (reply_for kind (Inl e)))
          | (ob, Inr lj) \<Rightarrow> (w\<lparr>lw_gate := g, lw_obs := ob\<rparr>, Goes (Working kind lj))))"

definition engine_returns :: "'m local_env \<Rightarrow> task_kind \<Rightarrow> local_job \<Rightarrow> (string, task_result) result \<Rightarrow> 'm local_world \<Rightarrow> 'm answer" where
  "engine_returns v kind lj answer w =
     (let (ob, r) = dispatch_finish (lv_job v) lj answer (lw_obs w)
      in (w\<lparr>lw_obs := ob, lw_gate := drop_reservation JobReservation (lw_gate w)\<rparr>, Replied (reply_for kind r)))"

definition handle_image :: "'m local_env \<Rightarrow> http_request \<Rightarrow> 'm local_world \<Rightarrow> 'm answer" where
  "handle_image v r w = with_body r MAX_IMAGE_BODY_BYTES (ps_image (lv_parse v))
     (respond_too_large_capped MAX_IMAGE_BODY_BYTES) bad_json w
     (\<lambda>req. transient Image (\<lambda>c. run_image_begin (lv_job v) (Some (lw_host w)) c req) w)"

definition handle_tts :: "'m local_env \<Rightarrow> http_request \<Rightarrow> 'm local_world \<Rightarrow> 'm answer" where
  "handle_tts v r w = with_body r MAX_BODY_BYTES (ps_tts (lv_parse v)) (respond_too_large_capped MAX_BODY_BYTES) bad_json w
     (\<lambda>b. transient AudioTts (\<lambda>c. run_kind_begin (lv_job v) (Some (lw_host w)) c AudioTts (sb_model b) (sb_text b)
        (TAudioTts \<lparr>tts_text = sb_text b, tts_voice = or_else (sb_voice b) ''default'', tts_speed = sb_speed b,
           tts_language = sb_language b, tts_ext = or_else (sb_ext b) ''wav''\<rparr>)) w)"

definition handle_stt :: "'m local_env \<Rightarrow> http_request \<Rightarrow> 'm local_world \<Rightarrow> 'm answer" where
  "handle_stt v r w = with_body r MAX_BODY_BYTES (ps_stt (lv_parse v)) (respond_too_large_capped MAX_BODY_BYTES) bad_json w
     (\<lambda>b. transient AudioStt (\<lambda>c. run_kind_begin (lv_job v) (Some (lw_host w)) c AudioStt (rb_model b) (rb_input_url b)
        (TAudioStt \<lparr>stt_input_url = rb_input_url b, stt_language = rb_language b, stt_translate = None, stt_prompt = None,
           stt_vad = None, stt_timestamps = None\<rparr>)) w)"

definition handle_video :: "'m local_env \<Rightarrow> http_request \<Rightarrow> 'm local_world \<Rightarrow> 'm answer" where
  "handle_video v r w = with_body r MAX_BODY_BYTES (ps_video (lv_parse v)) (respond_too_large_capped MAX_BODY_BYTES) bad_json w
     (\<lambda>b. transient Video (\<lambda>c. run_kind_begin (lv_job v) (Some (lw_host w)) c Video (vb_model b) (vb_prompt b)
        (TVideo \<lparr>vid_prompt = vb_prompt b, vid_negative_prompt = vb_negative_prompt b, vid_init_image_url = None,
           vid_seconds = or_else (vb_seconds b) (f32_of_nat 2), vid_fps = None, vid_width = or_else (vb_width b) 256,
           vid_height = or_else (vb_height b) 256, vid_ext = or_else (vb_ext b) ''mp4''\<rparr>)) w)"

section \<open>Chats\<close>

definition schema_of :: "json option \<Rightarrow> (local_error, json option) result" where
  "schema_of response_format = (case response_format of
       None \<Rightarrow> Inr None
     | Some f \<Rightarrow> (case json_get ''type'' f of
           JStr t \<Rightarrow>
             if t = ''text'' then Inr None
             else if t = ''json_schema'' then (case json_get ''schema'' (json_get ''json_schema'' f) of
                 JObj kvs \<Rightarrow> Inr (Some (JObj kvs))
               | _ \<Rightarrow> Inl (LeBadInput ''response_format json_schema needs json_schema.schema, an object''))
             else Inl (LeBadInput (''response_format type `'' @ t @ ''` is not served; use json_schema or text''))
         | _ \<Rightarrow> Inl (LeBadInput ''response_format type (missing) is not served; use json_schema or text'')))"

definition llm_params_default :: llm_params where
  "llm_params_default = \<lparr>lm_messages = [], lm_system = None, lm_max_tokens = 0, lm_temperature = f32_zero, lm_top_p = None,
     lm_stop = None, lm_json_schema = None, lm_reasoning = None, lm_chat_template_kwargs = None, lm_images = []\<rparr>"

definition chat_images_readable :: "catalog \<Rightarrow> string option \<Rightarrow> string list \<Rightarrow> (local_error, unit) result" where
  "chat_images_readable c i images =
     (if images = [] then Inr ()
      else case find (\<lambda>k. \<not> starts_with (images ! k) ''data:image/'') [0..<length images] of
        Some k \<Rightarrow> Inl (LeBadInput (''images['' @ show_nat k @ ''] must be a data:image/...;base64, URL''))
      | None \<Rightarrow> (case resolve_llm c i of
            Inl e \<Rightarrow> Inl e
          | Inr m \<Rightarrow> (case image_check (cm_id m) (TLlm (llm_params_default\<lparr>lm_images := images\<rparr>)) (Some (cm_source m)) of
                Inl why \<Rightarrow> Inl (LeBadInput (image_refusal_text why)) | Inr _ \<Rightarrow> Inr ())))"

definition chat_params :: "chat_body \<Rightarrow> json option \<Rightarrow> llm_params" where
  "chat_params b schema = llm_params_default\<lparr>lm_messages := cb_messages b, lm_max_tokens := or_else (cb_max_tokens b) 512,
     lm_temperature := or_else (cb_temperature b) (f32_lit 7 10), lm_top_p := cb_top_p b, lm_stop := cb_stop b,
     lm_chat_template_kwargs := cb_chat_template_kwargs b, lm_images := cb_images b, lm_json_schema := schema\<rparr>"

definition chat_transient :: "'m local_env \<Rightarrow> chat_work \<Rightarrow> 'm local_world \<Rightarrow> 'm answer" where
  "chat_transient v cw w = transient Llm (\<lambda>_. run_kind_begin (lv_job v) (Some (lw_host w)) (cw_catalog cw) Llm
     (cw_model cw) (cw_preview cw) (TLlm (cw_params cw))) w"

text \<open>\<open>with_lane\<close>, up to waiting for the lane's lock.\<close>

definition ask_lane :: "'m local_env \<Rightarrow> string \<Rightarrow> 'm local_world \<Rightarrow> 'm local_world \<times> (host_error, 'm \<times> lane_ref) result" where
  "ask_lane v i w = (case lane_of (je_host (lv_job v)) i (lw_host w) of
       (h, Inl e) \<Rightarrow> (w\<lparr>lw_host := h\<rparr>, Inl e)
     | (h, Inr (m, l)) \<Rightarrow> (w\<lparr>lw_host := h\<lparr>h_requests := Waiting i l # h_requests h\<rparr>\<rparr>, Inr (m, l)))"

definition chat_on_lane :: "'m local_env \<Rightarrow> chat_work \<Rightarrow> 'm local_world \<Rightarrow> 'm answer" where
  "chat_on_lane v cw w = (case lane_chat_model (cw_catalog cw) (cw_model cw) of
       None \<Rightarrow> chat_transient v cw w
     | Some m \<Rightarrow> (case ask_lane v (cm_id m) w of
           (w, Inl _) \<Rightarrow> chat_transient v cw w
         | (w, Inr (loaded, l)) \<Rightarrow> (w, Goes (LaneWait (cm_id m) loaded l (LwChat cw)))))"

definition not_loaded_json :: "string \<Rightarrow> string option \<Rightarrow> string \<Rightarrow> json" where
  "not_loaded_json i state message = JObj ([(''error'', JStr ''model_not_loaded'')] @
     (case state of None \<Rightarrow> [] | Some s \<Rightarrow> [(''state'', JStr s)]) @ [(''message'', JStr message)])"

definition require_loaded :: "'m local_env \<Rightarrow> string \<Rightarrow> 'm local_world \<Rightarrow> 'm local_world \<times> (json, unit) result" where
  "require_loaded v i w = (case host_status (je_host (lv_job v)) i (lw_host w) of
       (h, Inr s) \<Rightarrow> (w\<lparr>lw_host := h\<rparr>,
         if serves (st_state s) then Inr ()
         else Inl (not_loaded_json i (Some (state_name (st_state s)))
           (''model '' @ i @ '' is not loaded; POST /models/'' @ i @ ''/load first'')))
     | (h, Inl e) \<Rightarrow> (w\<lparr>lw_host := h\<rparr>, Inl (not_loaded_json i None (show_host_error (lv_show_io v) e))))"

definition stream_chat :: "'m local_env \<Rightarrow> chat_work \<Rightarrow> 'm local_world \<Rightarrow> 'm answer" where
  "stream_chat v cw w = (case resolve_llm (cw_catalog cw) (cw_model cw) of
       Inl e \<Rightarrow> (w, Replied (respond_local_err e))
     | Inr m \<Rightarrow> (case require_loaded v (cm_id m) w of
           (w, Inl why) \<Rightarrow> (w, Replied (respond_json 409 why))
         | (w, Inr _) \<Rightarrow> (w, GoesStreaming (Spawned (cm_id m) (cw_preview cw) (cw_params cw) (cw_deadline cw)))))"

definition handle_chat :: "'m local_env \<Rightarrow> http_request \<Rightarrow> 'm local_world \<Rightarrow> 'm answer" where
  "handle_chat v r w = with_body r MAX_IMAGE_BODY_BYTES (ps_chat (lv_parse v))
     (respond_too_large_capped MAX_IMAGE_BODY_BYTES) bad_json w
     (\<lambda>b. let preview = (if cb_messages b = [] then [] else msg_content (last (cb_messages b))); c = h_catalog (lw_host w) in
        case chat_images_readable c (cb_model b) (cb_images b) of
          Inl e \<Rightarrow> (w, Replied (respond_local_err e))
        | Inr _ \<Rightarrow> (case schema_of (cb_response_format b) of
            Inl e \<Rightarrow> (w, Replied (respond_local_err e))
          | Inr schema \<Rightarrow>
              (let cw = \<lparr>cw_catalog = c, cw_model = cb_model b, cw_preview = preview, cw_params = chat_params b schema,
                     cw_deadline = map_option (\<lambda>ms. je_now (lv_job v) + unat ms) (cb_deadline_ms b)\<rparr>
               in if cb_stream b then stream_chat v cw w else chat_on_lane v cw w)))"

definition handle_tokenize :: "'m local_env \<Rightarrow> http_request \<Rightarrow> 'm local_world \<Rightarrow> 'm answer" where
  "handle_tokenize v r w = with_body r MAX_BODY_BYTES (ps_tokenize (lv_parse v)) (respond_too_large_capped MAX_BODY_BYTES)
     (\<lambda>e. respond_error 400 ''bad_request'' e) w
     (\<lambda>b. case resolve_llm (h_catalog (lw_host w)) (tb_model b) of
          Inl (LeUnknownModel i) \<Rightarrow> (w, Replied (respond_error 404 ''unknown_model'' (local_error_text (LeUnknownModel i))))
        | Inl e \<Rightarrow> (w, Replied (respond_error 400 ''bad_request'' (local_error_text e)))
        | Inr m \<Rightarrow> (case require_loaded v (cm_id m) w of
            (w, Inl why) \<Rightarrow> (w, Replied (respond_json 409 why))
          | (w, Inr _) \<Rightarrow> (case ask_lane v (cm_id m) w of
              (w, Inl e) \<Rightarrow> (w, Replied (respond_error 409 ''model_not_loaded'' (show_host_error (lv_show_io v) e)))
            | (w, Inr (loaded, l)) \<Rightarrow> (w, Goes (LaneWait (cm_id m) loaded l (LwTokens (tb_content b) (tb_add_special b)))))))"

section \<open>Lanes\<close>

definition leave_lane :: "string \<Rightarrow> lane_ref \<Rightarrow> 'm local_world \<Rightarrow> 'm local_world" where
  "leave_lane i l w = w\<lparr>lw_host := set_busy l False ((lw_host w)\<lparr>h_requests := remove1 (Serving i l) (h_requests (lw_host w))\<rparr>)\<rparr>"

definition end_stream :: "nat \<Rightarrow> emitter \<Rightarrow> 'm local_world \<Rightarrow> 'm local_world" where
  "end_stream n em w = w\<lparr>lw_streams := (n, em_sent em) # lw_streams w\<rparr>"

definition empty_emitter :: emitter where
  "empty_emitter = \<lparr>em_gone = False, em_sent = []\<rparr>"

definition tokens_reply :: "(string, json) result \<Rightarrow> reply" where
  "tokens_reply r = (case r of Inr tokens \<Rightarrow> respond_json 200 (JObj [(''tokens'', tokens)])
     | Inl e \<Rightarrow> respond_error 500 ''tokenize_failed'' e)"

text \<open>The host gave no lane: a chat runs transiently, a stream carries the error.\<close>

definition lane_refused ::
  "'m local_env \<Rightarrow> (nat \<Rightarrow> bool) \<Rightarrow> nat \<Rightarrow> string \<Rightarrow> host_error \<Rightarrow> lane_work \<Rightarrow> 'm local_world \<Rightarrow> 'm answer" where
  "lane_refused v sends n i e work w = (case work of
       LwChat cw \<Rightarrow> chat_transient v cw w
     | LwTokens _ _ \<Rightarrow> (w, Replied (respond_error 409 ''model_not_loaded'' (show_host_error (lv_show_io v) e)))
     | LwStream _ _ _ \<Rightarrow>
         (end_stream n (stream_tail (lv_show_json v) sends i (Inl (show_host_error (lv_show_io v) e)) empty_emitter) w, Dropped []))"

definition chat_lane_ends ::
  "'m local_env \<Rightarrow> string \<Rightarrow> lane_ref \<Rightarrow> nat option \<Rightarrow> current_job \<Rightarrow> (string, json) result \<Rightarrow> 'm local_world \<Rightarrow> 'm answer" where
  "chat_lane_ends v i l deadline j r w =
     (let w = leave_lane i l w; (ob, answer) = lane_finish (lv_job v) deadline j r (lw_obs w)
      in (w\<lparr>lw_obs := ob\<rparr>, Replied (respond_llm answer)))"

definition stream_lane_ends ::
  "'m local_env \<Rightarrow> (nat \<Rightarrow> bool) \<Rightarrow> nat \<Rightarrow> string \<Rightarrow> lane_ref \<Rightarrow> nat option \<Rightarrow> current_job \<Rightarrow> string list \<Rightarrow> (string, json) result \<Rightarrow>
   'm local_world \<Rightarrow> 'm answer" where
  "stream_lane_ends v sends n i l deadline j pieces r w =
     (let now = je_now (lv_job v);
          (em, _) = stream_on_lane (lv_show_json v) sends now deadline i (Inr (pieces, r)) (show_host_error (lv_show_io v));
          ob = run_finish now (outcome_of id (case stream_result now deadline r of Inr j \<Rightarrow> Inr (RLlm j) | Inl e \<Rightarrow> Inl e)) j (lw_obs w);
          w = leave_lane i l (w\<lparr>lw_obs := ob\<rparr>)
      in (end_stream n em w, Dropped []))"

text \<open>The body of \<open>with_lane\<close> starts, the lane's lock held.\<close>

definition lane_given ::
  "'m local_env \<Rightarrow> (nat \<Rightarrow> bool) \<Rightarrow> nat \<Rightarrow> string \<Rightarrow> 'm \<Rightarrow> lane_ref \<Rightarrow> lane_work \<Rightarrow> 'm local_world \<Rightarrow> 'm answer" where
  "lane_given v sends n i m l work w = (case work of
       LwChat cw \<Rightarrow>
         if \<not> lv_as_chat v m then chat_transient v cw (leave_lane i l w)
         else
           (let (ob, j) = lane_begin (lv_job v) i (cw_preview cw) (lw_obs w); w = w\<lparr>lw_obs := ob\<rparr> in
            case lane_start (je_now (lv_job v)) (cw_deadline cw) of
              Inl e \<Rightarrow> chat_lane_ends v i l (cw_deadline cw) j (Inl e) w
            | Inr _ \<Rightarrow> (w, Goes (LaneServe i m l work (Some j))))
     | LwTokens _ _ \<Rightarrow>
         if \<not> lv_as_chat v m then (leave_lane i l w, Replied (tokens_reply (Inl (''model '' @ i @ '' is not a chat model''))))
         else (w, Goes (LaneServe i m l work None))
     | LwStream preview _ deadline \<Rightarrow>
         if \<not> lv_as_chat v m then
           (end_stream n (stream_tail (lv_show_json v) sends i (Inl (''model '' @ i @ '' is not a chat model'')) empty_emitter)
              (leave_lane i l w), Dropped [])
         else
           (let (ob, j) = lane_begin (lv_job v) i preview (lw_obs w); w = w\<lparr>lw_obs := ob\<rparr> in
            case lane_start (je_now (lv_job v)) deadline of
              Inl e \<Rightarrow> stream_lane_ends v sends n i l deadline j [] (Inl e) w
            | Inr _ \<Rightarrow> (w, Goes (LaneServe i m l work (Some j)))))"

definition lane_granted ::
  "'m local_env \<Rightarrow> (nat \<Rightarrow> bool) \<Rightarrow> nat \<Rightarrow> string \<Rightarrow> 'm \<Rightarrow> lane_ref \<Rightarrow> lane_work \<Rightarrow> 'm local_world \<Rightarrow> 'm answer" where
  "lane_granted v sends n i m l work w =
     (let h = lw_host w in case take_lane i l (h\<lparr>h_requests := remove1 (Waiting i l) (h_requests h)\<rparr>) of
        (h, Inl e) \<Rightarrow> lane_refused v sends n i e work (w\<lparr>lw_host := h\<rparr>)
      | (h, Inr _) \<Rightarrow> lane_given v sends n i m l work (w\<lparr>lw_host := h\<rparr>))"

definition lane_returns ::
  "'m local_env \<Rightarrow> (nat \<Rightarrow> bool) \<Rightarrow> nat \<Rightarrow> string \<Rightarrow> lane_ref \<Rightarrow> lane_work \<Rightarrow> current_job option \<Rightarrow> string list \<Rightarrow> (string, json) result \<Rightarrow>
   'm local_world \<Rightarrow> 'm answer" where
  "lane_returns v sends n i l work j pieces r w = (case (work, j) of
       (LwChat cw, Some j) \<Rightarrow> chat_lane_ends v i l (cw_deadline cw) j r w
     | (LwStream _ _ deadline, Some j) \<Rightarrow> stream_lane_ends v sends n i l deadline j pieces r w
     | _ \<Rightarrow> (leave_lane i l w, Replied (tokens_reply r)))"

definition stream_asks :: "'m local_env \<Rightarrow> (nat \<Rightarrow> bool) \<Rightarrow> nat \<Rightarrow> string \<Rightarrow> string \<Rightarrow> llm_params \<Rightarrow> nat option \<Rightarrow> 'm local_world \<Rightarrow> 'm answer" where
  "stream_asks v sends n i preview p deadline w = (case ask_lane v i w of
       (w, Inl e) \<Rightarrow> lane_refused v sends n i e (LwStream preview p deadline) w
     | (w, Inr (m, l)) \<Rightarrow> (w, Goes (LaneWait i m l (LwStream preview p deadline))))"

section \<open>Models\<close>

definition status_fields :: "(int \<Rightarrow> string) \<Rightarrow> model_status \<Rightarrow> (string \<times> json) list" where
  "status_fields show_time s = [(''state'', JStr (state_name (st_state s))), (''resident'', JBool (st_resident s)),
     (''since'', JStr (show_time (int (st_since s))))]"

definition failure_field :: "model_status \<Rightarrow> (string \<times> json) list" where
  "failure_field s = (case st_state s of Failed reason \<Rightarrow> [(''error'', JStr reason)] | _ \<Rightarrow> [])"

definition status_json :: "(int \<Rightarrow> string) \<Rightarrow> model_status \<Rightarrow> json" where
  "status_json show_time s = JObj ([(''id'', JStr (st_id s))] @ status_fields show_time s @ failure_field s)"

definition listed_model :: "'m local_env \<Rightarrow> model_status list \<Rightarrow> catalog_model \<Rightarrow> json" where
  "listed_model v statuses m = JObj (lv_model_json v m @ [(''images'', JBool (reads_images (cm_source m)))] @
     (case find (\<lambda>s. st_id s = cm_id m) statuses of
        None \<Rightarrow> []
      | Some s \<Rightarrow> status_fields (lv_show_time v) s @ [(''loadable'', JBool (can_load (lv_features v) (cm_source m)))] @ failure_field s))"

definition handle_list_models :: "'m local_env \<Rightarrow> 'm local_world \<Rightarrow> 'm answer" where
  "handle_list_models v w =
     (let models = cat_list (h_catalog (lw_host w)); (h, statuses) = host_statuses (je_host (lv_job v)) (lw_host w)
      in (w\<lparr>lw_host := h\<rparr>, Replied (respond_json 200 (JArr (map (listed_model v statuses) models)))))"

definition persist_catalog :: "'m local_env \<Rightarrow> local_config \<Rightarrow> catalog \<Rightarrow> files \<Rightarrow> files \<times> (io_error, unit) result" where
  "persist_catalog v c cat fs = (case lc_catalog_path c of
       None \<Rightarrow> (fs, Inr ())
     | Some p \<Rightarrow> catalog_save (lv_show_catalog v) (env_faults (je_host (lv_job v))) (env_tmp (je_host (lv_job v))) cat fs p)"

definition ok_json :: json where "ok_json = JObj [(''ok'', JBool True)]"

definition handle_add_model :: "'m local_env \<Rightarrow> local_config \<Rightarrow> http_request \<Rightarrow> 'm local_world \<Rightarrow> 'm answer" where
  "handle_add_model v c r w = with_body r MAX_BODY_BYTES (ps_model (lv_parse v)) (respond_too_large_capped MAX_BODY_BYTES)
     (\<lambda>e. respond_text 400 (''bad model: '' @ e)) w
     (\<lambda>m. let h = lw_host w; cat = upsert m (h_catalog h); (fs, saved) = persist_catalog v c cat (h_files h);
            w = w\<lparr>lw_host := h\<lparr>h_catalog := cat, h_files := fs\<rparr>\<rparr>
        in (w, Replied (case saved of Inr _ \<Rightarrow> respond_json 200 ok_json | Inl e \<Rightarrow> respond_text 500 (lv_show_io v e))))"

text \<open>A deletion frees the weights under the host's lock, then drops the entry under the catalogue's.\<close>

definition handle_delete_model :: "'m local_env \<Rightarrow> string \<Rightarrow> 'm local_world \<Rightarrow> 'm answer" where
  "handle_delete_model v i w = (case host_unload (je_host (lv_job v)) i (lw_host w) of
       (h, Inl e) \<Rightarrow>
         if (case e of UnknownModel _ \<Rightarrow> True | _ \<Rightarrow> False) then (w\<lparr>lw_host := h\<rparr>, Goes (Deleting i))
         else (w\<lparr>lw_host := h\<rparr>, Replied (respond_error 500 ''unload_failed'' (show_host_error (lv_show_io v) e)))
     | (h, Inr _) \<Rightarrow> (w\<lparr>lw_host := h\<rparr>, Goes (Deleting i)))"

definition delete_removes :: "'m local_env \<Rightarrow> local_config \<Rightarrow> string \<Rightarrow> 'm local_world \<Rightarrow> 'm answer" where
  "delete_removes v c i w =
     (let h = lw_host w; (cat, existed) = cat_remove i (h_catalog h); (fs, saved) = persist_catalog v c cat (h_files h);
          w = w\<lparr>lw_host := h\<lparr>h_catalog := cat, h_files := fs\<rparr>\<rparr>
      in (w, Replied (if \<not> existed then respond_text 404 ''no such model''
            else case saved of Inr _ \<Rightarrow> respond_json 200 ok_json | Inl e \<Rightarrow> respond_text 500 (lv_show_io v e))))"

definition lifecycle_refusal :: "'m local_env \<Rightarrow> host_error \<Rightarrow> nat \<times> (string \<times> json) list" where
  "lifecycle_refusal v e = (case e of
       UnknownModel _ \<Rightarrow> (404, [(''error'', JStr ''unknown_model'')])
     | Disabled _ \<Rightarrow> (400, [(''error'', JStr ''model_disabled'')])
     | Refused r \<Rightarrow> (409, [(''error'', JStr ''insufficient_memory''), (''neededGib'', JNum (lv_show_f32 v (rf_needed_gib r))),
         (''freeGib'', JNum (lv_show_f32 v (rf_free_gib r))), (''marginGib'', JNum (lv_show_f32 v (rf_margin_gib r)))])
     | NotLoaded _ state \<Rightarrow> (409, [(''error'', JStr ''model_not_loaded''), (''state'', JStr state)])
     | Persist _ \<Rightarrow> (500, [(''error'', JStr ''residency_not_saved'')])
     | LaneBusy _ \<Rightarrow> (409, [(''error'', JStr ''model_busy'')]))"

definition respond_lifecycle :: "'m local_env \<Rightarrow> (host_error, model_status) result \<Rightarrow> nat \<Rightarrow> reply" where
  "respond_lifecycle v r pending_status = (case r of
       Inr s \<Rightarrow> respond_json (if st_state s = Loading \<or> st_state s = Unloading then pending_status else 200) (status_json (lv_show_time v) s)
     | Inl e \<Rightarrow> (case lifecycle_refusal v e of (code, named) \<Rightarrow>
         respond_json code (JObj (named @ [(''message'', JStr (show_host_error (lv_show_io v) e))]))))"

definition lifecycle_call ::
  "'m local_env \<Rightarrow> nat \<Rightarrow> ('m host \<Rightarrow> 'm host \<times> (host_error, model_status) result) \<Rightarrow> 'm local_world \<Rightarrow> 'm answer" where
  "lifecycle_call v pending_status f w = (case f (lw_host w) of
       (h, r) \<Rightarrow> (w\<lparr>lw_host := h\<rparr>, Replied (respond_lifecycle v r pending_status)))"

section \<open>Tokens and recordings\<close>

text \<open>\<open>chrono::Duration::seconds\<close>: in milliseconds, or the panic it documents for seconds out of its range.\<close>

definition MAX_DURATION_SECS :: int where "MAX_DURATION_SECS = 9223372036854775"

definition duration_seconds :: "int \<Rightarrow> int option" where
  "duration_seconds n = (if n < - MAX_DURATION_SECS \<or> MAX_DURATION_SECS < n then None else Some (n * 1000))"

definition STREAM_SCHEME :: string where "STREAM_SCHEME = ''wss''"

definition opt_str :: "string option \<Rightarrow> json" where
  "opt_str x = (case x of None \<Rightarrow> JNull | Some s \<Rightarrow> JStr s)"

definition endpoint_fields :: "stream_endpoint \<Rightarrow> (string \<times> json) list" where
  "endpoint_fields e = [(''certSha256'', JStr (se_cert_sha256 e)), (''certPem'', JStr (se_cert_pem e))]"

definition code_json :: "string \<Rightarrow> json" where
  "code_json code = JObj [(''error'', JStr code)]"

definition handle_stream_token :: "'m local_env \<Rightarrow> http_request \<Rightarrow> 'm local_world \<Rightarrow> 'm answer" where
  "handle_stream_token v r w = with_body r MAX_BODY_BYTES (ps_stream_token (lv_parse v)) (respond_too_large_capped MAX_BODY_BYTES)
     (\<lambda>e. respond_error 400 ''bad_request'' e) w
     (\<lambda>b. case cat_get (h_catalog (lw_host w)) (xb_model b) of
          None \<Rightarrow> (w, Replied (respond_json 404 (code_json ''unknown_model'')))
        | Some m \<Rightarrow>
            if ms_engine (cm_source m) \<noteq> Parakeet then (w, Replied (respond_json 400 (code_json ''not_a_stream_model'')))
            else case lw_endpoint w of
              None \<Rightarrow> (w, Replied (respond_json 503 (code_json ''stream_listener_down'')))
            | Some e \<Rightarrow> (case duration_seconds (or_else (xb_ttl_secs b) DEFAULT_STREAM_TOKEN_TTL_SECS) of
                  None \<Rightarrow> (w, Panicked)
                | Some ttl \<Rightarrow>
                    (let (ts, g) = mint (lv_sha256 v) (lv_entropy v) (cm_id m) ttl (int (je_now (lv_job v))) (lw_tokens w)
                     in (w\<lparr>lw_tokens := ts\<rparr>, Replied (respond_json 200 (JObj ([(''token'', JStr (sg_token g)), (''model'', JStr (sg_model g)),
                          (''expiresAt'', JStr (lv_show_time v (sg_expires_at g))), (''scheme'', JStr STREAM_SCHEME),
                          (''host'', opt_str (lv_lan v)), (''port'', JNum (show_nat (unat (se_port e)))), (''path'', JStr STREAM_PATH)] @
                          endpoint_fields e)))))))"

definition mint_recording_token :: "'m local_env \<Rightarrow> int option \<Rightarrow> 'm local_world \<Rightarrow> 'm answer" where
  "mint_recording_token v ttl_secs w =
     (if lw_voice w = None then (w, Replied (respond_error 503 ''voice_samples_unavailable'' ''this worker keeps no takes''))
      else case lw_endpoint w of
        None \<Rightarrow> (w, Replied (respond_error 503 ''stream_listener_down'' ''the LAN listener is not up''))
      | Some e \<Rightarrow> (case duration_seconds (or_else ttl_secs DEFAULT_TOKEN_TTL_SECS) of
            None \<Rightarrow> (w, Panicked)
          | Some ttl \<Rightarrow>
              (let (ts, g) = mint (lv_sha256 v) (lv_entropy v) ''voice-samples'' ttl (int (je_now (lv_job v))) (lw_voice_tokens w)
               in (w\<lparr>lw_voice_tokens := ts\<rparr>, Replied (respond_json 200 (JObj ([(''token'', JStr (sg_token g)),
                    (''expiresAt'', JStr (lv_show_time v (sg_expires_at g))), (''scheme'', JStr ''https''),
                    (''host'', opt_str (lv_lan v)), (''port'', JNum (show_nat (unat (se_port e)))), (''path'', JStr VOICE_PATH)] @
                    endpoint_fields e)))))))"

definition delete_recordings :: "'m local_env \<Rightarrow> string option \<Rightarrow> voice_store \<Rightarrow> 'm local_world \<Rightarrow> 'm answer" where
  "delete_recordings v which store w =
     (case (case which of None \<Rightarrow> Inr () | Some s \<Rightarrow> check_set (lv_show_debug v) s) of
        Inl bad \<Rightarrow> (w, Replied (respond_error 400 ''bad_name'' bad))
      | Inr _ \<Rightarrow> (case store_delete (lv_take_faults v) which store of
            (store, r) \<Rightarrow> (w\<lparr>lw_voice := Some store\<rparr>, Replied (case r of
                Inr deleted \<Rightarrow> respond_json 200 (JObj [(''deleted'', JArr (map JStr deleted))])
              | Inl (UnknownSet s) \<Rightarrow> respond_error 404 ''unknown_set'' (''no set named '' @ s)
              | Inl (InTraining s) \<Rightarrow> respond_error 409 ''set_in_training'' (''a training holds set '' @ s @ ''; delete it once the training ends'')
              | Inl e \<Rightarrow> respond_error 500 ''not_deleted'' (store_error_text e)))))"

definition handle_voice_samples :: "'m local_env \<Rightarrow> http_request \<Rightarrow> string \<Rightarrow> 'm local_world \<Rightarrow> 'm answer" where
  "handle_voice_samples v r p w =
     (if p = ''/voice-sample-tokens'' then
        if rq_method r \<noteq> MPost then (w, Replied (respond_error 405 ''method_not_allowed'' ''POST a recording token''))
        else with_body r MAX_BODY_BYTES (\<lambda>b. ps_voice_token (lv_parse v) (if trim b = [] then ''{}'' else b))
          (respond_error 413 ''too_large'' ''the body is over 1 MiB'') (\<lambda>e. respond_error 400 ''bad_request'' e) w
          (\<lambda>ttl. mint_recording_token v ttl w)
      else case lw_voice w of
        None \<Rightarrow> (w, Replied (respond_error 503 ''voice_samples_unavailable'' ''this worker keeps no takes''))
      | Some store \<Rightarrow>
          (let which = strip_prefix ''/voice-samples/'' p in
           if rq_method r = MGet \<and> which = None then (w, NotModelled)
           else if rq_method r = MDelete then delete_recordings v which store w
           else (w, Replied (respond_error 405 ''method_not_allowed'' (lv_show_method v (rq_method r) @ '' '' @ p @ '' is not a route'')))))"

section \<open>The daemon and its jobs\<close>

definition healthz_json :: "'m local_env \<Rightarrow> local_config \<Rightarrow> 'm local_world \<Rightarrow> json" where
  "healthz_json v c w = JObj [(''ok'', JBool True), (''version'', JStr (lc_version c)), (''busy'', JBool (is_busy (lw_gate w))),
     (''engine'', JStr (lc_engine_name c)), (''modelsRoot'', opt_str (lc_models_root c)),
     (''modelsRootFreeBytes'', case (lc_models_root c, lv_free_bytes v) of (Some _, Some n) \<Rightarrow> JNum (show_nat n) | _ \<Rightarrow> JNull),
     (''gpuRuntime'', case lw_gpu w of None \<Rightarrow> JNull | Some g \<Rightarrow> g)]"

definition job_json :: "(int \<Rightarrow> string) \<Rightarrow> recent_job \<Rightarrow> json" where
  "job_json show_time j =
     (let (status, reason) = (case rj_outcome j of Completed \<Rightarrow> (''completed'', None) | JobFailed r \<Rightarrow> (''failed'', Some r))
      in JObj [(''jobId'', JStr (rj_job_id j)), (''kind'', JStr (task_kind_str (rj_kind j))), (''model'', JStr (rj_model j)),
          (''prompt'', JStr (rj_prompt j)), (''status'', JStr status), (''reason'', opt_str reason),
          (''startedAt'', JStr (show_time (int (rj_started_at j)))), (''finishedAt'', JStr (show_time (int (rj_finished_at j))))])"

definition control_error_text :: "(io_error \<Rightarrow> string) \<Rightarrow> control_error \<Rightarrow> string" where
  "control_error_text show_io e = (case e of
       Invalid r \<Rightarrow> ''invalid config: '' @ cr_field r @ '' '' @ cr_problem r
     | NotSaved io \<Rightarrow> ''config could not be saved: '' @ show_io io
     | NotRejected \<Rightarrow> ''registration is not rejected; nothing to reset'')"

definition paused_reply :: "bool \<Rightarrow> reply" where
  "paused_reply p = respond_json 200 (JObj [(''paused'', JBool p)])"

definition CLIENT_HEADER :: string where "CLIENT_HEADER = ''x-studio-worker-client''"
definition TRAY_CLIENT :: string where "TRAY_CLIENT = ''tray''"

definition from_tray :: "http_request \<Rightarrow> bool" where
  "from_tray r = list_ex (\<lambda>(f, x). eq_ignore_ascii_case f CLIENT_HEADER \<and> x = TRAY_CLIENT) (rq_headers r)"

definition daemon_put_config :: "'m local_env \<Rightarrow> http_request \<Rightarrow> daemon_control \<Rightarrow> reg_world \<Rightarrow> 'm local_world \<Rightarrow> 'm answer" where
  "daemon_put_config v r d rw w = with_body r MAX_BODY_BYTES (ps_config (lv_parse v)) (respond_too_large_capped MAX_BODY_BYTES)
     (\<lambda>e. respond_error 400 ''bad_request'' e) w
     (\<lambda>edit. case update_config (lv_url v) (lv_reg v) edit rw of
        (rw, limit, answer) \<Rightarrow>
          (w\<lparr>lw_control := Some (d, rw), lw_ceilings := (case limit of None \<Rightarrow> [] | Some x \<Rightarrow> [x]) @ lw_ceilings w\<rparr>,
           Replied (case answer of
               Inr saved \<Rightarrow> respond_json 200 (lv_show_config v saved)
             | Inl (Invalid x) \<Rightarrow> respond_error 400 ''invalid_config'' (control_error_text (lv_show_io v) (Invalid x))
             | Inl e \<Rightarrow> respond_error 500 ''config_not_saved'' (control_error_text (lv_show_io v) e))))"

definition daemon_get_status :: "'m local_env \<Rightarrow> local_config \<Rightarrow> string \<Rightarrow> http_request \<Rightarrow> daemon_control \<Rightarrow> reg_world \<Rightarrow> 'm local_world \<Rightarrow> 'm answer" where
  "daemon_get_status v c url r d rw w =
     (let d = (if from_tray r then note_tray_poll (word_of_nat (je_now (lv_job v))) d else d)
      in (w\<lparr>lw_control := Some (d, rw)\<rparr>, Replied (respond_json 200 (lv_show_status v
           (control_status (lc_version c) (lc_pid c) (lc_config_path c) (lw_gpu w) (Some url)
             (word_of_nat (ring_seq (wl_ring (lw_logs w)))) d rw (lw_obs w) (is_busy (lw_gate w)))))))"

definition handle_daemon :: "'m local_env \<Rightarrow> local_config \<Rightarrow> string \<Rightarrow> http_request \<Rightarrow> 'm local_world \<Rightarrow> 'm answer" where
  "handle_daemon v c url r w = (case lw_control w of
       None \<Rightarrow> (w, Replied (respond_json 503 (code_json ''daemon_control_unavailable'')))
     | Some (d, rw) \<Rightarrow>
         (let p = (rq_method r, url_path (rq_url r)); control = (\<lambda>d. w\<lparr>lw_control := Some (d, rw)\<rparr>) in
          if p = (MGet, ''/daemon/status'') then daemon_get_status v c url r d rw w
          else if p = (MGet, ''/daemon/logs'') then
            (let after = (case url_param (rq_url r) ''after'' of None \<Rightarrow> 0 | Some s \<Rightarrow> or_else (parse_uint 64 s) 0);
                 (entries, sq) = recent_logs_after after (wl_ring (lw_logs w))
             in (w, Replied (respond_json 200 (JObj [(''entries'', JArr (map (lv_show_log v) entries)), (''seq'', JNum (show_nat sq))]))))
          else if p = (MPost, ''/daemon/pause'') then (let (d, x) = set_paused True d in (control d, Replied (paused_reply x)))
          else if p = (MPost, ''/daemon/resume'') then (let (d, x) = set_paused False d in (control d, Replied (paused_reply x)))
          else if p = (MGet, ''/daemon/config'') then (w, Replied (respond_json 200 (lv_show_config v (from_config (rw_cfg rw)))))
          else if p = (MPut, ''/daemon/config'') then daemon_put_config v r d rw w
          else if p = (MPost, ''/daemon/registration/reset'') then
            (case request_registration_reset (rw_state rw) (dc_reset_requested d) of
               (flag, x) \<Rightarrow> (control (d\<lparr>dc_reset_requested := flag\<rparr>), Replied (case x of
                   Inr _ \<Rightarrow> respond_json 202 ok_json
                 | Inl e \<Rightarrow> respond_error 409 ''not_rejected'' (control_error_text (lv_show_io v) e))))
          else if p = (MPost, ''/daemon/shutdown'') then (control (control_shutdown d), Replied (respond_json 202 ok_json))
          else (w, Replied (respond_error 404 ''not_found'' ''no such daemon route''))))"

definition handle_job_log :: "'m local_env \<Rightarrow> string \<Rightarrow> 'm local_world \<Rightarrow> 'm answer" where
  "handle_job_log v i w = (w, Replied (case job_log_get i (lw_job_logs w) of
       Some (ls, n) \<Rightarrow> respond_json 200 (JObj [(''lines'', JArr (map (lv_show_line v) ls)), (''dropped'', JNum (show_nat n))])
     | None \<Rightarrow> respond_error 404 ''unknown_job'' ''no log captured for that job''))"

definition handle_job_thumbnail :: "string \<Rightarrow> 'm local_world \<Rightarrow> 'm answer" where
  "handle_job_thumbnail i w = (w, Replied (case thumb_get i (ob_thumbnails (lw_obs w)) of
       Some png \<Rightarrow> respond 200 ''image/png'' (BBytes (map word_of_nat png))
     | None \<Rightarrow> respond_error 404 ''no_thumbnail'' ''no thumbnail for that job''))"

section \<open>Serving\<close>

definition dispatch_route :: "'m local_env \<Rightarrow> local_config \<Rightarrow> string \<Rightarrow> http_request \<Rightarrow> 'm local_world \<Rightarrow> 'm answer" where
  "dispatch_route v c url r w =
     (let p = url_path (rq_url r); e = je_host (lv_job v) in case route_of (rq_method r) p of
        RHealthz \<Rightarrow> (w, Replied (respond_json 200 (healthz_json v c w)))
      | RtImage \<Rightarrow> handle_image v r w
      | RtChat \<Rightarrow> handle_chat v r w
      | RtTokenize \<Rightarrow> handle_tokenize v r w
      | RtTts \<Rightarrow> handle_tts v r w
      | RtStt \<Rightarrow> handle_stt v r w
      | RtVideo \<Rightarrow> handle_video v r w
      | RtListModels \<Rightarrow> handle_list_models v w
      | RtAddModel \<Rightarrow> handle_add_model v c r w
      | RtJobs \<Rightarrow> (w, Replied (respond_json 200 (JArr (map (job_json (lv_show_time v)) (ob_local_jobs (lw_obs w))))))
      | RtStreamToken \<Rightarrow> handle_stream_token v r w
      | RtVoice \<Rightarrow> handle_voice_samples v r p w
      | RtDaemon \<Rightarrow> handle_daemon v c url r w
      | RtJobLog i \<Rightarrow> handle_job_log v i w
      | RtJobThumbnail i \<Rightarrow> handle_job_thumbnail i w
      | RtState i \<Rightarrow> lifecycle_call v 200 (host_status e i) w
      | RtLoad i \<Rightarrow> lifecycle_call v 202 (host_load e i) w
      | RtUnload i \<Rightarrow> lifecycle_call v 202 (host_unload e i) w
      | RtDelete i \<Rightarrow> handle_delete_model v i w
      | RtNotFound \<Rightarrow> (w, Replied (respond_text 404 ''not found''))
      | _ \<Rightarrow> (w, NotModelled))"

definition serve_request :: "'m local_env \<Rightarrow> local_config \<Rightarrow> string \<Rightarrow> http_request \<Rightarrow> 'm local_world \<Rightarrow> 'm answer" where
  "serve_request v c url r w = (case gate_check (lc_token c) r of
       Some d \<Rightarrow> (w, Replied (deny_reply (lv_show_debug v) d))
     | None \<Rightarrow> dispatch_route v c url r w)"

text \<open>A request's outcome.  A panic ends the pool thread it happens on.\<close>

definition settle :: "nat \<Rightarrow> 'm answer \<Rightarrow> 'm local_world" where
  "settle n a = (case a of
       (w, Replied rp) \<Rightarrow> w\<lparr>lw_replies := (n, rp) # lw_replies w\<rparr>
     | (w, Goes st) \<Rightarrow> w\<lparr>lw_stages := (n, st) # lw_stages w\<rparr>
     | (w, GoesStreaming st) \<Rightarrow> w\<lparr>lw_stages := (n, st) # lw_stages w, lw_replies := (n, respond 200 ''text/event-stream'' BEvents) # lw_replies w\<rparr>
     | (w, Panicked) \<Rightarrow> w\<lparr>lw_workers := lw_workers w - 1\<rparr>
     | (w, _) \<Rightarrow> w)"

text \<open>A streamed chat runs on a thread of its own; every other request in progress holds a pool thread.\<close>

definition on_pool :: "'m stage \<Rightarrow> bool" where
  "on_pool st = (case st of
       Spawned _ _ _ _ \<Rightarrow> False
     | LaneWait _ _ _ (LwStream _ _ _) \<Rightarrow> False
     | LaneServe _ _ _ (LwStream _ _ _) _ \<Rightarrow> False
     | _ \<Rightarrow> True)"

definition free_workers :: "'m local_world \<Rightarrow> nat" where
  "free_workers w = lw_workers w - count_if (\<lambda>s. on_pool (snd s)) (lw_stages w)"

datatype 'm local_event =
    Arrive nat http_request
  | EngineReturns nat "(string, task_result) result"
  | LaneGranted nat
  | LaneReturns nat "string list" "(string, json) result"
  | StreamAsks nat
  | DeleteRemoves nat
  | HostRuns "'m host_event"
  | OthersReserve
  | OthersRelease

definition stage_of :: "nat \<Rightarrow> 'm local_world \<Rightarrow> 'm stage option" where
  "stage_of n w = map_of (lw_stages w) n"

definition end_stage :: "nat \<Rightarrow> 'm local_world \<Rightarrow> 'm local_world" where
  "end_stage n w = w\<lparr>lw_stages := filter (\<lambda>s. fst s \<noteq> n) (lw_stages w)\<rparr>"

fun local_step :: "local_config \<Rightarrow> string \<Rightarrow> (nat \<Rightarrow> bool) \<Rightarrow> 'm local_env \<Rightarrow> 'm local_event \<Rightarrow> 'm local_world \<Rightarrow> 'm local_world option" where
  "local_step c url sends v (Arrive n r) w =
     (if free_workers w = 0 \<or> stage_of n w \<noteq> None then None else Some (settle n (serve_request v c url r w)))"
| "local_step c url sends v (EngineReturns n a) w = (case stage_of n w of
       Some (Working kind lj) \<Rightarrow> Some (settle n (engine_returns v kind lj a (end_stage n w)))
     | _ \<Rightarrow> None)"
| "local_step c url sends v (LaneGranted n) w = (case stage_of n w of
       Some (LaneWait i m l work) \<Rightarrow>
         if Waiting i l \<in> set (h_requests (lw_host w)) \<and> \<not> lane.busy (h_lanes (lw_host w) l)
         then Some (settle n (lane_granted v sends n i m l work (end_stage n w))) else None
     | _ \<Rightarrow> None)"
| "local_step c url sends v (LaneReturns n pieces a) w = (case stage_of n w of
       Some (LaneServe i m l work j) \<Rightarrow> Some (settle n (lane_returns v sends n i l work j pieces a (end_stage n w)))
     | _ \<Rightarrow> None)"
| "local_step c url sends v (StreamAsks n) w = (case stage_of n w of
       Some (Spawned i preview p deadline) \<Rightarrow> Some (settle n (stream_asks v sends n i preview p deadline (end_stage n w)))
     | _ \<Rightarrow> None)"
| "local_step c url sends v (DeleteRemoves n) w = (case stage_of n w of
       Some (Deleting i) \<Rightarrow> Some (settle n (delete_removes v c i (end_stage n w)))
     | _ \<Rightarrow> None)"
| "local_step c url sends v (HostRuns e) w =
     map_option (\<lambda>h. w\<lparr>lw_host := h\<rparr>) (host_step (je_host (lv_job v)) e (lw_host w))"
| "local_step c url sends v OthersReserve w = (case try_reserve (lw_gate w) of
       (g, None) \<Rightarrow> Some (w\<lparr>lw_gate := g\<rparr>)
     | (g, Some _) \<Rightarrow> Some (w\<lparr>lw_gate := g, lw_others := Suc (lw_others w)\<rparr>))"
| "local_step c url sends v OthersRelease w =
     (if lw_others w = 0 then None
      else Some (w\<lparr>lw_gate := drop_reservation JobReservation (lw_gate w), lw_others := lw_others w - 1\<rparr>))"

end
