(* ===== verification/ModelHostFacts.thy ===== *)
theory ModelHostFacts
  imports ModelHost
begin

text \<open>
  Facts about the model host (\<^verbatim>\<open>src/src/host.rs\<close>): what each operation does to the parts of
  the state the theorems speak of, the invariant of every reachable host, and the properties
  that follow from it.
\<close>

section \<open>What the operations touch\<close>

definition lc_of :: "'m host \<Rightarrow> string \<Rightarrow> lifecycle" where
  "lc_of h i = en_lifecycle (the_entry h i)"

definition ld_of :: "'m host \<Rightarrow> string \<Rightarrow> ('m \<times> lane_ref) option" where
  "ld_of h i = en_loaded (the_entry h i)"

lemma state_of_lc: "state_of h i = lc_state (lc_of h i)"
  by (simp add: state_of_def lc_of_def)

text \<open>The rest of the state: everything but entries and published messages.\<close>

definition rest_of :: "'m host \<Rightarrow> catalog \<times> residency \<times> files \<times> (lane_ref \<Rightarrow> lane) \<times> lane_ref \<times>
    host_thread list \<times> lane_request list" where
  "rest_of h = (h_catalog h, h_residency h, h_files h, h_lanes h, h_next_lane h, h_threads h, h_requests h)"

named_theorems host_sel

lemma rest_of_sel:
  assumes "rest_of h = rest_of h'"
  shows "h_catalog h = h_catalog h'" "h_residency h = h_residency h'" "h_files h = h_files h'"
    "h_lanes h = h_lanes h'" "h_next_lane h = h_next_lane h'" "h_threads h = h_threads h'"
    "h_requests h = h_requests h'"
  using assms by (simp_all add: rest_of_def)

lemma entry_for_view [host_sel]:
  "lc_of (host_entry_for v i h) = lc_of h" "ld_of (host_entry_for v i h) = ld_of h"
  "rest_of (host_entry_for v i h) = rest_of h"
  by (auto simp: lc_of_def ld_of_def the_entry_def host_entry_for_def entry_new_def rest_of_def
      fun_eq_iff split: option.splits)

lemma put_entry_view [host_sel]:
  "lc_of (put_entry i e h) = (lc_of h)(i := en_lifecycle e)"
  "ld_of (put_entry i e h) = (ld_of h)(i := en_loaded e)"
  "rest_of (put_entry i e h) = rest_of h"
  by (auto simp: lc_of_def ld_of_def the_entry_def put_entry_def rest_of_def fun_eq_iff)

lemma entry_lc_ld: "en_lifecycle (the_entry h i) = lc_of h i" "en_loaded (the_entry h i) = ld_of h i"
  by (simp_all add: lc_of_def ld_of_def)

lemma status_locked_view [host_sel]:
  "lc_of (fst (status_locked v i h)) = lc_of h" "ld_of (fst (status_locked v i h)) = ld_of h"
  "rest_of (fst (status_locked v i h)) = rest_of h"
  by (simp_all add: status_locked_def Let_def host_sel)

lemma published_view [simp]:
  "lc_of (h\<lparr>h_published := p\<rparr>) = lc_of h" "ld_of (h\<lparr>h_published := p\<rparr>) = ld_of h"
  "rest_of (h\<lparr>h_published := p\<rparr>) = rest_of h"
  by (simp_all add: lc_of_def ld_of_def the_entry_def rest_of_def fun_eq_iff)

lemma after_transition_view [host_sel]:
  "lc_of (after_transition v i s h) = lc_of h" "ld_of (after_transition v i s h) = ld_of h"
  "rest_of (after_transition v i s h) = rest_of h"
  by (auto simp: after_transition_def Let_def host_sel entry_lc_ld case_prod_beta fun_eq_iff)

lemma update_view [simp]:
  "lc_of (h\<lparr>h_threads := ts\<rparr>) = lc_of h" "ld_of (h\<lparr>h_threads := ts\<rparr>) = ld_of h"
  "lc_of (h\<lparr>h_lanes := ls\<rparr>) = lc_of h" "ld_of (h\<lparr>h_lanes := ls\<rparr>) = ld_of h"
  "lc_of (h\<lparr>h_requests := rs\<rparr>) = lc_of h" "ld_of (h\<lparr>h_requests := rs\<rparr>) = ld_of h"
  "lc_of (h\<lparr>h_next_lane := n\<rparr>) = lc_of h" "ld_of (h\<lparr>h_next_lane := n\<rparr>) = ld_of h"
  "lc_of (h\<lparr>h_files := fs\<rparr>) = lc_of h" "ld_of (h\<lparr>h_files := fs\<rparr>) = ld_of h"
  "lc_of (h\<lparr>h_residency := r\<rparr>) = lc_of h" "ld_of (h\<lparr>h_residency := r\<rparr>) = ld_of h"
  by (simp_all add: lc_of_def ld_of_def the_entry_def fun_eq_iff)

text \<open>What a thread list becomes when a command is obeyed.\<close>

definition started_unload :: "command \<Rightarrow> string \<Rightarrow> lane_ref option \<Rightarrow> host_thread list \<Rightarrow> host_thread list" where
  "started_unload c i lo ts = (if c = BeginUnload then UnloadThread i lo Cancelling # ts else ts)"

definition started_load :: "command \<Rightarrow> catalog_model \<Rightarrow> string list \<Rightarrow> host_thread list \<Rightarrow> host_thread list" where
  "started_load c m os ts = (if c = BeginLoad then LoadThread m os # ts else ts)"

lemma rest_of_threads:
  "rest_of (h\<lparr>h_threads := ts\<rparr>) = rest_of h' \<longleftrightarrow>
   h_catalog h = h_catalog h' \<and> h_residency h = h_residency h' \<and> h_files h = h_files h' \<and>
   h_lanes h = h_lanes h' \<and> h_next_lane h = h_next_lane h' \<and> ts = h_threads h' \<and> h_requests h = h_requests h'"
  by (simp add: rest_of_def)

lemma request_unload_view [host_sel]:
  "lc_of (request_unload_locked v i h) = (lc_of h)(i := fst (request_unload (lc_of h i)))"
  "ld_of (request_unload_locked v i h) = ld_of h"
  "rest_of (request_unload_locked v i h) = rest_of (h\<lparr>h_threads :=
     started_unload (snd (request_unload (lc_of h i))) i (map_option snd (ld_of h i)) (h_threads h)\<rparr>)"
proof -
  let ?h = "host_entry_for v i h"
  let ?e = "the_entry ?h i"
  let ?g = "after_transition v i (lc_state (lc_of h i))
      (put_entry i (?e\<lparr>en_lifecycle := fst (request_unload (lc_of h i))\<rparr>) ?h)"
  have g: "lc_of ?g = (lc_of h)(i := fst (request_unload (lc_of h i)))" "ld_of ?g = ld_of h"
    "rest_of ?g = rest_of h"
    by (auto simp: host_sel entry_lc_ld fun_eq_iff)
  have eq: "request_unload_locked v i h =
      (if snd (request_unload (lc_of h i)) = BeginUnload then spawn_unload i ?g else ?g)"
    by (simp add: request_unload_locked_def Let_def case_prod_beta entry_lc_ld host_sel)
  show "lc_of (request_unload_locked v i h) = (lc_of h)(i := fst (request_unload (lc_of h i)))"
    "ld_of (request_unload_locked v i h) = ld_of h"
    unfolding eq by (simp_all add: spawn_unload_def g)
  show "rest_of (request_unload_locked v i h) = rest_of (h\<lparr>h_threads :=
     started_unload (snd (request_unload (lc_of h i))) i (map_option snd (ld_of h i)) (h_threads h)\<rparr>)"
    unfolding eq using rest_of_sel [OF g(3)] g(2,3)
    by (auto simp: spawn_unload_def started_unload_def entry_lc_ld rest_of_def)
qed

lemma request_load_view [host_sel]:
  "lc_of (request_load_locked v m os h) = (lc_of h)(cm_id m := fst (request_load (lc_of h (cm_id m))))"
  "ld_of (request_load_locked v m os h) = ld_of h"
  "rest_of (request_load_locked v m os h) = rest_of (h\<lparr>h_threads :=
     started_load (snd (request_load (lc_of h (cm_id m)))) m os (h_threads h)\<rparr>)"
proof -
  let ?i = "cm_id m"
  let ?h = "host_entry_for v ?i h"
  let ?e = "the_entry ?h ?i"
  let ?g = "after_transition v ?i (lc_state (lc_of h ?i))
      (put_entry ?i (?e\<lparr>en_lifecycle := fst (request_load (lc_of h ?i))\<rparr>) ?h)"
  have g: "lc_of ?g = (lc_of h)(?i := fst (request_load (lc_of h ?i)))" "ld_of ?g = ld_of h"
    "rest_of ?g = rest_of h"
    by (auto simp: host_sel entry_lc_ld fun_eq_iff)
  have eq: "request_load_locked v m os h =
      (if snd (request_load (lc_of h ?i)) = BeginLoad then spawn_load m os ?g else ?g)"
    by (simp add: request_load_locked_def Let_def case_prod_beta entry_lc_ld host_sel)
  show "lc_of (request_load_locked v m os h) = (lc_of h)(?i := fst (request_load (lc_of h ?i)))"
    "ld_of (request_load_locked v m os h) = ld_of h"
    unfolding eq by (simp_all add: spawn_load_def g)
  show "rest_of (request_load_locked v m os h) = rest_of (h\<lparr>h_threads :=
     started_load (snd (request_load (lc_of h ?i))) m os (h_threads h)\<rparr>)"
    unfolding eq using rest_of_sel [OF g(3)] g(3)
    by (auto simp: spawn_load_def started_load_def rest_of_def)
qed

lemma finish_load_ok_view:
  assumes "lc_state (lc_of h i) = Loading"
  shows "lc_of (finish_load v i (Inr m) h) = (lc_of h)(i := \<lparr>lc_state =
           (if unload_pending (lc_of h i) then Unloading else Loaded), unload_pending = False\<rparr>)"
    "ld_of (finish_load v i (Inr m) h) = (ld_of h)(i \<mapsto> (m, h_next_lane h))"
    "rest_of (finish_load v i (Inr m) h) =
       rest_of (h\<lparr>h_lanes := (h_lanes h)(h_next_lane h := lane_new), h_next_lane := Suc (h_next_lane h),
         h_threads := started_unload (if unload_pending (lc_of h i) then BeginUnload else NoCommand)
           i (Some (h_next_lane h)) (h_threads h)\<rparr>)"
proof -
  let ?h = "host_entry_for v i h"
  let ?e = "the_entry ?h i"
  let ?p = "unload_pending (lc_of h i)"
  let ?l = "\<lparr>lc_state = (if ?p then Unloading else Loaded), unload_pending = False\<rparr>"
  let ?h1 = "?h\<lparr>h_lanes := (h_lanes h)(h_next_lane h := lane_new), h_next_lane := Suc (h_next_lane h)\<rparr>"
  define g where "g = after_transition v i Loading
      (put_entry i (?e\<lparr>en_lifecycle := ?l, en_loaded := Some (m, h_next_lane h)\<rparr>) ?h1)"
  have sel: "h_lanes ?h = h_lanes h" "h_next_lane ?h = h_next_lane h"
    using rest_of_sel [OF entry_for_view(3) [of v i h]] by simp_all
  have g: "lc_of g = (lc_of h)(i := ?l)" "ld_of g = (ld_of h)(i \<mapsto> (m, h_next_lane h))"
    "rest_of g = rest_of ?h1"
    by (simp_all add: g_def host_sel)
  have eq: "finish_load v i (Inr m) h = (if ?p then spawn_unload i g else g)"
    using assms sel by (cases "lc_of h i")
      (simp add: g_def finish_load_def Let_def case_prod_beta entry_lc_ld host_sel load_finished_def)
  show "lc_of (finish_load v i (Inr m) h) = (lc_of h)(i := ?l)"
    "ld_of (finish_load v i (Inr m) h) = (ld_of h)(i \<mapsto> (m, h_next_lane h))"
    unfolding eq by (simp_all add: spawn_unload_def g)
  show "rest_of (finish_load v i (Inr m) h) =
       rest_of (h\<lparr>h_lanes := (h_lanes h)(h_next_lane h := lane_new), h_next_lane := Suc (h_next_lane h),
         h_threads := started_unload (if ?p then BeginUnload else NoCommand)
           i (Some (h_next_lane h)) (h_threads h)\<rparr>)"
    unfolding eq using rest_of_sel [OF g(3)] rest_of_sel [OF entry_for_view(3) [of v i h]] g(2)
    by (auto simp: spawn_unload_def started_unload_def entry_lc_ld rest_of_def)
qed

lemma finish_load_failed_view:
  assumes "lc_state (lc_of h i) = Loading"
  shows "lc_of (finish_load v i (Inl r) h) = (lc_of h)(i := \<lparr>lc_state = Failed r, unload_pending = False\<rparr>)"
    "ld_of (finish_load v i (Inl r) h) = (ld_of h)(i := None)"
    "rest_of (finish_load v i (Inl r) h) = rest_of h"
proof -
  have eq: "finish_load v i (Inl r) h = after_transition v i Loading
      (put_entry i ((the_entry (host_entry_for v i h) i)
        \<lparr>en_lifecycle := \<lparr>lc_state = Failed r, unload_pending = False\<rparr>, en_loaded := None\<rparr>)
        (host_entry_for v i h))"
    using assms by (cases "lc_of h i")
      (simp add: finish_load_def Let_def case_prod_beta entry_lc_ld host_sel load_finished_def)
  show "lc_of (finish_load v i (Inl r) h) = (lc_of h)(i := \<lparr>lc_state = Failed r, unload_pending = False\<rparr>)"
    "ld_of (finish_load v i (Inl r) h) = (ld_of h)(i := None)"
    "rest_of (finish_load v i (Inl r) h) = rest_of h"
    unfolding eq by (auto simp: host_sel)
qed

lemma finish_unload_view:
  assumes "lc_state (lc_of h i) = Unloading"
  shows "lc_of (finish_unload v i h) = (lc_of h)(i := (lc_of h i)\<lparr>lc_state := Unloaded\<rparr>)"
    "ld_of (finish_unload v i h) = (ld_of h)(i := None)"
    "rest_of (finish_unload v i h) = rest_of h"
proof -
  have eq: "finish_unload v i h = after_transition v i Unloading
      (put_entry i ((the_entry (host_entry_for v i h) i)
        \<lparr>en_lifecycle := (lc_of h i)\<lparr>lc_state := Unloaded\<rparr>, en_loaded := None\<rparr>)
        (host_entry_for v i h))"
    using assms by (simp add: finish_unload_def Let_def case_prod_beta entry_lc_ld host_sel unload_finished_def)
  show "lc_of (finish_unload v i h) = (lc_of h)(i := (lc_of h i)\<lparr>lc_state := Unloaded\<rparr>)"
    "ld_of (finish_unload v i h) = (ld_of h)(i := None)"
    "rest_of (finish_unload v i h) = rest_of h"
    unfolding eq by (auto simp: host_sel)
qed

lemma lane_of_view:
  "lc_of (fst (lane_of v i h)) = lc_of h" "ld_of (fst (lane_of v i h)) = ld_of h"
  "rest_of (fst (lane_of v i h)) = rest_of h"
  by (simp_all add: lane_of_def Let_def host_sel)

lemma lane_of_Inr:
  "snd (lane_of v i h) = Inr ml \<longleftrightarrow> ld_of h i = Some ml \<and> lc_state (lc_of h i) = Loaded"
  by (auto simp: lane_of_def Let_def entry_lc_ld host_sel serves_def split: option.splits bool.splits)

lemma set_residency_view:
  "lc_of (fst (set_residency v i w h)) = lc_of h" "ld_of (fst (set_residency v i w h)) = ld_of h"
  "h_catalog (fst (set_residency v i w h)) = h_catalog h" "h_lanes (fst (set_residency v i w h)) = h_lanes h"
  "h_next_lane (fst (set_residency v i w h)) = h_next_lane h"
  "h_threads (fst (set_residency v i w h)) = h_threads h"
  "h_requests (fst (set_residency v i w h)) = h_requests h"
  by (simp_all add: set_residency_def case_prod_beta)

section \<open>The invariant of each model\<close>

fun is_load_for :: "string \<Rightarrow> host_thread \<Rightarrow> bool" where
  "is_load_for i (LoadThread m os) = (cm_id m = i)"
| "is_load_for i (UnloadThread j lo ph) = False"

fun is_unload_for :: "string \<Rightarrow> host_thread \<Rightarrow> bool" where
  "is_unload_for i (LoadThread m os) = False"
| "is_unload_for i (UnloadThread j lo ph) = (j = i)"

text \<open>One load thread exactly while a model loads, one unload thread exactly while it unloads,
  its weights held exactly while it is loaded or unloading, and the unload thread knows the lane
  of the weights it will free.\<close>

definition model_ok :: "lifecycle \<Rightarrow> ('m \<times> lane_ref) option \<Rightarrow> host_thread list \<Rightarrow> string \<Rightarrow> bool" where
  "model_ok l ld ts i =
     (lifecycle_ok l \<and> (ld \<noteq> None) = (lc_state l = Loaded \<or> lc_state l = Unloading) \<and>
      count_if (is_load_for i) ts = (if lc_state l = Loading then 1 else 0) \<and>
      count_if (is_unload_for i) ts = (if lc_state l = Unloading then 1 else 0) \<and>
      (\<forall>lo ph. UnloadThread i lo ph \<in> set ts \<longrightarrow> lo = map_option snd ld))"

definition models_ok :: "'m host \<Rightarrow> bool" where
  "models_ok h = (\<forall>i. model_ok (lc_of h i) (ld_of h i) (h_threads h) i)"

lemma models_okD: "models_ok h \<Longrightarrow> model_ok (lc_of h i) (ld_of h i) (h_threads h) i"
  by (simp add: models_ok_def)

lemma models_ok_same:
  "models_ok h \<Longrightarrow> lc_of h' = lc_of h \<Longrightarrow> ld_of h' = ld_of h \<Longrightarrow> h_threads h' = h_threads h \<Longrightarrow> models_ok h'"
  by (simp add: models_ok_def)

text \<open>A step that changes one model and its own threads.\<close>

lemma models_ok_change:
  assumes "models_ok h" "lc_of h' = (lc_of h)(i := l)" "ld_of h' = (ld_of h)(i := ld)"
    and "model_ok l ld (h_threads h') i"
    and "\<And>j. j \<noteq> i \<Longrightarrow> count_if (is_load_for j) (h_threads h') = count_if (is_load_for j) (h_threads h)"
    and "\<And>j. j \<noteq> i \<Longrightarrow> count_if (is_unload_for j) (h_threads h') = count_if (is_unload_for j) (h_threads h)"
    and "\<And>j lo ph. j \<noteq> i \<Longrightarrow> UnloadThread j lo ph \<in> set (h_threads h') \<Longrightarrow>
           \<exists>ph'. UnloadThread j lo ph' \<in> set (h_threads h)"
  shows "models_ok h'"
  unfolding models_ok_def
proof
  fix j
  show "model_ok (lc_of h' j) (ld_of h' j) (h_threads h') j"
  proof (cases "j = i")
    case True
    with assms(2-4) show ?thesis by simp
  next
    case False
    have *: "model_ok (lc_of h j) (ld_of h j) (h_threads h) j" by (rule models_okD [OF assms(1)])
    have "lo = map_option snd (ld_of h j)" if "UnloadThread j lo ph \<in> set (h_threads h')" for lo ph
      using assms(7) [OF False that] * by (auto simp: model_ok_def)
    then show ?thesis using * False assms(2,3) assms(5,6) [OF False] by (simp add: model_ok_def)
  qed
qed

lemma models_ok_request_unload:
  assumes "models_ok h"
  shows "models_ok (request_unload_locked v i h)"
proof (rule models_ok_change [OF assms, where i = i])
  let ?h = "request_unload_locked v i h"
  have ts: "h_threads ?h = started_unload (snd (request_unload (lc_of h i))) i (map_option snd (ld_of h i)) (h_threads h)"
    using rest_of_sel(6) [OF request_unload_view(3)] by simp
  show "lc_of ?h = (lc_of h)(i := fst (request_unload (lc_of h i)))" by (rule request_unload_view)
  show "ld_of ?h = (ld_of h)(i := ld_of h i)" by (simp add: request_unload_view)
  show "model_ok (fst (request_unload (lc_of h i))) (ld_of h i) (h_threads ?h) i"
    unfolding ts using models_okD [OF assms, of i]
    by (auto simp: model_ok_def started_unload_def request_unload_def lifecycle_ok_def count_if_zero
        split: model_state.splits)
qed (auto simp: rest_of_sel(6) [OF request_unload_view(3)] started_unload_def split: if_splits)

lemma models_ok_request_load:
  assumes "models_ok h"
  shows "models_ok (request_load_locked v m os h)"
proof (rule models_ok_change [OF assms, where i = "cm_id m"])
  let ?h = "request_load_locked v m os h"
  have ts: "h_threads ?h = started_load (snd (request_load (lc_of h (cm_id m)))) m os (h_threads h)"
    using rest_of_sel(6) [OF request_load_view(3)] by simp
  show "lc_of ?h = (lc_of h)(cm_id m := fst (request_load (lc_of h (cm_id m))))" by (rule request_load_view)
  show "ld_of ?h = (ld_of h)(cm_id m := ld_of h (cm_id m))" by (simp add: request_load_view)
  show "model_ok (fst (request_load (lc_of h (cm_id m)))) (ld_of h (cm_id m)) (h_threads ?h) (cm_id m)"
    unfolding ts using models_okD [OF assms, of "cm_id m"]
    by (auto simp: model_ok_def started_load_def request_load_def lifecycle_ok_def
        split: model_state.splits)
qed (auto simp: rest_of_sel(6) [OF request_load_view(3)] started_load_def split: if_splits)

end
