(* ===== verification/HostInvariant.thy ===== *)
theory HostInvariant
  imports ModelHostFacts
begin

text \<open>
  The invariant of every reachable model host, and the safety properties it gives: one load or
  unload per model, residency follows what is kept in memory, one member of an exclusive group
  is kept, a lane serves one request, and weights are freed only when no request uses them.
\<close>

section \<open>Lanes\<close>

fun is_serving :: "lane_ref \<Rightarrow> lane_request \<Rightarrow> bool" where
  "is_serving l (Serving i k) = (k = l)"
| "is_serving l (Waiting i k) = False"

fun request_lane :: "lane_request \<Rightarrow> lane_ref" where
  "request_lane (Serving i l) = l"
| "request_lane (Waiting i l) = l"

fun thread_lane :: "host_thread \<Rightarrow> lane_ref option" where
  "thread_lane (UnloadThread i lo ph) = lo"
| "thread_lane (LoadThread m os) = None"

lemma in_remove1: "x \<in> set (remove1 y xs) \<Longrightarrow> x \<in> set xs"
  by (meson notin_set_remove1)

lemma is_serving_lane: "is_serving l r \<Longrightarrow> request_lane r = l"
  by (cases r) simp_all

text \<open>Every lane in use was made; a lane is busy exactly while one request serves on it; an
  unload past its first step has raised the cancel flag; and one that drained in time has an
  idle lane.\<close>

definition lanes_ok :: "(lane_ref \<Rightarrow> lane) \<Rightarrow> lane_ref \<Rightarrow> host_thread list \<Rightarrow> lane_request list \<Rightarrow>
    (string \<Rightarrow> ('m \<times> lane_ref) option) \<Rightarrow> bool" where
  "lanes_ok ls n ts rs ld =
     ((\<forall>r \<in> set rs. request_lane r < n) \<and> (\<forall>i m l. ld i = Some (m, l) \<longrightarrow> l < n) \<and>
      (\<forall>t \<in> set ts. \<forall>l. thread_lane t = Some l \<longrightarrow> l < n) \<and>
      (\<forall>l. count_if (is_serving l) rs = (if busy (ls l) then 1 else 0)) \<and>
      (\<forall>i l. UnloadThread i (Some l) Draining \<in> set ts \<longrightarrow> cancel (ls l)) \<and>
      (\<forall>i l b. UnloadThread i (Some l) (Freeing b) \<in> set ts \<longrightarrow> cancel (ls l) \<and> (b \<longrightarrow> \<not> busy (ls l))))"

definition host_lanes_ok :: "'m host \<Rightarrow> bool" where
  "host_lanes_ok h = lanes_ok (h_lanes h) (h_next_lane h) (h_threads h) (h_requests h) (ld_of h)"

section \<open>What is kept in memory\<close>

text \<open>A model is kept when it is loaded, or is loading with no unload to follow.\<close>

definition kept :: "lifecycle \<Rightarrow> bool" where
  "kept l = (lc_state l = Loaded \<or> lc_state l = Loading \<and> \<not> unload_pending l)"

definition kept_resident :: "'m host \<Rightarrow> bool" where
  "kept_resident h = (\<forall>i. kept (lc_of h i) \<longrightarrow> is_resident (h_residency h) i)"

definition same_group :: "catalog \<Rightarrow> string \<Rightarrow> string \<Rightarrow> bool" where
  "same_group c i j = (case (cat_get c i, cat_get c j) of
       (Some a, Some b) \<Rightarrow> cm_exclusive_group a \<noteq> None \<and> cm_exclusive_group a = cm_exclusive_group b
     | _ \<Rightarrow> False)"

definition groups_ok :: "'m host \<Rightarrow> bool" where
  "groups_ok h = (\<forall>i j. i \<noteq> j \<longrightarrow> same_group (h_catalog h) i j \<longrightarrow>
     \<not> (kept (lc_of h i) \<and> kept (lc_of h j)))"

definition host_ok :: "'m host \<Rightarrow> bool" where
  "host_ok h = (models_ok h \<and> host_lanes_ok h \<and> kept_resident h \<and> groups_ok h \<and> ids_distinct (h_catalog h))"

lemma host_ok_new: "ids_distinct c \<Longrightarrow> host_ok (host_new c r fs)"
  by (simp add: host_ok_def models_ok_def model_ok_def host_lanes_ok_def lanes_ok_def kept_resident_def
      groups_ok_def lc_of_def ld_of_def the_entry_def host_new_def entry_new_def kept_def
      lifecycle_ok_new) (simp add: lifecycle_new_def lane_new_def)

text \<open>Nothing but entries' times and published messages changes.\<close>

lemma host_ok_same:
  "host_ok h \<Longrightarrow> lc_of h' = lc_of h \<Longrightarrow> ld_of h' = ld_of h \<Longrightarrow> rest_of h' = rest_of h \<Longrightarrow> host_ok h'"
  using rest_of_sel [of h' h]
  by (simp add: host_ok_def models_ok_def host_lanes_ok_def kept_resident_def groups_ok_def)

section \<open>Every operation keeps it\<close>

lemma kept_request_unload: "\<not> kept (fst (request_unload l))"
  by (simp add: kept_def request_unload_def split: model_state.splits)

lemma kept_request_load: "kept (fst (request_load l)) \<Longrightarrow> kept l \<or> lc_state l \<in> {Loading, Unloaded} \<or> (\<exists>r. lc_state l = Failed r)"
  by (simp add: kept_def request_load_def split: model_state.splits)

lemma request_unload_lanes_ok:
  assumes "models_ok h" "host_lanes_ok h"
  shows "host_lanes_ok (request_unload_locked v i h)"
proof -
  note sel = rest_of_sel [OF request_unload_view(3) [of v i h]]
  show ?thesis using assms(2) sel
    by (cases "ld_of h i")
      (auto simp: host_lanes_ok_def lanes_ok_def started_unload_def request_unload_view(2))
qed

lemma host_ok_request_unload:
  assumes "host_ok h"
  shows "host_ok (request_unload_locked v i h)"
  using assms models_ok_request_unload [of h v i] request_unload_lanes_ok [of h v i]
    rest_of_sel [OF request_unload_view(3) [of v i h]]
  by (auto simp: host_ok_def kept_resident_def groups_ok_def request_unload_view(1) kept_request_unload)

lemma request_load_lanes_ok:
  "host_lanes_ok h \<Longrightarrow> host_lanes_ok (request_load_locked v m os h)"
  using rest_of_sel [OF request_load_view(3) [of v m os h]]
  by (auto simp: host_lanes_ok_def lanes_ok_def started_load_def request_load_view(2))

lemma host_ok_request_load:
  assumes "host_ok h" and "is_resident (h_residency h) (cm_id m)"
    and "\<And>j. j \<noteq> cm_id m \<Longrightarrow> same_group (h_catalog h) (cm_id m) j \<Longrightarrow> \<not> kept (lc_of h j)"
  shows "host_ok (request_load_locked v m os h)"
proof -
  note sel = rest_of_sel [OF request_load_view(3) [of v m os h]]
  have sym: "same_group c a b = same_group c b a" for c a b
    by (simp add: same_group_def split: option.splits) metis
  have "groups_ok (request_load_locked v m os h)"
    using assms(1,3) sel sym
    by (auto simp: host_ok_def groups_ok_def request_load_view(1))
  then show ?thesis
    using assms(1,2) models_ok_request_load [of h v m os] request_load_lanes_ok [of h v m os] sel
    by (auto simp: host_ok_def kept_resident_def request_load_view(1))
qed

text \<open>Changing residency never makes a kept model non-resident, unless it is the one named.\<close>

lemma set_residency_is_resident:
  assumes "j \<noteq> i \<or> w"
    and "is_resident (h_residency h) j"
  shows "is_resident (h_residency (fst (set_residency v i w h))) j"
  using assms
  by (auto simp: set_residency_def set_resident_def is_resident_def Let_def set_insort_insert
      split: option.splits sum.splits prod.splits if_splits)

lemma set_residency_error:
  "snd (set_residency v i w h) = Inl e \<Longrightarrow> h_residency (fst (set_residency v i w h)) = h_residency h"
  by (auto simp: set_residency_def set_resident_def Let_def
      split: option.splits sum.splits prod.splits if_splits)

lemma host_ok_residency:
  assumes "host_ok h"
    and "lc_of h' = lc_of h" "ld_of h' = ld_of h" "h_catalog h' = h_catalog h" "h_lanes h' = h_lanes h"
      "h_next_lane h' = h_next_lane h" "h_threads h' = h_threads h" "h_requests h' = h_requests h"
    and "\<And>j. kept (lc_of h j) \<Longrightarrow> is_resident (h_residency h) j \<Longrightarrow> is_resident (h_residency h') j"
  shows "host_ok h'"
  using assms by (simp add: host_ok_def models_ok_def host_lanes_ok_def kept_resident_def groups_ok_def)

lemma host_ok_set_residency_True:
  "host_ok h \<Longrightarrow> host_ok (fst (set_residency v i True h))"
  by (erule host_ok_residency) (simp_all add: set_residency_view set_residency_is_resident)

lemma host_ok_set_residency_error:
  "host_ok h \<Longrightarrow> set_residency v i w h = (h', Inl e) \<Longrightarrow> host_ok h'"
  using set_residency_error [of v i w h e] set_residency_view [of v i w h]
  by (auto intro: host_ok_residency)

lemma host_ok_unload_pair:
  assumes "host_ok h" "set_residency v i False h = (h', Inr u)"
  shows "host_ok (request_unload_locked v i h')"
proof -
  have h': "h' = fst (set_residency v i False h)" using assms(2) by simp
  note sel = rest_of_sel [OF request_unload_view(3) [of v i h']]
  note rv = set_residency_view [of v i False h, folded h']
  have "models_ok h'" using assms(1) rv by (simp add: host_ok_def models_ok_def)
  moreover have lanes: "host_lanes_ok h'" using assms(1) rv by (simp add: host_ok_def host_lanes_ok_def)
  moreover have "is_resident (h_residency h') j" if "kept (lc_of (request_unload_locked v i h') j)" for j
  proof -
    have "j \<noteq> i" using that by (auto simp: request_unload_view kept_request_unload)
    with that have "kept (lc_of h j)" by (simp add: request_unload_view rv)
    then show ?thesis using assms(1) \<open>j \<noteq> i\<close> h'
      by (auto simp: host_ok_def kept_resident_def intro: set_residency_is_resident)
  qed
  ultimately show ?thesis
    using assms(1) sel rv models_ok_request_unload [of h' v i] request_unload_lanes_ok [of h' v i]
    by (auto simp: host_ok_def kept_resident_def groups_ok_def request_unload_view(1) kept_request_unload)
qed

text \<open>The swap: every model of the list ends not kept, the others are as before.\<close>

lemma swap_each_ok:
  "host_ok h \<Longrightarrow> swap_each v os h = (h', r) \<Longrightarrow>
   host_ok h' \<and> h_catalog h' = h_catalog h \<and>
   (\<forall>j. j \<notin> set os \<longrightarrow> lc_of h' j = lc_of h j \<and> (is_resident (h_residency h) j \<longrightarrow> is_resident (h_residency h') j)) \<and>
   (\<forall>u. r = Inr u \<longrightarrow> (\<forall>j \<in> set os. \<not> kept (lc_of h' j)))"
proof (induction os arbitrary: h)
  case Nil
  then show ?case by simp
next
  case (Cons i os)
  obtain h1 r1 where s: "set_residency v i False h = (h1, r1)" by fastforce
  then have h1: "h1 = fst (set_residency v i False h)" by simp
  note rv = set_residency_view [of v i False h, folded h1]
  show ?case
  proof (cases r1)
    case (Inl e)
    with Cons.prems s have eq: "h' = h1" "r = Inl e" by simp_all
    have "host_ok h1" using host_ok_set_residency_error Cons.prems(1) s Inl by blast
    then show ?thesis using eq rv h1 by (auto intro: set_residency_is_resident)
  next
    case (Inr u)
    let ?g = "request_unload_locked v i h1"
    note sel = rest_of_sel [OF request_unload_view(3) [of v i h1]]
    have ok: "host_ok ?g" using host_ok_unload_pair Cons.prems(1) s Inr by blast
    have run: "swap_each v os ?g = (h', r)" using Cons.prems(2) s Inr by simp
    note ih = Cons.IH [OF ok run]
    have gi: "\<not> kept (lc_of ?g i)" by (simp add: request_unload_view kept_request_unload)
    have "\<not> kept (lc_of h' i)" if "r = Inr w" for w
      using ih gi that by (cases "i \<in> set os") auto
    moreover have "lc_of h' j = lc_of h j \<and> (is_resident (h_residency h) j \<longrightarrow> is_resident (h_residency h') j)"
      if "j \<notin> set (i # os)" for j
      using ih that sel rv h1 set_residency_is_resident [of j i False h v]
      by (auto simp: request_unload_view)
    ultimately show ?thesis using ih sel rv by auto
  qed
qed

lemma cat_get_listed: "cat_get c j = Some m \<Longrightarrow> m \<in> set (cat_list c) \<and> cm_id m = j"
  by (auto simp: cat_get_def cat_list_def dest!: find_SomeD)

lemma catalogue_model_Inr: "catalogue_model h i = Inr m \<Longrightarrow> cat_get (h_catalog h) i = Some m \<and> cm_id m = i"
  by (auto simp: catalogue_model_def dest: cat_get_listed split: option.splits)

text \<open>Every kept member of the model's group is in the swap list.\<close>

lemma kept_in_swap_out:
  assumes "cat_get (h_catalog h) i = Some m" "j \<noteq> i" "same_group (h_catalog h) i j" "kept (lc_of h j)"
  shows "j \<in> set (swap_out m i h)"
proof -
  from assms(1,3) obtain mj g where mj: "cat_get (h_catalog h) j = Some mj"
    "cm_exclusive_group m = Some g" "cm_exclusive_group mj = Some g"
    by (simp add: same_group_def split: option.splits) metis
  have "mj \<in> set (cat_list (h_catalog h))" "cm_id mj = j" using cat_get_listed [OF mj(1)] by auto
  with mj assms(2,4) show ?thesis by (auto simp: swap_out_def kept_def state_of_lc)
qed

lemma self_not_in_swap_out: "i \<notin> set (swap_out m i h)"
  by (auto simp: swap_out_def split: option.splits)

lemma host_ok_status_locked: "host_ok h \<Longrightarrow> host_ok (fst (status_locked v i h))"
  by (erule host_ok_same) (simp_all add: host_sel)

lemma host_ok_entry_for: "host_ok h \<Longrightarrow> host_ok (host_entry_for v i h)"
  by (erule host_ok_same) (simp_all add: host_sel)

lemma set_residency_done:
  "set_residency v i w h = (h', Inr u) \<Longrightarrow> residency_ok (h_residency h) \<Longrightarrow> is_resident (h_residency h') i = w"
  by (auto simp: set_residency_def set_resident_def is_resident_def Let_def residency_ok_def
      set_insort_insert split: option.splits sum.splits prod.splits if_splits)

lemma set_residency_True_done:
  "set_residency v i True h = (h', Inr u) \<Longrightarrow> is_resident (h_residency h') i"
  by (auto simp: set_residency_def set_resident_def is_resident_def Let_def
      set_insort_insert split: option.splits sum.splits prod.splits if_splits)

lemma host_ok_load:
  assumes "host_ok h"
  shows "host_ok (fst (host_load v i h))"
proof (cases "catalogue_model h i")
  case (Inl e)
  with assms show ?thesis by (simp add: host_load_def)
next
  case (Inr m)
  let ?h = "host_entry_for v i h"
  let ?os = "swap_out m i ?h"
  have ok: "host_ok ?h" by (rule host_ok_entry_for [OF assms])
  have m: "cat_get (h_catalog ?h) i = Some m" "cm_id m = i"
    using catalogue_model_Inr [OF Inr] rest_of_sel [OF entry_for_view(3) [of v i h]] by auto
  obtain h1 r1 where s1: "set_residency v i True ?h = (h1, r1)" by fastforce
  obtain h2 r2 where s2: "swap_each v ?os h1 = (h2, r2)" by fastforce
  have ok1: "host_ok h1" using host_ok_set_residency_True [OF ok, of v i] s1 by simp
  have swapped: "host_ok (request_load_locked v m ?os h2)" if r: "r1 = Inr u" "r2 = Inr w" for u w
  proof (rule host_ok_request_load)
    note sw = swap_each_ok [OF ok1 s2]
    show "host_ok h2" using sw by blast
    have h1: "h1 = fst (set_residency v i True ?h)" using s1 by simp
    note rv = set_residency_view [of v i True ?h, folded h1]
    have "is_resident (h_residency h1) i" using set_residency_True_done s1 r(1) by blast
    then show "is_resident (h_residency h2) (cm_id m)" using sw self_not_in_swap_out m(2) by metis
    fix j assume j: "j \<noteq> cm_id m" "same_group (h_catalog h2) (cm_id m) j"
    show "\<not> kept (lc_of h2 j)"
    proof (cases "j \<in> set ?os")
      case True
      then show ?thesis using sw r(2) by blast
    next
      case False
      have "same_group (h_catalog ?h) i j" using j(2) m(2) sw rv by simp
      then have "\<not> kept (lc_of ?h j)" using kept_in_swap_out [OF m(1)] j(1) m(2) False by blast
      then show ?thesis using sw False rv by simp
    qed
  qed
  have "host_ok h2" using swap_each_ok [OF ok1 s2] by blast
  with assms Inr ok ok1 s1 s2 swapped show ?thesis
    by (auto simp: host_load_def Let_def case_prod_beta host_ok_status_locked split: sum.splits)
qed

lemma host_ok_unload:
  assumes "host_ok h"
  shows "host_ok (fst (host_unload v i h))"
proof -
  obtain h1 r1 where s1: "set_residency v i False h = (h1, r1)" by fastforce
  show ?thesis
  proof (cases r1)
    case (Inl e)
    then have "host_ok h1" using host_ok_set_residency_error assms s1 by blast
    with assms s1 Inl show ?thesis by (auto simp: host_unload_def split: sum.splits)
  next
    case (Inr u)
    then have "host_ok (request_unload_locked v i h1)" using host_ok_unload_pair assms s1 by blast
    with assms s1 Inr show ?thesis
      by (auto simp: host_unload_def Let_def case_prod_beta host_ok_status_locked split: sum.splits)
  qed
qed

lemma host_ok_restore: "host_ok h \<Longrightarrow> host_ok (restore_residents v h)"
proof -
  have "host_ok h \<Longrightarrow> host_ok (fold (\<lambda>i h. fst (host_load v i h)) is h)" for "is"
    by (induction "is" arbitrary: h) (simp_all add: host_ok_load)
  then show "host_ok h \<Longrightarrow> host_ok (restore_residents v h)" by (simp add: restore_residents_def)
qed

lemma host_ok_statuses: "host_ok h \<Longrightarrow> host_ok (fst (statuses_of v is h))"
  by (induction "is" arbitrary: h) (simp_all add: case_prod_beta Let_def host_ok_status_locked)

section \<open>Threads and lanes keep it\<close>

lemma replace_thread_view [simp]:
  "lc_of (replace_thread t ts h) = lc_of h" "ld_of (replace_thread t ts h) = ld_of h"
  "h_threads (replace_thread t ts h) = ts @ remove1 t (h_threads h)"
  "h_catalog (replace_thread t ts h) = h_catalog h" "h_residency (replace_thread t ts h) = h_residency h"
  "h_lanes (replace_thread t ts h) = h_lanes h" "h_next_lane (replace_thread t ts h) = h_next_lane h"
  "h_requests (replace_thread t ts h) = h_requests h"
  by (simp_all add: replace_thread_def)

text \<open>A thread that moves on and stays of its kind and model keeps every model's invariant.\<close>

lemma models_ok_move:
  assumes "models_ok h" "t \<in> set (h_threads h)" "h_threads h' = t' # remove1 t (h_threads h)"
    and "lc_of h' = lc_of h" "ld_of h' = ld_of h"
    and "\<And>i. is_load_for i t' = is_load_for i t" "\<And>i. is_unload_for i t' = is_unload_for i t"
    and "\<And>i lo ph. t' = UnloadThread i lo ph \<Longrightarrow> \<exists>ph'. t = UnloadThread i lo ph'"
  shows "models_ok h'"
proof -
  have "count_if P (h_threads h') = count_if P (h_threads h)" if "P t' = P t" for P
    using count_if_remove1 [OF assms(2), of P] that assms(3) by simp
  moreover have "\<exists>ph'. UnloadThread i lo ph' \<in> set (h_threads h)"
    if "UnloadThread i lo ph \<in> set (h_threads h')" for i lo ph
  proof (cases "UnloadThread i lo ph = t'")
    case True
    then show ?thesis using assms(2,8) by metis
  next
    case False
    with that assms(3) have "UnloadThread i lo ph \<in> set (h_threads h)" by (auto dest: in_remove1)
    then show ?thesis by blast
  qed
  ultimately have "model_ok (lc_of h i) (ld_of h i) (h_threads h') i" for i
    using models_okD [OF assms(1), of i] assms(6,7) [of i] by (auto simp: model_ok_def)
  then show ?thesis using assms(4,5) by (simp add: models_ok_def)
qed

lemma host_ok_outgoing:
  assumes "host_ok h" "LoadThread m (i # os) \<in> set (h_threads h)"
  shows "host_ok (replace_thread (LoadThread m (i # os)) [LoadThread m os] h)"
proof -
  have "models_ok (replace_thread (LoadThread m (i # os)) [LoadThread m os] h)"
    by (rule models_ok_move [where h = h and t = "LoadThread m (i # os)" and t' = "LoadThread m os"])
      (use assms in \<open>auto simp: host_ok_def\<close>)
  then show ?thesis using assms(1)
    by (auto simp: host_ok_def host_lanes_ok_def lanes_ok_def kept_resident_def groups_ok_def
        dest!: in_remove1)
qed

lemma unload_thread_unloading:
  assumes "models_ok h" "UnloadThread i lo ph \<in> set (h_threads h)"
  shows "lc_state (lc_of h i) = Unloading" and "lo = map_option snd (ld_of h i)" and "lo \<noteq> None"
proof -
  note ok = models_okD [OF assms(1), of i]
  have "0 < count_if (is_unload_for i) (h_threads h)" by (rule count_if_pos [OF assms(2)]) simp
  with ok show "lc_state (lc_of h i) = Unloading" by (auto simp: model_ok_def split: if_splits)
  with ok assms(2) show "lo = map_option snd (ld_of h i)" "lo \<noteq> None" by (auto simp: model_ok_def)
qed

lemma load_thread_loading:
  assumes "models_ok h" "LoadThread m os \<in> set (h_threads h)"
  shows "lc_state (lc_of h (cm_id m)) = Loading"
proof -
  have "0 < count_if (is_load_for (cm_id m)) (h_threads h)" by (rule count_if_pos [OF assms(2)]) simp
  with models_okD [OF assms(1), of "cm_id m"] show ?thesis by (auto simp: model_ok_def split: if_splits)
qed

lemma host_ok_cancel:
  assumes "host_ok h" "UnloadThread i (Some l) Cancelling \<in> set (h_threads h)"
  shows "host_ok (replace_thread (UnloadThread i (Some l) Cancelling) [UnloadThread i (Some l) Draining] (set_cancel l h))"
    (is "host_ok ?h")
proof -
  have "models_ok ?h"
    by (rule models_ok_move [where h = h and t = "UnloadThread i (Some l) Cancelling" and t' = "UnloadThread i (Some l) Draining"])
      (use assms in \<open>auto simp: host_ok_def set_cancel_def\<close>)
  then show ?thesis using assms
    by (auto simp: host_ok_def host_lanes_ok_def lanes_ok_def kept_resident_def groups_ok_def set_cancel_def
        dest!: in_remove1)
qed

lemma host_ok_drain:
  assumes "host_ok h" "UnloadThread i (Some l) Draining \<in> set (h_threads h)" "b \<Longrightarrow> \<not> busy (h_lanes h l)"
  shows "host_ok (replace_thread (UnloadThread i (Some l) Draining) [UnloadThread i (Some l) (Freeing b)] h)"
    (is "host_ok ?h")
proof -
  have "models_ok ?h"
    by (rule models_ok_move [where h = h and t = "UnloadThread i (Some l) Draining" and t' = "UnloadThread i (Some l) (Freeing b)"])
      (use assms in \<open>auto simp: host_ok_def\<close>)
  then show ?thesis using assms
    by (auto simp: host_ok_def host_lanes_ok_def lanes_ok_def kept_resident_def groups_ok_def
        dest!: in_remove1)
qed

lemma remove1_counts:
  assumes "t \<in> set ts" "\<not> P t"
  shows "count_if P (remove1 t ts) = count_if P ts"
  using count_if_remove1 [OF assms(1), of P] assms(2) by simp

lemma remove1_counts_hit:
  assumes "t \<in> set ts" "P t"
  shows "count_if P ts = Suc (count_if P (remove1 t ts))"
  using count_if_remove1 [OF assms(1), of P] assms(2) by simp

lemma no_unload_while_loading:
  assumes "models_ok h" "lc_state (lc_of h i) = Loading"
  shows "UnloadThread i lo ph \<notin> set (h_threads h)"
  using unload_thread_unloading(1) [OF assms(1)] assms(2) by fastforce

lemma host_ok_load_returns:
  assumes "host_ok h" "LoadThread m [] \<in> set (h_threads h)"
  shows "host_ok (finish_load v (cm_id m) res (replace_thread (LoadThread m []) [] h))"
proof -
  let ?i = "cm_id m" and ?t = "LoadThread m []"
  let ?h = "replace_thread ?t [] h"
  have mok: "models_ok h" using assms(1) by (simp add: host_ok_def)
  have st: "lc_state (lc_of h ?i) = Loading" by (rule load_thread_loading [OF mok assms(2)])
  then have st': "lc_state (lc_of ?h ?i) = Loading" by simp
  note ok = models_okD [OF mok, of ?i]
  have counts: "count_if (is_load_for ?i) (remove1 ?t (h_threads h)) = 0"
    "\<And>j. j \<noteq> ?i \<Longrightarrow> count_if (is_load_for j) (remove1 ?t (h_threads h)) = count_if (is_load_for j) (h_threads h)"
    "\<And>j. count_if (is_unload_for j) (remove1 ?t (h_threads h)) = count_if (is_unload_for j) (h_threads h)"
    using ok st remove1_counts_hit [OF assms(2), of "is_load_for ?i"] remove1_counts [OF assms(2)]
    by (auto simp: model_ok_def)
  have ul: "count_if (is_unload_for ?i) (h_threads h) = 0" using ok st by (simp add: model_ok_def)
  have no: "UnloadThread ?i lo ph \<notin> set (remove1 ?t (h_threads h))" for lo ph
    using no_unload_while_loading [OF mok st] by (auto dest: in_remove1)
  show ?thesis
  proof (cases res)
    case (Inr w)
    note view = finish_load_ok_view [OF st', of v w]
    note sel = rest_of_sel [OF view(3), simplified]
    let ?p = "unload_pending (lc_of h ?i)"
    have "models_ok (finish_load v ?i (Inr w) ?h)"
    proof (rule models_ok_change [OF mok, where i = ?i])
      show "lc_of (finish_load v ?i (Inr w) ?h) = (lc_of h)(?i := \<lparr>lc_state = (if ?p then Unloading else Loaded), unload_pending = False\<rparr>)"
        "ld_of (finish_load v ?i (Inr w) ?h) = (ld_of h)(?i := Some (w, h_next_lane h))"
        using view(1,2) by simp_all
      show "model_ok \<lparr>lc_state = (if ?p then Unloading else Loaded), unload_pending = False\<rparr>
          (Some (w, h_next_lane h)) (h_threads (finish_load v ?i (Inr w) ?h)) ?i"
        using counts(1) counts(3) [of ?i] ul no
        by (auto simp: sel model_ok_def started_unload_def lifecycle_ok_def)
    qed (use counts in \<open>auto simp: sel started_unload_def dest: in_remove1 split: if_splits\<close>)
    moreover have "host_lanes_ok (finish_load v ?i (Inr w) ?h)"
    proof -
      have lt: "\<And>r. r \<in> set (h_requests h) \<Longrightarrow> request_lane r < h_next_lane h"
        "\<And>j a l. ld_of h j = Some (a, l) \<Longrightarrow> l < h_next_lane h"
        "\<And>t l. t \<in> set (h_threads h) \<Longrightarrow> thread_lane t = Some l \<Longrightarrow> l < h_next_lane h"
        "\<And>l. count_if (is_serving l) (h_requests h) = (if busy (h_lanes h l) then 1 else 0)"
        "\<And>j l. UnloadThread j (Some l) Draining \<in> set (h_threads h) \<Longrightarrow> cancel (h_lanes h l)"
        "\<And>j l b. UnloadThread j (Some l) (Freeing b) \<in> set (h_threads h) \<Longrightarrow>
           cancel (h_lanes h l) \<and> (b \<longrightarrow> \<not> busy (h_lanes h l))"
        using assms(1) by (auto simp: host_ok_def host_lanes_ok_def lanes_ok_def)
      have "count_if (is_serving (h_next_lane h)) (h_requests h) = 0"
        unfolding count_if_zero
      proof
        fix r assume "r \<in> set (h_requests h)"
        then show "\<not> is_serving (h_next_lane h) r" using lt(1) [of r] is_serving_lane by fastforce
      qed
      moreover have "l \<noteq> h_next_lane h" if "UnloadThread j (Some l) ph \<in> set (h_threads h)" for j l ph
        using lt(3) [OF that] by auto
      ultimately show ?thesis using lt
        by (auto simp: host_lanes_ok_def lanes_ok_def sel view(2) started_unload_def lane_new_def less_Suc_eq
            dest!: in_remove1)
    qed
    ultimately show ?thesis using assms(1) Inr st
      by (auto simp: host_ok_def kept_resident_def groups_ok_def sel view(1) kept_def)
  next
    case (Inl r)
    note view = finish_load_failed_view [OF st', of v r]
    note sel = rest_of_sel [OF view(3), simplified]
    have "models_ok (finish_load v ?i (Inl r) ?h)"
    proof (rule models_ok_change [OF mok, where i = ?i])
      show "lc_of (finish_load v ?i (Inl r) ?h) = (lc_of h)(?i := \<lparr>lc_state = Failed r, unload_pending = False\<rparr>)"
        "ld_of (finish_load v ?i (Inl r) ?h) = (ld_of h)(?i := None)"
        using view(1,2) by simp_all
      show "model_ok \<lparr>lc_state = Failed r, unload_pending = False\<rparr> None
          (h_threads (finish_load v ?i (Inl r) ?h)) ?i"
        using counts(1) counts(3) [of ?i] ul no by (auto simp: sel model_ok_def lifecycle_ok_def)
    qed (use counts in \<open>auto simp: sel dest: in_remove1\<close>)
    then show ?thesis using assms(1) Inl st
      by (auto simp: host_ok_def host_lanes_ok_def lanes_ok_def kept_resident_def groups_ok_def sel view(1,2)
          kept_def dest!: in_remove1)
  qed
qed

lemma host_ok_unload_frees:
  assumes "host_ok h" "UnloadThread i lo (Freeing b) \<in> set (h_threads h)"
  shows "host_ok (finish_unload v i (replace_thread (UnloadThread i lo (Freeing b)) [] h))"
proof -
  let ?t = "UnloadThread i lo (Freeing b)"
  let ?h = "replace_thread ?t [] h"
  have mok: "models_ok h" using assms(1) by (simp add: host_ok_def)
  have st: "lc_state (lc_of h i) = Unloading" by (rule unload_thread_unloading [OF mok assms(2)])
  then have st': "lc_state (lc_of ?h i) = Unloading" by simp
  note ok = models_okD [OF mok, of i]
  have counts: "count_if (is_unload_for i) (remove1 ?t (h_threads h)) = 0"
    "\<And>j. j \<noteq> i \<Longrightarrow> count_if (is_unload_for j) (remove1 ?t (h_threads h)) = count_if (is_unload_for j) (h_threads h)"
    "\<And>j. count_if (is_load_for j) (remove1 ?t (h_threads h)) = count_if (is_load_for j) (h_threads h)"
    using ok st remove1_counts_hit [OF assms(2), of "is_unload_for i"] remove1_counts [OF assms(2)]
    by (auto simp: model_ok_def)
  have no: "UnloadThread i lo' ph \<notin> set (remove1 ?t (h_threads h))" for lo' ph
    using counts(1) by (auto simp: count_if_zero)
  note view = finish_unload_view [OF st', of v]
  note sel = rest_of_sel [OF view(3), simplified]
  have "models_ok (finish_unload v i ?h)"
  proof (rule models_ok_change [OF mok, where i = i])
    show "lc_of (finish_unload v i ?h) = (lc_of h)(i := (lc_of h i)\<lparr>lc_state := Unloaded\<rparr>)"
      "ld_of (finish_unload v i ?h) = (ld_of h)(i := None)"
      using view(1,2) by simp_all
    show "model_ok ((lc_of h i)\<lparr>lc_state := Unloaded\<rparr>) None (h_threads (finish_unload v i ?h)) i"
      using counts(1) counts(3) [of i] ok st no by (auto simp: sel model_ok_def lifecycle_ok_def)
  qed (use counts in \<open>auto simp: sel dest: in_remove1\<close>)
  then show ?thesis using assms(1) st
    by (auto simp: host_ok_def host_lanes_ok_def lanes_ok_def kept_resident_def groups_ok_def sel view(1,2)
        kept_def dest!: in_remove1)
qed

section \<open>Lane requests keep it\<close>

lemma host_ok_requests:
  assumes "host_ok h" and "lc_of h' = lc_of h" "ld_of h' = ld_of h" "h_catalog h' = h_catalog h"
    "h_residency h' = h_residency h" "h_threads h' = h_threads h"
    and "host_lanes_ok h'"
  shows "host_ok h'"
  using assms by (simp add: host_ok_def models_ok_def kept_resident_def groups_ok_def)

lemma host_ok_lane_of: "host_ok h \<Longrightarrow> host_ok (fst (lane_of v i h))"
  by (erule host_ok_same) (simp_all add: lane_of_view)

lemma lane_of_split:
  assumes "host_ok h" "lane_of v i h = (h1, r)"
  shows "host_ok h1" and "r = Inr (m, l) \<Longrightarrow> ld_of h1 i = Some (m, l) \<and> l < h_next_lane h1"
proof -
  show ok: "host_ok h1" using host_ok_lane_of [OF assms(1), of v i] assms(2) by simp
  assume "r = Inr (m, l)"
  then have "snd (lane_of v i h) = Inr (m, l)" using assms(2) by simp
  then have "ld_of h i = Some (m, l)" by (simp add: lane_of_Inr)
  then have "ld_of h1 i = Some (m, l)" using lane_of_view(2) [of v i h] assms(2) by simp
  with ok show "ld_of h1 i = Some (m, l) \<and> l < h_next_lane h1"
    by (auto simp: host_ok_def host_lanes_ok_def lanes_ok_def)
qed

lemma host_ok_ask:
  assumes "host_ok h"
  shows "host_ok (fst (with_lane_begin v i h))"
proof -
  obtain h1 r where lo: "lane_of v i h = (h1, r)" by fastforce
  note ok = lane_of_split [OF assms lo]
  show ?thesis
  proof (cases r)
    case (Inr ml)
    then obtain m l where ml: "r = Inr (m, l)" by (cases ml) auto
    have "host_ok (h1\<lparr>h_requests := Waiting i l # h_requests h1\<rparr>)"
      by (rule host_ok_requests [OF ok(1)])
        (use ok(1) ok(2) [OF ml] in \<open>simp_all add: host_ok_def host_lanes_ok_def lanes_ok_def\<close>)
    then show ?thesis using lo ml by (simp add: with_lane_begin_def)
  qed (use lo ok(1) in \<open>simp add: with_lane_begin_def\<close>)
qed

lemma host_ok_take:
  assumes "host_ok h" "\<not> busy (h_lanes h l)" "l < h_next_lane h"
  shows "host_ok (fst (take_lane i l h))"
proof (cases "cancel (h_lanes h l)")
  case True
  with assms(1) show ?thesis by (simp add: take_lane_def serve_check_def lane_cancelled_def)
next
  case False
  have "host_ok ((set_busy l True h)\<lparr>h_requests := Serving i l # h_requests h\<rparr>)"
    by (rule host_ok_requests [OF assms(1)])
      (use assms False in \<open>auto simp: set_busy_def host_ok_def host_lanes_ok_def lanes_ok_def\<close>)
  with False show ?thesis by (simp add: take_lane_def serve_check_def lane_cancelled_def)
qed

lemma host_ok_try:
  assumes "host_ok h"
  shows "host_ok (fst (try_with_lane v i h))"
proof -
  obtain h1 r where lo: "lane_of v i h = (h1, r)" by fastforce
  note ok = lane_of_split [OF assms lo]
  show ?thesis
  proof (cases r)
    case (Inr ml)
    then obtain m l where ml: "r = Inr (m, l)" by (cases ml) auto
    then show ?thesis using lo ok(1) ok(2) [OF ml] host_ok_take [OF ok(1), of l i]
      by (simp add: try_with_lane_def)
  qed (use lo ok(1) in \<open>simp add: try_with_lane_def\<close>)
qed

lemma count_remove_waiting:
  "count_if (is_serving k) (remove1 (Waiting i l) rs) = count_if (is_serving k) rs"
  by (induction rs) auto

lemma host_ok_get:
  assumes "host_ok h" "Waiting i l \<in> set (h_requests h)" "\<not> busy (h_lanes h l)"
  shows "host_ok (fst (take_lane i l (h\<lparr>h_requests := remove1 (Waiting i l) (h_requests h)\<rparr>)))"
proof (rule host_ok_take)
  show "host_ok (h\<lparr>h_requests := remove1 (Waiting i l) (h_requests h)\<rparr>)"
    by (rule host_ok_requests [OF assms(1)])
      (use assms(1) in \<open>auto simp: host_ok_def host_lanes_ok_def lanes_ok_def count_remove_waiting
        dest!: in_remove1\<close>)
  show "l < h_next_lane (h\<lparr>h_requests := remove1 (Waiting i l) (h_requests h)\<rparr>)"
    using assms(1,2) by (auto simp: host_ok_def host_lanes_ok_def lanes_ok_def)
qed (use assms(3) in simp)

lemma count_remove_serving:
  assumes "Serving i l \<in> set rs"
  shows "count_if (is_serving k) (remove1 (Serving i l) rs) =
    count_if (is_serving k) rs - (if k = l then 1 else 0)"
  using count_if_remove1 [OF assms, of "is_serving k"] by auto

lemma host_ok_leave:
  assumes "host_ok h" "Serving i l \<in> set (h_requests h)"
  shows "host_ok (set_busy l False (h\<lparr>h_requests := remove1 (Serving i l) (h_requests h)\<rparr>))"
  by (rule host_ok_requests [OF assms(1)])
    (use assms(1) in \<open>auto simp: set_busy_def host_ok_def host_lanes_ok_def lanes_ok_def
      count_remove_serving [OF assms(2)] dest!: in_remove1\<close>)

section \<open>Every reachable host\<close>

lemma host_ok_cancels:
  assumes "host_ok h" "UnloadThread i lo Cancelling \<in> set (h_threads h)"
  shows "host_ok (replace_thread (UnloadThread i lo Cancelling)
        [UnloadThread i lo (case lo of None \<Rightarrow> Freeing True | Some _ \<Rightarrow> Draining)]
        (case lo of None \<Rightarrow> h | Some l \<Rightarrow> set_cancel l h))"
proof -
  obtain l where "lo = Some l"
    using unload_thread_unloading(3) [OF _ assms(2)] assms(1) by (auto simp: host_ok_def)
  then show ?thesis using host_ok_cancel [OF assms(1)] assms(2) by simp
qed

lemma host_ok_drains:
  assumes "host_ok h" "UnloadThread i lo Draining \<in> set (h_threads h)"
    "b \<Longrightarrow> (case lo of None \<Rightarrow> True | Some l \<Rightarrow> \<not> busy (h_lanes h l))"
  shows "host_ok (replace_thread (UnloadThread i lo Draining) [UnloadThread i lo (Freeing b)] h)"
proof -
  obtain l where "lo = Some l"
    using unload_thread_unloading(3) [OF _ assms(2)] assms(1) by (auto simp: host_ok_def)
  then show ?thesis using host_ok_drain [OF assms(1)] assms(2,3) by simp
qed

lemma host_step_ok:
  assumes "host_ok h" "host_step v e h = Some h'"
  shows "host_ok h'"
proof (cases e)
  case (OutgoingGone m other rest b)
  have "host_ok (host_entry_for v other h)" by (rule host_ok_entry_for [OF assms(1)])
  moreover have "h_threads (host_entry_for v other h) = h_threads h"
    using rest_of_sel [OF entry_for_view(3)] by blast
  ultimately show ?thesis using OutgoingGone assms(2)
    by (auto split: if_splits intro!: host_ok_outgoing)
next
  case (OpStatus i)
  then show ?thesis using assms host_ok_status_locked [OF assms(1), of v i]
    by (auto simp: host_status_def case_prod_beta Let_def split: sum.splits)
qed (use assms in \<open>auto simp: host_statuses_def split: if_splits
      intro: host_ok_statuses host_ok_load host_ok_unload host_ok_restore host_ok_load_returns
        host_ok_cancels host_ok_drains host_ok_unload_frees host_ok_ask host_ok_try host_ok_get host_ok_leave\<close>)

lemma host_reachable_ok: "host_reachable h \<Longrightarrow> host_ok h"
  by (induction rule: host_reachable.induct) (auto intro: host_ok_new host_step_ok)

end
