(* ===== verification/HostProperties.thy ===== *)
theory HostProperties
  imports HostInvariant
begin

text \<open>
  The properties of the model host (\<^verbatim>\<open>src/src/host.rs\<close>), from the invariant of every
  reachable state, and the two behaviours that break what
  \<^verbatim>\<open>src/docs/runtime/model-lifecycle.md\<close> promises.
\<close>

definition load_threads :: "'m host \<Rightarrow> string \<Rightarrow> nat" where
  "load_threads h i = count_if (is_load_for i) (h_threads h)"

definition unload_threads :: "'m host \<Rightarrow> string \<Rightarrow> nat" where
  "unload_threads h i = count_if (is_unload_for i) (h_threads h)"

definition weights_of :: "'m host \<Rightarrow> string \<Rightarrow> 'm option" where
  "weights_of h i = map_option fst (en_loaded (the_entry h i))"

text \<open>A small catalogue for the witnesses: two speech models that exclude each other.\<close>

definition demo_model :: "string \<Rightarrow> string option \<Rightarrow> catalog_model" where
  "demo_model i g = \<lparr>cm_id = i, cm_display_name = i, cm_kind = AudioStt, cm_vram_gb_estimate = mib_gib 6144,
     cm_description = None, cm_source = \<lparr>ms_engine = Parakeet, ms_files = [],
       ms_cli_defaults = cli_defaults_default\<rparr>,
     cm_enabled = True, cm_origin = ''local'', cm_exclusive_group = g\<rparr>"

definition demo_env :: env where
  "demo_env = \<lparr>env_now = 1, env_probe = \<lparr>pr_free_gib = Some (mib_gib 8192), pr_total_gib = None,
     pr_host_available_gib = None\<rparr>, env_show = (\<lambda>_. []), env_faults = no_faults, env_tmp = ''t''\<rparr>"

definition demo_host :: "string option \<Rightarrow> nat host" where
  "demo_host g = host_new \<lparr>models = [demo_model ''a'' g, demo_model ''b'' g], dismissed_seeds = []\<rparr>
     residency_default Map.empty"

lemma demo_reachable: "host_reachable (demo_host g)"
  unfolding demo_host_def
  by (rule host_start) (simp_all add: ids_distinct_def demo_model_def residency_ok_def residency_default_def)

lemma demo_load_reachable: "host_reachable h \<Longrightarrow> host_reachable (fst (host_load demo_env i h))"
  by (erule host_next [where e = "OpLoad i" and v = demo_env]) simp

text \<open>C1: whatever requests, thread completions and status queries interleave, a model is
  never loaded or unloaded by two threads at once, a load thread exists exactly while the model
  is \<open>Loading\<close> and an unload thread exactly while it is \<open>Unloading\<close> (so no completion is
  dropped as unexpected), and its weights are in memory exactly while it is \<open>Loaded\<close> or
  \<open>Unloading\<close>.\<close>

theorem host_work_matches_state:
  assumes "host_reachable h"
  shows "load_threads h i = (if state_of h i = Loading then 1 else 0) \<and>
         unload_threads h i = (if state_of h i = Unloading then 1 else 0) \<and>
         (weights_of h i \<noteq> None) = (state_of h i = Loaded \<or> state_of h i = Unloading)"
  using host_reachable_ok [OF assms] models_okD [of h i]
  by (auto simp: host_ok_def model_ok_def load_threads_def unload_threads_def weights_of_def
      state_of_lc ld_of_def)

theorem host_work_matches_state_witness:
  "load_threads (demo_host None) ''a'' = 0 \<and> weights_of (demo_host None) ''a'' = None"
  using host_work_matches_state [OF demo_reachable, of None "''a''"]
  by (simp add: state_of_def the_entry_def demo_host_def host_new_def entry_new_def lifecycle_new_def)



text \<open>C3: a lane serves one request at a time; and weights whose drain ended in time are freed
  with no request on their lane and none able to start there: whoever takes the lane afterwards
  is answered that the model is unloading.\<close>

theorem weights_freed_only_when_idle:
  assumes "host_reachable h" and "UnloadThread i (Some l) (Freeing True) \<in> set (h_threads h)"
  shows "(\<forall>j. Serving j l \<notin> set (h_requests h)) \<and>
         (\<forall>j. take_lane j l h = (h, Inl (NotLoaded j ''unloading''))) \<and>
         (\<forall>k. length (filter (is_serving k) (h_requests h)) \<le> 1)"
proof -
  have ok: "host_lanes_ok h" using host_reachable_ok [OF assms(1)] by (simp add: host_ok_def)
  then have c: "cancel (h_lanes h l)" and b: "\<not> busy (h_lanes h l)"
    using assms(2) by (auto simp: host_lanes_ok_def lanes_ok_def)
  have counts: "count_if (is_serving k) (h_requests h) = (if busy (h_lanes h k) then 1 else 0)" for k
    using ok by (simp add: host_lanes_ok_def lanes_ok_def)
  with b have "count_if (is_serving l) (h_requests h) = 0" by simp
  then have "\<forall>j. Serving j l \<notin> set (h_requests h)" by (auto simp: count_if_zero)
  moreover have "length (filter (is_serving k) (h_requests h)) \<le> 1" for k
    using counts [of k] by (simp add: count_if_def)
  ultimately show ?thesis using c
    by (simp add: take_lane_def serve_check_def lane_cancelled_def state_name_def)
qed

fun demo_run :: "'m host_event list \<Rightarrow> 'm host \<Rightarrow> 'm host option" where
  "demo_run [] h = Some h"
| "demo_run (e # es) h = (case host_step demo_env e h of None \<Rightarrow> None | Some h' \<Rightarrow> demo_run es h')"

lemma demo_run_reachable: "demo_run es h = Some h' \<Longrightarrow> host_reachable h \<Longrightarrow> host_reachable h'"
  by (induction es arbitrary: h) (auto intro: host_next split: option.splits)

lemma demo_admit: "admit (mib_gib 6144) (Probed (mib_gib 8192)) = Inr ()"
  using admission_exact_on_mib [of 8192 6144 None None f32_zero] by (simp add: free_now_def mib_gib_read)

lemma demo_admission: "load_admission demo_env (demo_model i g) [] h = Inr ()"
proof -
  have "f32_eq f32_zero f32_zero" by (simp add: f32_eq_def)
  then show ?thesis
    by (simp add: load_admission_def demo_env_def demo_model_def free_now_def credit_def f32_sum_def demo_admit)
qed

lemmas demo_eval = demo_host_def host_new_def host_load_def host_unload_def catalogue_model_def cat_get_def
  cat_list_def host_entry_for_def put_entry_def the_entry_def state_of_def entry_new_def lifecycle_new_def
  lane_new_def swap_out_def set_residency_def set_resident_def is_resident_def residency_default_def
  request_load_locked_def request_unload_locked_def request_load_def request_unload_def
  after_transition_def status_locked_def spawn_load_def spawn_unload_def finish_load_def load_finished_def
  replace_thread_def set_cancel_def Let_def

lemma demo_fields [simp]:
  "cm_id (demo_model i g) = i" "cm_enabled (demo_model i g)" "cm_exclusive_group (demo_model i g) = g"
  by (simp_all add: demo_model_def)

theorem weights_freed_only_when_idle_witness:
  "\<exists>h :: nat host. host_reachable h \<and> UnloadThread ''a'' (Some 0) (Freeing True) \<in> set (h_threads h) \<and>
     take_lane ''a'' 0 h = (h, Inl (NotLoaded ''a'' ''unloading''))"
proof -
  have "\<exists>h. demo_run [OpLoad ''a'', LoadReturns (demo_model ''a'' None) (Inr 7), OpUnload ''a'',
      UnloadCancels ''a'' (Some 0), UnloadDrains ''a'' (Some 0) True] (demo_host None :: nat host) = Some h \<and>
      UnloadThread ''a'' (Some 0) (Freeing True) \<in> set (h_threads h)"
    by (simp add: demo_eval demo_admission)
  then obtain h :: "nat host" where h: "host_reachable h"
    "UnloadThread ''a'' (Some 0) (Freeing True) \<in> set (h_threads h)"
    using demo_run_reachable demo_reachable by blast
  then show ?thesis using weights_freed_only_when_idle [OF h] by blast
qed

text \<open>What a thread still has to do.\<close>

fun thread_weight :: "host_thread \<Rightarrow> nat" where
  "thread_weight (LoadThread m os) = 4 + length os"
| "thread_weight (UnloadThread i lo Cancelling) = 3"
| "thread_weight (UnloadThread i lo Draining) = 2"
| "thread_weight (UnloadThread i lo (Freeing b)) = 1"

definition work_left :: "'m host \<Rightarrow> nat" where
  "work_left h = sum_list (map thread_weight (h_threads h))"

fun thread_event :: "'m host_event \<Rightarrow> bool" where
  "thread_event (OutgoingGone m i os b) = True"
| "thread_event (LoadReturns m r) = True"
| "thread_event (UnloadCancels i lo) = True"
| "thread_event (UnloadDrains i lo b) = True"
| "thread_event (UnloadFrees i lo b) = True"
| "thread_event _ = False"

lemma work_left_remove:
  "t \<in> set ts \<Longrightarrow> sum_list (map thread_weight ts) = thread_weight t + sum_list (map thread_weight (remove1 t ts))"
  by (induction ts) auto

lemma load_returns_work:
  assumes "host_reachable h" "LoadThread m [] \<in> set (h_threads h)"
  shows "work_left (finish_load v (cm_id m) res (replace_thread (LoadThread m []) [] h)) < work_left h"
proof -
  let ?h = "replace_thread (LoadThread m []) [] h"
  have "models_ok h" using host_reachable_ok [OF assms(1)] by (simp add: host_ok_def)
  then have st: "lc_state (lc_of ?h (cm_id m)) = Loading" using load_thread_loading assms(2) by simp
  show ?thesis
  proof (cases res)
    case (Inl r)
    then show ?thesis
      using rest_of_sel(6) [OF finish_load_failed_view(3) [OF st, of v r]] work_left_remove [OF assms(2)]
      by (simp add: work_left_def)
  next
    case (Inr w)
    then show ?thesis
      using rest_of_sel(6) [OF finish_load_ok_view(3) [OF st, of v w]] work_left_remove [OF assms(2)]
      by (simp add: work_left_def started_unload_def)
  qed
qed

lemma unload_frees_work:
  assumes "host_reachable h" "UnloadThread i lo (Freeing b) \<in> set (h_threads h)"
  shows "work_left (finish_unload v i (replace_thread (UnloadThread i lo (Freeing b)) [] h)) < work_left h"
proof -
  let ?h = "replace_thread (UnloadThread i lo (Freeing b)) [] h"
  have "models_ok h" using host_reachable_ok [OF assms(1)] by (simp add: host_ok_def)
  then have st: "lc_state (lc_of ?h i) = Unloading" using unload_thread_unloading(1) assms(2) by simp
  then show ?thesis
    using rest_of_sel(6) [OF finish_unload_view(3) [OF st, of v]] work_left_remove [OF assms(2)]
    by (simp add: work_left_def)
qed

lemma thread_step_lowers:
  assumes "host_reachable h" "thread_event e" "host_step v e h = Some h'"
  shows "work_left h' < work_left h"
proof (cases e)
  case (OutgoingGone m i os b)
  have "h_threads (host_entry_for v i h) = h_threads h"
    using rest_of_sel(6) [OF entry_for_view(3)] by blast
  with OutgoingGone assms(3) show ?thesis
    using work_left_remove [of "LoadThread m (i # os)" "h_threads h"]
    by (auto simp: work_left_def split: if_splits)
next
  case (UnloadCancels i lo)
  then have t: "UnloadThread i lo Cancelling \<in> set (h_threads h)"
    and h': "h' = replace_thread (UnloadThread i lo Cancelling)
        [UnloadThread i lo (case lo of None \<Rightarrow> Freeing True | Some _ \<Rightarrow> Draining)]
        (case lo of None \<Rightarrow> h | Some l \<Rightarrow> set_cancel l h)"
    using assms(3) by (auto split: if_splits)
  show ?thesis using work_left_remove [OF t] unfolding h'
    by (auto simp: work_left_def set_cancel_def split: option.splits)
next
  case (UnloadDrains i lo b)
  then have t: "UnloadThread i lo Draining \<in> set (h_threads h)"
    and h': "h' = replace_thread (UnloadThread i lo Draining) [UnloadThread i lo (Freeing b)] h"
    using assms(3) by (auto split: if_splits)
  show ?thesis using work_left_remove [OF t] unfolding h' by (simp add: work_left_def)
qed (use assms in \<open>auto split: if_splits intro: load_returns_work unload_frees_work\<close>)

lemma thread_can_step:
  assumes "t \<in> set (h_threads h)"
  shows "\<exists>e. thread_event (e :: 'm host_event) \<and> host_step v e (h :: 'm host) \<noteq> None"
proof (cases t)
  case (LoadThread m os)
  show ?thesis
  proof (cases os)
    case Nil
    with LoadThread assms show ?thesis by (intro exI [of _ "LoadReturns m (Inl [])"]) simp
  next
    case (Cons i rest)
    with LoadThread assms show ?thesis by (intro exI [of _ "OutgoingGone m i rest True"]) simp
  qed
next
  case (UnloadThread i lo ph)
  show ?thesis
  proof (cases ph)
    case Cancelling
    with UnloadThread assms show ?thesis by (intro exI [of _ "UnloadCancels i lo"]) simp
  next
    case Draining
    with UnloadThread assms show ?thesis by (intro exI [of _ "UnloadDrains i lo False"]) simp
  next
    case (Freeing b)
    with UnloadThread assms show ?thesis by (intro exI [of _ "UnloadFrees i lo b"]) simp
  qed
qed

text \<open>C7: every load and unload ends: each step of a thread lowers a measure that only
  requests raise, while a thread exists one of them can step (waits are bounded), and when none
  is left no model is \<open>Loading\<close> or \<open>Unloading\<close>.\<close>

theorem host_settles:
  fixes h :: "'m host"
  assumes "host_reachable h"
  shows "(\<forall>v e h'. thread_event e \<longrightarrow> host_step v e h = Some h' \<longrightarrow> work_left h' < work_left h) \<and>
         (h_threads h \<noteq> [] \<longrightarrow> (\<forall>v. \<exists>e. thread_event (e :: 'm host_event) \<and> host_step v e h \<noteq> None)) \<and>
         (h_threads h = [] \<longrightarrow> (\<forall>i. state_of h i \<noteq> Loading \<and> state_of h i \<noteq> Unloading))"
proof (intro conjI impI)
  show "\<forall>v e h'. thread_event e \<longrightarrow> host_step v e h = Some h' \<longrightarrow> work_left h' < work_left h"
    using thread_step_lowers [OF assms] by blast
  show "\<forall>v. \<exists>e. thread_event (e :: 'm host_event) \<and> host_step v e h \<noteq> None" if ne: "h_threads h \<noteq> []"
    using thread_can_step [of "hd (h_threads h)" h] ne by simp
  show "\<forall>i. state_of h i \<noteq> Loading \<and> state_of h i \<noteq> Unloading" if "h_threads h = []"
    using host_reachable_ok [OF assms] that models_okD [of h]
    by (auto simp: host_ok_def model_ok_def state_of_lc) (metis One_nat_def zero_neq_one)+
qed

theorem host_settles_witness:
  "\<exists>h :: nat host. host_reachable h \<and> h_threads h \<noteq> [] \<and>
     (\<exists>e. thread_event (e :: nat host_event) \<and> host_step demo_env e h \<noteq> None)"
proof -
  have "\<exists>h. demo_run [OpLoad ''a''] (demo_host None :: nat host) = Some h \<and> h_threads h \<noteq> []"
    by (simp add: demo_eval demo_admission)
  then obtain h :: "nat host" where h: "host_reachable h" "h_threads h \<noteq> []"
    using demo_run_reachable demo_reachable by blast
  then show ?thesis using host_settles [OF h(1)] by blast
qed

text \<open>C8: a load that is turned away (unknown, disabled, refused by admission) changes
  nothing: no model's state, no weights, no residency, no file, no thread, no lane, and no
  status is published; and admission is asked only when the model has to be loaded.\<close>

theorem refused_load_changes_nothing:
  assumes "host_load v i h = (h', Inl e)" and "\<nexists>err. e = Persist err"
  shows "(\<forall>j. state_of h' j = state_of h j \<and> weights_of h' j = weights_of h j) \<and>
         h_residency h' = h_residency h \<and> h_files h' = h_files h \<and> h_threads h' = h_threads h \<and>
         h_lanes h' = h_lanes h \<and> h_requests h' = h_requests h \<and> h_published h' = h_published h \<and>
         (\<forall>r. e = Refused r \<longrightarrow> unloaded_or_failed (state_of h i))"
proof -
  have pub: "h_published (host_entry_for v i h) = h_published h"
    by (simp add: host_entry_for_def split: option.splits)
  have persist: "\<exists>err. e' = Persist err" if "set_residency v j w g = (g', Inl e')" for j w g g' e'
    using that by (auto simp: set_residency_def split: prod.splits sum.splits)
  then have swap: "\<exists>err. e' = Persist err" if "swap_each v os g = (g', Inl e')" for os g g' e'
    using that by (induction os arbitrary: g) (auto split: prod.splits sum.splits)
  have "h' = h \<or> h' = host_entry_for v i h"
    using assms persist swap
    by (auto simp: host_load_def Let_def split: sum.splits if_splits prod.splits) blast+
  moreover have "unloaded_or_failed (state_of h i)" if "e = Refused r" for r
  proof -
    have "state_of (host_entry_for v i h) i = state_of h i" by (simp add: state_of_lc host_sel)
    then show ?thesis using assms(1) that persist swap
      by (auto simp: host_load_def Let_def unloaded_or_failed_def catalogue_model_def
          split: sum.splits if_splits prod.splits model_state.splits option.splits) blast+
  qed
  ultimately show ?thesis
    using rest_of_sel [OF entry_for_view(3) [of v i h]] pub
    by (auto simp: state_of_lc host_sel weights_of_def simp flip: ld_of_def)
qed

theorem refused_load_changes_nothing_witness:
  "host_load (demo_env\<lparr>env_probe := \<lparr>pr_free_gib = None, pr_total_gib = None, pr_host_available_gib = None\<rparr>\<rparr>)
     ''c'' (demo_host None :: nat host) = (demo_host None, Inl (UnknownModel ''c'')) \<and>
   h_threads (demo_host None :: nat host) = []"
proof -
  have run: "host_load (demo_env\<lparr>env_probe := \<lparr>pr_free_gib = None, pr_total_gib = None, pr_host_available_gib = None\<rparr>\<rparr>)
     ''c'' (demo_host None :: nat host) = (demo_host None, Inl (UnknownModel ''c''))"
    by (simp add: host_load_def catalogue_model_def cat_get_def demo_host_def host_new_def)
  then show ?thesis
    using refused_load_changes_nothing [OF run] by (simp add: demo_host_def host_new_def)
qed

text \<open>What a load that answers has done.\<close>

lemma host_load_Inr:
  assumes "host_ok h" "host_load v i h = (h', Inr s)"
  obtains m g where "cat_get (h_catalog h) i = Some m" "cm_id m = i" "cm_enabled m" "host_ok g"
    "h_catalog g = h_catalog h" "lc_of g i = lc_of h i" "ld_of g i = ld_of h i"
    "is_resident (h_residency g) i"
    "\<forall>j. same_group (h_catalog h) i j \<longrightarrow> j \<noteq> i \<longrightarrow> \<not> kept (lc_of g j)"
    "(h', s) = status_locked v i (request_load_locked v m (swap_out m i (host_entry_for v i h)) g)"
proof -
  let ?h = "host_entry_for v i h"
  obtain m where m0: "catalogue_model h i = Inr m"
    using assms(2) by (cases "catalogue_model h i") (auto simp: host_load_def)
  have m: "cat_get (h_catalog h) i = Some m" "cm_id m = i" using catalogue_model_Inr [OF m0] by auto
  let ?os = "swap_out m i ?h"
  obtain h1 r1 where s1: "set_residency v i True ?h = (h1, r1)" by fastforce
  obtain h2 r2 where s2: "swap_each v ?os h1 = (h2, r2)" by fastforce
  have fin: "cm_enabled m" "r1 = Inr ()" "r2 = Inr ()"
    "(h', s) = status_locked v i (request_load_locked v m ?os h2)"
    using assms(2) m0 s1 s2 by (auto simp: host_load_def Let_def split: sum.splits if_splits prod.splits)
  have ok: "host_ok ?h" by (rule host_ok_entry_for [OF assms(1)])
  have ok1: "host_ok h1" using host_ok_set_residency_True [OF ok, of v i] s1 by simp
  note sw = swap_each_ok [OF ok1 s2]
  have h1: "h1 = fst (set_residency v i True ?h)" using s1 by simp
  note rv = set_residency_view [of v i True ?h, folded h1]
  note sel = rest_of_sel [OF entry_for_view(3) [of v i h]]
  have "is_resident (h_residency h1) i" using set_residency_True_done s1 fin(2) by blast
  then have res: "is_resident (h_residency h2) i" using sw self_not_in_swap_out by blast
  have notin: "i \<notin> set ?os" by (rule self_not_in_swap_out)
  have group: "\<not> kept (lc_of h2 j)" if "same_group (h_catalog h) i j" "j \<noteq> i" for j
  proof (cases "j \<in> set ?os")
    case True
    then show ?thesis using sw fin(3) by blast
  next
    case False
    then have "\<not> kept (lc_of ?h j)" using kept_in_swap_out [of ?h i m j] m that sel by auto
    then show ?thesis using sw False rv by simp
  qed
  have ld: "ld_of (fst (swap_each v os g)) = ld_of g" for os g
    by (induction os arbitrary: g)
      (auto simp: set_residency_view request_unload_view split: prod.splits sum.splits,
       (metis fst_conv set_residency_view(2) request_unload_view(2))+)
  have "ld_of h2 = ld_of h" using ld [of ?os h1] s2 rv(2) by (simp add: host_sel)
  moreover have "lc_of h2 i = lc_of h i" using sw notin rv(1) by (simp add: host_sel)
  moreover have "h_catalog h2 = h_catalog h" using sw rv(3) sel(1) by simp
  ultimately show ?thesis
    using that [of m h2] m fin(1,4) sw res group by auto
qed

text \<open>A load that succeeds answers a resident model in the state the machine moves to
  (\<open>Loading\<close> from \<open>Unloaded\<close> or \<open>Failed\<close>, with any pending unload withdrawn when it was already
  loading), its load thread runs, and no other member of its group is kept in memory.\<close>

theorem load_answers_the_new_state:
  assumes "host_reachable h" and "host_load v i h = (h', Inr s)"
  shows "st_id s = i \<and> st_resident s \<and> is_resident (h_residency h') i \<and> st_state s = state_of h' i \<and>
         state_of h' i = (case state_of h i of Unloaded \<Rightarrow> Loading | Failed _ \<Rightarrow> Loading | st \<Rightarrow> st) \<and>
         (state_of h' i = Loading \<longrightarrow>
            load_threads h' i = 1 \<and> \<not> unload_pending (en_lifecycle (the_entry h' i))) \<and>
         (\<forall>j. j \<noteq> i \<longrightarrow> same_group (h_catalog h) i j \<longrightarrow> \<not> kept (en_lifecycle (the_entry h' j)))"
proof -
  have ok: "host_ok h" by (rule host_reachable_ok [OF assms(1)])
  then have flag: "lifecycle_ok (lc_of h i)" using models_okD [of h i] by (auto simp: host_ok_def model_ok_def)
  obtain m g where g: "cm_id m = i" "lc_of g i = lc_of h i" "is_resident (h_residency g) i"
    "\<forall>j. same_group (h_catalog h) i j \<longrightarrow> j \<noteq> i \<longrightarrow> \<not> kept (lc_of g j)"
    "(h', s) = status_locked v i (request_load_locked v m (swap_out m i (host_entry_for v i h)) g)"
    by (rule host_load_Inr [OF ok assms(2)]) blast
  let ?g = "request_load_locked v m (swap_out m i (host_entry_for v i h)) g"
  have h': "h' = fst (status_locked v i ?g)" and s: "s = snd (status_locked v i ?g)"
    using g(5) by (simp_all add: prod_eq_iff)
  have lc: "lc_of h' = (lc_of g)(i := fst (request_load (lc_of h i)))"
    unfolding h' using g(1,2) by (simp add: host_sel)
  have res: "h_residency h' = h_residency g"
    unfolding h' by (simp add: rest_of_sel(2) [OF status_locked_view(3)] rest_of_sel(2) [OF request_load_view(3)])
  have "st_id s = i" "st_state s = lc_state (lc_of h' i)" "st_resident s = is_resident (h_residency h') i"
    unfolding s h' by (simp_all add: status_locked_def Let_def lc_of_def rest_of_sel(2) [OF entry_for_view(3)])
  moreover have "load_threads h' i = (if state_of h' i = Loading then 1 else 0)"
  proof -
    have "host_ok h'" using host_ok_load [OF ok, of v i] assms(2) by simp
    then show ?thesis using models_okD [of h' i] by (simp add: host_ok_def model_ok_def load_threads_def state_of_lc)
  qed
  moreover have "lc_state (fst (request_load (lc_of h i))) =
      (case lc_state (lc_of h i) of Unloaded \<Rightarrow> Loading | Failed _ \<Rightarrow> Loading | st \<Rightarrow> st)"
    "lc_state (fst (request_load (lc_of h i))) = Loading \<longrightarrow> \<not> unload_pending (fst (request_load (lc_of h i)))"
    using flag by (auto simp: request_load_def lifecycle_ok_def split: model_state.splits)
  ultimately show ?thesis using g(3,4) res lc by (simp add: state_of_lc flip: lc_of_def)
qed

theorem load_answers_the_new_state_witness:
  "\<exists>h s. host_load demo_env ''a'' (demo_host (Some ''stt'') :: nat host) = (h, Inr s) \<and> st_state s = Loading \<and>
     load_threads h ''a'' = 1"
proof -
  have adm: "load_admission demo_env (demo_model ''a'' (Some ''stt'')) [] h = Inr ()" for h :: "nat host"
    by (rule demo_admission)
  obtain h s where run: "host_load demo_env ''a'' (demo_host (Some ''stt'') :: nat host) = (h, Inr s)"
    by (simp add: demo_eval adm)
  have "state_of (demo_host (Some ''stt'') :: nat host) ''a'' = Unloaded" by (simp add: demo_eval)
  with run show ?thesis using load_answers_the_new_state [OF demo_reachable run] by simp
qed

section \<open>Where the host falls short of its documentation\<close>

text \<open>A load asked for while the model is still unloading is lost: it succeeds, marks the
  model resident and answers \<open>Unloading\<close>, but when the unload then finishes the model is
  \<open>Unloaded\<close>, resident, and nothing is loading it.\<close>

theorem load_while_unloading_is_lost:
  assumes "host_reachable h" and "state_of h i = Unloading" and "host_load v i h = (h', Inr s)"
    and "host_step v' (UnloadFrees i lo b) h' = Some h''"
  shows "st_state s = Unloading \<and> st_resident s \<and>
         state_of h'' i = Unloaded \<and> is_resident (h_residency h'') i \<and> load_threads h'' i = 0"
proof -
  note ans = load_answers_the_new_state [OF assms(1,3)]
  have "host_ok (fst (host_load v i h))" by (rule host_ok_load [OF host_reachable_ok [OF assms(1)]])
  then have ok': "host_ok h'" using assms(3) by simp
  then have ok'': "host_ok h''" by (rule host_step_ok [OF _ assms(4)])
  let ?t = "UnloadThread i lo (Freeing b)"
  let ?g = "replace_thread ?t [] h'"
  have h'': "h'' = finish_unload v' i ?g" using assms(4) by (auto split: if_splits)
  have "lc_state (lc_of ?g i) = Unloading" using ans assms(2) by (simp add: state_of_lc)
  note view = finish_unload_view [OF this, of v', folded h'']
  have st: "state_of h'' i = Unloaded" using view(1) by (simp add: state_of_lc)
  moreover have "load_threads h'' i = 0"
    using ok'' models_okD [of h'' i] st by (auto simp: host_ok_def model_ok_def load_threads_def state_of_lc)
  moreover have "is_resident (h_residency h'') i" using rest_of_sel(2) [OF view(3)] ans by simp
  ultimately show ?thesis using ans assms(2) by simp
qed

theorem load_while_unloading_is_lost_witness:
  "\<exists>h :: nat host. host_reachable h \<and> state_of h ''a'' = Unloaded \<and> is_resident (h_residency h) ''a'' \<and>
     load_threads h ''a'' = 0"
proof -
  have "\<exists>h h' s h''. demo_run [OpLoad ''a'', LoadReturns (demo_model ''a'' None) (Inr 7), OpUnload ''a'',
      UnloadCancels ''a'' (Some 0), UnloadDrains ''a'' (Some 0) True] (demo_host None :: nat host) = Some h \<and>
      state_of h ''a'' = Unloading \<and> host_load demo_env ''a'' h = (h', Inr s) \<and>
      host_step demo_env (UnloadFrees ''a'' (Some 0) True) h' = Some h''"
    by (simp add: demo_eval demo_admission)
  then obtain h h' h'' :: "nat host" and s where run: "host_reachable h" "state_of h ''a'' = Unloading"
    "host_load demo_env ''a'' h = (h', Inr s)"
    "host_step demo_env (UnloadFrees ''a'' (Some 0) True) h' = Some h''"
    using demo_run_reachable demo_reachable by blast
  have "host_reachable h'" using demo_load_reachable [OF run(1), of "''a''"] run(3) by simp
  then have "host_reachable h''" using run(4) by (rule host_next)
  then show ?thesis using load_while_unloading_is_lost [OF run] by blast
qed

text \<open>Admission against probed memory does not see the models still \<open>Loading\<close>: with 8 GiB
  free on the device, two models of 6 GiB each are admitted one after the other and both load,
  though their sum would be refused.\<close>

theorem loads_in_progress_overcommit:
  "\<exists>h. demo_run [OpLoad ''a'', OpLoad ''b''] (demo_host None :: nat host) = Some h \<and>
     state_of h ''a'' = Loading \<and> state_of h ''b'' = Loading \<and>
     host_loaded_gib h = mib_gib 12288 \<and>
     admit (host_loaded_gib h) (free_now (env_probe demo_env) f32_zero) \<noteq> Inr ()"
proof -
  have "\<exists>h. demo_run [OpLoad ''a'', OpLoad ''b''] (demo_host None :: nat host) = Some h \<and>
     state_of h ''a'' = Loading \<and> state_of h ''b'' = Loading \<and>
     map cm_id (cat_list (h_catalog h)) = [''a'', ''b''] \<and>
     map cm_vram_gb_estimate (cat_list (h_catalog h)) = [mib_gib 6144, mib_gib 6144]"
    by (simp add: demo_eval demo_admission) (simp add: demo_model_def)
  then obtain h :: "nat host" where h: "demo_run [OpLoad ''a'', OpLoad ''b''] (demo_host None) = Some h"
    "state_of h ''a'' = Loading" "state_of h ''b'' = Loading"
    "map cm_id (cat_list (h_catalog h)) = [''a'', ''b'']"
    "map cm_vram_gb_estimate (cat_list (h_catalog h)) = [mib_gib 6144, mib_gib 6144]"
    by (elim exE conjE) (rule that)
  have "filter (\<lambda>m. holds_memory (state_of h (cm_id m))) (cat_list (h_catalog h)) = cat_list (h_catalog h)"
    using h(2-4) by (auto simp: holds_memory_def filter_id_conv map_eq_Cons_conv)
  moreover have "f32_round (12288 * 2 ^ 139) = Fin (12288 * 2 ^ 139)" "f32_round (6144 * 2 ^ 139) = Fin (6144 * 2 ^ 139)"
    by (rule f32_round_exact; simp)+
  ultimately have sum: "host_loaded_gib h = mib_gib 12288"
    using h(5) by (simp add: host_loaded_gib_def f32_sum_def mib_gib_def)
  have "admit (mib_gib 12288) (free_now (env_probe demo_env) f32_zero) \<noteq> Inr ()"
    using admission_exact_on_mib [of 8192 12288 None None f32_zero]
    by (simp add: demo_env_def mib_gib_read)
  with h sum show ?thesis by auto
qed

end
