(* ===== verification/LocalProperties.thy ===== *)
theory LocalProperties
  imports LocalApi HostProperties
begin

text \<open>
  What the local API promises: nothing behind the gate is reached without it, transient jobs share the one slot and
  end, a chat past its deadline is not started, a stream is the answer's; and where it falls short.
\<close>

section \<open>The gate\<close>

lemma fold_or_zero: "fold (\<lambda>(x, y) acc. or acc (f x y)) ps (a :: 8 word) = 0 \<longleftrightarrow> a = 0 \<and> (\<forall>(x, y) \<in> set ps. f x y = 0)"
  by (induction ps arbitrary: a) (auto simp: or_eq_0_iff)

lemma byte_xor: "xor (of_char x) (of_char y :: 8 word) = 0 \<longleftrightarrow> x = y"
proof -
  have "of_char x = (of_char y :: 8 word) \<longleftrightarrow> x = y"
  proof
    assume eq: "of_char x = (of_char y :: 8 word)"
    have "unat (of_char c :: 8 word) = of_char c" for c
    proof -
      have "(of_char c :: nat) < 2 ^ 8" by (cases c) (simp add: of_char_def split: if_splits)
      then have "unat (word_of_nat (of_char c) :: 8 word) = of_char c" by (simp add: unat_of_nat take_bit_nat_eq_self)
      then show ?thesis by (simp add: of_nat_of_char)
    qed
    then show "x = y" using eq by (metis of_char_eq_iff)
  qed simp
  moreover have "xor a b = 0 \<longleftrightarrow> a = b" for a b :: "8 word" by (auto simp: bit_eq_iff bit_xor_iff)
  ultimately show ?thesis by simp
qed

lemma token_matches_iff: "token_matches a b \<longleftrightarrow> a = b"
  by (auto simp: token_matches_def fold_or_zero byte_xor list_eq_iff_zip_eq)


definition absent_or :: "(string \<Rightarrow> bool) \<Rightarrow> string option \<Rightarrow> bool" where
  "absent_or P x = (case x of None \<Rightarrow> True | Some s \<Rightarrow> P s)"

text \<open>What a request has to show: a loopback host and origin, where it names one, and the token.\<close>

definition may_pass :: "string \<Rightarrow> http_request \<Rightarrow> bool" where
  "may_pass token r = (absent_or loopback_host (request_header r ''host'') \<and>
     absent_or loopback_origin (request_header r ''origin'') \<and>
     bearer_presented (request_header r ''authorization'') = Some token)"

lemma gate_check_iff: "gate_check token r = None \<longleftrightarrow> is_open_route r \<or> may_pass token r"
  by (auto simp: gate_check_def deny_reason_def may_pass_def absent_or_def token_matches_iff split: option.splits)

text \<open>C25: nothing behind the gate is reached without it.  A request other than GET /healthz reaches its handler
  exactly when its Host and Origin headers, where present, are loopback and it carries the token; any other is answered
  401 or 403 and changes nothing.  GET /healthz needs nothing and changes nothing.\<close>

theorem api_needs_host_origin_and_token:
  "if is_open_route r then \<exists>rp. serve_request v c url r w = (w, Replied rp) \<and> rp_status rp = 200
   else if may_pass (lc_token c) r then serve_request v c url r w = dispatch_route v c url r w
   else \<exists>rp. serve_request v c url r w = (w, Replied rp) \<and> rp_status rp \<in> {401, 403}"
proof -
  have open_: "serve_request v c url r w = (w, Replied (respond_json 200 (healthz_json v c w)))" if "is_open_route r"
    using that gate_check_iff [of "lc_token c" r]
    by (auto simp: serve_request_def dispatch_route_def is_open_route_def route_of_def fixed_routes_def Let_def)
  have shut: "\<exists>rp. serve_request v c url r w = (w, Replied rp) \<and> rp_status rp \<in> {401, 403}"
    if "\<not> is_open_route r" "\<not> may_pass (lc_token c) r"
  proof -
    obtain d where "gate_check (lc_token c) r = Some d" using gate_check_iff [of "lc_token c" r] \<open>\<not> is_open_route r\<close> \<open>\<not> may_pass (lc_token c) r\<close> by auto
    then show ?thesis by (cases d) (auto simp: serve_request_def deny_reply_def respond_text_def respond_def)
  qed
  have through: "serve_request v c url r w = dispatch_route v c url r w" if "may_pass (lc_token c) r"
    using that gate_check_iff [of "lc_token c" r] by (simp add: serve_request_def)
  show ?thesis using open_ shut through by (auto simp: respond_json_def respond_def)
qed

section \<open>The slot\<close>

definition is_working :: "'m stage \<Rightarrow> bool" where
  "is_working st = (case st of Working _ _ \<Rightarrow> True | _ \<Rightarrow> False)"

definition slot_ok :: "'m local_world \<Rightarrow> bool" where
  "slot_ok w = (distinct (map fst (lw_stages w)) \<and>
     count_if (\<lambda>s. is_working (snd s)) (lw_stages w) + lw_others w = (if is_busy (lw_gate w) then 1 else 0))"

text \<open>A handler keeps the stages and the other parties' reservations, and takes the slot exactly when it goes on to work.\<close>

definition fair :: "'m local_world \<Rightarrow> 'm answer \<Rightarrow> bool" where
  "fair w a = (lw_stages (fst a) = lw_stages w \<and> lw_others (fst a) = lw_others w \<and>
     (case snd a of
        Goes st \<Rightarrow> if is_working st then \<not> is_busy (lw_gate w) \<and> is_busy (lw_gate (fst a))
          else is_busy (lw_gate (fst a)) = is_busy (lw_gate w)
      | GoesStreaming st \<Rightarrow> \<not> is_working st \<and> is_busy (lw_gate (fst a)) = is_busy (lw_gate w)
      | _ \<Rightarrow> is_busy (lw_gate (fst a)) = is_busy (lw_gate w)))"

lemma fair_transient: "fair w (transient kind f w)"
  by (auto simp: transient_def try_reserve_def drop_reservation_def fair_def is_busy_def is_working_def
      split: prod.splits sum.splits)

lemma fair_host: "fair (w\<lparr>lw_host := h\<rparr>) a \<longleftrightarrow> fair w a"
  by (simp add: fair_def cong: outcome.case_cong)

text \<open>An answer that leaves the gate alone.\<close>

lemma fair_rests: "lw_stages w' = lw_stages w \<Longrightarrow> lw_others w' = lw_others w \<Longrightarrow> is_busy (lw_gate w') = is_busy (lw_gate w) \<Longrightarrow>
    (case out of Goes st \<Rightarrow> \<not> is_working st | GoesStreaming st \<Rightarrow> \<not> is_working st | _ \<Rightarrow> True) \<Longrightarrow> fair w (w', out)"
  by (auto simp: fair_def split: outcome.splits)

lemma fair_with_body: "(\<And>x. fair w (k x)) \<Longrightarrow> fair w (with_body r cap parse big bad w k)"
  unfolding with_body_def by (auto intro!: fair_rests split: sum.split body_outcome.split)

lemma fair_chat_transient: "fair w (chat_transient v cw w)"
  by (simp add: chat_transient_def fair_transient)

lemma fair_chat_host: "fair w (chat_transient v cw (w\<lparr>lw_host := h\<rparr>))"
  using fair_chat_transient [of "w\<lparr>lw_host := h\<rparr>"] by (simp add: fair_host)

lemma fair_chat_on_lane: "fair w (chat_on_lane v cw w)"
  by (auto simp: chat_on_lane_def ask_lane_def fair_chat_transient fair_chat_host is_working_def intro!: fair_rests
      split: option.splits prod.splits sum.splits)

lemma fair_stream_chat: "fair w (stream_chat v cw w)"
  by (auto simp: stream_chat_def require_loaded_def is_working_def intro!: fair_rests split: sum.splits prod.splits if_splits)

lemmas fair_intros = fair_with_body fair_transient fair_chat_on_lane fair_stream_chat fair_rests

lemma fair_handlers:
  "fair w (handle_image v r w)" "fair w (handle_tts v r w)" "fair w (handle_stt v r w)" "fair w (handle_video v r w)"
  "fair w (handle_chat v r w)" "fair w (handle_list_models v w)" "fair w (handle_add_model v c r w)"
  "fair w (handle_job_log v i w)" "fair w (handle_job_thumbnail i w)" "fair w (lifecycle_call v pend f w)"
  unfolding handle_image_def handle_tts_def handle_stt_def handle_video_def handle_chat_def handle_list_models_def
    handle_add_model_def handle_job_log_def handle_job_thumbnail_def lifecycle_call_def Let_def
  by (auto intro!: fair_intros split: sum.splits prod.splits)

lemma fair_tokenize: "fair w (handle_tokenize v r w)"
  unfolding handle_tokenize_def
  by (rule fair_with_body)
    (auto simp: require_loaded_def ask_lane_def is_working_def intro!: fair_rests
      split: sum.splits prod.splits local_error.splits)

lemma fair_delete: "fair w (handle_delete_model v i w)" "fair w (delete_removes v c i w)"
  by (auto simp: handle_delete_model_def delete_removes_def Let_def is_working_def intro!: fair_rests
      split: sum.splits prod.splits host_error.splits)

lemma fair_tokens: "fair w (handle_stream_token v r w)" "fair w (mint_recording_token v ttl w)"
  unfolding handle_stream_token_def mint_recording_token_def Let_def
  by (auto intro!: fair_with_body fair_rests split: option.split prod.split)

lemma fair_delete_recordings: "lw_voice w = Some store \<Longrightarrow> fair w (delete_recordings v which store w)"
  unfolding delete_recordings_def
  by (auto intro!: fair_rests split: sum.split prod.split)

lemma fair_voice: "fair w (handle_voice_samples v r p w)"
  unfolding handle_voice_samples_def Let_def
  by (simp add: fair_with_body fair_tokens(2) fair_delete_recordings fair_rests split: option.split)

lemma fair_put_config: "fair w (daemon_put_config v r d rw w)"
  unfolding daemon_put_config_def by (auto intro!: fair_with_body fair_rests split: prod.split)

lemma fair_daemon: "fair w (handle_daemon v c url r w)"
proof (cases "lw_control w")
  case None
  then show ?thesis by (simp add: handle_daemon_def fair_rests)
next
  case (Some ctl)
  obtain d rw where ctl: "ctl = (d, rw)" by (cases ctl)
  note ifs = if_split [of "fair w"]
  show ?thesis unfolding handle_daemon_def Some ctl option.case prod.case Let_def
    by (intro ifs [THEN iffD2] conjI impI fair_put_config)
      (auto simp: daemon_get_status_def set_paused_def Let_def intro!: fair_rests split: prod.split)
qed

lemma fair_serve: "fair w (serve_request v c url r w)"
proof -
  have "fair w (dispatch_route v c url r w)"
    unfolding dispatch_route_def Let_def
    by (auto intro!: fair_handlers fair_tokenize fair_delete fair_tokens fair_voice fair_daemon fair_rests
        split: route.split)
  then show ?thesis by (auto simp: serve_request_def intro!: fair_rests split: option.splits)
qed


lemma fair_cong: "lw_stages w' = lw_stages w \<Longrightarrow> lw_others w' = lw_others w \<Longrightarrow> lw_gate w' = lw_gate w \<Longrightarrow> fair w' a = fair w a"
  by (simp add: fair_def cong: outcome.case_cong)

lemma same_sel [simp]:
  "lw_stages (leave_lane i l w) = lw_stages w" "lw_others (leave_lane i l w) = lw_others w" "lw_gate (leave_lane i l w) = lw_gate w"
  "lw_stages (end_stream n em w) = lw_stages w" "lw_others (end_stream n em w) = lw_others w" "lw_gate (end_stream n em w) = lw_gate w"
  by (simp_all add: leave_lane_def end_stream_def)

lemma fair_lane_ends:
  "fair w (chat_lane_ends v i l deadline j r w)" "fair w (stream_lane_ends v sends n i l deadline j pieces r w)"
  by (auto simp: chat_lane_ends_def stream_lane_ends_def Let_def intro!: fair_rests split: prod.split)

lemma fair_refused: "fair w (lane_refused v sends n i e work w)"
  unfolding lane_refused_def by (auto intro!: fair_rests fair_chat_transient split: lane_work.split)

lemma fair_given: "fair w (lane_given v sends n i m l work w)"
proof -
  have chat: "fair w (chat_transient v cw (leave_lane i l w))" for cw
    using fair_chat_transient [of "leave_lane i l w" v cw] fair_cong [of "leave_lane i l w" w] by simp
  have ends: "fair w (chat_lane_ends v i l d j r (w\<lparr>lw_obs := ob\<rparr>))"
      "fair w (stream_lane_ends v sends n i l d j ps r (w\<lparr>lw_obs := ob\<rparr>))" for d j r ob ps
    using fair_lane_ends [of "w\<lparr>lw_obs := ob\<rparr>"] fair_cong [of "w\<lparr>lw_obs := ob\<rparr>" w] by simp_all
  show ?thesis unfolding lane_given_def
    by (auto simp: Let_def is_working_def intro!: fair_rests chat ends split: lane_work.split prod.split sum.split)
qed

lemma fair_lanes:
  "fair w (lane_granted v sends n i m l work w)" "fair w (lane_returns v sends n i l work j ps r w)"
  "fair w (stream_asks v sends n i preview p d w)"
proof -
  have host: "fair w a" if "fair (w\<lparr>lw_host := h\<rparr>) a" for h a using that by (simp add: fair_host)
  show "fair w (lane_granted v sends n i m l work w)"
    by (auto simp: lane_granted_def Let_def intro!: host [OF fair_given] host [OF fair_refused] split: prod.split sum.split)
  show "fair w (lane_returns v sends n i l work j ps r w)"
    unfolding lane_returns_def by (auto intro!: fair_lane_ends fair_rests split: lane_work.split option.split)
  show "fair w (stream_asks v sends n i preview p d w)"
    by (auto simp: stream_asks_def ask_lane_def is_working_def intro!: host [OF fair_refused] fair_rests split: prod.split sum.split)
qed

lemma settle_slot:
  assumes "slot_ok w" "fair w a" "n \<notin> fst ` set (lw_stages w)"
  shows "slot_ok (settle n a)"
  using assms by (cases a; cases "snd a")
    (auto simp: settle_def fair_def slot_ok_def count_if_def split: if_splits outcome.splits)

lemma count_one_out:
  assumes "distinct (map fst ss)" "map_of ss n = Some st"
  shows "count_if (\<lambda>s. P (snd s)) ss = count_if (\<lambda>s. P (snd s)) (filter (\<lambda>s. fst s \<noteq> n) ss) + (if P st then 1 else 0)"
  using assms
proof (induction ss)
  case (Cons s ss)
  have same: "filter (\<lambda>s. fst s \<noteq> n) ss = ss" if "fst s = n"
    using Cons.prems(1) that by (force simp: filter_id_conv image_iff)
  show ?case using Cons same by (cases s) (auto simp: count_if_def split: if_splits)
qed simp

lemma end_stage_slot:
  assumes "slot_ok w" "stage_of n w = Some st" "\<not> is_working st"
  shows "slot_ok (end_stage n w)" "n \<notin> fst ` set (lw_stages (end_stage n w))"
  using assms count_one_out [of "lw_stages w" n st is_working]
  by (auto simp: slot_ok_def end_stage_def stage_of_def distinct_map_filter)

lemma engine_returns_slot:
  assumes "slot_ok w" "stage_of n w = Some (Working kind lj)"
  shows "slot_ok (settle n (engine_returns v kind lj a (end_stage n w)))"
    "\<not> is_busy (lw_gate (settle n (engine_returns v kind lj a (end_stage n w))))"
  using assms count_one_out [of "lw_stages w" n "Working kind lj" is_working]
  by (auto simp: slot_ok_def end_stage_def stage_of_def distinct_map_filter engine_returns_def settle_def is_working_def
      is_busy_def drop_reservation_def split: prod.splits if_splits)

lemma stage_none: "stage_of n w = None \<Longrightarrow> n \<notin> fst ` set (lw_stages w)"
  by (simp add: stage_of_def map_of_eq_None_iff)

lemma local_step_slot:
  assumes ok: "slot_ok w" and step: "local_step c url sends v e w = Some w'"
  shows "slot_ok w'"
proof (cases e)
  case (Arrive n r)
  then show ?thesis using assms settle_slot [OF ok fair_serve stage_none] by (auto split: if_splits)
next
  case (EngineReturns n a)
  then show ?thesis using assms engine_returns_slot(1) [OF ok] by (auto split: option.splits stage.splits)
next
  case (LaneGranted n)
  then obtain i m l work where st: "stage_of n w = Some (LaneWait i m l work)"
    and w': "w' = settle n (lane_granted v sends n i m l work (end_stage n w))"
    using step by (auto split: option.splits stage.splits if_splits)
  show ?thesis unfolding w' by (rule settle_slot [OF end_stage_slot(1) fair_lanes(1) end_stage_slot(2)])
      (use ok st in \<open>auto simp: is_working_def\<close>)
next
  case (LaneReturns n ps a)
  then obtain i m l work j where st: "stage_of n w = Some (LaneServe i m l work j)"
    and w': "w' = settle n (lane_returns v sends n i l work j ps a (end_stage n w))"
    using step by (auto split: option.splits stage.splits if_splits)
  show ?thesis unfolding w' by (rule settle_slot [OF end_stage_slot(1) fair_lanes(2) end_stage_slot(2)])
      (use ok st in \<open>auto simp: is_working_def\<close>)
next
  case (StreamAsks n)
  then obtain i preview p d where st: "stage_of n w = Some (Spawned i preview p d)"
    and w': "w' = settle n (stream_asks v sends n i preview p d (end_stage n w))"
    using step by (auto split: option.splits stage.splits if_splits)
  show ?thesis unfolding w' by (rule settle_slot [OF end_stage_slot(1) fair_lanes(3) end_stage_slot(2)])
      (use ok st in \<open>auto simp: is_working_def\<close>)
next
  case (DeleteRemoves n)
  then obtain i where st: "stage_of n w = Some (Deleting i)"
    and w': "w' = settle n (delete_removes v c i (end_stage n w))"
    using step by (auto split: option.splits stage.splits if_splits)
  show ?thesis unfolding w' by (rule settle_slot [OF end_stage_slot(1) fair_delete(2) end_stage_slot(2)])
      (use ok st in \<open>auto simp: is_working_def\<close>)
next
  case (HostRuns h)
  then show ?thesis using assms by (auto simp: slot_ok_def)
next
  case OthersReserve
  then show ?thesis using assms by (auto simp: slot_ok_def try_reserve_def is_busy_def split: if_splits)
next
  case OthersRelease
  then show ?thesis using assms by (auto simp: slot_ok_def drop_reservation_def is_busy_def split: if_splits)
qed


text \<open>An event that cannot happen changes nothing.\<close>

definition local_try :: "local_config \<Rightarrow> string \<Rightarrow> (nat \<Rightarrow> bool) \<Rightarrow> 'm local_env \<times> 'm local_event \<Rightarrow> 'm local_world \<Rightarrow> 'm local_world" where
  "local_try c url sends ve w = (case local_step c url sends (fst ve) (snd ve) w of None \<Rightarrow> w | Some w' \<Rightarrow> w')"

interpretation local_slot: op_invariant "local_try c url sends" "\<lambda>_. True" slot_ok for c url sends
  by unfold_locales (auto simp: local_try_def local_step_slot split: option.split)

text \<open>C26: local jobs share the one slot.  Whatever requests arrive, engines answer, lanes are granted, models load and
  other parties reserve and release, in any order: at most one local job runs in the engine at a time, never beside a
  job of the studio, an update or a training, and the slot is held exactly while one of them does.\<close>

theorem local_jobs_share_the_slot:
  assumes "lw_stages w = []" "lw_others w = 0" "\<not> is_busy (lw_gate w)"
    and "w' = fold (local_try c url sends) evs w"
  shows "count_if (\<lambda>s. is_working (snd s)) (lw_stages w') + lw_others w' = (if is_busy (lw_gate w') then 1 else 0) \<and>
    distinct (map fst (lw_stages w'))"
proof -
  have "slot_ok w" using assms by (simp add: slot_ok_def count_if_def)
  then have "slot_ok w'" unfolding assms(4) by (intro local_slot.run_keeps) (simp_all add: list_all_iff)
  then show ?thesis by (simp add: slot_ok_def)
qed

text \<open>A local job always ends: whatever the engine answers, the slot is free again, the job is no longer active, the
  newest entry of the local ring is this job with its outcome, and the caller is answered: 500 if the engine failed, 200
  with the result if it is of the job's kind.\<close>

theorem local_job_ends:
  assumes "slot_ok w" "stage_of n w = Some (Working kind lj)" "cj_source (lj_job lj) = Local"
    and "local_step c url sends v (EngineReturns n a) w = Some w'"
  shows "\<not> is_busy (lw_gate w') \<and> stage_of n w' = None \<and>
    cj_job_id (lj_job lj) \<notin> cj_job_id ` set (ob_active_jobs (lw_obs w')) \<and>
    hd (ob_local_jobs (lw_obs w')) = recent_of (je_now (lv_job v)) (outcome_of id a) (lj_job lj) \<and>
    (\<exists>rp. hd (lw_replies w') = (n, rp) \<and>
      (case a of Inl e \<Rightarrow> rp = respond_text 500 (''engine error: '' @ e)
       | Inr r \<Rightarrow> kind \<in> {Image, Llm, AudioStt, AudioTts, Video} \<and> kind_of_result r = kind \<longrightarrow> rp_status rp = 200))"
proof -
  have w': "w' = settle n (engine_returns v kind lj a (end_stage n w))" using assms(2,4) by simp
  have rings: "cj_job_id j \<notin> cj_job_id ` set (ob_active_jobs (run_finish now out j ob))"
      "cj_source j = Local \<Longrightarrow> hd (ob_local_jobs (run_finish now out j ob)) = recent_of now out j" for now out j ob
    by (auto simp: run_finish_def run_drop_def record_local_job_def record_recent_job_def keep_first_def RECENT_JOBS_CAP_def
        split: job_source.split)
  have reply: "case a of Inl e \<Rightarrow> reply_for kind (snd (dispatch_finish (lv_job v) lj a ob)) = respond_text 500 (''engine error: '' @ e)
      | Inr r \<Rightarrow> kind \<in> {Image, Llm, AudioStt, AudioTts, Video} \<and> kind_of_result r = kind \<longrightarrow>
          rp_status (reply_for kind (snd (dispatch_finish (lv_job v) lj a ob))) = 200" for ob
    by (cases a; cases "projr a")
      (auto simp: dispatch_finish_def reply_for_def respond_local_err_def local_status_def local_error_text_def respond_def
        respond_llm_def respond_json_def respond_text_def Let_def)
  have gone: "stage_of n (end_stage n w) = None"
    by (auto simp: stage_of_def end_stage_def map_of_eq_None_iff)
  obtain ob r where fin: "dispatch_finish (lv_job v) lj a (lw_obs (end_stage n w)) = (ob, r)" by fastforce
  have ob: "ob = run_finish (je_now (lv_job v)) (outcome_of id a) (lj_job lj)
      (case a of Inr x \<Rightarrow> keep_thumbnail (je_png (lv_job v)) x (lj_job lj) (lw_obs w) | Inl _ \<Rightarrow> lw_obs w)"
    using fin by (auto simp: dispatch_finish_def Let_def end_stage_def)
  have sel: "lw_obs w' = ob" "hd (lw_replies w') = (n, reply_for kind r)" "lw_stages w' = lw_stages (end_stage n w)"
    using fin by (simp_all add: w' engine_returns_def settle_def)
  have "\<not> is_busy (lw_gate w')" unfolding w' by (rule engine_returns_slot(2) [OF assms(1,2)])
  moreover have "stage_of n w' = None" using gone sel(3) by (simp add: stage_of_def)
  ultimately show ?thesis using rings assms(3) reply [of "lw_obs (end_stage n w)"] fin
    by (auto simp: sel ob split: sum.split)
qed

section \<open>Chats and streams on a lane\<close>

text \<open>A chat whose caller has stopped waiting is not started: when its lane comes up past the deadline it is
  answered 504, the lane is free for the next, the job slot untouched, and the job recorded as failed and no longer
  active.\<close>

theorem chat_past_its_deadline_is_not_started:
  assumes "lv_as_chat v m" "cw_deadline cw = Some d" "d \<le> je_now (lv_job v)"
    and "lane_given v sends n i m l (LwChat cw) w = (w', out)"
  shows "(\<exists>rp. out = Replied rp \<and> rp_status rp = 504) \<and> \<not> lane.busy (h_lanes (lw_host w') l) \<and> lw_gate w' = lw_gate w \<and>
    rj_outcome (hd (ob_local_jobs (lw_obs w'))) = JobFailed DEADLINE_PASSED \<and>
    rj_job_id (hd (ob_local_jobs (lw_obs w'))) \<notin> cj_job_id ` set (ob_active_jobs (lw_obs w'))"
  using assms
  by (auto simp: lane_given_def lane_begin_def new_job_def lane_start_def deadline_passed_def chat_lane_ends_def lane_finish_def
      lane_answer_def leave_lane_def set_busy_def respond_llm_def respond_local_err_def local_status_def respond_text_def
      respond_def run_finish_def run_drop_def record_local_job_def keep_first_def RECENT_JOBS_CAP_def recent_of_def
      outcome_of_def local_error_text_def DEADLINE_PASSED_def run_begin_def Let_def)

lemma emit_all: "\<not> em_gone em \<Longrightarrow>
    em_sent (fold (emit sends) bs em) = em_sent em @ take (length (takeWhile sends [length (em_sent em)..<length (em_sent em) + length bs])) bs"
proof (induction bs arbitrary: em)
  case (Cons b bs)
  have gone: "em_sent (fold (emit sends) bs e) = em_sent e" if "em_gone e" for bs e
    using that by (induction bs arbitrary: e) (auto simp: emit_def)
  let ?k = "length (em_sent em)"
  have upt: "[?k..<?k + length (b # bs)] = ?k # [Suc ?k..<Suc ?k + length bs]" by (simp add: upt_conv_Cons del: upt_Suc)
  show ?case
  proof (cases "sends ?k")
    case True
    then show ?thesis using Cons.prems Cons.IH [of "em\<lparr>em_sent := em_sent em @ [b]\<rparr>"] unfolding upt by (simp add: emit_def)
  next
    case False
    then have "emit sends b em = em\<lparr>em_gone := True\<rparr>" using Cons.prems by (simp add: emit_def)
    then show ?thesis using False gone [of "em\<lparr>em_gone := True\<rparr>" bs] unfolding upt by simp
  qed
qed simp

lemma stream_pieces_run: "stream_pieces show_json sends model ps s em = (case think_run ps s of (s', ds) \<Rightarrow>
    (s', fold (emit sends) (map (\<lambda>d. sse_event show_json (chunk_frame model d)) ds) em))"
  by (induction ps arbitrary: s em) (auto simp: emit_deltas_def fold_map comp_def split: prod.splits)

text \<open>C27: what a streamed chat sends is a prefix of one list, all of it while the client takes what is sent: the
  answer's frames in order, the frame that says how it ended, and the end mark; and those frames carry the thought
  and the answer of the text the model produced, however it came in pieces.\<close>

theorem stream_carries_the_answer:
  "\<exists>ds. let events = map (\<lambda>d. sse_event show_json (chunk_frame model d)) ds @
          [sse_event show_json (last_frame model (stream_result now deadline r)), SSE_DONE] in
     em_sent (fst (stream_on_lane show_json sends now deadline model (Inr (pieces, r)) show_host)) =
       take (length (takeWhile sends [0..<length events])) events \<and>
     delta_reasoning ds = fst (think_reference (concat pieces)) \<and>
     trim (delta_content ds) = trim (snd (think_reference (concat pieces)))"
proof -
  obtain s ds where run: "think_run pieces think_splitter_default = (s, ds)" by fastforce
  let ?ds = "ds @ think_finish s"
  let ?frames = "map (\<lambda>d. sse_event show_json (chunk_frame model d))"
  let ?last = "[sse_event show_json (last_frame model (stream_result now deadline r)), SSE_DONE]"
  have "fst (stream_on_lane show_json sends now deadline model (Inr (pieces, r)) show_host) =
      fold (emit sends) (?frames ?ds @ ?last) empty_emitter"
    by (simp add: stream_on_lane_def stream_pieces_run run emit_deltas_def fold_map comp_def stream_tail_def Let_def empty_emitter_def)
  then have "em_sent (fst (stream_on_lane show_json sends now deadline model (Inr (pieces, r)) show_host)) =
      em_sent (fold (emit sends) (?frames ?ds @ ?last) empty_emitter)" by (rule arg_cong)
  also have "em_sent (fold (emit sends) bs empty_emitter) = take (length (takeWhile sends [0..<length bs])) bs" for bs
    using emit_all [of empty_emitter sends bs] by (simp add: empty_emitter_def)
  finally have sent: "em_sent (fst (stream_on_lane show_json sends now deadline model (Inr (pieces, r)) show_host)) =
      take (length (takeWhile sends [0..<length (?frames ?ds @ ?last)])) (?frames ?ds @ ?last)" .
  have "think_inv [] (think_splitter_default, [])"
    by (auto simp: think_inv_def think_splitter_default_def trim_start_def strip_prefix_def starts_with_def)
  from inv_finish [OF inv_run [OF this run]]
  have thought: "delta_reasoning ?ds = fst (think_reference (concat pieces)) \<and> trim (delta_content ?ds) = trim (snd (think_reference (concat pieces)))"
    by simp
  show ?thesis unfolding Let_def by (intro exI [of _ ?ds] conjI sent thought [THEN conjunct1] thought [THEN conjunct2])
qed

section \<open>Where the API falls short\<close>

lemma statuses_ids: "map st_id (snd (statuses_of v is h)) = is"
proof (induction "is" arbitrary: h)
  case (Cons i "is")
  obtain h' ss where rest: "statuses_of v is (host_entry_for v i h) = (h', ss)" by fastforce
  show ?case using Cons.IH [of "host_entry_for v i h"] rest by (simp add: status_locked_def Let_def)
qed simp

text \<open>A model whose load is asked for between the two halves of its deletion stays: the deletion takes its
  catalogue entry and leaves the load, so the model keeps its memory while no call can name it, neither unload it
  nor list it.\<close>

theorem model_loaded_during_its_deletion_stays:
  assumes "state_of (lw_host w) i = Loading" and "delete_removes v c i w = (w', out)"
  shows "state_of (lw_host w') i = Loading \<and> h_threads (lw_host w') = h_threads (lw_host w) \<and>
    snd (host_unload e i (lw_host w')) = Inl (UnknownModel i) \<and>
    i \<notin> st_id ` set (snd (host_statuses e (lw_host w')))"
proof -
  obtain cat fs where host: "lw_host w' = (lw_host w)\<lparr>h_catalog := cat, h_files := fs\<rparr>" and cat: "cat = fst (cat_remove i (h_catalog (lw_host w)))"
    using assms(2) by (auto simp: delete_removes_def Let_def split: prod.splits)
  have gone: "i \<notin> cm_id ` set (models cat)" by (auto simp: cat cat_remove_def Let_def)
  then have "cat_get cat i = None" by (auto simp: cat_get_def find_none_iff)
  moreover have "st_id ` set (snd (host_statuses e (lw_host w'))) = set (map st_id (snd (host_statuses e (lw_host w'))))" by simp
  then have "st_id ` set (snd (host_statuses e (lw_host w'))) = cm_id ` set (models cat)"
    unfolding host_statuses_def statuses_ids by (simp add: host cat_list_def)
  ultimately show ?thesis using assms(1) gone
    by (simp add: host state_of_def the_entry_def host_unload_def catalogue_model_def)
qed


text \<open>A client's request for a streaming token with the given lifetime, and what it needs to get as far as the
  lifetime.\<close>

definition asks_stream_token :: "'m local_env \<Rightarrow> local_config \<Rightarrow> 'm local_world \<Rightarrow> http_request \<Rightarrow> int \<Rightarrow> bool" where
  "asks_stream_token v c w r ttl = (may_pass (lc_token c) r \<and> route_of (rq_method r) (url_path (rq_url r)) = RtStreamToken \<and>
     (case read_body_capped r MAX_BODY_BYTES of
        Inr (BodyOk b) \<Rightarrow> (case ps_stream_token (lv_parse v) b of
            Inr x \<Rightarrow> xb_ttl_secs x = Some ttl \<and> lw_endpoint w \<noteq> None \<and>
              (case cat_get (h_catalog (lw_host w)) (xb_model x) of Some m \<Rightarrow> ms_engine (cm_source m) = Parakeet | None \<Rightarrow> False)
          | Inl _ \<Rightarrow> False)
      | _ \<Rightarrow> False))"

lemma ttl_panics:
  assumes "asks_stream_token v c w r ttl" "duration_seconds ttl = None"
  shows "serve_request v c url r w = (w, Panicked)"
proof -
  have "serve_request v c url r w = dispatch_route v c url r w"
    using assms(1) gate_check_iff [of "lc_token c" r] by (simp add: asks_stream_token_def serve_request_def)
  also have "dispatch_route v c url r w = handle_stream_token v r w"
    using assms(1) by (simp add: asks_stream_token_def dispatch_route_def Let_def)
  also have "handle_stream_token v r w = (w, Panicked)"
    using assms unfolding asks_stream_token_def handle_stream_token_def with_body_def
    by (auto simp: or_else_def Let_def split: sum.splits body_outcome.splits option.splits)
  finally show ?thesis .
qed

text \<open>A lifetime outside the range of a duration is not clamped but panics, and the panic ends the pool thread that
  serves the request: as many such requests as the pool has threads, and the local API never answers again.\<close>

theorem ttl_out_of_range_ends_the_api:
  assumes "asks_stream_token v c w r ttl" "ttl < - MAX_DURATION_SECS \<or> MAX_DURATION_SECS < ttl" "lw_stages w = []"
    and "w' = fold (local_try c url sends) (map (\<lambda>k. (v, Arrive k r)) [0..<lw_workers w]) w"
  shows "w' = w\<lparr>lw_workers := 0\<rparr> \<and> local_step c url sends v' (Arrive n r') w' = None"
proof -
  have none: "duration_seconds ttl = None" using assms(2) by (simp add: duration_seconds_def)
  have step: "local_try c url sends (v, Arrive k r) (w\<lparr>lw_workers := Suc j\<rparr>) = w\<lparr>lw_workers := j\<rparr>" for k j
  proof -
    have "asks_stream_token v c (w\<lparr>lw_workers := Suc j\<rparr>) r ttl"
      using assms(1) by (auto simp: asks_stream_token_def split: sum.splits body_outcome.splits option.splits)
    then show ?thesis using ttl_panics [OF _ none, of v c "w\<lparr>lw_workers := Suc j\<rparr>" r url] assms(3)
      by (simp add: local_try_def free_workers_def count_if_def stage_of_def settle_def)
  qed
  have run: "fold (local_try c url sends) (map (\<lambda>k. (v, Arrive k r)) ks) (w\<lparr>lw_workers := length ks + j\<rparr>) = w\<lparr>lw_workers := j\<rparr>" for ks j
    by (induction ks) (simp_all add: step)
  have "w' = w\<lparr>lw_workers := 0\<rparr>" using run [of "[0..<lw_workers w]" 0] assms(4) by simp
  then show ?thesis by (simp add: free_workers_def)
qed

lemma utf8_ascii_prefix: "list_all (byte_in 0 127) a \<Longrightarrow> utf8_ok (a @ s) = utf8_ok s"
  by (induction a) auto

text \<open>A chunked body over the cap is refused with 413 only if the cap does not fall inside a character: a body
  that is sound UTF-8 but whose first byte past the cap starts a longer character is taken for malformed, and the
  request is dropped without a 413.\<close>

theorem oversized_body_can_be_dropped:
  "let request = (\<lambda>body. \<lparr>rq_method = m, rq_url = u, rq_headers = hs, rq_length = None, rq_body = Inr body\<rparr>);
       filled = replicate cap (CHR ''a'') in
   utf8_ok (filled @ [CHR 0xC3, CHR 0xA9]) \<and>
   (\<exists>e. read_body_capped (request (filled @ [CHR 0xC3, CHR 0xA9])) cap = Inl e) \<and>
   read_body_capped (request (filled @ ''ee'')) cap = Inr BodyTooLarge"
proof -
  have a: "list_all (byte_in 0 127) (replicate cap (CHR ''a''))" by (simp add: list_all_iff byte_in_def)
  have bytes: "byte_in 0 127 (CHR ''e'')" "\<not> byte_in 0 127 (CHR 0xC3)" "byte_in 194 223 (CHR 0xC3)" "is_cont (CHR 0xA9)"
    by (simp_all add: byte_in_def is_cont_def)
  show ?thesis using a bytes
    by (simp add: Let_def read_body_capped_def body_bytes_def utf8_ascii_prefix [OF a])
qed

section \<open>Witnesses\<close>

definition sample_env :: "string \<Rightarrow> nat local_env" where
  "sample_env body = \<lparr>lv_job = \<lparr>je_now = 100, je_counter = 1,
       je_host = demo_env, je_png = (\<lambda>_. None)\<rparr>,
     lv_parse = \<lparr>ps_image = Inl, ps_chat = Inl, ps_tokenize = Inl, ps_tts = Inl,
       ps_stt = (\<lambda>_. Inr \<lparr>rb_input_url = ''data:audio/wav;base64,'', rb_model = None, rb_language = None\<rparr>),
       ps_video = Inl, ps_model = Inl,
       ps_stream_token = (\<lambda>_. Inr \<lparr>xb_model = ''a'', xb_ttl_secs = Some 9223372036854776000\<rparr>), ps_voice_token = Inl, ps_config = Inl\<rparr>,
     lv_show_debug = id, lv_show_f32 = (\<lambda>_. []), lv_show_time = (\<lambda>_. []), lv_show_io = (\<lambda>_. []), lv_show_json = (\<lambda>_. []),
     lv_show_method = (\<lambda>_. []), lv_show_catalog = (\<lambda>_. []), lv_show_config = (\<lambda>_. JNull), lv_show_status = (\<lambda>_. JNull),
     lv_show_log = (\<lambda>_. JNull), lv_show_line = (\<lambda>_. JNull), lv_model_json = (\<lambda>_. []),
     lv_features = \<lparr>lf_llama = True, lf_stt_stream = True, lf_vision = True\<rparr>, lv_as_chat = (\<lambda>m. m = 7), lv_entropy = [],
     lv_sha256 = (\<lambda>_. []), lv_lan = None, lv_free_bytes = None, lv_take_faults = no_take_faults, lv_url = (\<lambda>_. None),
     lv_reg = sample_reg_env (Inl ''panic'')\<rparr>"

definition sample_local :: local_config where
  "sample_local = \<lparr>lc_token = ''t'', lc_catalog_path = None, lc_models_root = None, lc_engine_name = ''multi'', lc_version = ''1'',
     lc_pid = 1, lc_config_path = ''/c''\<rparr>"

definition sample_world :: "nat local_world" where
  "sample_world = \<lparr>lw_host = demo_host None, lw_gate = gate_new, lw_others = 0, lw_obs = observers_default,
     lw_logs = \<lparr>wl_queue = [], wl_ring = ring_new\<rparr>, lw_job_logs = [], lw_gpu = None, lw_tokens = Map.empty, lw_voice_tokens = Map.empty,
     lw_endpoint = Some \<lparr>se_port = 4, se_cert_sha256 = [], se_cert_pem = []\<rparr>, lw_voice = None, lw_control = None, lw_ceilings = [],
     lw_workers = 8, lw_stages = [], lw_replies = [], lw_streams = []\<rparr>"

definition sample_request :: "http_method \<Rightarrow> string \<Rightarrow> http_request" where
  "sample_request m url = \<lparr>rq_method = m, rq_url = url, rq_headers = [(''Host'', ''127.0.0.1:4''), (''Authorization'', ''Bearer t'')],
     rq_length = Some 2, rq_body = Inr ''{}''\<rparr>"

definition sample_run :: "nat local_event list \<Rightarrow> nat local_world" where
  "sample_run es = fold (local_try sample_local [] (\<lambda>_. True)) (map (Pair (sample_env [])) es) sample_world"

lemma sample_pass: "may_pass (lc_token sample_local) (sample_request m url)"
  by (simp add: sample_local_def sample_request_def may_pass_def) code_simp

lemma sample_body: "read_body_capped (sample_request m url) MAX_BODY_BYTES = Inr (BodyOk ''{}'')"
  by (simp add: read_body_capped_def body_bytes_def sample_request_def MAX_BODY_BYTES_def byte_in_def take_Cons')

lemma sample_fields [simp]: "rq_method (sample_request m url) = m" "rq_url (sample_request m url) = url"
  by (simp_all add: sample_request_def)

lemma sample_serve: "serve_request v sample_local url (sample_request m u) w = dispatch_route v sample_local url (sample_request m u) w"
  using sample_pass [of m u] gate_check_iff [of "lc_token sample_local" "sample_request m u"] by (simp add: serve_request_def)

lemma sample_routes:
  "route_of MPost (url_path ''/stt'') = RtStt" "route_of MPost (url_path ''/stream-tokens'') = RtStreamToken"
  "route_of MPost (url_path ''/models/a/load'') = RtLoad ''a''" "route_of MDelete (url_path ''/models/a'') = RtDelete ''a''"
  by code_simp+

lemma sample_models: "default_model_for AudioStt (h_catalog (demo_host None)) = Some (demo_model ''a'' None)"
  "cat_get (h_catalog (demo_host None)) ''a'' = Some (demo_model ''a'' None)"
  by (simp_all add: default_model_for_def demo_host_def host_new_def cat_get_def demo_model_def cat_list_def)

definition sample_job :: current_job where
  "sample_job = \<lparr>cj_job_id = job_id_of 100 1, cj_kind = AudioStt, cj_model = ''a'', cj_prompt = truncate_prompt ''data:audio/wav;base64,'',
     cj_started_at = 100, cj_source = Local\<rparr>"

lemma stt_starts: "\<exists>t. local_step sample_local [] sends (sample_env []) (Arrive 11 (sample_request MPost ''/stt'')) sample_world =
    Some (sample_world\<lparr>lw_gate := \<lparr>job_gate.busy = True\<rparr>, lw_obs := run_begin sample_job observers_default,
      lw_stages := [(11, Working AudioStt \<lparr>lj_job = sample_job, lj_model = demo_model ''a'' None, lj_task = t\<rparr>)]\<rparr>)"
proof -
  let ?m = "demo_model ''a'' None" and ?v = "sample_env []" and ?r = "sample_request MPost ''/stt''"
  have need: "need_of (cm_vram_gb_estimate ?m) (cm_source ?m) = \<lparr>need_device_gib = mib_gib 6144, need_host_gib = None\<rparr>"
    by (simp add: need_of_def host_need_gib_def demo_model_def cli_defaults_default_def)
  have "je_host (lv_job ?v) = demo_env" by (simp add: sample_env_def)
  then have admit: "admit_transient (je_host (lv_job ?v)) (need_of (cm_vram_gb_estimate ?m) (cm_source ?m)) h = Inr ()" for h :: "nat host"
    unfolding need by (simp add: admit_transient_def demo_env_def free_now_def demo_admit)
  have env: "ps_stt (lv_parse ?v) b = Inr \<lparr>rb_input_url = ''data:audio/wav;base64,'', rb_model = None, rb_language = None\<rparr>"
    "je_now (lv_job ?v) = 100" "je_counter (lv_job ?v) = 1" for b
    by (simp_all add: sample_env_def)
  have m: "cm_id ?m = ''a''" "cm_kind ?m = AudioStt" by (simp_all add: demo_model_def)
  have world: "lw_gate sample_world = \<lparr>job_gate.busy = False\<rparr>" "lw_stages sample_world = []" "lw_workers sample_world = 8"
    "lw_host sample_world = demo_host None" "lw_obs sample_world = observers_default"
    by (simp_all add: sample_world_def gate_new_def)
  have begins: "run_kind_begin (lv_job ?v) (Some (demo_host None)) (h_catalog (demo_host None)) AudioStt None ''data:audio/wav;base64,'' (TAudioStt p) ob =
      (run_begin sample_job ob, Inr \<lparr>lj_job = sample_job, lj_model = ?m, lj_task = TAudioStt p\<rparr>)" for p ob
    unfolding run_kind_begin_def resolve_kind_def option.case sample_models sum.case m dispatch_begin_def admit
    by (simp add: admit new_job_def env sample_job_def m Let_def)
  obtain t where handled: "handle_stt ?v ?r sample_world =
      (sample_world\<lparr>lw_gate := \<lparr>job_gate.busy = True\<rparr>, lw_obs := run_begin sample_job observers_default\<rparr>,
       Goes (Working AudioStt \<lparr>lj_job = sample_job, lj_model = ?m, lj_task = t\<rparr>))"
    unfolding handle_stt_def with_body_def sample_body transient_def world by (simp add: env try_reserve_def begins)
  have "serve_request ?v sample_local [] ?r sample_world = handle_stt ?v ?r sample_world"
    by (simp add: sample_serve dispatch_route_def sample_routes)
  then show ?thesis by (intro exI [of _ t]) (simp add: handled free_workers_def count_if_def stage_of_def settle_def world)
qed

theorem local_jobs_share_the_slot_witness:
  "\<exists>w. w = sample_run [Arrive 11 (sample_request MPost ''/stt'')] \<and> is_busy (lw_gate w) \<and>
     count_if (\<lambda>s. is_working (snd s)) (lw_stages w) + lw_others w = 1"
proof -
  let ?w = "sample_run [Arrive 11 (sample_request MPost ''/stt'')]"
  have "is_busy (lw_gate ?w)" using stt_starts [of "\<lambda>_. True"] by (auto simp: sample_run_def local_try_def is_busy_def)
  moreover have "lw_stages sample_world = []" "lw_others sample_world = 0" "\<not> is_busy (lw_gate sample_world)"
    by (simp_all add: sample_world_def gate_new_def is_busy_def)
  note local_jobs_share_the_slot [OF this sample_run_def [of "[Arrive 11 (sample_request MPost ''/stt'')]"]]
  ultimately show ?thesis by simp
qed

theorem local_job_ends_witness:
  "\<exists>w w'. local_step sample_local [] (\<lambda>_. True) (sample_env []) (Arrive 11 (sample_request MPost ''/stt'')) sample_world = Some w \<and>
     is_busy (lw_gate w) \<and>
     local_step sample_local [] (\<lambda>_. True) (sample_env []) (EngineReturns 11 (Inr (RAudioStt JNull))) w = Some w' \<and>
     \<not> is_busy (lw_gate w') \<and> (\<exists>rp. hd (lw_replies w') = (11, rp) \<and> rp_status rp = 200)"
proof -
  let ?step = "\<lambda>e. local_step sample_local [] (\<lambda>_. True) (sample_env []) e"
  obtain t where w: "?step (Arrive 11 (sample_request MPost ''/stt'')) sample_world =
    Some (sample_world\<lparr>lw_gate := \<lparr>job_gate.busy = True\<rparr>, lw_obs := run_begin sample_job observers_default,
      lw_stages := [(11, Working AudioStt \<lparr>lj_job = sample_job, lj_model = demo_model ''a'' None, lj_task = t\<rparr>)]\<rparr>)"
    (is "_ = Some ?w") using stt_starts by blast
  have "slot_ok sample_world" by (simp add: slot_ok_def sample_world_def gate_new_def is_busy_def count_if_def)
  then have ok: "slot_ok ?w" using w by (rule local_step_slot)
  have st: "stage_of 11 ?w = Some (Working AudioStt \<lparr>lj_job = sample_job, lj_model = demo_model ''a'' None, lj_task = t\<rparr>)"
    by (simp add: stage_of_def)
  have src: "cj_source (lj_job \<lparr>lj_job = sample_job, lj_model = demo_model ''a'' None, lj_task = t\<rparr>) = Local"
    by (simp add: sample_job_def)
  obtain w' where w': "?step (EngineReturns 11 (Inr (RAudioStt JNull))) ?w = Some w'" using st by simp
  from local_job_ends [OF ok st src w'] have "\<not> is_busy (lw_gate w') \<and> (\<exists>rp. hd (lw_replies w') = (11, rp) \<and> rp_status rp = 200)"
    by auto
  moreover have "is_busy (lw_gate ?w)" by (simp add: is_busy_def)
  ultimately show ?thesis using w w' by blast
qed

definition sample_chat :: chat_work where
  "sample_chat = \<lparr>cw_catalog = \<lparr>models = [], dismissed_seeds = []\<rparr>, cw_model = None, cw_preview = ''hi'',
     cw_params = llm_params_default, cw_deadline = Some 99\<rparr>"

theorem chat_past_its_deadline_is_not_started_witness:
  "\<exists>w' rp. lane_given (sample_env []) (\<lambda>_. True) 1 ''a'' 7 0 (LwChat sample_chat) sample_world = (w', Replied rp) \<and>
     rp_status rp = 504 \<and> lw_gate w' = lw_gate sample_world"
proof -
  obtain w' out where run: "lane_given (sample_env []) (\<lambda>_. True) 1 ''a'' 7 0 (LwChat sample_chat) sample_world = (w', out)"
    by fastforce
  have "lv_as_chat (sample_env []) 7" "cw_deadline sample_chat = Some 99" "99 \<le> je_now (lv_job (sample_env []))"
    by (simp_all add: sample_env_def sample_chat_def)
  from chat_past_its_deadline_is_not_started [OF this run] run show ?thesis by auto
qed

theorem ttl_out_of_range_ends_the_api_witness:
  "\<exists>w'. w' = fold (local_try sample_local [] (\<lambda>_. True))
       (map (\<lambda>k. (sample_env [], Arrive k (sample_request MPost ''/stream-tokens''))) [0..<8]) sample_world \<and>
     lw_workers w' = 0 \<and> local_step sample_local [] (\<lambda>_. True) (sample_env []) (Arrive 9 (sample_request MGet ''/healthz'')) w' = None"
proof -
  let ?r = "sample_request MPost ''/stream-tokens''"
  have asks: "asks_stream_token (sample_env []) sample_local sample_world ?r 9223372036854776000"
    by (simp add: asks_stream_token_def sample_pass sample_routes sample_body)
      (simp add: sample_env_def sample_world_def sample_models demo_model_def)
  have big: "(9223372036854776000 :: int) < - MAX_DURATION_SECS \<or> MAX_DURATION_SECS < 9223372036854776000"
    by (simp add: MAX_DURATION_SECS_def)
  have "lw_stages sample_world = []" "lw_workers sample_world = 8" by (simp_all add: sample_world_def)
  note ends = ttl_out_of_range_ends_the_api [where url = "[]" and sends = "\<lambda>_. True" and v' = "sample_env []" and n = 9
      and r' = "sample_request MGet ''/healthz''", OF asks big this(1) refl, unfolded this(2)]
  define w' where "w' = fold (local_try sample_local [] (\<lambda>_. True)) (map (\<lambda>k. (sample_env [], Arrive k ?r)) [0..<8]) sample_world"
  have "w' = sample_world\<lparr>lw_workers := 0\<rparr>" using ends [THEN conjunct1] unfolding w'_def .
  then have "lw_workers w' = 0" by simp
  then show ?thesis using w'_def ends [THEN conjunct2, folded w'_def] by blast
qed

text \<open>The interleaving that leaves a model behind: its deletion, its load, and the rest of its deletion.\<close>

theorem model_loaded_during_its_deletion_stays_witness:
  "\<exists>w. w = sample_run [Arrive 11 (sample_request MDelete ''/models/a''), Arrive 22 (sample_request MPost ''/models/a/load''), DeleteRemoves 11] \<and>
     state_of (lw_host w) ''a'' = Loading \<and> snd (host_unload demo_env ''a'' (lw_host w)) = Inl (UnknownModel ''a'')"
proof -
  let ?v = "sample_env []" and ?del = "Arrive 11 (sample_request MDelete ''/models/a'') :: nat local_event"
    and ?load = "Arrive 22 (sample_request MPost ''/models/a/load'') :: nat local_event"
  let ?turn = "\<lambda>e. local_try sample_local [] (\<lambda>_. True) (?v, e)"
  have env: "je_host (lv_job ?v) = demo_env" by (simp add: sample_env_def)
  have world: "lw_stages sample_world = []" "lw_workers sample_world = 8" "lw_host sample_world = demo_host None"
    by (simp_all add: sample_world_def)
  have "\<exists>h1 s1 h2 s2. host_unload demo_env ''a'' (demo_host None :: nat host) = (h1, Inr s1) \<and>
      host_load demo_env ''a'' h1 = (h2, Inr s2) \<and> state_of h2 ''a'' = Loading"
    by (simp add: demo_eval demo_admission)
  then obtain h1 s1 h2 s2 where h1: "host_unload demo_env ''a'' (demo_host None :: nat host) = (h1, Inr s1)"
    and h2: "host_load demo_env ''a'' h1 = (h2, Inr s2)" and st: "state_of h2 ''a'' = Loading" by blast
  have del: "?turn ?del sample_world = sample_world\<lparr>lw_host := h1, lw_stages := [(11, Deleting ''a'')]\<rparr>"
    by (simp add: local_try_def sample_serve dispatch_route_def sample_routes handle_delete_model_def env world h1
        free_workers_def count_if_def stage_of_def settle_def)
  obtain rp where load: "?turn ?load (sample_world\<lparr>lw_host := h1, lw_stages := [(11, Deleting ''a'')]\<rparr>) =
      sample_world\<lparr>lw_host := h2, lw_stages := [(11, Deleting ''a'')], lw_replies := [(22, rp)]\<rparr>"
    by (simp add: local_try_def sample_serve dispatch_route_def sample_routes lifecycle_call_def env world h2
        free_workers_def count_if_def stage_of_def settle_def on_pool_def) (simp add: sample_world_def)
  let ?w = "end_stage 11 (sample_world\<lparr>lw_host := h2, lw_stages := [(11, Deleting ''a'')], lw_replies := [(22, rp)]\<rparr>)"
  obtain w' out where removes: "delete_removes ?v sample_local ''a'' ?w = (w', out)" by fastforce
  have "state_of (lw_host ?w) ''a'' = Loading" by (simp add: end_stage_def st)
  note stays = model_loaded_during_its_deletion_stays [OF this removes, of demo_env]
  have run: "sample_run [?del, ?load, DeleteRemoves 11] = settle 11 (w', out)"
    by (simp add: sample_run_def del load) (simp add: local_try_def stage_of_def removes)
  have "lw_host (settle 11 (w', out)) = lw_host w'" by (auto simp: settle_def split: outcome.split)
  then show ?thesis using stays run by simp
qed

end
