(* ===== verification/DaemonLink.thy ===== *)
theory DaemonLink
  imports DaemonProcesses LocalProperties
begin

text \<open>
  The tray's side of the daemon: \<^verbatim>\<open>src/src/daemon_client.rs\<close> and \<^verbatim>\<open>src/src/daemon_link.rs\<close>.  A client call is a
  request and what is made of its answer; the poller's memory and the replica it fills are records.  JSON is parsed
  by arguments, and the network answers requests by a function.
\<close>

section \<open>The client\<close>

datatype client_error = ClUnreachable string | ClRefused nat string string | ClUnreadable string

definition client_error_text :: "client_error \<Rightarrow> string" where
  "client_error_text e = (case e of
       ClUnreachable s \<Rightarrow> ''daemon not reachable: '' @ s
     | ClRefused status code message \<Rightarrow> message @ '' ('' @ code @ '', HTTP '' @ show_nat status @ '')''
     | ClUnreadable s \<Rightarrow> ''unexpected answer from the daemon: '' @ s)"

record daemon_client =
  dl_url :: string
  dl_token :: string

record client_env =
  ce_discovery :: "string \<Rightarrow> (string, string \<times> string) result"
  ce_error_body :: "string \<Rightarrow> (string \<times> string option) option"
  ce_lossy :: "string \<Rightarrow> string"
  ce_show_io :: "io_error \<Rightarrow> string"
  ce_client :: "(string, unit) result" \<comment> \<open>building the HTTP client\<close>
  ce_host :: "string \<Rightarrow> string" \<comment> \<open>the Host header the HTTP client sends for a base URL\<close>

definition trim_end_slashes :: "string \<Rightarrow> string" where
  "trim_end_slashes s = rev (dropWhile (\<lambda>c. c = CHR ''/'') (rev s))"

definition client_new :: "client_env \<Rightarrow> string \<Rightarrow> string \<Rightarrow> (client_error, daemon_client) result" where
  "client_new v url token = (case ce_client v of
       Inl e \<Rightarrow> Inl (ClUnreachable e) | Inr _ \<Rightarrow> Inr \<lparr>dl_url = trim_end_slashes url, dl_token = token\<rparr>)"

definition discover :: "client_env \<Rightarrow> faults \<Rightarrow> files \<Rightarrow> path \<Rightarrow> (client_error, daemon_client) result" where
  "discover v flt fs config_path = (case local_api_discovery_path_for config_path of
       None \<Rightarrow> Inl (ClUnreachable ''no discovery path'')
     | Some p \<Rightarrow> (case read_to_string flt fs p of
           Inl e \<Rightarrow> Inl (ClUnreachable (''no discovery file at '' @ p @ '': '' @ ce_show_io v e))
         | Inr s \<Rightarrow> (case ce_discovery v s of
               Inl e \<Rightarrow> Inl (ClUnreachable (''unreadable discovery file '' @ p @ '': '' @ e))
             | Inr (url, token) \<Rightarrow> client_new v url token)))"

text \<open>\<open>bearer_auth\<close>, after the headers of the call itself.\<close>

definition client_request :: "client_env \<Rightarrow> daemon_client \<Rightarrow> http_method \<Rightarrow> string \<Rightarrow> (string \<times> string) list \<Rightarrow> string \<Rightarrow> http_request" where
  "client_request v cl m target headers b = \<lparr>rq_method = m, rq_url = target,
     rq_headers = (''host'', ce_host v (dl_url cl)) # headers @ [(''authorization'', ''Bearer '' @ dl_token cl)],
     rq_length = Some (length b), rq_body = Inr b\<rparr>"

type_synonym net = "http_request \<Rightarrow> (string, nat \<times> (string, string) result) result"

definition client_send :: "client_env \<Rightarrow> net \<Rightarrow> http_request \<Rightarrow> (client_error, string) result" where
  "client_send v net r = (case net r of
       Inl e \<Rightarrow> Inl (ClUnreachable e)
     | Inr (status, Inl e) \<Rightarrow> Inl (ClUnreachable e)
     | Inr (status, Inr b) \<Rightarrow>
         if 200 \<le> status \<and> status < 300 then Inr b
         else (case ce_error_body v b of
             Some (code, message) \<Rightarrow> Inl (ClRefused status code (or_else message []))
           | None \<Rightarrow> Inl (ClRefused status ''http_error'' (trim (ce_lossy v b)))))"

definition client_json :: "(string \<Rightarrow> (string, 'a) result) \<Rightarrow> (client_error, string) result \<Rightarrow> (client_error, 'a) result" where
  "client_json parse r = (case r of
       Inl e \<Rightarrow> Inl e | Inr b \<Rightarrow> (case parse b of Inl e \<Rightarrow> Inl (ClUnreadable e) | Inr x \<Rightarrow> Inr x))"

definition not_found_is_none :: "(client_error, 'a) result \<Rightarrow> (client_error, 'a option) result" where
  "not_found_is_none r = (case r of
       Inr x \<Rightarrow> Inr (Some x)
     | Inl (ClRefused status code message) \<Rightarrow> if status = 404 then Inr None else Inl (ClRefused status code message)
     | Inl e \<Rightarrow> Inl e)"

definition done_of :: "(client_error, 'a) result \<Rightarrow> (client_error, unit) result" where
  "done_of r = (case r of Inl e \<Rightarrow> Inl e | Inr _ \<Rightarrow> Inr ())"

definition status_request :: "client_env \<Rightarrow> daemon_client \<Rightarrow> http_request" where
  "status_request v cl = client_request v cl MGet ''/daemon/status'' [(CLIENT_HEADER, TRAY_CLIENT)] []"

definition logs_request :: "client_env \<Rightarrow> daemon_client \<Rightarrow> nat \<Rightarrow> http_request" where
  "logs_request v cl after = client_request v cl MGet (''/daemon/logs?after='' @ show_nat after) [] []"

definition models_request :: "client_env \<Rightarrow> daemon_client \<Rightarrow> http_request" where
  "models_request v cl = client_request v cl MGet ''/models'' [] []"

definition job_log_request :: "client_env \<Rightarrow> daemon_client \<Rightarrow> string \<Rightarrow> http_request" where
  "job_log_request v cl i = client_request v cl MGet (''/jobs/'' @ i @ ''/log'') [] []"

definition thumbnail_request :: "client_env \<Rightarrow> daemon_client \<Rightarrow> string \<Rightarrow> http_request" where
  "thumbnail_request v cl i = client_request v cl MGet (''/jobs/'' @ i @ ''/thumbnail'') [] []"

definition client_set_paused :: "client_env \<Rightarrow> net \<Rightarrow> daemon_client \<Rightarrow> bool \<Rightarrow> (client_error, unit) result" where
  "client_set_paused v net cl paused = done_of (client_send v net
     (client_request v cl MPost (if paused then ''/daemon/pause'' else ''/daemon/resume'') [] []))"

definition client_lifecycle ::
  "client_env \<Rightarrow> net \<Rightarrow> (string \<Rightarrow> (string, string) result) \<Rightarrow> daemon_client \<Rightarrow> string \<Rightarrow> string \<Rightarrow> (client_error, string) result" where
  "client_lifecycle v net parse_state cl i verb = client_json parse_state (client_send v net
     (client_request v cl MPost (''/models/'' @ i @ ''/'' @ verb) [] []))"

definition client_reset_registration :: "client_env \<Rightarrow> net \<Rightarrow> daemon_client \<Rightarrow> (client_error, unit) result" where
  "client_reset_registration v net cl = done_of (client_send v net (client_request v cl MPost ''/daemon/registration/reset'' [] []))"

definition client_shutdown :: "client_env \<Rightarrow> net \<Rightarrow> daemon_client \<Rightarrow> (client_error, unit) result" where
  "client_shutdown v net cl = done_of (client_send v net (client_request v cl MPost ''/daemon/shutdown'' [] []))"

definition put_config_call ::
  "client_env \<Rightarrow> net \<Rightarrow> (editable_config \<Rightarrow> string) \<Rightarrow> (string \<Rightarrow> (string, editable_config) result) \<Rightarrow> daemon_client \<Rightarrow> editable_config \<Rightarrow>
   (client_error, editable_config) result" where
  "put_config_call v net show_edit parse_edit cl edit = client_json parse_edit (client_send v net
     (client_request v cl MPut ''/daemon/config'' [(''content-type'', ''application/json'')] (show_edit edit)))"

section \<open>The operator's actions\<close>

datatype tray_action = SetPaused bool | LoadModel string | UnloadModel string | ResetRegistration | ShutdownDaemon

definition perform_with ::
  "client_env \<Rightarrow> net \<Rightarrow> (string \<Rightarrow> (string, string) result) \<Rightarrow> tray_action \<Rightarrow> daemon_client \<Rightarrow> (client_error, string) result" where
  "perform_with v net parse_state a cl = (case a of
       SetPaused True \<Rightarrow> map_sum id (\<lambda>_. ''paused'') (client_set_paused v net cl True)
     | SetPaused False \<Rightarrow> map_sum id (\<lambda>_. ''resumed'') (client_set_paused v net cl False)
     | LoadModel i \<Rightarrow> map_sum id (\<lambda>s. i @ '': '' @ s) (client_lifecycle v net parse_state cl i ''load'')
     | UnloadModel i \<Rightarrow> map_sum id (\<lambda>s. i @ '': '' @ s) (client_lifecycle v net parse_state cl i ''unload'')
     | ResetRegistration \<Rightarrow> map_sum id (\<lambda>_. ''registration reset; asking the studio again'') (client_reset_registration v net cl)
     | ShutdownDaemon \<Rightarrow> map_sum id (\<lambda>_. ''daemon stopping'') (client_shutdown v net cl))"

definition perform ::
  "client_env \<Rightarrow> net \<Rightarrow> (string \<Rightarrow> (string, string) result) \<Rightarrow> faults \<Rightarrow> files \<Rightarrow> path \<Rightarrow> tray_action \<Rightarrow> (string, string) result" where
  "perform v net parse_state flt fs config_path a = map_sum client_error_text id
     (case discover v flt fs config_path of Inl e \<Rightarrow> Inl e | Inr cl \<Rightarrow> perform_with v net parse_state a cl)"

definition save_config ::
  "client_env \<Rightarrow> net \<Rightarrow> (editable_config \<Rightarrow> string) \<Rightarrow> (string \<Rightarrow> (string, editable_config) result) \<Rightarrow> faults \<Rightarrow> files \<Rightarrow> path \<Rightarrow>
   editable_config \<Rightarrow> (string, editable_config) result" where
  "save_config v net show_edit parse_edit flt fs config_path edit = map_sum client_error_text id
     (case discover v flt fs config_path of Inl e \<Rightarrow> Inl e | Inr cl \<Rightarrow> put_config_call v net show_edit parse_edit cl edit)"

section \<open>The replica\<close>

datatype link_state =
    LinkConnecting
  | LinkConnected string string
  | LinkStarting string
  | LinkUnreachable string bool

definition link_kind :: "link_state \<Rightarrow> string" where
  "link_kind s = (case s of LinkConnecting \<Rightarrow> ''connecting'' | LinkConnected _ _ \<Rightarrow> ''connected''
     | LinkStarting _ \<Rightarrow> ''starting'' | LinkUnreachable _ _ \<Rightarrow> ''unreachable'')"

definition link_summary :: "link_state \<Rightarrow> string" where
  "link_summary s = (case s of
       LinkConnecting \<Rightarrow> ''connecting to the worker daemon'' @ ELLIPSIS
     | LinkConnected url version \<Rightarrow> ''daemon v'' @ version @ '' at '' @ url
     | LinkStarting _ \<Rightarrow> ''the worker daemon is starting (it holds its lock but does not answer yet)'' @ ELLIPSIS
     | LinkUnreachable _ True \<Rightarrow> ''daemon not reachable; started one, waiting for it to answer'' @ ELLIPSIS
     | LinkUnreachable _ False \<Rightarrow> ''daemon not reachable; retrying'' @ ELLIPSIS)"

type_synonym job_log = "job_log_line list \<times> nat"

record ('g, 'm) replica =
  rp_observers :: observers
  rp_gpu :: "'g option"
  rp_url :: "string option"
  rp_logs :: "log_entry list"
  rp_logs_seq :: nat
  rp_cfg :: config
  rp_busy :: bool
  rp_paused :: bool
  rp_registration :: registration_state
  rp_seen :: "'g daemon_status option"
  rp_models :: "'m list"
  rp_link :: link_state
  rp_selected_job :: "string option"
  rp_selected_log :: "(string \<times> job_log) option"

definition replica_default :: "config \<Rightarrow> ('g, 'm) replica" where
  "replica_default cfg = \<lparr>rp_observers = observers_default, rp_gpu = None, rp_url = None, rp_logs = [], rp_logs_seq = 0,
     rp_cfg = cfg, rp_busy = False, rp_paused = False, rp_registration = RsPristine, rp_seen = None,
     rp_models = [], rp_link = LinkConnecting, rp_selected_job = None, rp_selected_log = None\<rparr>"

definition replica_registered :: "('g, 'm) replica \<Rightarrow> bool" where
  "replica_registered r = (case rp_seen r of None \<Rightarrow> False | Some s \<Rightarrow> ds_registered s)"

definition shown_jobs :: "'g daemon_status \<Rightarrow> job_wire list" where
  "shown_jobs s = ds_active_jobs s @ ds_recent_jobs s @ ds_local_jobs s"

definition apply_status :: "'g daemon_status \<Rightarrow> ('g, 'm) replica \<Rightarrow> ('g, 'm) replica" where
  "apply_status s r =
     (let active = map to_current (ds_active_jobs s);
          with_thumbnail = map jw_job_id (filter jw_has_thumbnail (shown_jobs s)); ob = rp_observers r
      in r\<lparr>rp_observers := ob\<lparr>
             ob_current_job := (case ds_current_job_id s of None \<Rightarrow> None | Some i \<Rightarrow> find (\<lambda>j. cj_job_id j = i) active),
             ob_active_jobs := active,
             ob_recent_jobs := List.map_filter to_recent (ds_recent_jobs s),
             ob_local_jobs := List.map_filter to_recent (ds_local_jobs s),
             ob_last_heartbeat := ds_heartbeat s,
             ob_session_state := ds_session s,
             ob_thumbnails := thumb_retain (\<lambda>i. i \<in> set with_thumbnail) (ob_thumbnails ob)\<rparr>,
           rp_url := ds_local_api_url s, rp_gpu := ds_gpu_runtime s,
           rp_cfg := (apply_to (ds_config s) (rp_cfg r))\<lparr>worker_id := ds_worker_id s\<rparr>,
           rp_busy := ds_busy s, rp_paused := ds_paused s, rp_registration := ds_registration s, rp_seen := Some s\<rparr>)"

definition missing_thumbnails :: "('g, 'm) replica \<Rightarrow> string list" where
  "missing_thumbnails r = (case rp_seen r of
       None \<Rightarrow> []
     | Some s \<Rightarrow> map jw_job_id (filter (\<lambda>j. jw_has_thumbnail j \<and> \<not> thumb_contains (jw_job_id j) (ob_thumbnails (rp_observers r))) (shown_jobs s)))"

definition apply_logs :: "log_entry list \<Rightarrow> nat \<Rightarrow> ('g, 'm) replica \<Rightarrow> ('g, 'm) replica" where
  "apply_logs entries sq r =
     (let old = (if sq < rp_logs_seq r then [] else rp_logs r)
      in r\<lparr>rp_logs := keep_last RECENT_LOGS_CAP (old @ entries), rp_logs_seq := sq\<rparr>)"

text \<open>The link, the selected job and the configuration stay; so do the observers' slots the daemon does not send.\<close>

definition replica_clear :: "('g, 'm) replica \<Rightarrow> ('g, 'm) replica" where
  "replica_clear r = r\<lparr>rp_observers := (rp_observers r)\<lparr>ob_current_job := None, ob_active_jobs := [], ob_recent_jobs := [],
       ob_local_jobs := [], ob_last_heartbeat := None, ob_session_state := ob_session_state observers_default, ob_thumbnails := []\<rparr>,
     rp_url := None, rp_gpu := None, rp_logs := [], rp_logs_seq := 0, rp_busy := False, rp_paused := False,
     rp_registration := RsPristine, rp_seen := None, rp_models := [], rp_selected_log := None\<rparr>"

section \<open>The poller\<close>

definition SPAWN_BACKOFF :: millis where "SPAWN_BACKOFF = 10000"
definition SPAWN_GRACE :: millis where "SPAWN_GRACE = 20000"

text \<open>What one poll's calls answer, in their order.\<close>

record ('g, 'm) poll_answers =
  pa_discover :: "(client_error, string) result" \<comment> \<open>the daemon's URL\<close>
  pa_status :: "(client_error, 'g daemon_status) result"
  pa_logs :: "nat \<Rightarrow> (client_error, log_entry list \<times> nat) result"
  pa_models :: "(client_error, 'm list) result"
  pa_job_log :: "string \<Rightarrow> (client_error, job_log option) result"
  pa_thumbnail :: "string \<Rightarrow> (client_error, nat list option) result"

text \<open>The answers of a daemon over the network, with what JSON parsing makes of them.\<close>

record ('g, 'm) tray_parsers =
  tp_status :: "string \<Rightarrow> (string, 'g daemon_status) result"
  tp_logs :: "string \<Rightarrow> (string, log_entry list \<times> nat) result"
  tp_models :: "string \<Rightarrow> (string, 'm list) result"
  tp_job_log :: "string \<Rightarrow> (string, job_log) result"

definition answers_of ::
  "client_env \<Rightarrow> net \<Rightarrow> ('g, 'm) tray_parsers \<Rightarrow> (client_error, daemon_client) result \<Rightarrow> ('g, 'm) poll_answers" where
  "answers_of v net p discovered = (let cl = (case discovered of Inr cl \<Rightarrow> cl | Inl _ \<Rightarrow> \<lparr>dl_url = [], dl_token = []\<rparr>) in
     \<lparr>pa_discover = map_sum id dl_url discovered,
      pa_status = client_json (tp_status p) (client_send v net (status_request v cl)),
      pa_logs = \<lambda>after. client_json (tp_logs p) (client_send v net (logs_request v cl after)),
      pa_models = client_json (tp_models p) (client_send v net (models_request v cl)),
      pa_job_log = \<lambda>i. not_found_is_none (client_json (tp_job_log p) (client_send v net (job_log_request v cl i))),
      pa_thumbnail = \<lambda>i. map_sum id (map_option (map of_char)) (not_found_is_none (client_send v net (thumbnail_request v cl i)))\<rparr>)"

fun fetch_thumbnails ::
  "(string \<Rightarrow> (client_error, nat list option) result) \<Rightarrow> string list \<Rightarrow> thumbnails \<Rightarrow> thumbnails \<times> (client_error, unit) result" where
  "fetch_thumbnails get [] ring = (ring, Inr ())"
| "fetch_thumbnails get (i # ids) ring = (case get i of
       Inl e \<Rightarrow> (ring, Inl e)
     | Inr None \<Rightarrow> fetch_thumbnails get ids ring
     | Inr (Some png) \<Rightarrow> fetch_thumbnails get ids (thumb_insert i png ring))"

definition poll_selected :: "('g, 'm) poll_answers \<Rightarrow> ('g, 'm) replica \<Rightarrow> (client_error, (string \<times> job_log) option) result" where
  "poll_selected p r = (case rp_selected_job r of
       None \<Rightarrow> Inr None
     | Some i \<Rightarrow> (case pa_job_log p i of Inl e \<Rightarrow> Inl e | Inr l \<Rightarrow> Inr (map_option (\<lambda>l. (i, l)) l)))"

definition poll :: "('g, 'm) poll_answers \<Rightarrow> ('g, 'm) replica \<Rightarrow> ('g, 'm) replica \<times> (client_error, link_state) result" where
  "poll p r = (case pa_discover p of Inl e \<Rightarrow> (r, Inl e) | Inr url \<Rightarrow>
     (case pa_status p of Inl e \<Rightarrow> (r, Inl e) | Inr s \<Rightarrow>
     (case pa_logs p (rp_logs_seq r) of Inl e \<Rightarrow> (r, Inl e) | Inr (entries, sq) \<Rightarrow>
     (case pa_models p of Inl e \<Rightarrow> (r, Inl e) | Inr listed \<Rightarrow>
     (case poll_selected p r of Inl e \<Rightarrow> (r, Inl e) | Inr selected \<Rightarrow>
       (let r = (apply_logs entries sq (apply_status s r))\<lparr>rp_models := listed, rp_selected_log := selected\<rparr>;
            (ring, fetched) = fetch_thumbnails (pa_thumbnail p) (missing_thumbnails r) (ob_thumbnails (rp_observers r));
            r = r\<lparr>rp_observers := (rp_observers r)\<lparr>ob_thumbnails := ring\<rparr>\<rparr>
        in (r, case fetched of Inl e \<Rightarrow> Inl e | Inr _ \<Rightarrow> Inr (LinkConnected url (ds_version s)))))))))"

record spawner =
  sp_last_spawn :: "millis option"
  sp_absent_since :: "millis option"
  sp_backoff :: millis
  sp_grace :: millis

definition spawner_new :: spawner where
  "spawner_new = \<lparr>sp_last_spawn = None, sp_absent_since = None, sp_backoff = SPAWN_BACKOFF, sp_grace = SPAWN_GRACE\<rparr>"

text \<open>\<open>held\<close>: whether a daemon holds the lock; \<open>started\<close>: what starting one answers.  The last component says
  whether one was started.\<close>

definition recover ::
  "string \<Rightarrow> (string, bool) result \<Rightarrow> (string, nat) result \<Rightarrow> millis \<Rightarrow> spawner \<Rightarrow> spawner \<times> link_state \<times> bool" where
  "recover err held started now p = (case held of
       Inr True \<Rightarrow> (p\<lparr>sp_absent_since := None\<rparr>, LinkStarting err, False)
     | Inr False \<Rightarrow>
         (let since = or_else (sp_absent_since p) now; p = p\<lparr>sp_absent_since := Some since\<rparr> in
          if now - since < sp_grace p then (p, LinkUnreachable err False, False)
          else if \<not> (case sp_last_spawn p of None \<Rightarrow> True | Some t \<Rightarrow> sp_backoff p \<le> now - t)
          then (p, LinkUnreachable err True, False)
          else (p\<lparr>sp_last_spawn := Some now\<rparr>, (case started of
              Inr pid \<Rightarrow> LinkUnreachable err True
            | Inl e \<Rightarrow> LinkUnreachable (err @ ''; starting a daemon failed: '' @ e) False), True))
     | Inl e \<Rightarrow> (p, LinkUnreachable (err @ ''; daemon lock unreadable: '' @ e) False, False))"

definition poller_tick ::
  "('g, 'm) poll_answers \<Rightarrow> (string, bool) result \<Rightarrow> (string, nat) result \<Rightarrow> millis \<Rightarrow> spawner \<times> ('g, 'm) replica \<Rightarrow>
   (spawner \<times> ('g, 'm) replica) \<times> bool" where
  "poller_tick a held started now pr = (case pr of (p, r) \<Rightarrow> (case poll a r of
       (r, Inr state) \<Rightarrow> ((p\<lparr>sp_absent_since := None\<rparr>, r\<lparr>rp_link := state\<rparr>), False)
     | (r, Inl e) \<Rightarrow> (case recover (client_error_text e) held started now p of
           (p, state, spawned) \<Rightarrow> ((p, (replica_clear r)\<lparr>rp_link := state\<rparr>), spawned))))"

section \<open>What the tray shows\<close>

lemma map_filter_round: "(\<And>x. x \<in> set xs \<Longrightarrow> g (f x) = Some x) \<Longrightarrow> List.map_filter g (map f xs) = xs"
  by (induction xs) (simp_all add: List.map_filter_def)

lemma map_round: "(\<And>x. g (f x) = x) \<Longrightarrow> map g (map f xs) = xs"
  by (induction xs) simp_all

lemma set_thumb_insert: "fst ` set (thumb_insert i png ring) \<subseteq> insert i (fst ` set ring)"
  by (force simp: thumb_insert_def keep_last_def dest: in_set_dropD)

lemma fetched_thumbnails: "fst ` set (fst (fetch_thumbnails get ids ring)) \<subseteq> set ids \<union> fst ` set ring"
proof (induction ids arbitrary: ring)
  case (Cons i ids)
  show ?case
  proof (cases "get i")
    case (Inr x)
    then show ?thesis
      using Cons.IH [of ring] Cons.IH [of "thumb_insert i (the x) ring"] set_thumb_insert [of i "the x" ring]
      by (cases x; simp) blast+
  qed auto
qed simp

lemma wire_sel [simp]:
  "jw_job_id (wire_running j t) = cj_job_id j" "jw_job_id (wire_finished k t) = rj_job_id k"
  "jw_has_thumbnail (wire_running j t) = t" "jw_has_thumbnail (wire_finished k t) = t"
  by (simp_all add: wire_running_def wire_finished_def split: prod.splits)

lemma status_sel:
  fixes version pid cp d w ob working lseq url and gpu :: "'g option"
  defines "s \<equiv> control_status version pid cp gpu url lseq d w ob working"
  shows "ds_version s = version" "ds_paused s = dc_paused d" "ds_busy s = working" "ds_config s = from_config (rw_cfg w)"
    "ds_session s = ob_session_state ob" "map to_current (ds_active_jobs s) = ob_active_jobs ob"
    "List.map_filter to_recent (ds_recent_jobs s) = ob_recent_jobs ob" "List.map_filter to_recent (ds_local_jobs s) = ob_local_jobs ob"
    "jw_job_id ` set (filter jw_has_thumbnail (shown_jobs s)) \<subseteq> {i. thumb_contains i (ob_thumbnails ob)}"
  by (auto simp: s_def control_status_def Let_def o_def map_filter_round job_wire_roundtrip shown_jobs_def)

definition shows_daemon :: "'g daemon_status \<Rightarrow> ('g, 'm) replica \<Rightarrow> bool" where
  "shows_daemon s r = (rp_seen r = Some s \<and> rp_busy r = ds_busy s \<and> rp_paused r = ds_paused s \<and> rp_registration r = ds_registration s \<and>
     rp_gpu r = ds_gpu_runtime s \<and> rp_url r = ds_local_api_url s \<and> from_config (rp_cfg r) = ds_config s \<and> worker_id (rp_cfg r) = ds_worker_id s)"

lemma config_shown: "from_config ((apply_to e c)\<lparr>worker_id := i\<rparr>) = e"
  using from_config_apply_to [of e c] by (simp add: from_config_def)

lemma poll_Inr:
  assumes "poll p r = (r', Inr state)"
  obtains url s entries sq where "pa_status p = Inr s" "pa_logs p (rp_logs_seq r) = Inr (entries, sq)"
    "state = LinkConnected url (ds_version s)" "shows_daemon s r'"
    "rp_logs r' = rp_logs (apply_logs entries sq r)" "rp_logs_seq r' = sq"
    "ob_active_jobs (rp_observers r') = map to_current (ds_active_jobs s)"
    "ob_recent_jobs (rp_observers r') = List.map_filter to_recent (ds_recent_jobs s)"
    "ob_local_jobs (rp_observers r') = List.map_filter to_recent (ds_local_jobs s)"
    "ob_session_state (rp_observers r') = ds_session s" "ob_last_heartbeat (rp_observers r') = ds_heartbeat s"
    "fst ` set (ob_thumbnails (rp_observers r')) \<subseteq> jw_job_id ` set (filter jw_has_thumbnail (shown_jobs s))"
proof -
  let ?r = "\<lambda>s es sq ms l. (apply_logs es sq (apply_status s r))\<lparr>rp_models := ms, rp_selected_log := l\<rparr>"
  obtain url s es sq ms l ring where s: "pa_status p = Inr s" "pa_logs p (rp_logs_seq r) = Inr (es, sq)"
    and ring: "fetch_thumbnails (pa_thumbnail p) (missing_thumbnails (?r s es sq ms l)) (ob_thumbnails (rp_observers (?r s es sq ms l))) = (ring, Inr ())"
    and state: "state = LinkConnected url (ds_version s)"
    and r': "r' = (?r s es sq ms l)\<lparr>rp_observers := (rp_observers (?r s es sq ms l))\<lparr>ob_thumbnails := ring\<rparr>\<rparr>"
    using assms by (auto simp: poll_def Let_def split: sum.splits prod.splits)
  have "fst ` set ring \<subseteq> set (missing_thumbnails (?r s es sq ms l)) \<union> fst ` set (ob_thumbnails (rp_observers (?r s es sq ms l)))"
    using fetched_thumbnails [of "pa_thumbnail p" "missing_thumbnails (?r s es sq ms l)"] ring by (metis fst_conv)
  moreover have "set (missing_thumbnails (?r s es sq ms l)) \<subseteq> jw_job_id ` set (filter jw_has_thumbnail (shown_jobs s))"
    by (auto simp: missing_thumbnails_def apply_logs_def apply_status_def Let_def split: option.splits)
  moreover have "fst ` set (ob_thumbnails (rp_observers (?r s es sq ms l))) \<subseteq> jw_job_id ` set (filter jw_has_thumbnail (shown_jobs s))"
    by (auto simp: apply_logs_def apply_status_def thumb_retain_def Let_def)
  ultimately have "fst ` set ring \<subseteq> jw_job_id ` set (filter jw_has_thumbnail (shown_jobs s))" by blast
  then show ?thesis
    by (intro that [OF s state])
       (simp_all add: r' shows_daemon_def apply_logs_def apply_status_def config_shown Let_def)
qed

text \<open>C35: after a tick the tray shows the daemon as it is, or nothing of it.  Connected, it shows the daemon's jobs,
  configuration, session and switches, exactly as the daemon holds them, and no thumbnail of a job the daemon does not
  list with one; not connected, it shows no job, no log, no thumbnail, no model and no status.\<close>

theorem tray_shows_the_daemon_or_nothing:
  assumes "poller_tick a held started now (p, r) = ((p', r'), spawned)"
    and "\<And>s. pa_status a = Inr s \<Longrightarrow> s = control_status version pid cp gpu url lseq d w ob working"
  shows "case rp_link r' of
    LinkConnected _ v \<Rightarrow> v = version \<and> shows_daemon (control_status version pid cp gpu url lseq d w ob working) r' \<and>
      rp_paused r' = dc_paused d \<and> from_config (rp_cfg r') = from_config (rw_cfg w) \<and>
      ob_active_jobs (rp_observers r') = ob_active_jobs ob \<and> ob_recent_jobs (rp_observers r') = ob_recent_jobs ob \<and>
      ob_local_jobs (rp_observers r') = ob_local_jobs ob \<and> ob_session_state (rp_observers r') = ob_session_state ob \<and>
      fst ` set (ob_thumbnails (rp_observers r')) \<subseteq> {i. thumb_contains i (ob_thumbnails ob)}
  | _ \<Rightarrow> rp_seen r' = None \<and> rp_logs r' = [] \<and> rp_models r' = [] \<and> ob_thumbnails (rp_observers r') = [] \<and>
      ob_active_jobs (rp_observers r') = [] \<and> ob_recent_jobs (rp_observers r') = [] \<and> ob_local_jobs (rp_observers r') = []"
proof -
  obtain r1 q where poll: "poll a r = (r1, q)" by fastforce
  show ?thesis
  proof (cases q)
    case (Inl e)
    obtain p1 st b where rec: "recover (client_error_text e) held started now p = (p1, st, b)" by (cases "recover (client_error_text e) held started now p")
    then have "\<forall>u v. st \<noteq> LinkConnected u v"
      by (auto simp: recover_def Let_def split: sum.splits bool.splits if_splits option.splits)
    moreover have "r' = (replica_clear r1)\<lparr>rp_link := st\<rparr>" using assms(1) poll Inl rec by (simp add: poller_tick_def)
    ultimately show ?thesis by (auto simp: replica_clear_def split: link_state.splits)
  next
    case (Inr st)
    let ?s = "control_status version pid cp gpu url lseq d w ob working"
    from poll Inr have "poll a r = (r1, Inr st)" by simp
    then show ?thesis
    proof (rule poll_Inr)
      fix u s es sq
      assume s: "pa_status a = Inr s" and st: "st = LinkConnected u (ds_version s)" "shows_daemon s r1"
        and jobs: "ob_active_jobs (rp_observers r1) = map to_current (ds_active_jobs s)"
          "ob_recent_jobs (rp_observers r1) = List.map_filter to_recent (ds_recent_jobs s)"
          "ob_local_jobs (rp_observers r1) = List.map_filter to_recent (ds_local_jobs s)"
          "ob_session_state (rp_observers r1) = ds_session s"
        and thumbs: "fst ` set (ob_thumbnails (rp_observers r1)) \<subseteq> jw_job_id ` set (filter jw_has_thumbnail (shown_jobs s))"
      have s': "s = ?s" by (rule assms(2) [OF s])
      have r': "r' = r1\<lparr>rp_link := st\<rparr>" using assms(1) poll Inr by (simp add: poller_tick_def)
      have "fst ` set (ob_thumbnails (rp_observers r1)) \<subseteq> {i. thumb_contains i (ob_thumbnails ob)}"
        using thumbs status_sel(9) unfolding s' by (rule subset_trans)
      then show ?thesis using st jobs [unfolded s' status_sel] unfolding r' s'
        by (simp add: shows_daemon_def status_sel)
    qed
  qed
qed

section \<open>The log\<close>

text \<open>The daemon logs, a poll succeeds or fails: the daemon's ring and the tray's replica of it.\<close>

datatype log_event = DaemonLogs "log_entry list" | PollAnswered | PollFailed

fun log_link_step :: "log_event \<Rightarrow> worker_log_ring \<times> ('g, 'm) replica \<Rightarrow> worker_log_ring \<times> ('g, 'm) replica" where
  "log_link_step (DaemonLogs es) (ring, r) = (fold ring_push es ring, r)"
| "log_link_step PollAnswered (ring, r) = (case recent_logs_after (rp_logs_seq r) ring of (es, sq) \<Rightarrow> (ring, apply_logs es sq r))"
| "log_link_step PollFailed (ring, r) = (ring, replica_clear r)"

text \<open>What the replica holds is what the ring held at some poll, or nothing.\<close>

definition log_linked :: "worker_log_ring \<times> ('g, 'm) replica \<Rightarrow> bool" where
  "log_linked c = (\<exists>past es. ring_ok past \<and> fst c = fold ring_push es past \<and>
     (rp_logs (snd c) = ring_entries past \<and> rp_logs_seq (snd c) = ring_seq past \<or> rp_logs (snd c) = [] \<and> rp_logs_seq (snd c) = 0))"

lemma keep_last_both: "keep_last n (xs @ keep_last n ys) = keep_last n (xs @ ys)"
proof (cases "length ys \<le> n")
  case False
  then show ?thesis by (simp add: keep_last_def)
qed (simp add: keep_last_def)

lemma whole_ring: "ring_ok ring \<Longrightarrow> recent_logs_after 0 ring = (ring_entries ring, ring_seq ring)"
  by (simp add: recent_logs_after_def ring_ok_def Let_def)

lemma ring_kept: "ring_ok ring \<Longrightarrow> keep_last RECENT_LOGS_CAP (ring_entries ring) = ring_entries ring"
  by (simp add: ring_ok_def keep_last_def)

lemma page_seq: "snd (recent_logs_after after ring) = ring_seq ring"
  by (simp add: recent_logs_after_def Let_def)

lemma poll_catches_up:
  assumes "log_linked (ring, r)" "recent_logs_after (rp_logs_seq r) ring = (es, sq)"
  shows "rp_logs (apply_logs es sq r) = ring_entries ring \<and> rp_logs_seq (apply_logs es sq r) = ring_seq ring \<and> ring_ok ring"
proof -
  obtain past new where past: "ring_ok past" "ring = fold ring_push new past"
    and held: "rp_logs r = ring_entries past \<and> rp_logs_seq r = ring_seq past \<or> rp_logs r = [] \<and> rp_logs_seq r = 0"
    using assms(1) by (auto simp: log_linked_def)
  have ok: "ring_ok ring" unfolding past(2) using past(1) by (intro log_ring.run_keeps) (simp_all add: list_all_iff)
  from held show ?thesis
  proof
    assume r: "rp_logs r = ring_entries past \<and> rp_logs_seq r = ring_seq past"
    have "recent_logs_after (ring_seq past) ring = (keep_last RECENT_LOGS_CAP new, ring_seq past + length new)"
      using recent_logs_incremental [OF past(1), of 0 new] past(2) by (simp add: page_seq)
    then show ?thesis using assms(2) r ok past ring_pushes [of new past] ring_kept [OF past(1)]
      by (auto simp: apply_logs_def keep_last_both Let_def)
  next
    assume "rp_logs r = [] \<and> rp_logs_seq r = 0"
    then show ?thesis using assms(2) whole_ring [OF ok] ring_kept [OF ok] ok by (simp add: apply_logs_def)
  qed
qed

interpretation log_link: op_invariant log_link_step "\<lambda>_. True" log_linked
proof
  fix p and c :: "worker_log_ring \<times> ('g, 'm) replica"
  assume inv: "log_linked c"
  obtain ring r where c: "c = (ring, r)" by fastforce
  show "log_linked (log_link_step p c)"
  proof (cases p)
    case (DaemonLogs es)
    from inv c obtain past new where "ring_ok past" "ring = fold ring_push new past"
      "rp_logs r = ring_entries past \<and> rp_logs_seq r = ring_seq past \<or> rp_logs r = [] \<and> rp_logs_seq r = 0"
      by (auto simp: log_linked_def)
    then show ?thesis using DaemonLogs c by (auto simp: log_linked_def intro!: exI [of _ past] exI [of _ "new @ es"])
  next
    case PollAnswered
    obtain es sq where page: "recent_logs_after (rp_logs_seq r) ring = (es, sq)" by fastforce
    show ?thesis using poll_catches_up [OF inv [unfolded c] page] PollAnswered page c
      by (auto simp: log_linked_def intro!: exI [of _ ring] exI [of _ "[]"])
  next
    case PollFailed
    then show ?thesis using inv c by (auto simp: log_linked_def replica_clear_def)
  qed
qed


section \<open>Starting a daemon\<close>

type_synonym ('g, 'm) tick = "('g, 'm) poll_answers \<times> ('g, 'm) replica \<times> (string, bool) result \<times> (string, nat) result \<times> millis"

text \<open>One tick as a step of the spawner, with the replica the tick finds among its inputs.\<close>

definition spawn_step :: "('g, 'm) tick \<Rightarrow> spawner \<Rightarrow> spawner \<times> bool" where
  "spawn_step = (\<lambda>(a, r, held, started, now) p. case poller_tick a held started now (p, r) of ((p, _), spawned) \<Rightarrow> (p, spawned))"

definition daemon_reached :: "('g, 'm) tick \<Rightarrow> bool" where
  "daemon_reached = (\<lambda>(a, r, _). case snd (poll a r) of Inl _ \<Rightarrow> False | Inr _ \<Rightarrow> True)"

definition tick_lock :: "('g, 'm) tick \<Rightarrow> (string, bool) result" where
  "tick_lock = (\<lambda>(a, r, held, _). held)"

definition tick_time :: "('g, 'm) tick \<Rightarrow> millis" where
  "tick_time = (\<lambda>(a, r, held, started, now). now)"

text \<open>When the present absence began: the first tick that found the lock free, with no tick since that reached the
  daemon or found the lock held.\<close>

definition absent_from :: "(('g, 'm) tick \<times> bool) list \<Rightarrow> millis option" where
  "absent_from h = (case filter (\<lambda>(i, _). tick_lock i = Inr False)
       (takeWhile (\<lambda>(i, _). \<not> daemon_reached i \<and> tick_lock i \<noteq> Inr True) h) of
     [] \<Rightarrow> None | ticks \<Rightarrow> Some (tick_time (fst (last ticks))))"

definition last_start :: "(('g, 'm) tick \<times> bool) list \<Rightarrow> millis option" where
  "last_start h = find_map (\<lambda>(i, spawned). if spawned then Some (tick_time i) else None) h"

definition spawn_spec :: "(('g, 'm) tick \<times> bool) list \<Rightarrow> ('g, 'm) tick \<Rightarrow> bool" where
  "spawn_spec h i = (\<not> daemon_reached i \<and> tick_lock i = Inr False \<and>
     SPAWN_GRACE \<le> tick_time i - or_else (absent_from h) (tick_time i) \<and>
     (case last_start h of None \<Rightarrow> True | Some t \<Rightarrow> SPAWN_BACKOFF \<le> tick_time i - t))"

definition spawn_remembers :: "(('g, 'm) tick \<times> bool) list \<Rightarrow> spawner \<Rightarrow> bool" where
  "spawn_remembers h p = (p = \<lparr>sp_last_spawn = last_start h, sp_absent_since = absent_from h,
     sp_backoff = SPAWN_BACKOFF, sp_grace = SPAWN_GRACE\<rparr>)"

lemma spawn_history:
  "last_start ((i, d) # h) = (if d then Some (tick_time i) else last_start h)"
  "absent_from ((i, d) # h) = (if daemon_reached i \<or> tick_lock i = Inr True then None
     else if tick_lock i = Inr False then Some (or_else (absent_from h) (tick_time i)) else absent_from h)"
  by (auto simp: last_start_def absent_from_def or_else_def split: list.splits)

interpretation spawning: history_decider "spawn_step :: ('g, 'm) tick \<Rightarrow> spawner \<Rightarrow> spawner \<times> bool" spawner_new spawn_remembers spawn_spec
proof
  show "spawn_remembers [] spawner_new"
    by (simp add: spawn_remembers_def spawner_new_def last_start_def absent_from_def)
next
  fix h :: "(('g, 'm) tick \<times> bool) list" and i :: "('g, 'm) tick" and p p' d
  assume rem: "spawn_remembers h p" and step: "spawn_step i p = (p', d)"
  obtain a r held started now where i: "i = (a, r, held, started, now)" by (cases i)
  obtain r1 q where poll: "poll a r = (r1, q)" by fastforce
  show "d = spawn_spec h i \<and> spawn_remembers ((i, d) # h) p'"
  proof (cases q)
    case (Inr st)
    then show ?thesis using rem step poll
      by (auto simp: i spawn_step_def poller_tick_def spawn_remembers_def spawn_spec_def spawn_history daemon_reached_def)
  next
    case (Inl e)
    then have down: "\<not> daemon_reached i" using poll by (simp add: i daemon_reached_def)
    show ?thesis
    proof (cases held)
      case (Inl e')
      then show ?thesis using rem step poll \<open>q = Inl e\<close> down
        by (auto simp: i spawn_step_def poller_tick_def recover_def spawn_remembers_def spawn_spec_def spawn_history tick_lock_def)
    next
      case (Inr b)
      then show ?thesis using rem step poll \<open>q = Inl e\<close> down
        by (cases b; cases "absent_from h"; cases "last_start h")
           (auto simp: i spawn_step_def poller_tick_def recover_def spawn_remembers_def spawn_spec_def spawn_history
             tick_lock_def tick_time_def Let_def split: if_splits)
    qed
  qed
qed

text \<open>C37: the tray starts a daemon exactly when it should, judged by the whole history of ticks: never while one
  answers or holds the lock; only once the lock has been found free, with neither an answer nor a held lock since, for
  the grace of 20 seconds; and never within 10 seconds of the last start, whether or not that start succeeded.\<close>

theorem daemon_started_by_its_history:
  "decides_by spawn_spec (snd (decider_run spawn_step ticks (spawner_new, [])))"
  by (rule spawning.history_decides)

section \<open>The daemon answers\<close>

text \<open>The network between a client and the API of one daemon, in the world the request finds.\<close>

definition daemon_net :: "(reply_body \<Rightarrow> string) \<Rightarrow> 'm local_env \<Rightarrow> local_config \<Rightarrow> string \<Rightarrow> 'm local_world \<Rightarrow> net" where
  "daemon_net render lv c url w r = (case snd (serve_request lv c url r w) of
       Replied rp \<Rightarrow> Inr (rp_status rp, Inr (render (rp_body rp))) | _ \<Rightarrow> Inl ''connection closed'')"

definition daemon_after :: "'m local_env \<Rightarrow> local_config \<Rightarrow> string \<Rightarrow> 'm local_world \<Rightarrow> http_request \<Rightarrow> 'm local_world" where
  "daemon_after lv c url w r = fst (serve_request lv c url r w)"

definition action_request :: "client_env \<Rightarrow> daemon_client \<Rightarrow> tray_action \<Rightarrow> http_request" where
  "action_request v cl a = client_request v cl MPost (case a of
       SetPaused b \<Rightarrow> (if b then ''/daemon/pause'' else ''/daemon/resume'')
     | LoadModel i \<Rightarrow> ''/models/'' @ i @ ''/load''
     | UnloadModel i \<Rightarrow> ''/models/'' @ i @ ''/unload''
     | ResetRegistration \<Rightarrow> ''/daemon/registration/reset''
     | ShutdownDaemon \<Rightarrow> ''/daemon/shutdown'') [] []"

definition refused_with :: "nat \<Rightarrow> (client_error, 'a) result \<Rightarrow> bool" where
  "refused_with n r = (case r of Inl (ClRefused status _ _) \<Rightarrow> status = n | _ \<Rightarrow> False)"

lemma lower_names:
  "Net.to_ascii_lowercase ''host'' = ''host''" "Net.to_ascii_lowercase ''origin'' = ''origin''"
  "Net.to_ascii_lowercase ''authorization'' = ''authorization''"
  "Net.to_ascii_lowercase ''x-studio-worker-client'' = ''x-studio-worker-client''"
  by code_simp+

lemma request_headers:
  "request_header (client_request v cl m t [] b) ''host'' = Some (ce_host v (dl_url cl))"
  "request_header (client_request v cl m t [] b) ''origin'' = None"
  "request_header (client_request v cl m t [] b) ''authorization'' = Some (''Bearer '' @ dl_token cl)"
  "request_header (status_request v cl) ''host'' = Some (ce_host v (dl_url cl))"
  "request_header (status_request v cl) ''origin'' = None"
  "request_header (status_request v cl) ''authorization'' = Some (''Bearer '' @ dl_token cl)"
  by (simp_all add: request_header_def client_request_def status_request_def eq_ignore_ascii_case_def CLIENT_HEADER_def lower_names)

lemma bearer_of_client: "bearer_presented (Some (''Bearer '' @ t)) = Some t"
  by (simp add: bearer_presented_def strip_prefix_def starts_with_def)

lemma client_through_gate:
  assumes "loopback_host (ce_host v (dl_url cl))"
  shows "gate_check token (client_request v cl MPost t [] b) = (if dl_token cl = token then None else Some DenyToken)"
  using assms unfolding gate_check_def deny_reason_def request_headers bearer_of_client token_matches_iff
  by (simp add: is_open_route_def client_request_def)

lemma daemon_routes:
  "route_of MPost (url_path ''/daemon/pause'') = RtDaemon" "route_of MPost (url_path ''/daemon/resume'') = RtDaemon"
  "route_of MPost (url_path ''/daemon/registration/reset'') = RtDaemon" "route_of MPost (url_path ''/daemon/shutdown'') = RtDaemon"
  "route_of MGet (url_path ''/daemon/status'') = RtDaemon"
  by code_simp+

lemma daemon_paths:
  "url_path ''/daemon/pause'' = ''/daemon/pause''" "url_path ''/daemon/resume'' = ''/daemon/resume''"
  "url_path ''/daemon/registration/reset'' = ''/daemon/registration/reset''" "url_path ''/daemon/shutdown'' = ''/daemon/shutdown''"
  "url_path ''/daemon/status'' = ''/daemon/status''"
  by (simp_all add: url_path_def)

lemma client_request_sel [simp]:
  "rq_method (client_request v cl m t h b) = m" "rq_url (client_request v cl m t h b) = t"
  "rq_method (status_request v cl) = MGet" "rq_url (status_request v cl) = ''/daemon/status''"
  by (simp_all add: client_request_def status_request_def)

lemma status_through_gate:
  assumes "loopback_host (ce_host v (dl_url cl))"
  shows "gate_check token (status_request v cl) = (if dl_token cl = token then None else Some DenyToken)"
  using assms unfolding gate_check_def deny_reason_def request_headers bearer_of_client token_matches_iff
  by (simp add: is_open_route_def daemon_paths)

lemma tray_signed: "from_tray (status_request v cl)"
  by (simp add: from_tray_def status_request_def client_request_def eq_ignore_ascii_case_def)

lemma performed:
  "perform_with v net parse (SetPaused b) cl = map_sum id (\<lambda>_. if b then ''paused'' else ''resumed'')
     (done_of (client_send v net (action_request v cl (SetPaused b))))"
  "perform_with v net parse ResetRegistration cl = map_sum id (\<lambda>_. ''registration reset; asking the studio again'')
     (done_of (client_send v net (action_request v cl ResetRegistration)))"
  "perform_with v net parse ShutdownDaemon cl = map_sum id (\<lambda>_. ''daemon stopping'')
     (done_of (client_send v net (action_request v cl ShutdownDaemon)))"
  "perform_with v net parse (LoadModel i) cl = map_sum id (\<lambda>s. i @ '': '' @ s)
     (client_json parse (client_send v net (action_request v cl (LoadModel i))))"
  "perform_with v net parse (UnloadModel i) cl = map_sum id (\<lambda>s. i @ '': '' @ s)
     (client_json parse (client_send v net (action_request v cl (UnloadModel i))))"
  by (simp_all add: perform_with_def action_request_def client_set_paused_def client_reset_registration_def
      client_shutdown_def client_lifecycle_def split: bool.splits)

lemma client_refused: "net r = Inr (status, Inr b) \<Longrightarrow> \<not> (200 \<le> status \<and> status < 300) \<Longrightarrow> refused_with status (client_send v net r)"
  by (auto simp: client_send_def refused_with_def split: option.splits)

lemma refused_map: "refused_with n (map_sum id f r) = refused_with n r"
  by (auto simp: refused_with_def split: sum.splits client_error.splits)

lemma refused_done: "refused_with n (done_of r) = refused_with n r"
  by (auto simp: refused_with_def done_of_def split: sum.splits client_error.splits)

lemma refused_json: "refused_with n r \<Longrightarrow> refused_with n (client_json parse r)"
  by (auto simp: refused_with_def client_json_def split: sum.splits client_error.splits)

lemmas refused_through = refused_map refused_done refused_json

lemma action_served:
  assumes "loopback_host (ce_host v (dl_url cl))" "lw_control w = Some (d, rw)" "dl_token cl = lc_token c"
  shows "serve_request lv c url (action_request v cl (SetPaused b)) w =
      (w\<lparr>lw_control := Some (d\<lparr>dc_paused := b\<rparr>, rw)\<rparr>, Replied (paused_reply b))"
    "serve_request lv c url (action_request v cl ShutdownDaemon) w =
      (w\<lparr>lw_control := Some (d\<lparr>dc_stop := True\<rparr>, rw)\<rparr>, Replied (respond_json 202 ok_json))"
    "serve_request lv c url (action_request v cl ResetRegistration) w =
      (case rw_state rw of
         RsRejected _ \<Rightarrow> (w\<lparr>lw_control := Some (d\<lparr>dc_reset_requested := True\<rparr>, rw)\<rparr>, Replied (respond_json 202 ok_json))
       | _ \<Rightarrow> (w\<lparr>lw_control := Some (d, rw)\<rparr>, Replied (respond_error 409 ''not_rejected'' (control_error_text (lv_show_io lv) NotRejected))))"
    "serve_request lv c url (status_request v cl) w =
      daemon_get_status lv c url (status_request v cl) d rw w"
  using assms
  by (simp_all add: serve_request_def dispatch_route_def action_request_def client_through_gate status_through_gate
      daemon_routes [unfolded daemon_paths] Let_def handle_daemon_def daemon_paths set_paused_def control_shutdown_def request_registration_reset_def split: registration_state.splits)

lemma action_denied:
  assumes "loopback_host (ce_host v (dl_url cl))" "dl_token cl \<noteq> lc_token c"
  shows "serve_request lv c url (action_request v cl a) w = (w, Replied (deny_reply (lv_show_debug lv) DenyToken))"
  using assms by (simp add: serve_request_def action_request_def client_through_gate)

lemma denied_action: 
  assumes "loopback_host (ce_host v (dl_url cl))" "dl_token cl \<noteq> lc_token c"
  shows "refused_with 401 (perform_with v (daemon_net render lv c url w) parse a cl)"
proof -
  have refused: "refused_with 401 (client_send v (daemon_net render lv c url w) (action_request v cl a))"
    by (rule client_refused [where b = "render (rp_body (deny_reply (lv_show_debug lv) DenyToken))"])
       (simp_all add: daemon_net_def action_denied [OF assms] deny_reply_def respond_text_def respond_def)
  then show ?thesis
    by (cases a) (simp_all only: performed refused_through)
qed


section \<open>Witnesses\<close>

definition tray_control :: daemon_control where
  "tray_control = (control_new (f32_of_nat 24))\<lparr>dc_paused := True\<rparr>"

definition tray_observers :: observers where
  "tray_observers = run_begin sample_job observers_default"

definition tray_status :: "unit daemon_status" where
  "tray_status = control_status ''0.9.0'' 7 ''c'' None (Some ''u'') 0 tray_control sample_reg_world tray_observers True"

definition tray_answers :: "(unit, unit) poll_answers" where
  "tray_answers = \<lparr>pa_discover = Inr ''u'', pa_status = Inr tray_status, pa_logs = \<lambda>_. Inr ([], 0), pa_models = Inr [()],
     pa_job_log = \<lambda>_. Inr None, pa_thumbnail = \<lambda>_. Inr None\<rparr>"

definition tray_client :: "string \<Rightarrow> daemon_client" where
  "tray_client token = \<lparr>dl_url = ''http://127.0.0.1:8799'', dl_token = token\<rparr>"

definition tray_client_env :: client_env where
  "tray_client_env = \<lparr>ce_discovery = \<lambda>_. Inl '''', ce_error_body = \<lambda>_. None, ce_lossy = id, ce_show_io = \<lambda>_. '''',
     ce_client = Inr (), ce_host = drop 7\<rparr>"

lemma no_thumbnails: "fetch_thumbnails (\<lambda>_. Inr None) ids ring = (ring, Inr ())"
  by (induction ids) simp_all

theorem tray_shows_the_daemon_or_nothing_witness:
  "case poller_tick tray_answers (Inr False) (Inl '''') 5 (spawner_new, replica_default (rw_cfg sample_reg_world)) of
     ((p, r), spawned) \<Rightarrow> rp_link r = LinkConnected ''u'' ''0.9.0'' \<and> rp_paused r \<and> ob_active_jobs (rp_observers r) = [sample_job]"
proof -
  obtain p r spawned where tick: "poller_tick tray_answers (Inr False) (Inl '''') 5
      (spawner_new, replica_default (rw_cfg sample_reg_world)) = ((p, r), spawned)" by (metis surj_pair)
  have link: "rp_link r = LinkConnected ''u'' ''0.9.0''"
    using tick by (auto simp: poller_tick_def poll_def tray_answers_def poll_selected_def replica_default_def apply_logs_def
        apply_status_def Let_def tray_status_def status_sel no_thumbnails split: prod.splits sum.splits)
  have "\<And>s. pa_status tray_answers = Inr s \<Longrightarrow>
      s = control_status ''0.9.0'' 7 ''c'' None (Some ''u'') 0 tray_control sample_reg_world tray_observers True"
    by (simp add: tray_answers_def tray_status_def)
  from tray_shows_the_daemon_or_nothing [OF tick this] show ?thesis
    using tick link by (simp add: tray_control_def tray_observers_def run_begin_def observers_default_def)
qed



end
