(* ===== verification/Spec2Isabelle.thy ===== *)
theory Spec2Isabelle
  imports Presence ServeStudio AutoUpdate ModelFiles DaemonLink
begin

text \<open>
  A model of the studio worker (\<^verbatim>\<open>src/src/\<close>, Rust): a desktop process that holds a WebSocket
  session to a studio, takes one job at a time, runs it in a local engine, and serves the models
  an operator keeps loaded to local clients.

  \<^bold>\<open>Parts and theories.\<close>
  \<^item> Prelude: results, machine integers with saturation, Rust's strings as UTF-8 bytes, bounded
    rings, and two contracts stated as locales: \<open>op_refinement\<close> (every operation commutes with an
    abstraction) and \<open>op_invariant\<close> (every allowed operation keeps an invariant).
  \<^item> JobGate (\<^verbatim>\<open>job_gate.rs\<close>): the one-job flag; the locale \<open>one_slot\<close> is what its clients rely on.
  \<^item> Float32, Types (\<^verbatim>\<open>types.rs\<close>): exact single-precision arithmetic, and the data shared with the
    studio.
  \<^item> Lifecycle (\<^verbatim>\<open>lifecycle.rs\<close>), MemoryCeiling (\<^verbatim>\<open>memory_ceiling.rs\<close>), Admission
    (\<^verbatim>\<open>admission.rs\<close>): one model's state machine, the process's memory limit, and whether a model
    fits.
  \<^item> FileStore, Config (\<^verbatim>\<open>config.rs\<close>), CatalogSeed, Catalog (\<^verbatim>\<open>catalog.rs\<close>), Residency
    (\<^verbatim>\<open>residency.rs\<close>): atomic writes over a map from paths to contents, and the three files kept
    with them.
  \<^item> ModelHost, ModelHostFacts, HostInvariant, HostProperties (\<^verbatim>\<open>host.rs\<close>): the host's shared state as
    one record, each operation and each point of a load or unload thread as one step, the invariant
    over all interleavings, and what follows from it.
  \<^item> WorkerLog (\<^verbatim>\<open>runtime.rs\<close>, \<^verbatim>\<open>job_log.rs\<close>, \<^verbatim>\<open>job_run.rs\<close>, \<^verbatim>\<open>thumbnail.rs\<close>): the ship queue, the rings
    and a job's bookkeeping.
  \<^item> WsFrames (\<^verbatim>\<open>ws/types.rs\<close>, \<^verbatim>\<open>ws/client.rs\<close>), StudioApi (\<^verbatim>\<open>http.rs\<close>), Presence
    (\<^verbatim>\<open>presence.rs\<close>), Capabilities (\<^verbatim>\<open>runtime.rs\<close>): what goes over the wire and what it says.
  \<^item> WsSession, WsDriver, WsFacts, WsInvariant, WsProperties, WsReconnect (\<^verbatim>\<open>ws/session.rs\<close>): the
    session's world as one record, its dispatch loop and detached tasks as steps, one session attempt,
    and the reconnect loop over attempts.
  \<^item> Secrets, AutoRegister (\<^verbatim>\<open>secrets.rs\<close>, \<^verbatim>\<open>auto_register.rs\<close>), Control (\<^verbatim>\<open>control.rs\<close>,
    \<^verbatim>\<open>daemon_api.rs\<close>), ServeStudio (\<^verbatim>\<open>runtime.rs\<close>): how the worker gets and loses its
    registration, what the tray may change, and the loop that joins gate, session and reset; the
    configuration change is also given as its three critical sections, interleaved with an approval.
  \<^item> Net, Update, UpdateInstall, UpdateProperties (\<^verbatim>\<open>net.rs\<close>, \<^verbatim>\<open>update.rs\<close>, \<^verbatim>\<open>variant.rs\<close>,
    \<^verbatim>\<open>self_install.rs\<close>), AutoUpdate (\<^verbatim>\<open>runtime.rs\<close>): which release is taken, how it is verified and
    installed, how the installer waits for the job slot, and the loop around it.
  \<^item> Vad, SttStream, StreamTokens, SttServer (\<^verbatim>\<open>stt_stream/\<close>): speech detection in exact single
    precision, one utterance over any streaming model with its reference (the whole utterance at once),
    the tokens with the history they stand for, and the handshake and loop that serve a session.
  \<^item> VoiceTakes, VoiceStore, VoiceUpload (\<^verbatim>\<open>voice_samples/\<close>): what a recorded take is called and holds, the
    store with the holds of trainings, and uploads over the same listener, the head's reads included.
  \<^item> LlmCore (\<^verbatim>\<open>engine/llm_core.rs\<close>): a chat's budget and frames, stop strings and the thought of a streamed
    answer, each against its reference on the whole text.
  \<^item> Engines (\<^verbatim>\<open>engine/mod.rs\<close>, \<^verbatim>\<open>engine/multi.rs\<close>, \<^verbatim>\<open>loaders.rs\<close>, \<^verbatim>\<open>vision.rs\<close>): which engine serves a
    task, what the worker advertises, and the pictures a chat may carry.
  \<^item> LocalJobs (\<^verbatim>\<open>local.rs\<close>), LocalHttp, LocalApi, LocalProperties (\<^verbatim>\<open>local_api.rs\<close>,
    \<^verbatim>\<open>local_api/voice_samples.rs\<close>): the jobs of local clients, the gate, routes, bodies and replies, and every
    request as steps over one world with the host and the job slot, between which anything else may happen.
  \<^item> ModelFiles (\<^verbatim>\<open>engine/download.rs\<close>): the resumed, checked download of a model's file, where it is kept,
    and the scratch files of a job.
  \<^item> DaemonProcesses (\<^verbatim>\<open>daemon_lock.rs\<close>, \<^verbatim>\<open>exe_watch.rs\<close>, \<^verbatim>\<open>tray_watchdog.rs\<close>): the daemon's lock, and two watches
    with a memory; the locale \<open>history_decider\<close> is what shows that each decides as its history demands.
  \<^item> DaemonLink (\<^verbatim>\<open>daemon_client.rs\<close>, \<^verbatim>\<open>daemon_link.rs\<close>): the tray's calls, its replica of the daemon and when it
    starts one, composed with the daemon's own API and log ring.

  \<^bold>\<open>How the code is read.\<close>  A struct behind a mutex is a record passed through; a critical section
  is one step.  An error is an \<open>Inl\<close>.  A clock, a probe, a parser or a rendered timestamp is an
  argument.  Sends, uploads and engine runs take their result from the environment, one step each,
  so every interleaving of tasks, other holders of the job flag and operator actions is covered.

  \<^bold>\<open>Bounds and fuel.\<close>  There is no fuel: loops over what the environment does run over a list of
  what it does, and the retry and wait loops are total functions with a measure.  A loop over such a
  list answers \<open>None\<close> when the list ends first; that it does end, and after how many turns, is a
  theorem where the code bounds it (the update's wait, the reconnect cap).

  \<^bold>\<open>Not modelled.\<close>  JSON and TOML parsing, TLS, HTTP and process creation (arguments), the model
  runtimes (third-party), the tray and window interface, and the parts of the worker listed as not
  modelled in the manifest.
\<close>

end
